(* ===== verification/Wopl_Prelude.thy ===== *)
theory Wopl_Prelude
  imports Main "HOL-Library.Word" "HOL-Library.Monad_Syntax"
begin

text \<open>
  What the component theories share: the names of the machine integer types, bounds-checked
  memory blocks (a C buffer is a list of bytes or cells, and an access outside of it is
  \<open>None\<close>), little-endian loads, and the generic lemmas on lists and words that the
  component proofs use.
\<close>

unbundle bit_operations_syntax

type_synonym u8 = "8 word"
type_synonym u16 = "16 word"
type_synonym u32 = "32 word"
type_synonym s32 = "32 word"
type_synonym u64 = "64 word"

named_theorems mem_simps \<open>bounds-checked reads and writes of buffers\<close>
named_theorems stm_defs \<open>the definitions of the streaming component\<close>

section \<open>Buffers\<close>

text \<open>
  \<open>mem_read buf off n\<close> is what \<open>memcpy(dst, buf + off, n)\<close> reads, \<open>mem_write buf off xs\<close>
  the buffer after \<open>memcpy(buf + off, xs, length xs)\<close>. Both are \<open>None\<close> when the access
  leaves the buffer, which C does not define.
\<close>

definition mem_read :: "'a list \<Rightarrow> nat \<Rightarrow> nat \<Rightarrow> 'a list option" where
  "mem_read buf off n = (if off + n \<le> length buf then Some (take n (drop off buf)) else None)"

definition mem_write :: "'a list \<Rightarrow> nat \<Rightarrow> 'a list \<Rightarrow> 'a list option" where
  "mem_write buf off xs =
     (if off + length xs \<le> length buf
      then Some (take off buf @ xs @ drop (off + length xs) buf) else None)"

lemma mem_read_Some [mem_simps]:
  "mem_read buf off n = Some xs \<longleftrightarrow> off + n \<le> length buf \<and> xs = take n (drop off buf)"
  by (auto simp: mem_read_def)

lemma mem_write_Some [mem_simps]:
  "mem_write buf off xs = Some buf' \<longleftrightarrow>
     off + length xs \<le> length buf \<and> buf' = take off buf @ xs @ drop (off + length xs) buf"
  by (auto simp: mem_write_def)

lemma mem_read_length: "mem_read buf off n = Some xs \<Longrightarrow> length xs = n"
  by (auto simp: mem_simps)

lemma mem_write_length: "mem_write buf off xs = Some buf' \<Longrightarrow> length buf' = length buf"
  by (auto simp: mem_simps)

lemma mem_write_exists:
  "off + length xs \<le> length buf \<Longrightarrow> \<exists>buf'. mem_write buf off xs = Some buf'"
  by (simp add: mem_write_def)

lemma mem_write_nth:
  assumes "mem_write buf off xs = Some buf'" and "i < length buf"
  shows "buf' ! i = (if off \<le> i \<and> i < off + length xs then xs ! (i - off) else buf ! i)"
  using assms by (auto simp: mem_simps nth_append min_def)

lemma mem_write_nth_in:
  assumes "mem_write buf off xs = Some buf'" and "k < length xs"
  shows "buf' ! (off + k) = xs ! k"
  using assms by (simp add: mem_simps nth_append)

section \<open>Lists\<close>

lemma take_drop_append_take: "take a xs @ take b (drop a xs) = take (a + b) xs"
  by (simp add: take_add)

lemma take_drop_split:
  "a + b \<le> length xs \<Longrightarrow> take (a + b) xs = take a xs @ take b (drop a xs)"
  by (simp add: take_add)

lemma take_drop_nth_eqI:
  assumes "off + n \<le> length buf" and "length xs = n"
    and "\<And>k. k < n \<Longrightarrow> buf ! (off + k) = xs ! k"
  shows "take n (drop off buf) = xs"
  using assms by (intro nth_equalityI) auto

section \<open>Words\<close>

lemma unat_add_le:
  fixes a b :: "'a::len word"
  assumes "unat a + unat b < 2 ^ LENGTH('a)"
  shows "unat (a + b) = unat a + unat b"
  using assms by (simp add: unat_word_ariths)

lemma unat_sub_le:
  fixes a b :: "'a::len word"
  assumes "b \<le> a"
  shows "unat (a - b) = unat a - unat b"
  using assms by (simp add: unat_sub)

section \<open>Little-endian loads\<close>

definition le16 :: "u8 list \<Rightarrow> nat \<Rightarrow> u16" where
  "le16 bs i = ucast (bs ! i) OR push_bit 8 (ucast (bs ! (i + 1)))"

definition le32 :: "u8 list \<Rightarrow> nat \<Rightarrow> u32" where
  "le32 bs i = ucast (bs ! i) OR push_bit 8 (ucast (bs ! (i + 1)))
     OR push_bit 16 (ucast (bs ! (i + 2))) OR push_bit 24 (ucast (bs ! (i + 3)))"

end
