(* ===== verification/Cdvd_Types.thy ===== *)
theory Cdvd_Types
  imports Wopl_Prelude
begin

text \<open>
  What the parts of the emulated CD/DVD driver (\<^verbatim>\<open>modules/iopcore/cdvdman\<close>) share: the error
  and drive states, copies between memories, and the contract of a disc read, stated as a locale:
  the streaming code is proved against it, and the read path of the driver provides it.
\<close>

datatype cd_err = SCECdErNO | SCECdErREAD | SCECdErEOM | SCECdErIPI | SCECdErTRMOPN
datatype cd_status = SCECdStatStop | SCECdStatPause | SCECdStatRead

text \<open>\<open>memcpy dmem dst smem src n\<close>: the destination memory after the copy.\<close>

definition memcpy :: "(nat \<Rightarrow> u8) \<Rightarrow> nat \<Rightarrow> (nat \<Rightarrow> u8) \<Rightarrow> nat \<Rightarrow> nat \<Rightarrow> (nat \<Rightarrow> u8)" where
  "memcpy dmem dst smem src n =
     (\<lambda>a. if dst \<le> a \<and> a < dst + n then smem (src + (a - dst)) else dmem a)"

lemma memcpy_miss: "a < dst \<or> dst + n \<le> a \<Longrightarrow> memcpy dm dst sm src n a = dm a"
  by (auto simp: memcpy_def)

lemma memcpy_0: "memcpy dm dst sm src 0 = dm"
  by (rule ext) (auto simp: memcpy_def)

text \<open>
  \<^verbatim>\<open>cdvdman_read\<close> as its clients see it: the state of the read path, first sector, number of
  sectors, sector size, destination, memory; the new state and memory.
\<close>

type_synonym 'd reader =
  "'d \<Rightarrow> nat \<Rightarrow> nat \<Rightarrow> nat \<Rightarrow> nat \<Rightarrow> (nat \<Rightarrow> u8) \<Rightarrow> 'd \<times> (nat \<Rightarrow> u8)"

text \<open>
  The contract of a read of 2048-byte sectors: in a state that satisfies \<open>dinv\<close> a read keeps
  \<open>dinv\<close> and touches nothing but its destination, and from sector \<open>lo\<close> on the destination
  receives the bytes of the disc. \<open>disc\<close> is \<open>None\<close> where the disc promises nothing (beyond its
  end).
\<close>

abbreviation u32_bound :: nat where "u32_bound \<equiv> 4294967296"

definition on_disc :: "(nat \<Rightarrow> u8 option) \<Rightarrow> nat \<Rightarrow> u8 \<Rightarrow> bool" where
  "on_disc disc a b = (case disc a of None \<Rightarrow> True | Some c \<Rightarrow> b = c)"

locale disc_reader =
  fixes rd :: "'d reader" and dinv :: "'d \<Rightarrow> bool" and disc :: "nat \<Rightarrow> u8 option" and lo :: nat
  assumes rd_inv: "dinv d \<Longrightarrow> lba + n < u32_bound \<Longrightarrow> dinv (fst (rd d lba n 2048 buf m))"
    and rd_in: "dinv d \<Longrightarrow> lba + n < u32_bound \<Longrightarrow> lo \<le> lba \<Longrightarrow> k < n * 2048 \<Longrightarrow>
      on_disc disc (lba * 2048 + k) (snd (rd d lba n 2048 buf m) (buf + k))"
    and rd_out: "dinv d \<Longrightarrow> lba + n < u32_bound \<Longrightarrow> a < buf \<or> buf + n * 2048 \<le> a \<Longrightarrow>
      snd (rd d lba n 2048 buf m) a = m a"

end
