(* ===== verification/Cdvd_Read.thy ===== *)
theory Cdvd_Read
  imports Cdvd_Types
begin

text \<open>
  The read path of the emulated drive: the sector cache, byte-granular reads of a compressed
  image, the block decoder of the ZSO format (\<^verbatim>\<open>modules/isofs/zso.c\<close>), the sector reader with
  its media bound, chunking and logo descrambling, and \<^verbatim>\<open>cdvdman_read\<close>
  (\<^verbatim>\<open>modules/iopcore/cdvdman/cdvdman.c\<close>).

  Sector numbers and counts are \<open>nat\<close> with the truncation to 32 bits written where the C code can
  wrap; buffers are lists of bytes. \<open>None\<close> is an access outside a buffer or an index table.
\<close>

section \<open>State\<close>

text \<open>
  A source of sectors: state, first sector, count, old contents of the destination; error, new
  state, new contents. \<^verbatim>\<open>DeviceReadSectors\<close> of each device and the readers stacked on it have
  this shape.
\<close>

type_synonym 's source = "'s \<Rightarrow> nat \<Rightarrow> nat \<Rightarrow> u8 list \<Rightarrow> cd_err \<times> 's \<times> u8 list"

text \<open>
  The variables of \<^verbatim>\<open>cdvdman.c\<close> and \<^verbatim>\<open>zso.c\<close>. \<open>hw\<close> is the state of the device below;
  \<open>compressed\<close> says that \<^verbatim>\<open>DeviceReadSectorsPtr\<close> has been redirected; \<open>cur_sector\<close> is \<open>None\<close>
  for the all-ones value; \<open>zso_cache\<close>, \<open>accu_reads\<close> are settings; \<open>alloc_ok\<close> is whether
  \<^verbatim>\<open>AllocSysMemory\<close> finds memory for the cache.
\<close>

record 'h rstate =
  hw :: 'h
  mediaLsnCount :: nat
  probed :: bool
  compressed :: bool
  rd_err :: cd_err
  ReadPos :: nat
  logo_key :: u8
  accu_reads :: bool
  zso_cache :: nat
  alloc_ok :: bool
  MAX_SECTOR_CACHE :: nat
  sector_cache :: "u8 list option"
  cur_sector :: "nat option"
  ziso_align :: nat
  ziso_total_block :: nat
  ziso_idx_start_block :: "nat option"
  ziso_idx_cache :: "u8 list"
  ziso_tmp_buf :: "u8 list"
  cdvdman_buf :: "u8 list"

section \<open>Cached and byte-granular reads\<close>

definition initCache :: "'h rstate \<Rightarrow> 'h rstate" where
  "initCache st =
     (if zso_cache st \<noteq> 0 \<and> sector_cache st = None \<and> alloc_ok st
      then st\<lparr>sector_cache := Some (replicate (zso_cache st * 2048) 0), MAX_SECTOR_CACHE := zso_cache st\<rparr>
      else st)"

definition dev_read :: "'h source \<Rightarrow> 'h rstate source" where
  "dev_read dev st lsn n old = (case dev (hw st) lsn n old of (e, h, new) \<Rightarrow> (e, st\<lparr>hw := h\<rparr>, new))"

definition DeviceReadSectorsCached :: "'h source \<Rightarrow> 'h rstate source" where
  "DeviceReadSectorsCached dev st lsn sectors old =
     (if sectors < MAX_SECTOR_CACHE st then
        (let st1 =
           (if (case cur_sector st of None \<Rightarrow> True
                | Some c \<Rightarrow> lsn < c \<or> lsn + sectors - c > MAX_SECTOR_CACHE st)
            then (case dev_read dev st lsn (MAX_SECTOR_CACHE st) (the (sector_cache st)) of
                    (e, st1, new) \<Rightarrow> st1\<lparr>sector_cache := Some new, cur_sector := Some lsn\<rparr>)
            else st);
           pos = lsn - the (cur_sector st1)
         in (SCECdErNO, st1, take (2048 * sectors) (drop (pos * 2048) (the (sector_cache st1)))))
      else dev_read dev st lsn sectors old)"

text \<open>
  \<^verbatim>\<open>read_raw_data\<close>: \<open>rs\<close> is the reader it selects, \<open>old\<close> the destination, \<open>sz\<close> long; at most
  three reads, the partial ones through \<^verbatim>\<open>ziso_tmp_buf\<close>. Between its three blocks it keeps the
  next sector, what has been written so far and how much is left.
\<close>

type_synonym 'h raw_state = "'h rstate \<times> nat \<times> u8 list \<times> nat"

definition raw_first :: "'h rstate source \<Rightarrow> nat \<Rightarrow> 'h raw_state \<Rightarrow> 'h raw_state" where
  "raw_first rs pos s =
     (case s of (st, lba, out, left) \<Rightarrow>
        if pos \<noteq> 0 then
          (let r = min left (2048 - pos); (e, st, tmp) = rs st lba 1 (ziso_tmp_buf st)
           in (st\<lparr>ziso_tmp_buf := tmp\<rparr>, lba + 1, out @ take r (drop pos tmp), left - r))
        else s)"

definition raw_middle :: "'h rstate source \<Rightarrow> u8 list \<Rightarrow> 'h raw_state \<Rightarrow> 'h raw_state" where
  "raw_middle rs old s =
     (case s of (st, lba, out, left) \<Rightarrow>
        let n_blocks = left div 2048 + (if left mod 2048 \<noteq> 0 then 1 else 0)
        in if n_blocks > 1 then
             (let r = 2048 * (n_blocks - 1);
                  (e, st, new) = rs st lba (n_blocks - 1) (take r (drop (length out) old))
              in (st, lba + (n_blocks - 1), out @ new, left - r))
           else s)"

definition raw_last :: "'h rstate source \<Rightarrow> 'h raw_state \<Rightarrow> 'h raw_state" where
  "raw_last rs s =
     (case s of (st, lba, out, left) \<Rightarrow>
        if left \<noteq> 0 then
          (let (e, st, tmp) = rs st lba 1 (ziso_tmp_buf st)
           in (st\<lparr>ziso_tmp_buf := tmp\<rparr>, lba, out @ take left tmp, 0))
        else s)"

definition read_raw_data ::
  "'h rstate source \<Rightarrow> 'h rstate \<Rightarrow> nat \<Rightarrow> nat \<Rightarrow> nat \<Rightarrow> u8 list \<Rightarrow> 'h rstate \<times> u8 list \<times> nat" where
  "read_raw_data rs st sz offset shift old =
     (let lba = offset div (2048 div 2 ^ shift);
          pos = (offset * 2 ^ shift) mod 2 ^ 32 mod 2048
      in case raw_last rs (raw_middle rs old (raw_first rs pos (st, lba, [], sz))) of
           (st, lba, out, left) \<Rightarrow> (st, out, sz - left))"

section \<open>The ZSO decoder\<close>

definition ZISO_IDX_MAX_ENTRIES :: nat where "ZISO_IDX_MAX_ENTRIES = 257"
definition ZSO_HEADER_SIZE :: nat where "ZSO_HEADER_SIZE = 24"
definition ZSO_MAGIC :: u32 where "ZSO_MAGIC = 0x4F53495A"

definition ziso_init :: "u8 list \<Rightarrow> 'h rstate \<Rightarrow> 'h rstate" where
  "ziso_init header st =
     st\<lparr>ziso_align := unat (header ! 21), ziso_idx_start_block := None,
        ziso_total_block := unat (drop_bit 11 (le32 header 8) OR push_bit 21 (le32 header 12 AND 0x7ff))\<rparr>"

text \<open>An entry of the index cache; the cache holds 257 of them.\<close>

definition idx_entry :: "u8 list \<Rightarrow> nat \<Rightarrow> u32 option" where
  "idx_entry idx i = (if 4 * i + 4 \<le> length idx then Some (le32 idx (4 * i)) else None)"

text \<open>
  The loop over the blocks: \<open>cur\<close> is the entry of the current block in the index cache, \<open>addr\<close>
  and \<open>c_buff\<close> are offsets in the destination \<open>buf\<close>, where the compressed data sits too.
  \<open>lz4 src dst\<close> is \<^verbatim>\<open>LZ4_decompress_fast\<close>.
\<close>

fun ziso_blocks ::
  "(u8 list \<Rightarrow> u8 list \<Rightarrow> u8 list) \<Rightarrow> u8 list \<Rightarrow> nat \<Rightarrow> nat \<Rightarrow> nat \<Rightarrow> nat \<Rightarrow> nat \<Rightarrow> u8 list \<Rightarrow> u8 list \<Rightarrow>
     (u8 list \<times> u8 list) option" where
  "ziso_blocks lz4 idx align cur 0 addr c_buff tmp buf = Some (tmp, buf)"
| "ziso_blocks lz4 idx align cur (Suc n) addr c_buff tmp buf =
     do { e0 \<leftarrow> idx_entry idx cur;
          e1 \<leftarrow> idx_entry idx (cur + 1);
          let topbit = e0 AND 0x80000000;
          let b_offset = e0 AND 0x7FFFFFFF;
          let b_size = unat (push_bit align ((e1 AND 0x7FFFFFFF) - b_offset));
          let r = min b_size 2048;
          bs \<leftarrow> mem_read buf c_buff r;
          (tmp, buf) \<leftarrow>
            (if topbit = 0 then
               do { tmp \<leftarrow> mem_write tmp 0 bs;
                    dst \<leftarrow> mem_read buf addr 2048;
                    buf \<leftarrow> mem_write buf addr (lz4 tmp dst);
                    Some (tmp, buf) }
             else do { buf \<leftarrow> mem_write buf addr bs; Some (tmp, buf) });
          ziso_blocks lz4 idx align (cur + 1) n (addr + 2048) (c_buff + b_size) tmp buf }"

text \<open>\<open>0\<close> sectors for a start beyond the image; otherwise the count after clipping.\<close>

definition ziso_read_sector ::
  "'h source \<Rightarrow> (u8 list \<Rightarrow> u8 list \<Rightarrow> u8 list) \<Rightarrow> 'h rstate \<Rightarrow> nat \<Rightarrow> nat \<Rightarrow> u8 list \<Rightarrow>
     (nat \<times> 'h rstate \<times> u8 list) option" where
  "ziso_read_sector dev lz4 st lsn count buf =
     (if lsn \<ge> ziso_total_block st then Some (0, st, buf)
      else
        (let count = (if (lsn + count) mod 2 ^ 32 > ziso_total_block st
                      then ziso_total_block st - lsn else count);
             st = (if (case ziso_idx_start_block st of None \<Rightarrow> True
                       | Some b \<Rightarrow> lsn < b \<or> lsn + count \<ge> b + ZISO_IDX_MAX_ENTRIES - 1)
                   then (case read_raw_data (dev_read dev) st (ZISO_IDX_MAX_ENTRIES * 4)
                           ((lsn * 4 + ZSO_HEADER_SIZE) mod 2 ^ 32) 0 (ziso_idx_cache st) of
                           (st, idx, _) \<Rightarrow> st\<lparr>ziso_idx_cache := idx, ziso_idx_start_block := Some lsn\<rparr>)
                   else st);
             cur = lsn - the (ziso_idx_start_block st)
         in do { e0 \<leftarrow> idx_entry (ziso_idx_cache st) cur;
                 e1 \<leftarrow> idx_entry (ziso_idx_cache st) (cur + count);
                 let o_start = e0 AND 0x7FFFFFFF;
                 let compressed_size =
                   unat (push_bit (ziso_align st) ((e1 AND 0x7FFFFFFF) - o_start));
                 (if compressed_size > count * 2048 then None else Some ());
                 let c_buff = count * 2048 - compressed_size;
                 old \<leftarrow> mem_read buf c_buff compressed_size;
                 let (st, raw, _) = read_raw_data (DeviceReadSectorsCached dev) st compressed_size
                   (unat o_start) (ziso_align st) old;
                 buf \<leftarrow> mem_write buf c_buff raw;
                 (tmp, buf) \<leftarrow> ziso_blocks lz4 (ziso_idx_cache st) (ziso_align st) cur count 0 c_buff
                   (ziso_tmp_buf st) buf;
                 Some (count, st\<lparr>ziso_tmp_buf := tmp\<rparr>, buf) }))"

section \<open>The sector reader\<close>

definition DeviceReadSectorsCompressed ::
  "'h source \<Rightarrow> (u8 list \<Rightarrow> u8 list \<Rightarrow> u8 list) \<Rightarrow> 'h rstate \<Rightarrow> nat \<Rightarrow> nat \<Rightarrow> u8 list \<Rightarrow>
     (cd_err \<times> 'h rstate \<times> u8 list) option" where
  "DeviceReadSectorsCompressed dev lz4 st lsn count buf =
     do { (n, st, buf) \<leftarrow> ziso_read_sector dev lz4 st (lsn mod 2 ^ 32) count buf;
          Some (if n = count then SCECdErNO else SCECdErEOM, st, buf) }"

definition DeviceReadSectorsPtr ::
  "'h source \<Rightarrow> (u8 list \<Rightarrow> u8 list \<Rightarrow> u8 list) \<Rightarrow> 'h rstate \<Rightarrow> nat \<Rightarrow> nat \<Rightarrow> u8 list \<Rightarrow>
     (cd_err \<times> 'h rstate \<times> u8 list) option" where
  "DeviceReadSectorsPtr dev lz4 st lsn n buf =
     (if compressed st then DeviceReadSectorsCompressed dev lz4 st lsn n buf
      else Some (dev_read dev st lsn n buf))"

text \<open>The buffer passed to the probe receives sector 0; \<open>False\<close> is a device error.\<close>

definition ProbeZSO ::
  "'h source \<Rightarrow> 'h rstate \<Rightarrow> u8 list \<Rightarrow> (bool \<times> 'h rstate \<times> u8 list) option" where
  "ProbeZSO dev st buf =
     do { old \<leftarrow> mem_read buf 0 2048;
          let (e, st, new) = dev_read dev st 0 1 old;
          buf \<leftarrow> mem_write buf 0 new;
          Some (if e \<noteq> SCECdErNO then (False, st, buf)
                else
                  (let st = st\<lparr>probed := True\<rparr> in
                   if le32 buf 0 = ZSO_MAGIC
                   then (True, (initCache (ziso_init buf st))\<lparr>compressed := True\<rparr>, buf)
                   else (True, st, buf))) }"

text \<open>Undoing the scrambling of the boot logo, byte by byte.\<close>

definition logo_byte :: "u8 \<Rightarrow> u8 \<Rightarrow> u8" where
  "logo_byte key b = (let x = b XOR key in push_bit 3 x OR drop_bit 5 x)"

definition logo_unscramble :: "nat \<Rightarrow> 'h rstate \<Rightarrow> u8 list \<Rightarrow> 'h rstate \<times> u8 list" where
  "logo_unscramble lsn st bs =
     (if lsn < 13 then
        (let st = (if lsn = 0 then st\<lparr>logo_key := bs ! 0\<rparr> else st)
         in (st, if logo_key st \<noteq> 0 then map (logo_byte (logo_key st)) bs else bs))
      else (st, bs))"

definition chunk_sectors :: "'h rstate \<Rightarrow> nat \<Rightarrow> nat" where
  "chunk_sectors st remaining = (if accu_reads st \<and> remaining > 8 then 8 else remaining)"

text \<open>
  The read loop: \<open>off\<close> is \<^verbatim>\<open>ptr - buf\<close>. It ends when nothing remains or on the first device
  error.
\<close>

function read_loop ::
  "'h source \<Rightarrow> (u8 list \<Rightarrow> u8 list \<Rightarrow> u8 list) \<Rightarrow> 'h rstate \<Rightarrow> nat \<Rightarrow> nat \<Rightarrow> nat \<Rightarrow> u8 list \<Rightarrow>
     ('h rstate \<times> u8 list) option" where
  "read_loop dev lz4 st lsn remaining off buf =
     (if remaining = 0 then Some (st, buf)
      else
        (let n = chunk_sectors st remaining in
         do { old \<leftarrow> mem_read buf off (n * 2048);
              (e, st, new) \<leftarrow> DeviceReadSectorsPtr dev lz4 st lsn n old;
              let st = st\<lparr>rd_err := e\<rparr>;
              if e \<noteq> SCECdErNO then
                do { buf \<leftarrow> mem_write buf off new; Some (st, buf) }
              else
                do { let (st, new) = logo_unscramble lsn st new;
                     buf \<leftarrow> mem_write buf off new;
                     read_loop dev lz4 (st\<lparr>ReadPos := ReadPos st + n * 2048\<rparr>) (lsn + n)
                       (remaining - n) (off + n * 2048) buf } }))"
  by pat_completeness auto
termination
  by (relation "measure (\<lambda>(dev, lz4, st, lsn, remaining, off, buf). remaining)")
    (auto simp: chunk_sectors_def)

declare read_loop.simps [simp del]

definition cdvdman_read_sectors ::
  "'h source \<Rightarrow> (u8 list \<Rightarrow> u8 list \<Rightarrow> u8 list) \<Rightarrow> 'h rstate \<Rightarrow> nat \<Rightarrow> nat \<Rightarrow> u8 list \<Rightarrow>
     (nat \<times> 'h rstate \<times> u8 list) option" where
  "cdvdman_read_sectors dev lz4 st lsn sectors buf =
     (if mediaLsnCount st \<noteq> 0 \<and> lsn \<ge> mediaLsnCount st then
        Some (1, st\<lparr>rd_err := SCECdErIPI\<rparr>, buf)
      else
        (let endOfMedia = (mediaLsnCount st \<noteq> 0 \<and> (lsn + sectors) mod 2 ^ 32 > mediaLsnCount st);
             sectors = (if endOfMedia then mediaLsnCount st - lsn else sectors)
         in do { (ok, st, buf) \<leftarrow> (if probed st then Some (True, st, buf) else ProbeZSO dev st buf);
                 if \<not> ok then Some (1, st, buf)
                 else
                   do { (st, buf) \<leftarrow>
                          read_loop dev lz4 (st\<lparr>rd_err := SCECdErNO\<rparr>) lsn sectors 0 buf;
                        let st = (if endOfMedia then st\<lparr>rd_err := SCECdErEOM\<rparr> else st);
                        Some (if rd_err st = SCECdErNO then 0 else 1, st, buf) } }))"

section \<open>Positions on the disc\<close>

text \<open>\<^verbatim>\<open>sceCdlLOCCD\<close>: minute, second and sector in packed decimal.\<close>

record sceCdlLOCCD =
  minute :: u8
  second :: u8
  sector :: u8

definition bcd :: "u8 \<Rightarrow> u32" where
  "bcd b = drop_bit 4 (ucast b) * 10 + (ucast b AND 0xF)"

definition sceCdPosToInt :: "sceCdlLOCCD \<Rightarrow> u32" where
  "sceCdPosToInt p = ((bcd (minute p) * 60 + bcd (second p)) * 75 + bcd (sector p)) - 150"

definition sceCdIntToPos :: "u32 \<Rightarrow> sceCdlLOCCD" where
  "sceCdIntToPos i =
     (let i = i + 150; se = i div 75; sc = i - se * 75; mi = se div 60; se = se - mi * 60
      in \<lparr>minute = ucast ((mi div 10) * 16 + mi - (mi div 10) * 10),
          second = ucast ((se div 10) * 16 + se - (se div 10) * 10),
          sector = ucast ((sc - (sc div 10) * 10) + (sc div 10) * 16)\<rparr>)"

section \<open>The whole read\<close>

definition subheader :: "nat \<Rightarrow> u8 list" where
  "subheader lsn =
     (let p = sceCdIntToPos (of_nat lsn)
      in [minute p, second p, sector p, 0, 0, 0, 0x8, 0, 0, 0, 0x8, 0])"

text \<open>
  The double-buffered copy of \<^verbatim>\<open>cdvdman_read\<close>; \<open>off\<close> is how far \<^verbatim>\<open>buf\<close> has moved. For a sector
  size other than 2048 each sector is copied on its own, for 2340 after a twelve-byte header.
\<close>

function read_copy ::
  "'h source \<Rightarrow> (u8 list \<Rightarrow> u8 list \<Rightarrow> u8 list) \<Rightarrow> 'h rstate \<Rightarrow> nat \<Rightarrow> nat \<Rightarrow> nat \<Rightarrow> nat \<Rightarrow> u8 list \<Rightarrow>
     ('h rstate \<times> u8 list) option" where
  "read_copy dev lz4 st rpos sectors ssize off buf =
     (if sectors = 0 then Some (st, buf)
      else if length (cdvdman_buf st) div 2048 = 0 then None
      else
        (let n = (if ssize \<noteq> 2048 then 1 else min sectors (length (cdvdman_buf st) div 2048))
         in do { (r, st1, cb) \<leftarrow> cdvdman_read_sectors dev lz4 st rpos n (cdvdman_buf st);
                 let nbytes = n * ssize;
                 bs \<leftarrow> mem_read cb 0 nbytes;
                 buf \<leftarrow> mem_write buf (off + (if ssize = 2340 then 12 else 0)) bs;
                 buf \<leftarrow> (if ssize = 2340 then mem_write buf off (subheader rpos) else Some buf);
                 read_copy dev lz4 (st1\<lparr>cdvdman_buf := cb\<rparr>) (rpos + n) (sectors - n) ssize
                   (off + nbytes) buf }))"
  by pat_completeness auto
termination
  by (relation "measure (\<lambda>(dev, lz4, st, rpos, sectors, ssize, off, buf). sectors)") auto

declare read_copy.simps [simp del]

definition cdvdman_read ::
  "'h source \<Rightarrow> (u8 list \<Rightarrow> u8 list \<Rightarrow> u8 list) \<Rightarrow> 'h rstate \<Rightarrow> nat \<Rightarrow> nat \<Rightarrow> nat \<Rightarrow> nat \<Rightarrow> u8 list \<Rightarrow>
     ('h rstate \<times> u8 list) option" where
  "cdvdman_read dev lz4 st lsn sectors ssize addr buf =
     do { (st, buf) \<leftarrow>
            (if addr mod 4 \<noteq> 0 \<or> ssize \<noteq> 2048
             then read_copy dev lz4 st lsn sectors ssize 0 buf
             else do { (r, st, buf) \<leftarrow> cdvdman_read_sectors dev lz4 st lsn sectors buf;
                       Some (st, buf) });
          Some (st\<lparr>ReadPos := 0\<rparr>, buf) }"

text \<open>The same on a memory: what the streaming component calls.\<close>

definition cdvdman_rd ::
  "'h source \<Rightarrow> (u8 list \<Rightarrow> u8 list \<Rightarrow> u8 list) \<Rightarrow> 'h rstate reader" where
  "cdvdman_rd dev lz4 st lsn sectors ssize addr m =
     (case cdvdman_read dev lz4 st lsn sectors ssize addr (map m [addr ..< addr + sectors * ssize]) of
        None \<Rightarrow> (st, m)
      | Some (st', bs) \<Rightarrow>
          (st', \<lambda>a. if addr \<le> a \<and> a < addr + sectors * ssize then bs ! (a - addr) else m a))"

end
