(* ===== verification/Cdvd_Source.thy ===== *)
theory Cdvd_Source
  imports Cdvd_Read
begin

text \<open>
  The contract of a sector source, and the readers that keep it: the sector cache over any source,
  byte-granular reads, the read loop and \<^verbatim>\<open>cdvdman_read\<close>, up to the contract that the streaming
  component needs.
\<close>

section \<open>The contract\<close>

text \<open>
  The first \<open>nsec\<close> sectors hold \<open>img\<close>: whatever part of a read lies within them is read
  exactly, even when the rest of the read fails, and a read that lies within them does not fail.
\<close>

definition holds_at :: "(nat \<Rightarrow> u8) \<Rightarrow> nat \<Rightarrow> nat \<Rightarrow> u8 list \<Rightarrow> bool" where
  "holds_at img lim a bs \<longleftrightarrow> (\<forall>k < length bs. a + k < lim \<longrightarrow> bs ! k = img (a + k))"

definition holds :: "(nat \<Rightarrow> u8) \<Rightarrow> nat \<Rightarrow> nat \<Rightarrow> u8 list \<Rightarrow> bool" where
  "holds img nsec lsn bs = holds_at img (nsec * 2048) (lsn * 2048) bs"

lemma holds_at_append:
  "holds_at img lim a (xs @ ys) \<longleftrightarrow> holds_at img lim a xs \<and> holds_at img lim (a + length xs) ys"
  unfolding holds_at_def
proof (intro iffI conjI allI impI; (elim conjE)?)
  fix k
  assume *: "\<forall>k < length (xs @ ys). a + k < lim \<longrightarrow> (xs @ ys) ! k = img (a + k)"
  show "xs ! k = img (a + k)" if "k < length xs" "a + k < lim"
    using *[rule_format, of k] that by (simp add: nth_append)
  show "ys ! k = img (a + length xs + k)" if "k < length ys" "a + length xs + k < lim"
    using *[rule_format, of "length xs + k"] that by (simp add: nth_append add.assoc)
next
  fix k
  assume 1: "\<forall>k < length xs. a + k < lim \<longrightarrow> xs ! k = img (a + k)"
    and 2: "\<forall>k < length ys. a + length xs + k < lim \<longrightarrow> ys ! k = img (a + length xs + k)"
    and k: "k < length (xs @ ys)" "a + k < lim"
  show "(xs @ ys) ! k = img (a + k)"
    using 1 2[rule_format, of "k - length xs"] k by (auto simp: nth_append)
qed

lemma holds_at_take: "holds_at img lim a bs \<Longrightarrow> holds_at img lim a (take n bs)"
  by (simp add: holds_at_def)

lemma holds_at_drop: "holds_at img lim a bs \<Longrightarrow> d \<le> length bs \<Longrightarrow> holds_at img lim (a + d) (drop d bs)"
  by (auto simp: holds_at_def add.assoc)

lemma holds_at_Nil: "holds_at img lim a []"
  by (simp add: holds_at_def)

locale sector_source =
  fixes src :: "'s source" and sinv :: "'s \<Rightarrow> bool" and img :: "nat \<Rightarrow> u8" and nsec :: nat
  assumes src_inv: "sinv s \<Longrightarrow> length old = n * 2048 \<Longrightarrow> src s lsn n old = (e, s', new) \<Longrightarrow> sinv s'"
    and src_len: "sinv s \<Longrightarrow> length old = n * 2048 \<Longrightarrow> src s lsn n old = (e, s', new) \<Longrightarrow>
      length new = n * 2048"
    and src_data: "sinv s \<Longrightarrow> length old = n * 2048 \<Longrightarrow> src s lsn n old = (e, s', new) \<Longrightarrow>
      holds img nsec lsn new"
    and src_ok: "sinv s \<Longrightarrow> length old = n * 2048 \<Longrightarrow> src s lsn n old = (e, s', new) \<Longrightarrow>
      lsn + n \<le> nsec \<Longrightarrow> e = SCECdErNO"

section \<open>The cache\<close>

text \<open>The cached sectors are those of the image.\<close>

definition cache_ok :: "(nat \<Rightarrow> u8) \<Rightarrow> nat \<Rightarrow> 'h rstate \<Rightarrow> bool" where
  "cache_ok img nsec st \<longleftrightarrow>
     (MAX_SECTOR_CACHE st \<noteq> 0 \<longrightarrow>
        (\<exists>bs. sector_cache st = Some bs \<and> length bs = MAX_SECTOR_CACHE st * 2048 \<and>
          (\<forall>c. cur_sector st = Some c \<longrightarrow> holds img nsec c bs)))"

lemma holds_part:
  assumes h: "holds img nsec c bs" and le: "c \<le> lsn" and fit: "(lsn - c + n) * 2048 \<le> length bs"
  shows "holds img nsec lsn (take (2048 * n) (drop ((lsn - c) * 2048) bs))"
proof -
  have "c * 2048 + (lsn - c) * 2048 = lsn * 2048" using le by (simp add: diff_mult_distrib)
  moreover have "(lsn - c) * 2048 \<le> length bs" using fit by simp
  ultimately show ?thesis
    using holds_at_drop [OF h [unfolded holds_def], of "(lsn - c) * 2048"]
    by (simp add: holds_def holds_at_take)
qed

context sector_source begin

definition cinv :: "'s rstate \<Rightarrow> bool" where
  "cinv st \<longleftrightarrow> sinv (hw st) \<and> cache_ok img nsec st"

lemma dev_read_src:
  assumes "sinv (hw st)" and "length old = n * 2048" and "dev_read src st lsn n old = (e, st', new)"
  shows "sinv (hw st')" and "length new = n * 2048" and "holds img nsec lsn new"
    and "lsn + n \<le> nsec \<Longrightarrow> e = SCECdErNO" and "st' = st\<lparr>hw := hw st'\<rparr>"
proof -
  obtain h where d: "src (hw st) lsn n old = (e, h, new)" and st': "st' = st\<lparr>hw := h\<rparr>"
    using assms(3) by (auto simp: dev_read_def split: prod.splits)
  note r = src_inv [OF assms(1,2) d] src_len [OF assms(1,2) d] src_data [OF assms(1,2) d]
  from r show "sinv (hw st')" "length new = n * 2048" "holds img nsec lsn new" "st' = st\<lparr>hw := hw st'\<rparr>"
    by (simp_all add: st')
  show "lsn + n \<le> nsec \<Longrightarrow> e = SCECdErNO" by (rule src_ok [OF assms(1,2) d])
qed

lemma dev_read_cinv:
  assumes "cinv st" and "length old = n * 2048" and "dev_read src st lsn n old = (e, st', new)"
  shows "cinv st'"
proof -
  have "sinv (hw st)" using assms(1) by (simp add: cinv_def)
  note d = dev_read_src [OF this assms(2,3)]
  from d(1) assms(1) show ?thesis by (subst d(5)) (simp add: cinv_def cache_ok_def)
qed

lemma cached_hit:
  assumes "cinv st" and "sectors < MAX_SECTOR_CACHE st" and "cur_sector st = Some c"
    and "c \<le> lsn" and "lsn + sectors - c \<le> MAX_SECTOR_CACHE st"
  shows "length (take (2048 * sectors) (drop ((lsn - c) * 2048) (the (sector_cache st)))) = sectors * 2048"
    and "holds img nsec lsn (take (2048 * sectors) (drop ((lsn - c) * 2048) (the (sector_cache st))))"
proof -
  obtain bs where bs: "sector_cache st = Some bs" "length bs = MAX_SECTOR_CACHE st * 2048"
    "holds img nsec c bs"
    using assms(1-3) by (auto simp: cinv_def cache_ok_def)
  have "lsn - c + sectors \<le> MAX_SECTOR_CACHE st" using assms(4,5) by simp
  then have fit: "(lsn - c + sectors) * 2048 \<le> length bs" unfolding bs(2) by (rule mult_le_mono1)
  then have "sectors * 2048 \<le> length bs - (lsn - c) * 2048" by (simp add: add_mult_distrib)
  then show "length (take (2048 * sectors) (drop ((lsn - c) * 2048) (the (sector_cache st)))) = sectors * 2048"
    by (simp add: bs)
  show "holds img nsec lsn (take (2048 * sectors) (drop ((lsn - c) * 2048) (the (sector_cache st))))"
    unfolding bs option.sel by (rule holds_part [OF bs(3) assms(4) fit])
qed

text \<open>The cached reader keeps the contract of the source below it.\<close>

lemma cached_source: "sector_source (DeviceReadSectorsCached src) cinv img nsec"
proof -
  have main: "cinv st' \<and> length new = n * 2048 \<and> holds img nsec lsn new \<and>
      (lsn + n \<le> nsec \<longrightarrow> e = SCECdErNO)"
    if i: "cinv st" and l: "length old = n * 2048"
      and r: "DeviceReadSectorsCached src st lsn n old = (e, st', new)" for st old n lsn e st' new
  proof (cases "n < MAX_SECTOR_CACHE st")
    case False
    with r have d: "dev_read src st lsn n old = (e, st', new)" by (simp add: DeviceReadSectorsCached_def)
    have "sinv (hw st)" using i by (simp add: cinv_def)
    from dev_read_src [OF this l d] dev_read_cinv [OF i l d] show ?thesis by simp
  next
    case True
    obtain c0 where c0: "sector_cache st = Some c0" "length c0 = MAX_SECTOR_CACHE st * 2048"
      using i True by (auto simp: cinv_def cache_ok_def)
    define miss where "miss = (case cur_sector st of None \<Rightarrow> True
      | Some c \<Rightarrow> lsn < c \<or> lsn + n - c > MAX_SECTOR_CACHE st)"
    show ?thesis
    proof (cases miss)
      case False
      then obtain c where c: "cur_sector st = Some c" "c \<le> lsn" "lsn + n - c \<le> MAX_SECTOR_CACHE st"
        by (auto simp: miss_def split: option.splits)
      from r c True have "st' = st" "e = SCECdErNO"
        "new = take (2048 * n) (drop ((lsn - c) * 2048) (the (sector_cache st)))"
        by (auto simp: DeviceReadSectorsCached_def Let_def)
      with cached_hit [OF i True c] i show ?thesis by simp
    next
      case m: True
      obtain e1 st1 bs where d: "dev_read src st lsn (MAX_SECTOR_CACHE st) c0 = (e1, st1, bs)"
        by (metis prod_cases3)
      have "sinv (hw st)" using i by (simp add: cinv_def)
      note s = dev_read_src [OF this c0(2) d]
      let ?st = "st1\<lparr>sector_cache := Some bs, cur_sector := Some lsn\<rparr>"
      have max: "MAX_SECTOR_CACHE st1 = MAX_SECTOR_CACHE st" by (subst s(5)) simp
      have ci: "cinv ?st" using s(1-3) by (simp add: cinv_def cache_ok_def max)
      have "(if miss
            then (case dev_read src st lsn (MAX_SECTOR_CACHE st) (the (sector_cache st)) of
                    (e, st1, new) \<Rightarrow> st1\<lparr>sector_cache := Some new, cur_sector := Some lsn\<rparr>)
            else st) = ?st" using m c0(1) d by simp
      with r True have "st' = ?st" "e = SCECdErNO" "new = take (2048 * n) bs"
        by (auto simp: DeviceReadSectorsCached_def Let_def miss_def)
      with cached_hit [OF ci, of n lsn lsn] True max ci show ?thesis by simp
    qed
  qed
  show ?thesis by unfold_locales (use main in blast)+
qed

end

section \<open>Byte-granular reads\<close>

text \<open>A source on the driver's state, which leaves the decoder's variables alone.\<close>

definition io_only :: "'h rstate \<Rightarrow> 'h rstate \<Rightarrow> bool" where
  "io_only st st' \<longleftrightarrow> st' = st\<lparr>hw := hw st', sector_cache := sector_cache st',
     cur_sector := cur_sector st', ziso_tmp_buf := ziso_tmp_buf st'\<rparr>"

lemma io_only_refl: "io_only st st"
  by (simp add: io_only_def)

lemma io_only_tmp: "io_only st (st'\<lparr>ziso_tmp_buf := t\<rparr>) \<longleftrightarrow> io_only st st'"
  by (cases st; cases st') (simp add: io_only_def)

lemma io_only_trans: "io_only st st' \<Longrightarrow> io_only st' st'' \<Longrightarrow> io_only st st''"
  by (cases st; cases st'; cases st'') (simp add: io_only_def)

lemma io_only_sel:
  assumes "io_only st st'"
  shows "ziso_align st' = ziso_align st" "ziso_total_block st' = ziso_total_block st"
    "ziso_idx_start_block st' = ziso_idx_start_block st" "ziso_idx_cache st' = ziso_idx_cache st"
    "MAX_SECTOR_CACHE st' = MAX_SECTOR_CACHE st" "compressed st' = compressed st"
    "probed st' = probed st" "mediaLsnCount st' = mediaLsnCount st" "accu_reads st' = accu_reads st"
    "logo_key st' = logo_key st" "cdvdman_buf st' = cdvdman_buf st" "ReadPos st' = ReadPos st"
    "rd_err st' = rd_err st"
  by (subst assms [unfolded io_only_def]; simp)+

locale raw_reader = sector_source rs rinv img nsec
  for rs :: "'h rstate source" and rinv :: "'h rstate \<Rightarrow> bool" and img :: "nat \<Rightarrow> u8" and nsec :: nat +
  assumes rinv_tmp: "rinv st \<Longrightarrow> rinv (st\<lparr>ziso_tmp_buf := t\<rparr>)"
    and rs_io: "rs st lsn n old = (e, st', new) \<Longrightarrow> io_only st st' \<and> ziso_tmp_buf st' = ziso_tmp_buf st"
begin

definition raw_ok :: "'h rstate \<Rightarrow> 'h rstate \<Rightarrow> bool" where
  "raw_ok st st' \<longleftrightarrow> rinv st' \<and> length (ziso_tmp_buf st') = 2048 \<and> io_only st st'"

lemma raw_ok_refl: "rinv st \<Longrightarrow> length (ziso_tmp_buf st) = 2048 \<Longrightarrow> raw_ok st st"
  by (simp add: raw_ok_def io_only_refl)

lemma raw_ok_trans: "raw_ok st st' \<Longrightarrow> raw_ok st' st'' \<Longrightarrow> raw_ok st st''"
  by (auto simp: raw_ok_def intro: io_only_trans)

lemma raw_ok_start: "raw_ok st st' \<Longrightarrow> rinv st' \<and> length (ziso_tmp_buf st') = 2048"
  by (simp add: raw_ok_def)

lemma read_tmp:
  assumes "rinv st" and "length (ziso_tmp_buf st) = 2048" and "rs st lba 1 (ziso_tmp_buf st) = (e, st1, tmp)"
  shows "raw_ok st (st1\<lparr>ziso_tmp_buf := tmp\<rparr>)" and "length tmp = 2048"
    and "holds_at img (nsec * 2048) (lba * 2048) tmp"
proof -
  have l: "length (ziso_tmp_buf st) = 1 * 2048" using assms(2) by simp
  show "length tmp = 2048" using src_len [OF assms(1) l assms(3)] by simp
  then show "raw_ok st (st1\<lparr>ziso_tmp_buf := tmp\<rparr>)"
    using src_inv [OF assms(1) l assms(3)] rs_io [OF assms(3)]
    by (simp add: raw_ok_def rinv_tmp io_only_tmp)
  show "holds_at img (nsec * 2048) (lba * 2048) tmp"
    using src_data [OF assms(1) l assms(3)] by (simp add: holds_def)
qed

lemma read_whole:
  assumes "rinv st" and "length (ziso_tmp_buf st) = 2048" and "length old = n * 2048"
    and "rs st lba n old = (e, st1, new)"
  shows "raw_ok st st1" and "length new = n * 2048" and "holds_at img (nsec * 2048) (lba * 2048) new"
  using src_inv [OF assms(1,3,4)] src_len [OF assms(1,3,4)] src_data [OF assms(1,3,4)] rs_io [OF assms(4)]
    assms(2) by (simp_all add: raw_ok_def holds_def)

text \<open>Where a byte-granular read stands: \<open>a\<close> is its first byte, \<open>sz\<close> its length.\<close>

definition raw_at :: "'h rstate \<Rightarrow> nat \<Rightarrow> nat \<Rightarrow> 'h raw_state \<Rightarrow> bool" where
  "raw_at st0 a sz s \<longleftrightarrow>
     (case s of (st, lba, out, left) \<Rightarrow> raw_ok st0 st \<and> length out + left = sz \<and>
        holds_at img (nsec * 2048) a out \<and> (left \<noteq> 0 \<longrightarrow> lba * 2048 = a + length out))"

lemma raw_first_at:
  assumes "rinv st" and "length (ziso_tmp_buf st) = 2048" and "lba * 2048 + pos = a" and "pos < 2048"
  shows "raw_at st a sz (raw_first rs pos (st, lba, [], sz))"
proof (cases "pos = 0")
  case True
  with assms raw_ok_refl show ?thesis by (simp add: raw_first_def raw_at_def holds_at_Nil)
next
  case False
  obtain e st1 tmp where r: "rs st lba 1 (ziso_tmp_buf st) = (e, st1, tmp)" by (metis prod_cases3)
  note t = read_tmp [OF assms(1,2) r]
  have "holds_at img (nsec * 2048) a (take (min sz (2048 - pos)) (drop pos tmp))"
    using holds_at_drop [OF t(3), of pos] t(2) assms(3,4) by (intro holds_at_take) simp
  moreover have "(lba + 1) * 2048 = a + (2048 - pos)" using assms(3,4) by simp
  ultimately show ?thesis using False r t(1,2) assms(4)
    by (auto simp: raw_first_def raw_at_def Let_def min_def)
qed

lemma raw_middle_at:
  assumes "raw_at st0 a sz s" and "length old = sz"
  shows "raw_at st0 a sz (raw_middle rs old s)" and "snd (snd (snd (raw_middle rs old s))) \<le> 2048"
proof -
  obtain st lba out left where s: "s = (st, lba, out, left)" by (metis prod_cases4)
  define n where "n = left div 2048 + (if left mod 2048 \<noteq> 0 then 1 else 0)"
  have left: "left = left div 2048 * 2048 + left mod 2048" by simp
  have le: "left \<le> n * 2048" unfolding n_def by (cases "left mod 2048 = 0") auto
  have at: "raw_ok st0 st" "length out + left = sz" "holds_at img (nsec * 2048) a out"
    "left \<noteq> 0 \<Longrightarrow> lba * 2048 = a + length out"
    using assms(1) by (auto simp: raw_at_def s)
  have "raw_at st0 a sz (raw_middle rs old s) \<and> snd (snd (snd (raw_middle rs old s))) \<le> 2048"
  proof (cases "n > 1")
    case False
    then have "raw_middle rs old s = s" by (simp only: raw_middle_def s Let_def prod.case n_def [symmetric] if_False)
    moreover have "left \<le> 2048" using le False by (cases n) auto
    ultimately show ?thesis using assms(1) by (simp add: s)
  next
    case True
    have m: "(n - 1) * 2048 < left"
    proof (cases "left mod 2048 = 0")
      case False
      then have "(n - 1) * 2048 = left div 2048 * 2048" by (simp add: n_def)
      with False left show ?thesis by linarith
    qed (use True in \<open>auto simp: n_def\<close>)
    let ?old = "take (2048 * (n - 1)) (drop (length out) old)"
    obtain e st1 new where r: "rs st lba (n - 1) ?old = (e, st1, new)" by (metis prod_cases3)
    have l: "length ?old = (n - 1) * 2048" using at(2) assms(2) m by simp
    from raw_ok_start [OF at(1)] have "rinv st" "length (ziso_tmp_buf st) = 2048" by simp_all
    note w = read_whole [OF this l r]
    have "holds_at img (nsec * 2048) a (out @ new)"
      using at(3,4) w(3) m by (simp add: holds_at_append)
    moreover have "(lba + (n - 1)) * 2048 = a + (length out + (n - 1) * 2048)"
      using at(4) m by (simp add: add_mult_distrib)
    moreover have "left - 2048 * (n - 1) \<le> 2048"
      using le True by (cases n) (simp_all add: algebra_simps)
    moreover have "raw_middle rs old s = (st1, lba + (n - 1), out @ new, left - 2048 * (n - 1))"
      by (simp only: raw_middle_def s Let_def prod.case n_def [symmetric] True if_True r)
    ultimately show ?thesis using w(1,2) raw_ok_trans [OF at(1)] at(2) m by (simp add: raw_at_def)
  qed
  then show "raw_at st0 a sz (raw_middle rs old s)" "snd (snd (snd (raw_middle rs old s))) \<le> 2048"
    by simp_all
qed

lemma raw_last_at:
  assumes "raw_at st0 a sz s" and "snd (snd (snd s)) \<le> 2048"
  shows "\<exists>st lba out. raw_last rs s = (st, lba, out, 0) \<and> raw_ok st0 st \<and> length out = sz \<and>
    holds_at img (nsec * 2048) a out"
proof -
  obtain st lba out left where s: "s = (st, lba, out, left)" by (metis prod_cases4)
  have at: "raw_ok st0 st" "length out + left = sz" "holds_at img (nsec * 2048) a out"
    "left \<noteq> 0 \<Longrightarrow> lba * 2048 = a + length out" "left \<le> 2048"
    using assms by (auto simp: raw_at_def s)
  show ?thesis
  proof (cases "left = 0")
    case True
    with at show ?thesis by (simp add: raw_last_def s)
  next
    case False
    obtain e st1 tmp where r: "rs st lba 1 (ziso_tmp_buf st) = (e, st1, tmp)" by (metis prod_cases3)
    from raw_ok_start [OF at(1)] have "rinv st" "length (ziso_tmp_buf st) = 2048" by simp_all
    note t = read_tmp [OF this r]
    from False at t r raw_ok_trans [OF at(1) t(1)] show ?thesis
      by (simp add: raw_last_def s holds_at_append holds_at_take)
  qed
qed

text \<open>Whatever the alignment, the read returns exactly the bytes of the image.\<close>

lemma raw_position:
  fixes offset shift :: nat
  assumes "shift \<le> 11"
  shows "(offset div (2048 div 2 ^ shift)) * 2048 + (offset * 2 ^ shift) mod 2 ^ 32 mod 2048 =
    offset * 2 ^ shift"
proof -
  define q :: nat where "q = 2 ^ (11 - shift)"
  have "(2048 :: nat) = 2 ^ shift * q"
    unfolding q_def power_add [symmetric] using assms by simp
  moreover from this have "2048 div 2 ^ shift = q"
    by (metis nonzero_mult_div_cancel_left power_not_zero zero_neq_numeral)
  ultimately have q: "2048 div 2 ^ shift = q" "2048 = q * 2 ^ shift" by (simp_all only: mult.commute)
  have "(offset div q) * 2048 = (offset * 2 ^ shift) div 2048 * 2048"
    unfolding q(2) by (simp add: div_mult_mult2)
  moreover have "(offset * 2 ^ shift) mod 2 ^ 32 mod 2048 = (offset * 2 ^ shift) mod 2048"
    by (rule mod_mod_cancel) simp
  ultimately show ?thesis unfolding q(1) by simp
qed

lemma read_raw_data_ok:
  assumes "rinv st" and "length (ziso_tmp_buf st) = 2048" and "shift \<le> 11" and "length old = sz"
  shows "\<exists>st' out. read_raw_data rs st sz offset shift old = (st', out, sz) \<and> raw_ok st st' \<and>
    length out = sz \<and> holds_at img (nsec * 2048) (offset * 2 ^ shift) out"
proof -
  note a = raw_first_at [OF assms(1,2) raw_position [OF assms(3)], of offset sz]
  have "(offset * 2 ^ shift) mod 2 ^ 32 mod 2048 < 2048" by simp
  note m = raw_middle_at [OF a [OF this] assms(4)]
  from raw_last_at [OF m] show ?thesis by (auto simp: read_raw_data_def Let_def)
qed

end

text \<open>The two readers that \<^verbatim>\<open>read_raw_data\<close> chooses between.\<close>

lemma dev_read_io:
  "dev_read src st lsn n old = (e, st', new) \<Longrightarrow> io_only st st' \<and> ziso_tmp_buf st' = ziso_tmp_buf st"
  by (auto simp: dev_read_def io_only_def split: prod.splits)

lemma cached_io:
  "DeviceReadSectorsCached src st lsn n old = (e, st', new) \<Longrightarrow>
     io_only st st' \<and> ziso_tmp_buf st' = ziso_tmp_buf st"
  by (auto simp: DeviceReadSectorsCached_def Let_def dev_read_def io_only_def split: prod.splits if_splits)

context sector_source begin

lemma dev_raw: "raw_reader (dev_read src) cinv img nsec"
proof (rule raw_reader.intro, unfold_locales)
  fix st :: "'s rstate" and old new e st' lsn n
  assume r: "cinv st" "length old = n * 2048" "dev_read src st lsn n old = (e, st', new)"
  then have s: "sinv (hw st)" by (simp add: cinv_def)
  show "cinv st'" by (rule dev_read_cinv [OF r])
  show "length new = n * 2048" "holds img nsec lsn new" by (rule dev_read_src [OF s r(2,3)])+
  show "e = SCECdErNO" if "lsn + n \<le> nsec" by (rule dev_read_src(4) [OF s r(2,3) that])
next
  show "io_only st st' \<and> ziso_tmp_buf st' = ziso_tmp_buf st"
    if "dev_read src st lsn n old = (e, st', new)" for st lsn n old e st' new
    by (rule dev_read_io [OF that])
qed (simp add: cinv_def cache_ok_def)

lemma cached_raw: "raw_reader (DeviceReadSectorsCached src) cinv img nsec"
proof (rule raw_reader.intro [OF cached_source], rule raw_reader_axioms.intro)
  show "cinv (st\<lparr>ziso_tmp_buf := t\<rparr>)" if "cinv st" for st t
    using that by (simp add: cinv_def cache_ok_def)
  show "io_only st st' \<and> ziso_tmp_buf st' = ziso_tmp_buf st"
    if "DeviceReadSectorsCached src st lsn n old = (e, st', new)" for st lsn n old e st' new
    by (rule cached_io [OF that])
qed

end

end
