(* ===== verification/Cdvd_Zso.thy ===== *)
theory Cdvd_Zso
  imports Cdvd_Source
begin

text \<open>
  The compressed image: what a well-formed ZSO file is, and that the block decoder, which
  decompresses inside the caller's buffer, returns the sectors of the disc it encodes.
\<close>

section \<open>A ZSO file\<close>

definition img_bytes :: "(nat \<Rightarrow> u8) \<Rightarrow> nat \<Rightarrow> nat \<Rightarrow> u8 list" where
  "img_bytes img a n = map img [a ..< a + n]"

text \<open>Entry \<open>i\<close> of the index, the block's offset without its flag, and the stored size.\<close>

definition zso_entry :: "(nat \<Rightarrow> u8) \<Rightarrow> nat \<Rightarrow> u32" where
  "zso_entry img i = le32 (img_bytes img (ZSO_HEADER_SIZE + 4 * i) 4) 0"

definition zso_off :: "(nat \<Rightarrow> u8) \<Rightarrow> nat \<Rightarrow> nat" where
  "zso_off img i = unat (zso_entry img i AND 0x7FFFFFFF)"

definition zso_size :: "(nat \<Rightarrow> u8) \<Rightarrow> nat \<Rightarrow> nat \<Rightarrow> nat" where
  "zso_size img align i = (zso_off img (i + 1) - zso_off img i) * 2 ^ align"

text \<open>
  The file encodes the \<open>blocks\<close> sectors of \<open>disc\<close>: offsets grow, no stored block is longer than
  a sector, the index and the data lie in the image, a block with the top bit set is the sector
  itself and any other block is one that \<open>lz4\<close> decodes to the sector, whatever follows it in the
  decoder's input buffer.
\<close>

definition zso_block :: "(u8 list \<Rightarrow> u8 list \<Rightarrow> u8 list) \<Rightarrow> (nat \<Rightarrow> u8) \<Rightarrow> nat \<Rightarrow> (nat \<Rightarrow> u8) \<Rightarrow> nat \<Rightarrow> bool" where
  "zso_block lz4 img align disc i \<longleftrightarrow>
     (let bs = img_bytes img (zso_off img i * 2 ^ align) (zso_size img align i);
          sec = img_bytes disc (i * 2048) 2048
      in if zso_entry img i AND 0x80000000 = 0
         then (\<forall>rest dst. length bs + length rest = 2048 \<longrightarrow> length dst = 2048 \<longrightarrow> lz4 (bs @ rest) dst = sec)
         else bs = sec)"

definition zso_file ::
  "(u8 list \<Rightarrow> u8 list \<Rightarrow> u8 list) \<Rightarrow> (nat \<Rightarrow> u8) \<Rightarrow> nat \<Rightarrow> nat \<Rightarrow> nat \<Rightarrow> (nat \<Rightarrow> u8) \<Rightarrow> bool" where
  "zso_file lz4 img lim align blocks disc \<longleftrightarrow>
     align \<le> 11 \<and> ZSO_HEADER_SIZE + 4 * (blocks + 1) \<le> lim \<and>
     ZSO_HEADER_SIZE + 4 * (blocks + 1) < 2 ^ 32 \<and>
     (\<forall>i < blocks. zso_off img i \<le> zso_off img (i + 1) \<and> zso_size img align i \<le> 2048 \<and>
        zso_off img (i + 1) * 2 ^ align \<le> lim \<and> zso_block lz4 img align disc i)"

lemma zso_off_mono:
  assumes "zso_file lz4 img lim align blocks disc" and "i + n \<le> blocks"
  shows "zso_off img i \<le> zso_off img (i + n)"
    and "(zso_off img (i + n) - zso_off img i) * 2 ^ align \<le> n * 2048"
proof -
  have "zso_off img i \<le> zso_off img (i + n) \<and>
      (zso_off img (i + n) - zso_off img i) * 2 ^ align \<le> n * 2048"
    using assms(2)
  proof (induction n)
    case 0
    then show ?case by simp
  next
    case (Suc n)
    have "zso_off img (i + n) \<le> zso_off img (i + Suc n)" "zso_size img align (i + n) \<le> 2048"
      using assms(1) Suc.prems by (auto simp: zso_file_def)
    moreover have "zso_off img i \<le> zso_off img (i + n)"
      "(zso_off img (i + n) - zso_off img i) * 2 ^ align \<le> n * 2048" using Suc by simp_all
    moreover have "zso_off img (i + Suc n) - zso_off img i =
        (zso_off img (i + n) - zso_off img i) + (zso_off img (i + n + 1) - zso_off img (i + n))"
      using calculation by simp
    ultimately show ?case by (simp only: zso_size_def add_mult_distrib) simp
  qed
  then show "zso_off img i \<le> zso_off img (i + n)"
    "(zso_off img (i + n) - zso_off img i) * 2 ^ align \<le> n * 2048" by simp_all
qed

lemma img_bytes_length [simp]: "length (img_bytes img a n) = n"
  by (simp add: img_bytes_def)

lemma img_bytes_nth: "k < n \<Longrightarrow> img_bytes img a n ! k = img (a + k)"
  by (simp add: img_bytes_def)

lemma img_bytes_take: "n \<le> m \<Longrightarrow> take n (img_bytes img a m) = img_bytes img a n"
  by (simp add: img_bytes_def take_map)

lemma img_bytes_drop: "n \<le> m \<Longrightarrow> drop n (img_bytes img a m) = img_bytes img (a + n) (m - n)"
  by (simp add: img_bytes_def drop_map)

lemma img_bytes_append: "img_bytes img a n @ img_bytes img (a + n) m = img_bytes img a (n + m)"
  unfolding img_bytes_def map_append [symmetric] by (metis add.assoc le_add1 upt_add_eq_append)

lemma holds_at_img:
  assumes "holds_at img lim a bs" and "a + length bs \<le> lim"
  shows "bs = img_bytes img a (length bs)"
  using assms by (intro nth_equalityI) (auto simp: holds_at_def img_bytes_def)

section \<open>The loop over the blocks\<close>

lemma unat_shift_diff:
  fixes e0 e1 :: u32
  assumes "unat e0 \<le> unat e1" and "(unat e1 - unat e0) * 2 ^ k < 2 ^ 32"
  shows "unat (push_bit k (e1 - e0)) = (unat e1 - unat e0) * 2 ^ k"
proof -
  have "unat (e1 - e0) = unat e1 - unat e0" using assms(1) by (simp add: unat_sub word_le_nat_alt)
  then show ?thesis
    using assms(2) by (simp only: unsigned_push_bit_eq take_bit_eq_mod) (simp add: push_bit_eq_mult)
qed

lemma zso_off_entry: "unat (zso_entry img i AND 0x7FFFFFFF) = zso_off img i"
  by (simp add: zso_off_def)

lemma zso_size_entry:
  assumes "zso_off img i \<le> zso_off img (i + 1)" and "zso_size img align i \<le> 2048"
  shows "unat (push_bit align ((zso_entry img (i + 1) AND 0x7FFFFFFF) - (zso_entry img i AND 0x7FFFFFFF)))
    = zso_size img align i"
  using unat_shift_diff [of "zso_entry img i AND 0x7FFFFFFF" "zso_entry img (i + 1) AND 0x7FFFFFFF" align] assms
  by (simp add: zso_off_entry zso_size_def)

text \<open>
  One block: its stored bytes are read from \<open>c_buff\<close>, the sector is written at \<open>addr\<close>, below what is
  still to be read.
\<close>

lemma ziso_block_step:
  assumes blk: "zso_block lz4 img align disc l" and sz: "zso_size img align l \<le> 2048"
    and off: "zso_off img l \<le> zso_off img (l + 1)"
    and e: "idx_entry idx cur = Some (zso_entry img l)" "idx_entry idx (cur + 1) = Some (zso_entry img (l + 1))"
    and lb: "length buf = addr + 2048 + m" and lt: "length tmp = 2048"
    and c: "c_buff + zso_size img align l \<le> length buf"
    and d: "take (zso_size img align l) (drop c_buff buf) =
      img_bytes img (zso_off img l * 2 ^ align) (zso_size img align l)"
  shows "\<exists>tmp'. length tmp' = 2048 \<and> ziso_blocks lz4 idx align cur (Suc n) addr c_buff tmp buf =
    ziso_blocks lz4 idx align (cur + 1) n (addr + 2048) (c_buff + zso_size img align l) tmp'
      (take addr buf @ img_bytes disc (l * 2048) 2048 @ drop (addr + 2048) buf)"
proof -
  let ?S = "zso_size img align l" and ?bs = "img_bytes img (zso_off img l * 2 ^ align) (zso_size img align l)"
  let ?sec = "img_bytes disc (l * 2048) 2048"
  have r: "mem_read buf c_buff ?S = Some ?bs" using c d by (simp add: mem_read_def)
  note s = zso_size_entry [OF off sz]
  have w: "mem_write buf addr ?sec = Some (take addr buf @ ?sec @ drop (addr + 2048) buf)"
    using lb by (simp add: mem_write_def)
  show ?thesis
  proof (cases "zso_entry img l AND 0x80000000 = 0")
    case True
    let ?tmp = "?bs @ drop ?S tmp"
    have t: "mem_write tmp 0 ?bs = Some ?tmp" using sz lt by (simp add: mem_write_def)
    have dst: "mem_read buf addr 2048 = Some (take 2048 (drop addr buf))"
      using lb by (simp add: mem_read_def)
    have "lz4 ?tmp (take 2048 (drop addr buf)) = ?sec"
      using blk True sz lt lb by (simp add: zso_block_def Let_def)
    with True e r s t dst w sz show ?thesis
      by (intro exI [of _ ?tmp] conjI) (simp_all add: lt Let_def)
  next
    case False
    then have "?bs = ?sec" using blk by (simp add: zso_block_def Let_def)
    with False e r s w sz lt show ?thesis
      by (intro exI [of _ tmp] conjI) (simp_all add: Let_def)
  qed
qed

lemma ziso_blocks_ok:
  assumes f: "zso_file lz4 img lim align blocks disc" and "l + n \<le> blocks"
    and "\<And>j. j \<le> n \<Longrightarrow> idx_entry idx (cur + j) = Some (zso_entry img (l + j))"
    and "length buf = addr + n * 2048" and "length tmp = 2048"
    and "c_buff + (zso_off img (l + n) - zso_off img l) * 2 ^ align = length buf"
    and "drop c_buff buf = img_bytes img (zso_off img l * 2 ^ align)
      ((zso_off img (l + n) - zso_off img l) * 2 ^ align)"
  shows "\<exists>tmp'. length tmp' = 2048 \<and> ziso_blocks lz4 idx align cur n addr c_buff tmp buf =
    Some (tmp', take addr buf @ img_bytes disc (l * 2048) (n * 2048))"
  using assms(2-)
proof (induction n arbitrary: l cur addr c_buff tmp buf)
  case 0
  then show ?case by (simp add: img_bytes_def)
next
  case (Suc n)
  let ?S = "zso_size img align l" and ?sec = "img_bytes disc (l * 2048) 2048"
  let ?C = "(zso_off img (Suc l + n) - zso_off img (Suc l)) * 2 ^ align"
  have l: "l < blocks" using Suc.prems(1) by simp
  then have b: "zso_block lz4 img align disc l" "?S \<le> 2048" "zso_off img l \<le> zso_off img (l + 1)"
    using f by (simp_all add: zso_file_def)
  have mono: "zso_off img (Suc l) \<le> zso_off img (Suc l + n)" "?C \<le> n * 2048"
    using zso_off_mono [OF f, of "Suc l" n] Suc.prems(1) by simp_all
  have tot: "(zso_off img (l + Suc n) - zso_off img l) * 2 ^ align = ?S + ?C"
  proof -
    have "zso_off img (l + Suc n) - zso_off img l =
        (zso_off img (l + 1) - zso_off img l) + (zso_off img (Suc l + n) - zso_off img (Suc l))"
      using b(3) mono(1) by simp
    then show ?thesis by (simp only: zso_size_def add_mult_distrib)
  qed
  have c: "c_buff + ?S + ?C = length buf" using Suc.prems(5) tot by simp
  have cd: "drop c_buff buf = img_bytes img (zso_off img l * 2 ^ align) (?S + ?C)"
    using Suc.prems(6) tot by simp
  have e: "idx_entry idx cur = Some (zso_entry img l)" "idx_entry idx (cur + 1) = Some (zso_entry img (l + 1))"
    using Suc.prems(2) [of 0] Suc.prems(2) [of 1] by simp_all
  let ?buf = "take addr buf @ ?sec @ drop (addr + 2048) buf"
  have lb: "length buf = addr + 2048 + n * 2048" using Suc.prems(3) by simp
  obtain tmp1 where t1: "length tmp1 = 2048"
    and step: "ziso_blocks lz4 idx align cur (Suc n) addr c_buff tmp buf =
      ziso_blocks lz4 idx align (cur + 1) n (addr + 2048) (c_buff + ?S) tmp1 ?buf"
    using ziso_block_step [OF b(1,2,3) e lb Suc.prems(4), of c_buff n] c cd
    by (auto simp: img_bytes_take)
  have a: "addr + 2048 \<le> c_buff + ?S" using c lb mono(2) by simp
  have "drop (c_buff + ?S) ?buf = drop (c_buff + ?S) buf" using a lb by simp
  also have "\<dots> = drop ?S (drop c_buff buf)" by (simp add: add.commute)
  also have "\<dots> = img_bytes img (zso_off img l * 2 ^ align + ?S) ?C" unfolding cd by (simp add: img_bytes_drop)
  also have "zso_off img l * 2 ^ align + ?S = zso_off img (Suc l) * 2 ^ align"
    using b(3) by (simp add: zso_size_def diff_mult_distrib)
  finally have "\<exists>tmp'. length tmp' = 2048 \<and>
      ziso_blocks lz4 idx align (cur + 1) n (addr + 2048) (c_buff + ?S) tmp1 ?buf =
      Some (tmp', take (addr + 2048) ?buf @ img_bytes disc (Suc l * 2048) (n * 2048))"
    using Suc.prems(1) Suc.prems(2) [of "Suc _"] c lb t1 by (intro Suc.IH) simp_all
  moreover have "take (addr + 2048) ?buf = take addr buf @ ?sec" using lb by simp
  moreover have "?sec @ img_bytes disc (Suc l * 2048) (n * 2048) = img_bytes disc (l * 2048) (Suc n * 2048)"
    using img_bytes_append [of disc "l * 2048" 2048 "n * 2048"] by (simp add: add.commute)
  ultimately show ?case unfolding step by (simp only: append_assoc)
qed

section \<open>Reading sectors\<close>

lemma idx_entry_holds:
  assumes "holds_at img lim (b * 4 + ZSO_HEADER_SIZE) idx" and "4 * i + 4 \<le> length idx"
    and "ZSO_HEADER_SIZE + 4 * (b + i) + 4 \<le> lim"
  shows "idx_entry idx i = Some (zso_entry img (b + i))"
proof -
  have "idx ! (4 * i + j) = img (ZSO_HEADER_SIZE + 4 * (b + i) + j)" if "j < 4" for j
    using assms that by (auto simp: holds_at_def algebra_simps)
  from this [of 0] this [of 1] this [of 2] this [of 3] show ?thesis
    using assms(2) by (simp add: idx_entry_def zso_entry_def le32_def img_bytes_def numeral_2_eq_2 numeral_3_eq_3)
qed

context sector_source begin

definition zso_ready :: "nat \<Rightarrow> nat \<Rightarrow> 's rstate \<Rightarrow> bool" where
  "zso_ready align blocks st \<longleftrightarrow>
     cinv st \<and> length (ziso_tmp_buf st) = 2048 \<and> length (ziso_idx_cache st) = ZISO_IDX_MAX_ENTRIES * 4 \<and>
     ziso_align st = align \<and> ziso_total_block st = blocks \<and>
     (\<forall>b. ziso_idx_start_block st = Some b \<longrightarrow>
        holds_at img (nsec * 2048) (b * 4 + ZSO_HEADER_SIZE) (ziso_idx_cache st))"

text \<open>The index window after the refresh covers the request.\<close>

definition zso_refresh :: "nat \<Rightarrow> nat \<Rightarrow> 's rstate \<Rightarrow> 's rstate" where
  "zso_refresh lsn count st =
     (if (case ziso_idx_start_block st of None \<Rightarrow> True
          | Some b \<Rightarrow> lsn < b \<or> lsn + count \<ge> b + ZISO_IDX_MAX_ENTRIES - 1)
      then (case read_raw_data (dev_read src) st (ZISO_IDX_MAX_ENTRIES * 4)
              ((lsn * 4 + ZSO_HEADER_SIZE) mod 2 ^ 32) 0 (ziso_idx_cache st) of
              (st, idx, _) \<Rightarrow> st\<lparr>ziso_idx_cache := idx, ziso_idx_start_block := Some lsn\<rparr>)
      else st)"

lemma zso_refresh_ok:
  assumes "zso_ready align blocks st" and "count \<le> 256" and "lsn * 4 + ZSO_HEADER_SIZE < 2 ^ 32"
  shows "zso_ready align blocks (zso_refresh lsn count st)"
    and "\<exists>b. ziso_idx_start_block (zso_refresh lsn count st) = Some b \<and> b \<le> lsn \<and>
      lsn + count < b + ZISO_IDX_MAX_ENTRIES"
proof -
  let ?r = "read_raw_data (dev_read src) st (ZISO_IDX_MAX_ENTRIES * 4)
    ((lsn * 4 + ZSO_HEADER_SIZE) mod 2 ^ 32) 0 (ziso_idx_cache st)"
  have z: "cinv st" "length (ziso_tmp_buf st) = 2048" "length (ziso_idx_cache st) = ZISO_IDX_MAX_ENTRIES * 4"
    using assms(1) by (simp_all add: zso_ready_def)
  obtain st1 idx where r: "?r = (st1, idx, ZISO_IDX_MAX_ENTRIES * 4)"
    and k: "raw_reader.raw_ok cinv st st1"
    and i: "length idx = ZISO_IDX_MAX_ENTRIES * 4" "holds_at img (nsec * 2048) (lsn * 4 + ZSO_HEADER_SIZE) idx"
    using raw_reader.read_raw_data_ok [OF dev_raw z(1,2) _ z(3), of 0] assms(3) by fastforce
  have "cinv st1" "length (ziso_tmp_buf st1) = 2048" "io_only st st1"
    using k by (simp_all add: raw_reader.raw_ok_def [OF dev_raw])
  moreover from this have "cinv (st1\<lparr>ziso_idx_cache := idx, ziso_idx_start_block := Some lsn\<rparr>)"
    by (simp add: cinv_def cache_ok_def)
  moreover note io_only_sel [OF calculation(3)]
  ultimately have new: "zso_ready align blocks (st1\<lparr>ziso_idx_cache := idx, ziso_idx_start_block := Some lsn\<rparr>)"
    using assms(1) i by (simp add: zso_ready_def)
  show "zso_ready align blocks (zso_refresh lsn count st)"
    using new assms(1) r by (simp add: zso_refresh_def)
  show "\<exists>b. ziso_idx_start_block (zso_refresh lsn count st) = Some b \<and> b \<le> lsn \<and>
      lsn + count < b + ZISO_IDX_MAX_ENTRIES"
  proof (cases "case ziso_idx_start_block st of None \<Rightarrow> True
      | Some b \<Rightarrow> lsn < b \<or> lsn + count \<ge> b + ZISO_IDX_MAX_ENTRIES - 1")
    case True
    then have "zso_refresh lsn count st = st1\<lparr>ziso_idx_cache := idx, ziso_idx_start_block := Some lsn\<rparr>"
      using r by (simp add: zso_refresh_def)
    with assms(2) show ?thesis by (simp add: ZISO_IDX_MAX_ENTRIES_def)
  next
    case False
    then show ?thesis by (auto simp: zso_refresh_def split: option.splits)
  qed
qed

lemma ziso_read_sector_refresh:
  assumes "\<not> lsn \<ge> ziso_total_block st" and "\<not> (lsn + count) mod 2 ^ 32 > ziso_total_block st"
  shows "ziso_read_sector src lz4 st lsn count buf =
    (let s = zso_refresh lsn count st; cur = lsn - the (ziso_idx_start_block s)
     in do { e0 \<leftarrow> idx_entry (ziso_idx_cache s) cur;
             e1 \<leftarrow> idx_entry (ziso_idx_cache s) (cur + count);
             let C = unat (push_bit (ziso_align s) ((e1 AND 0x7FFFFFFF) - (e0 AND 0x7FFFFFFF)));
             (if C > count * 2048 then None else Some ());
             old \<leftarrow> mem_read buf (count * 2048 - C) C;
             let (st1, raw, _) = read_raw_data (DeviceReadSectorsCached src) s C
               (unat (e0 AND 0x7FFFFFFF)) (ziso_align s) old;
             buf1 \<leftarrow> mem_write buf (count * 2048 - C) raw;
             (tmp, buf2) \<leftarrow> ziso_blocks lz4 (ziso_idx_cache st1) (ziso_align st1) cur count 0
               (count * 2048 - C) (ziso_tmp_buf st1) buf1;
             Some (count, st1\<lparr>ziso_tmp_buf := tmp\<rparr>, buf2) })"
  unfolding ziso_read_sector_def zso_refresh_def Let_def by (simp only: assms if_False)

lemma ziso_read_sector_steps:
  assumes "lsn < ziso_total_block st" and "\<not> (lsn + count) mod 2 ^ 32 > ziso_total_block st"
    and "zso_refresh lsn count st = s" and "ziso_idx_start_block s = Some w"
    and "idx_entry (ziso_idx_cache s) (lsn - w) = Some e0"
    and "idx_entry (ziso_idx_cache s) (lsn - w + count) = Some e1"
    and "unat (push_bit (ziso_align s) ((e1 AND 0x7FFFFFFF) - (e0 AND 0x7FFFFFFF))) = C"
    and "unat (e0 AND 0x7FFFFFFF) = o0" and "C \<le> count * 2048" and "mem_read buf (count * 2048 - C) C = Some old"
    and "read_raw_data (DeviceReadSectorsCached src) s C o0 (ziso_align s) old = (st1, raw, left)"
    and "mem_write buf (count * 2048 - C) raw = Some buf1"
    and "ziso_blocks lz4 (ziso_idx_cache st1) (ziso_align st1) (lsn - w) count 0
      (count * 2048 - C) (ziso_tmp_buf st1) buf1 = Some (tmp, buf2)"
  shows "ziso_read_sector src lz4 st lsn count buf = Some (count, st1\<lparr>ziso_tmp_buf := tmp\<rparr>, buf2)"
  using assms by (subst ziso_read_sector_refresh) simp_all

lemma ziso_read_sector_ok:
  assumes f: "zso_file lz4 img (nsec * 2048) align blocks disc" and z: "zso_ready align blocks st"
    and c: "count \<le> 256" and l: "lsn < blocks" "lsn + count \<le> blocks" and b: "length buf = count * 2048"
  shows "\<exists>st'. ziso_read_sector src lz4 st lsn count buf =
    Some (count, st', img_bytes disc (lsn * 2048) (count * 2048)) \<and> zso_ready align blocks st'"
proof -
  have u: "lsn * 4 + ZSO_HEADER_SIZE < 2 ^ 32" using f l by (auto simp: zso_file_def)
  have clip: "\<not> (lsn + count) mod 2 ^ 32 > blocks" using l(2) by (meson mod_less_eq_dividend le_trans not_le)
  have tb: "ziso_total_block st = blocks" using z by (simp add: zso_ready_def)
  let ?s = "zso_refresh lsn count st"
  note r = zso_refresh_ok [OF z c u]
  obtain w where w: "ziso_idx_start_block ?s = Some w" "w \<le> lsn" "lsn + count < w + ZISO_IDX_MAX_ENTRIES"
    using r(2) by blast
  have s: "cinv ?s" "length (ziso_tmp_buf ?s) = 2048" "ziso_align ?s = align"
    "length (ziso_idx_cache ?s) = ZISO_IDX_MAX_ENTRIES * 4"
    "holds_at img (nsec * 2048) (w * 4 + ZSO_HEADER_SIZE) (ziso_idx_cache ?s)"
    using r(1) w(1) by (simp_all add: zso_ready_def)
  have e: "idx_entry (ziso_idx_cache ?s) (lsn - w + j) = Some (zso_entry img (lsn + j))" if "j \<le> count" for j
    using idx_entry_holds [OF s(5), of "lsn - w + j"] that w(2,3) s(4) l(2) f
    by (auto simp: zso_file_def)
  let ?C = "(zso_off img (lsn + count) - zso_off img lsn) * 2 ^ align"
  note mono = zso_off_mono [OF f l(2)]
  have C: "unat (push_bit align ((zso_entry img (lsn + count) AND 0x7FFFFFFF) - (zso_entry img lsn AND 0x7FFFFFFF))) = ?C"
    using unat_shift_diff [of "zso_entry img lsn AND 0x7FFFFFFF" "zso_entry img (lsn + count) AND 0x7FFFFFFF" align]
      mono c by (simp add: zso_off_entry)
  let ?c = "count * 2048 - ?C"
  have al: "align \<le> 11" using f by (simp add: zso_file_def)
  have old: "mem_read buf ?c ?C = Some (drop ?c buf)" using b mono(2) by (simp add: mem_read_def)
  have lo: "length (drop ?c buf) = ?C" using b mono(2) by simp
  obtain st1 raw where rr: "read_raw_data (DeviceReadSectorsCached src) ?s ?C (zso_off img lsn) align (drop ?c buf)
      = (st1, raw, ?C)" and k: "raw_reader.raw_ok cinv ?s st1" and lr: "length raw = ?C"
    and h: "holds_at img (nsec * 2048) (zso_off img lsn * 2 ^ align) raw"
    using raw_reader.read_raw_data_ok [OF cached_raw s(1,2) al lo, of "zso_off img lsn"] by blast
  have k': "cinv st1" "length (ziso_tmp_buf st1) = 2048" "io_only ?s st1"
    using k by (simp_all add: raw_reader.raw_ok_def [OF cached_raw])
  note io = io_only_sel [OF k'(3)]
  have "zso_off img lsn * 2 ^ align + ?C = zso_off img (lsn + count) * 2 ^ align"
    using mono(1) by (simp add: diff_mult_distrib)
  moreover have "zso_off img (lsn + count) * 2 ^ align \<le> nsec * 2048 \<or> count = 0"
    using f l by (cases count) (auto simp: zso_file_def)
  ultimately have raw: "raw = img_bytes img (zso_off img lsn * 2 ^ align) ?C"
    using holds_at_img [OF h] lr by (cases "count = 0") (auto simp: img_bytes_def)
  let ?buf = "take ?c buf @ raw"
  have wr: "mem_write buf ?c raw = Some ?buf" using b lr mono(2) by (simp add: mem_write_def)
  obtain tmp where t: "length tmp = 2048"
    and blk: "ziso_blocks lz4 (ziso_idx_cache st1) align (lsn - w) count 0 ?c (ziso_tmp_buf st1) ?buf =
      Some (tmp, img_bytes disc (lsn * 2048) (count * 2048))"
  proof -
    have lc: "length (take ?c buf) = ?c" using b by simp
    then have lb: "length ?buf = ?c + ?C" using lr by (simp only: length_append)
    then have lb': "length ?buf = 0 + count * 2048" using mono(2) by linarith
    have dr: "drop ?c ?buf = img_bytes img (zso_off img lsn * 2 ^ align) ?C"
      unfolding raw [symmetric] using lc by simp
    have "\<And>j. j \<le> count \<Longrightarrow> idx_entry (ziso_idx_cache st1) (lsn - w + j) = Some (zso_entry img (lsn + j))"
      unfolding io(4) by (rule e)
    from ziso_blocks_ok [OF f l(2) this lb' k'(2) lb [symmetric] dr] that show thesis
      by (metis append_Nil take0)
  qed
  have "zso_ready align blocks (st1\<lparr>ziso_tmp_buf := tmp\<rparr>)"
    using r(1) k'(1) t io by (simp add: zso_ready_def cinv_def cache_ok_def)
  moreover have "ziso_read_sector src lz4 st lsn count buf =
      Some (count, st1\<lparr>ziso_tmp_buf := tmp\<rparr>, img_bytes disc (lsn * 2048) (count * 2048))"
  proof (rule ziso_read_sector_steps [OF _ _ refl w(1) _ _ _ zso_off_entry mono(2) old _ wr])
    show "read_raw_data (DeviceReadSectorsCached src) ?s ?C (zso_off img lsn) (ziso_align ?s) (drop ?c buf)
      = (st1, raw, ?C)" unfolding s(3) by (rule rr)
    show "unat (push_bit (ziso_align ?s) ((zso_entry img (lsn + count) AND 0x7FFFFFFF) -
      (zso_entry img lsn AND 0x7FFFFFFF))) = ?C" unfolding s(3) by (rule C)
    show "ziso_blocks lz4 (ziso_idx_cache st1) (ziso_align st1) (lsn - w) count 0 ?c (ziso_tmp_buf st1) ?buf =
      Some (tmp, img_bytes disc (lsn * 2048) (count * 2048))"
      using blk io(1) s(3) by simp
    show "idx_entry (ziso_idx_cache ?s) (lsn - w) = Some (zso_entry img lsn)" using e [of 0] by simp
    show "idx_entry (ziso_idx_cache ?s) (lsn - w + count) = Some (zso_entry img (lsn + count))"
      using e [of count] by simp
  qed (use l(1) tb clip in simp_all)
  ultimately show ?thesis by blast
qed

end

end
