(* ===== verification/Cdvd_Hdd.thy ===== *)
theory Cdvd_Hdd
  imports Cdvd_Zso
begin

text \<open>
  The hard-disk device (\<^verbatim>\<open>modules/iopcore/cdvdman/device-hdd.c\<close>): an image is a list of partition
  extents, and a read walks over them. \<open>ata lba n\<close> is \<^verbatim>\<open>sceAtaDmaTransfer\<close> reading \<open>n\<close> blocks
  of 512 bytes, \<open>None\<close> for an error.
\<close>

type_synonym ata = "nat \<Rightarrow> nat \<Rightarrow> u8 list option"

text \<open>\<^verbatim>\<open>hdl_partspecs_t\<close>: first sector of the extent, its first disk block, its length in bytes.\<close>

record partspec =
  part_offset :: nat
  data_start :: nat
  part_size :: nat

record hdd =
  cdvdman_partspecs :: "partspec list"
  NumParts :: nat
  CurrentPart :: nat

definition in_part :: "partspec \<Rightarrow> nat \<Rightarrow> bool" where
  "in_part ps lsn \<longleftrightarrow>
     part_offset ps \<le> lsn \<and> lsn < (part_offset ps + part_size ps div 2048) mod 2 ^ 32"

text \<open>The first extent that holds the sector becomes the current one; \<open>None\<close> is \<^verbatim>\<open>-ENXIO\<close>.\<close>

function find_part :: "partspec list \<Rightarrow> nat \<Rightarrow> nat \<Rightarrow> nat \<Rightarrow> nat option" where
  "find_part ps n i lsn =
     (if i \<ge> n then None
      else if in_part (ps ! i) lsn then Some i
      else find_part ps n (i + 1) lsn)"
  by pat_completeness auto
termination by (relation "measure (\<lambda>(ps, n, i, lsn). n - i)") auto

declare find_part.simps [simp del]

definition cdvdman_get_part_specs :: "hdd \<Rightarrow> nat \<Rightarrow> hdd option" where
  "cdvdman_get_part_specs st lsn =
     map_option (\<lambda>i. st\<lparr>CurrentPart := i\<rparr>) (find_part (cdvdman_partspecs st) (NumParts st) 0 lsn)"

definition select_part :: "hdd \<Rightarrow> nat \<Rightarrow> hdd option" where
  "select_part st lsn =
     (if in_part (cdvdman_partspecs st ! CurrentPart st) lsn then Some st
      else cdvdman_get_part_specs st lsn)"

definition cur_part :: "hdd \<Rightarrow> partspec" where
  "cur_part st = cdvdman_partspecs st ! CurrentPart st"

definition part_run :: "partspec \<Rightarrow> nat \<Rightarrow> nat \<Rightarrow> nat" where
  "part_run ps lsn sectors = min sectors ((part_offset ps + part_size ps div 2048) mod 2 ^ 32 - lsn)"

definition part_lba :: "partspec \<Rightarrow> nat \<Rightarrow> nat" where
  "part_lba ps lsn = (data_start ps + (lsn - part_offset ps) * 4) mod 2 ^ 32"

lemma find_part_in: "find_part ps n i lsn = Some j \<Longrightarrow> in_part (ps ! j) lsn \<and> i \<le> j \<and> j < n"
proof (induction ps n i lsn rule: find_part.induct)
  case (1 ps n i lsn)
  show ?case
    using 1(2) by (subst (asm) find_part.simps) (auto split: if_splits dest: 1(1))
qed

lemma find_part_None: "find_part ps n i lsn = None \<longleftrightarrow> (\<forall>j. i \<le> j \<longrightarrow> j < n \<longrightarrow> \<not> in_part (ps ! j) lsn)"
proof (induction ps n i lsn rule: find_part.induct)
  case (1 ps n i lsn)
  show ?case
  proof (cases "i < n \<and> \<not> in_part (ps ! i) lsn")
    case True
    then have "find_part ps n i lsn = find_part ps n (i + 1) lsn" by (subst find_part.simps) simp
    moreover have "(\<forall>j. i \<le> j \<longrightarrow> j < n \<longrightarrow> \<not> in_part (ps ! j) lsn) \<longleftrightarrow>
        (\<forall>j. i + 1 \<le> j \<longrightarrow> j < n \<longrightarrow> \<not> in_part (ps ! j) lsn)"
      using True by (metis Suc_eq_plus1 Suc_leD le_antisym not_less_eq_eq)
    ultimately show ?thesis using 1 True by simp
  next
    case False
    then show ?thesis by (subst find_part.simps) auto
  qed
qed

lemma select_part_in:
  assumes "select_part st lsn = Some st'"
  shows "in_part (cur_part st') lsn" and "st' = st\<lparr>CurrentPart := CurrentPart st'\<rparr>"
    and "CurrentPart st < NumParts st \<Longrightarrow> CurrentPart st' < NumParts st'"
  using assms
  by (auto simp: select_part_def cdvdman_get_part_specs_def cur_part_def split: if_splits dest: find_part_in)

function hdd_read :: "ata \<Rightarrow> hdd \<Rightarrow> nat \<Rightarrow> nat \<Rightarrow> u8 list \<Rightarrow> cd_err \<times> hdd \<times> u8 list" where
  "hdd_read ata st lsn sectors old =
     (if sectors = 0 then (SCECdErNO, st, old)
      else
        (case select_part st lsn of
           None \<Rightarrow> (SCECdErTRMOPN, st, old)
         | Some st \<Rightarrow>
             (let n = part_run (cur_part st) lsn sectors in
              case ata (part_lba (cur_part st) lsn) (n * 4) of
                None \<Rightarrow> (SCECdErREAD, st, old)
              | Some bs \<Rightarrow>
                  (case hdd_read ata st (lsn + n) (sectors - n) (drop (n * 2048) old) of
                     (e, st, rest) \<Rightarrow> (e, st, bs @ rest)))))"
  by pat_completeness auto
termination
proof (relation "measure (\<lambda>(ata, st, lsn, sectors, old). sectors)", simp)
  fix ata st lsn sectors old st' n bs
  assume "sectors \<noteq> 0" "select_part st lsn = Some st'" "n = part_run (cur_part st') lsn sectors"
  with select_part_in(1) [of st lsn st']
  show "((ata, st', lsn + n, sectors - n, drop (n * 2048) old), ata, st, lsn, sectors, old)
    \<in> measure (\<lambda>(ata, st, lsn, sectors, old). sectors)"
    by (auto simp: part_run_def in_part_def)
qed

declare hdd_read.simps [simp del]

definition DeviceReadSectors_hdd :: "ata \<Rightarrow> hdd source" where
  "DeviceReadSectors_hdd ata st lsn sectors old = hdd_read ata st (lsn mod 2 ^ 32) sectors old"

section \<open>The contract\<close>

text \<open>
  The extents hold the image: each is readable, with the image's bytes, and together they cover
  its sectors.
\<close>

definition extent_ok :: "ata \<Rightarrow> (nat \<Rightarrow> u8) \<Rightarrow> nat \<Rightarrow> partspec \<Rightarrow> bool" where
  "extent_ok ata img nsec ps \<longleftrightarrow>
     (\<forall>lsn n. in_part ps lsn \<longrightarrow> 0 < n \<longrightarrow> lsn + n \<le> (part_offset ps + part_size ps div 2048) mod 2 ^ 32 \<longrightarrow>
        (\<exists>bs. ata (part_lba ps lsn) (n * 4) = Some bs \<and> length bs = n * 2048 \<and> holds img nsec lsn bs))"

definition hdd_ok :: "ata \<Rightarrow> (nat \<Rightarrow> u8) \<Rightarrow> nat \<Rightarrow> hdd \<Rightarrow> bool" where
  "hdd_ok ata img nsec st \<longleftrightarrow> nsec < 2 ^ 32 \<and> CurrentPart st < NumParts st \<and>
     (\<forall>i < NumParts st. extent_ok ata img nsec (cdvdman_partspecs st ! i)) \<and>
     (\<forall>lsn < nsec. \<exists>i < NumParts st. in_part (cdvdman_partspecs st ! i) lsn)"

lemma select_part_ok:
  assumes "hdd_ok ata img nsec st"
  shows "select_part st lsn = Some st' \<Longrightarrow> hdd_ok ata img nsec st' \<and> extent_ok ata img nsec (cur_part st')"
    and "select_part st lsn = None \<Longrightarrow> nsec \<le> lsn"
proof -
  assume s: "select_part st lsn = Some st'"
  note p = select_part_in [OF s]
  have c: "CurrentPart st' < NumParts st'" using p(3) assms by (simp add: hdd_ok_def)
  have e: "cdvdman_partspecs st' = cdvdman_partspecs st" "NumParts st' = NumParts st"
    by (subst p(2); simp)+
  show "hdd_ok ata img nsec st' \<and> extent_ok ata img nsec (cur_part st')"
    using assms c e by (simp add: hdd_ok_def cur_part_def)
next
  assume n: "select_part st lsn = None"
  then have "\<forall>j < NumParts st. \<not> in_part (cdvdman_partspecs st ! j) lsn"
    by (auto simp: select_part_def cdvdman_get_part_specs_def find_part_None split: if_splits)
  with assms show "nsec \<le> lsn" by (meson hdd_ok_def not_le)
qed

lemma hdd_read_ok:
  assumes "hdd_ok ata img nsec st" and "length old = n * 2048" and "hdd_read ata st lsn n old = (e, st', new)"
  shows "hdd_ok ata img nsec st' \<and> length new = n * 2048 \<and> holds img nsec lsn new \<and>
    (lsn + n \<le> nsec \<longrightarrow> e = SCECdErNO)"
  using assms
proof (induction ata st lsn n old arbitrary: e st' new rule: hdd_read.induct)
  case (1 ata st lsn n old)
  have beyond: "holds img nsec lsn old" if "nsec \<le> lsn" using that by (auto simp: holds_def holds_at_def)
  show ?case
  proof (cases "n = 0")
    case True
    with 1 show ?thesis by (subst (asm) hdd_read.simps) (simp add: holds_def holds_at_Nil)
  next
    case nz: False
    show ?thesis
    proof (cases "select_part st lsn")
      case None
      have "e = SCECdErTRMOPN" "st' = st" "new = old"
        using 1(4) nz None by (subst (asm) hdd_read.simps, simp)+
      with 1(2,3) nz select_part_ok(2) [OF 1(2) None] beyond show ?thesis by simp
    next
      case (Some s1)
      note s = select_part_ok(1) [OF 1(2) Some] and ip = select_part_in(1) [OF Some]
      let ?m = "part_run (cur_part s1) lsn n"
      have m: "0 < ?m" "?m \<le> n" "lsn + ?m \<le> (part_offset (cur_part s1) + part_size (cur_part s1) div 2048) mod 2 ^ 32"
        using ip nz by (auto simp: part_run_def in_part_def)
      then obtain bs where bs: "ata (part_lba (cur_part s1) lsn) (?m * 4) = Some bs"
        "length bs = ?m * 2048" "holds img nsec lsn bs"
        using s ip by (auto simp: extent_ok_def)
      obtain e2 s2 rest where r: "hdd_read ata s1 (lsn + ?m) (n - ?m) (drop (?m * 2048) old) = (e2, s2, rest)"
        by (metis prod_cases3)
      have "length (drop (?m * 2048) old) = (n - ?m) * 2048" using 1(3) by (simp add: diff_mult_distrib)
      note ih = 1(1) [OF nz Some refl bs(1) conjunct1 [OF s] this r]
      have "e = e2" "st' = s2" "new = bs @ rest"
        using 1(4) nz Some bs(1) r by (subst (asm) hdd_read.simps, simp add: Let_def)+
      moreover have "holds img nsec lsn (bs @ rest)"
        using bs(2,3) ih by (simp add: holds_def holds_at_append algebra_simps)
      ultimately show ?thesis using ih bs(2) m(2) by (simp add: diff_mult_distrib)
    qed
  qed
qed

text \<open>
  Only sectors below \<open>2 ^ 32\<close> are addressed; the driver's sector numbers are 32 bits wide.
\<close>

lemma hdd_wrap:
  assumes "hdd_ok ata img nsec st" and "length old = n * 2048"
    and "DeviceReadSectors_hdd ata st lsn n old = (e, st', new)" and "lsn < 2 ^ 32"
  shows "hdd_ok ata img nsec st' \<and> length new = n * 2048 \<and> holds img nsec lsn new \<and>
    (lsn + n \<le> nsec \<longrightarrow> e = SCECdErNO)"
  using hdd_read_ok [OF assms(1,2), of lsn] assms(3,4) by (simp add: DeviceReadSectors_hdd_def)

lemma hdd_source:
  assumes "hdd_ok ata img nsec st" and "length old = n * 2048"
    and r: "DeviceReadSectors_hdd ata st lsn n old = (e, st', new)"
  shows "hdd_ok ata img nsec st' \<and> length new = n * 2048 \<and> holds img nsec lsn new \<and>
    (lsn + n \<le> nsec \<longrightarrow> e = SCECdErNO)"
proof (cases "lsn < 2 ^ 32")
  case True
  from hdd_wrap [OF assms True] show ?thesis .
next
  case False
  from hdd_read_ok [OF assms(1,2) r [unfolded DeviceReadSectors_hdd_def]] False assms(1) show ?thesis
    by (auto simp: hdd_ok_def holds_def holds_at_def)
qed

interpretation hdd: sector_source "DeviceReadSectors_hdd ata" "hdd_ok ata img nsec" img nsec
  for ata img nsec
  by unfold_locales (use hdd_source in blast)+

interpretation hdd_cached: sector_source "DeviceReadSectorsCached (DeviceReadSectors_hdd ata)"
    "hdd.cinv ata img nsec" img nsec
  for ata img nsec
  by (rule hdd.cached_source)

interpretation hdd_raw: raw_reader "DeviceReadSectorsCached (DeviceReadSectors_hdd ata)"
    "hdd.cinv ata img nsec" img nsec
  for ata img nsec
  by (rule hdd.cached_raw)

end
