(* ===== verification/Cdvd_Stream.thy ===== *)
theory Cdvd_Stream
  imports Cdvd_Types
begin

text \<open>
  The disc streaming of the emulated CD/DVD driver
  (\<^verbatim>\<open>modules/iopcore/cdvdman/streaming.c\<close>): a ring of banks in IOP memory that the read
  thread fills bank by bank and the game drains sector by sector, with the asynchronous read
  request, its thread and the retry alarm it depends on (\<^verbatim>\<open>cdvdman.c\<close>).

  The \<^verbatim>\<open>unsigned short\<close> fields are \<open>nat\<close> with the truncation to 16 bits written out,
  \<^verbatim>\<open>int\<close> variables are \<open>int\<close>; memories are functions from addresses to bytes.
\<close>

section \<open>State\<close>

definition u16_of_int :: "int \<Rightarrow> nat" where
  "u16_of_int i = nat (i mod 65536)"

text \<open>A queued read: \<^verbatim>\<open>cdread_lba\<close>, \<^verbatim>\<open>cdread_sectors\<close>, \<^verbatim>\<open>sector_size\<close>, \<^verbatim>\<open>cdread_buf\<close>.\<close>

record read_req =
  cdread_lba :: nat
  cdread_sectors :: nat
  sector_size :: nat
  cdread_buf :: nat

text \<open>
  \<open>pending\<close> is the request that \<^verbatim>\<open>cdvdman_AsyncRead\<close> left for the read thread and that the
  thread has not finished, \<open>stm0cb\<close> says whether \<^verbatim>\<open>Stm0Callback\<close> is set, \<open>alarm\<close> whether
  the retry alarm is armed, \<open>ef8\<close> is bit 8 of the event flag \<^verbatim>\<open>intr_ef\<close>, \<open>drv\<close> the
  state of the read path.
\<close>

record 'd cdvd =
  StBufmax :: nat
  StBankmax :: nat
  StBanksize :: nat
  StWritePtr :: nat
  StReadPtr :: nat
  StStreamed :: nat
  StStat :: nat
  StIsReading :: nat
  StIOP_bufaddr :: nat
  Stlsn :: nat
  cderr :: cd_err
  cdstatus :: cd_status
  sync_flag :: bool
  pending :: "read_req option"
  stm0cb :: bool
  alarm :: bool
  ef8 :: bool
  imem :: "nat \<Rightarrow> u8"
  emem :: "nat \<Rightarrow> u8"
  drv :: 'd

text \<open>The driver's variables after loading, with a read path in state \<open>d\<close> and empty memories.\<close>

definition cdvd_boot :: "'d \<Rightarrow> 'd cdvd" where
  "cdvd_boot d = \<lparr>StBufmax = 0, StBankmax = 0, StBanksize = 0, StWritePtr = 0, StReadPtr = 0,
     StStreamed = 0, StStat = 0, StIsReading = 0, StIOP_bufaddr = 0, Stlsn = 0, cderr = SCECdErNO,
     cdstatus = SCECdStatPause, sync_flag = False, pending = None, stm0cb = False, alarm = False,
     ef8 = False, imem = (\<lambda>_. 0), emem = (\<lambda>_. 0), drv = d\<rparr>"

section \<open>Operations\<close>

text \<open>\<^verbatim>\<open>cdvdman_common_lock\<close> and \<^verbatim>\<open>cdvdman_AsyncRead\<close>.\<close>

definition cdvdman_common_lock :: "'d cdvd \<Rightarrow> bool \<times> 'd cdvd" where
  "cdvdman_common_lock s = (if sync_flag s then (False, s) else (True, s\<lparr>sync_flag := True\<rparr>))"

definition cdvdman_AsyncRead :: "nat \<Rightarrow> nat \<Rightarrow> nat \<Rightarrow> nat \<Rightarrow> 'd cdvd \<Rightarrow> nat \<times> 'd cdvd" where
  "cdvdman_AsyncRead lsn sectors ssize buf s =
     (case cdvdman_common_lock s of
        (False, s1) \<Rightarrow> (0, s1)
      | (True, s1) \<Rightarrow>
          (1, s1\<lparr>pending := Some \<lparr>cdread_lba = lsn, cdread_sectors = sectors,
                   sector_size = ssize, cdread_buf = buf\<rparr>\<rparr>))"

definition cdvdman_signal_read_end :: "'d cdvd \<Rightarrow> 'd cdvd" where
  "cdvdman_signal_read_end s = s\<lparr>sync_flag := False, ef8 := True\<rparr>"

definition StReset :: "'d cdvd \<Rightarrow> 'd cdvd" where
  "StReset s = s\<lparr>StWritePtr := 0, StReadPtr := 0, StStreamed := 0, StIsReading := 0\<rparr>"

text \<open>The bank to fill next, \<open>None\<close> for \<^verbatim>\<open>-ENOMEM\<close>.\<close>

definition AllocBank :: "'d cdvd \<Rightarrow> nat option" where
  "AllocBank s =
     (if int (StBufmax s) - int (StStreamed s) \<ge> int (StBanksize s)
      then Some (StIOP_bufaddr s + StWritePtr s * 2048) else None)"

text \<open>0: reading or started, -1: \<^verbatim>\<open>cdvdman_AsyncRead\<close> failed, 1: the buffer is full.\<close>

definition StFillStreamBuffer :: "'d cdvd \<Rightarrow> int \<times> 'd cdvd" where
  "StFillStreamBuffer s =
     (if StIsReading s \<noteq> 0 then (0, s)
      else
        (let s1 = s\<lparr>alarm := False, StIsReading := 1\<rparr> in
         case AllocBank s1 of
           Some ptr \<Rightarrow>
             (case cdvdman_AsyncRead (Stlsn s1) (StBanksize s1) 2048 ptr s1 of
                (r, s2) \<Rightarrow> if r = 0 then (-1, s2\<lparr>StIsReading := 0\<rparr>) else (0, s2))
         | None \<Rightarrow> (1, s1\<lparr>StIsReading := 0\<rparr>)))"

definition StStartFillStreamBuffer :: "'d cdvd \<Rightarrow> 'd cdvd" where
  "StStartFillStreamBuffer s =
     (case StFillStreamBuffer s of (r, s1) \<Rightarrow> if r < 0 then s1\<lparr>alarm := True\<rparr> else s1)"

text \<open>The alarm: it stays armed (a non-zero return reschedules it) while the fill fails.\<close>

definition StmScheduleCb :: "'d cdvd \<Rightarrow> 'd cdvd" where
  "StmScheduleCb s =
     (case StFillStreamBuffer (s\<lparr>alarm := False\<rparr>) of
        (r, s1) \<Rightarrow> if r \<ge> 0 then s1 else s1\<lparr>alarm := True\<rparr>)"

definition StmCallback :: "'d cdvd \<Rightarrow> 'd cdvd" where
  "StmCallback s =
     StStartFillStreamBuffer
       (if StIsReading s \<noteq> 0 then
          (let wr = (StWritePtr s + StBanksize s) mod 65536
           in s\<lparr>Stlsn := (Stlsn s + StBanksize s) mod 2 ^ 32,
                StStreamed := (StStreamed s + StBanksize s) mod 65536,
                StWritePtr := (if wr \<ge> StBufmax s then 0 else wr),
                StIsReading := 0\<rparr>)
        else s)"

text \<open>
  The read thread finishing its request. \<open>rd\<close> is \<^verbatim>\<open>cdvdman_read\<close>: it fills the memory
  from the disc. With no stream callback the thread runs \<^verbatim>\<open>cdvdman_cb_event\<close>, whose effect on
  this state is \<^verbatim>\<open>cdvdman_signal_read_end\<close> too (directly, or from the alarm that runs the
  game's callback).
\<close>

definition cdread_finish ::
  "'d reader \<Rightarrow> 'd cdvd \<Rightarrow> 'd cdvd" where
  "cdread_finish rd s =
     (case pending s of
        None \<Rightarrow> s
      | Some q \<Rightarrow>
          (let (d, m) = rd (drv s) (cdread_lba q) (cdread_sectors q) (sector_size q)
                 (cdread_buf q) (imem s);
               s2 = cdvdman_signal_read_end
                 (s\<lparr>pending := None, cdstatus := SCECdStatPause, imem := m, drv := d\<rparr>)
           in if stm0cb s2 then StmCallback s2 else s2))"

text \<open>\<^verbatim>\<open>sceCdSync(0)\<close> waits until the read thread has finished.\<close>

definition sceCdSync0 ::
  "'d reader \<Rightarrow> 'd cdvd \<Rightarrow> 'd cdvd" where
  "sceCdSync0 rd s = (if \<not> sync_flag s then s else cdread_finish rd s)"

text \<open>\<open>None\<close>: the division by a zero \<^verbatim>\<open>bankmax\<close>.\<close>

definition sceCdStInit :: "nat \<Rightarrow> nat \<Rightarrow> nat \<Rightarrow> 'd cdvd \<Rightarrow> 'd cdvd option" where
  "sceCdStInit bufmax bankmax iop_bufaddr s =
     (if bankmax = 0 then None
      else
        (let bank = bankmax mod 65536; size = (bufmax div bankmax) mod 65536
         in Some (StReset (s\<lparr>cderr := SCECdErNO, alarm := False, StBankmax := bank,
                StBanksize := size, StBufmax := (size * bank) mod 65536,
                StIOP_bufaddr := iop_bufaddr\<rparr>))))"

definition sceCdStStop ::
  "'d reader \<Rightarrow> 'd cdvd \<Rightarrow> 'd cdvd" where
  "sceCdStStop rd s =
     (let s1 = s\<lparr>cderr := SCECdErNO, cdstatus := SCECdStatPause\<rparr> in
      if StStat s1 \<noteq> 0 then
        sceCdSync0 rd (StReset (s1\<lparr>alarm := False, stm0cb := False, StStreamed := 0, StStat := 0\<rparr>))
      else s1)"

definition sceCdStStart ::
  "'d reader \<Rightarrow> nat \<Rightarrow> 'd cdvd \<Rightarrow> 'd cdvd" where
  "sceCdStStart rd lsn s =
     (let s1 = StReset ((sceCdStStop rd s)\<lparr>Stlsn := lsn, StStat := 1\<rparr>);
          s2 = s1\<lparr>stm0cb := True, cderr := SCECdErNO, cdstatus := SCECdStatPause\<rparr>
      in StStartFillStreamBuffer s2)"

definition sceCdStStat :: "'d cdvd \<Rightarrow> nat \<times> 'd cdvd" where
  "sceCdStStat s = (StStreamed s, s\<lparr>cderr := SCECdErNO\<rparr>)"

definition sceCdStPause ::
  "'d reader \<Rightarrow> 'd cdvd \<Rightarrow> nat \<times> 'd cdvd" where
  "sceCdStPause rd s =
     (let s1 = s\<lparr>cderr := SCECdErNO, cdstatus := SCECdStatPause\<rparr> in
      if StStat s1 \<noteq> 0 then
        (1, sceCdSync0 rd (s1\<lparr>alarm := False, stm0cb := False, StIsReading := 0\<rparr>))
      else (0, s1))"

definition sceCdStResume :: "'d cdvd \<Rightarrow> nat \<times> 'd cdvd" where
  "sceCdStResume s =
     (let s1 = s\<lparr>cderr := SCECdErNO, cdstatus := SCECdStatPause\<rparr> in
      if StStat s1 \<noteq> 0 then (1, StStartFillStreamBuffer (s1\<lparr>stm0cb := True\<rparr>))
      else (0, s1))"

definition sceCdStSeek ::
  "'d reader \<Rightarrow> nat \<Rightarrow> 'd cdvd \<Rightarrow> nat \<times> 'd cdvd" where
  "sceCdStSeek rd lsn s =
     (let s1 = s\<lparr>cderr := SCECdErNO, cdstatus := SCECdStatPause\<rparr> in
      if StStat s1 \<noteq> 0 then (1, sceCdStStart rd lsn s1) else (0, s1))"

subsection \<open>Draining the ring\<close>

text \<open>\<^verbatim>\<open>SectorsToCopy\<close>: a 16-bit count, limited to the \<^verbatim>\<open>int\<close> count still wanted.\<close>

definition sectors_to_copy :: "int \<Rightarrow> int \<Rightarrow> nat" where
  "sectors_to_copy avail want =
     (if int (u16_of_int avail) > want then u16_of_int want else u16_of_int avail)"

definition next_ptr :: "nat \<Rightarrow> nat \<Rightarrow> nat \<Rightarrow> nat" where
  "next_ptr bufmax rd n = (let r = (rd + n) mod 65536 in if r \<ge> bufmax then 0 else r)"

text \<open>One of the two copies of \<^verbatim>\<open>ReadSectors\<close>: \<open>n\<close> sectors from the read pointer to \<open>dst\<close>.\<close>

definition drain_chunk :: "nat \<Rightarrow> nat \<Rightarrow> 'd cdvd \<Rightarrow> 'd cdvd" where
  "drain_chunk n dst s =
     s\<lparr>imem := memcpy (imem s) dst (imem s) (StIOP_bufaddr s + StReadPtr s * 2048) (n * 2048),
       StReadPtr := next_ptr (StBufmax s) (StReadPtr s) n,
       StStreamed := u16_of_int (int (StStreamed s) - int n)\<rparr>"

definition ReadSectors :: "int \<Rightarrow> nat \<Rightarrow> 'd cdvd \<Rightarrow> int \<times> 'd cdvd" where
  "ReadSectors maxcount buffer s =
     (let (result, ptr, s1) =
        (if StWritePtr s \<le> StReadPtr s \<and> StStreamed s > 0 then
           (let n = sectors_to_copy (int (StBufmax s) - int (StReadPtr s)) maxcount in
            if n > 0 then (int n, buffer + n * 2048, drain_chunk n buffer s) else (0, buffer, s))
         else (0, buffer, s))
      in if result < maxcount \<and> StReadPtr s1 < StWritePtr s1 then
           (let n = sectors_to_copy (int (StWritePtr s1) - int (StReadPtr s1)) (maxcount - result) in
            if n > 0 then (result + int n, drain_chunk n ptr s1) else (result, s1))
         else (result, s1))"

text \<open>
  The EE variant collects at most two DMA descriptors (source, destination, size), hands them
  to \<^verbatim>\<open>sceSifSetDma\<close>, waits for the transfer and only then moves the read pointer.
\<close>

type_synonym dma_desc = "nat \<times> nat \<times> nat"

fun sif_dma :: "(nat \<Rightarrow> u8) \<Rightarrow> dma_desc list \<Rightarrow> (nat \<Rightarrow> u8) \<Rightarrow> (nat \<Rightarrow> u8)" where
  "sif_dma im [] em = em"
| "sif_dma im ((src, dst, n) # ds) em = sif_dma im ds (memcpy em dst im src n)"

definition ReadSectorsEE :: "int \<Rightarrow> nat \<Rightarrow> 'd cdvd \<Rightarrow> int \<times> 'd cdvd" where
  "ReadSectorsEE maxcount buffer s =
     (let rdptr = StReadPtr s;
          (result, ptr, rdptr, dmat) =
            (if StWritePtr s \<le> rdptr \<and> StStreamed s > 0 then
               (let n = sectors_to_copy (int (StBufmax s) - int rdptr) maxcount in
                if n > 0 then
                  (int n, buffer + n * 2048, next_ptr (StBufmax s) rdptr n,
                   [(StIOP_bufaddr s + rdptr * 2048, buffer, n * 2048)])
                else (0, buffer, rdptr, []))
             else (0, buffer, rdptr, []));
          (result, rdptr, dmat) =
            (if result < maxcount \<and> rdptr < StWritePtr s then
               (let n = sectors_to_copy (int (StWritePtr s) - int rdptr) (maxcount - result) in
                if n > 0 then
                  (result + int n, next_ptr (StBufmax s) rdptr n,
                   dmat @ [(StIOP_bufaddr s + rdptr * 2048, ptr, n * 2048)])
                else (result, rdptr, dmat))
             else (result, rdptr, dmat))
      in (result,
          if dmat \<noteq> [] then
            s\<lparr>emem := sif_dma (imem s) dmat (emem s), StReadPtr := rdptr,
              StStreamed := u16_of_int (int (StStreamed s) - result)\<rparr>
          else s))"

text \<open>
  The loop of \<^verbatim>\<open>sceCdStRead\<close>. \<^verbatim>\<open>WaitEventFlag\<close> on bit 8 passes at once when the bit is set,
  otherwise when the read thread finishes the read in progress, or the one the retry alarm starts;
  with neither the call blocks. \<open>None\<close> is blocking or the fuel running out. \<open>want\<close> is
  \<^verbatim>\<open>SectorsToRead\<close>, \<open>result\<close> the count so far.
\<close>

definition wait_ef8 :: "'d reader \<Rightarrow> 'd cdvd \<Rightarrow> 'd cdvd option" where
  "wait_ef8 rd s =
     (if ef8 s then Some (s\<lparr>ef8 := False\<rparr>)
      else
        (let s1 = (if pending s = None \<and> alarm s then StmScheduleCb s else s) in
         if pending s1 \<noteq> None then Some ((cdread_finish rd s1)\<lparr>ef8 := False\<rparr>) else None))"

fun StRead_loop ::
  "'d reader \<Rightarrow> nat \<Rightarrow> bool \<Rightarrow> nat \<Rightarrow> bool \<Rightarrow>
     int \<Rightarrow> int \<Rightarrow> nat \<Rightarrow> 'd cdvd \<Rightarrow> (int \<times> 'd cdvd) option" where
  "StRead_loop rd 0 ee sectors mode want result ptr s = None"
| "StRead_loop rd (Suc fuel) ee sectors mode want result ptr s =
     (if result \<ge> int sectors then Some (result, s)
      else
        do { s1 \<leftarrow> wait_ef8 rd s;
             let (n, s2) = (if ee then ReadSectorsEE want ptr s1 else ReadSectors want ptr s1);
             if \<not> mode then Some (result + n, s2)
             else StRead_loop rd fuel ee sectors mode (want - n) (result + n)
                    (ptr + nat n * 2048) s2 })"

definition sceCdStRead ::
  "'d reader \<Rightarrow> nat \<Rightarrow> nat \<Rightarrow> bool \<Rightarrow> nat \<Rightarrow> bool \<Rightarrow>
     'd cdvd \<Rightarrow> (int \<times> cd_err option \<times> 'd cdvd) option" where
  "sceCdStRead rd fuel sectors ee buffer mode s =
     (let s0 = s\<lparr>cderr := SCECdErNO\<rparr> in
      if StStat s0 \<noteq> 0 then
        (case StRead_loop rd fuel ee sectors mode (int sectors) 0 buffer (s0\<lparr>ef8 := True\<rparr>) of
           None \<Rightarrow> None
         | Some (result, s1) \<Rightarrow> Some (result, Some (cderr s1), StStartFillStreamBuffer s1))
      else Some (0, None, s0))"

end
