(* ===== verification/Cdvd_Ring.thy ===== *)
theory Cdvd_Ring
  imports Cdvd_Stream
begin

text \<open>
  The ring of the streaming component as a queue of disc sectors: its geometry, what its slots
  hold, and what the two drain routines deliver.
\<close>

section \<open>What the ring holds\<close>

definition ring_region :: "'d cdvd \<Rightarrow> nat set" where
  "ring_region s = {StIOP_bufaddr s ..< StIOP_bufaddr s + StBufmax s * 2048}"

text \<open>Slot \<open>i\<close> of the queue: the sector \<open>i\<close> places after the read pointer.\<close>

definition slot_addr :: "'d cdvd \<Rightarrow> nat \<Rightarrow> nat" where
  "slot_addr s i = StIOP_bufaddr s + ((StReadPtr s + i) mod StBufmax s) * 2048"

definition stm_pos :: "'d cdvd \<Rightarrow> nat" where
  "stm_pos s = Stlsn s - StStreamed s"

definition ring_geom :: "'d cdvd \<Rightarrow> bool" where
  "ring_geom s \<longleftrightarrow> StBufmax s < 65536 \<and> 0 < StBanksize s \<and> 0 < StBufmax s \<and>
     StBanksize s dvd StBufmax s \<and> StWritePtr s < StBufmax s \<and> StReadPtr s < StBufmax s \<and>
     StBanksize s dvd StWritePtr s \<and> StStreamed s \<le> StBufmax s \<and>
     (StReadPtr s + StStreamed s) mod StBufmax s = StWritePtr s \<and> StStreamed s \<le> Stlsn s"

definition ring_data :: "(nat \<Rightarrow> u8 option) \<Rightarrow> 'd cdvd \<Rightarrow> bool" where
  "ring_data disc s \<longleftrightarrow> (\<forall>i < StStreamed s. \<forall>k < 2048.
     on_disc disc ((stm_pos s + i) * 2048 + k) (imem s (slot_addr s i + k)))"

definition req_region :: "read_req \<Rightarrow> nat set" where
  "req_region q = {cdread_buf q ..< cdread_buf q + cdread_sectors q * 2048}"

definition ring_pending :: "'d cdvd \<Rightarrow> bool" where
  "ring_pending s \<longleftrightarrow> (sync_flag s \<longleftrightarrow> pending s \<noteq> None) \<and>
     (if StIsReading s \<noteq> 0 then StStat s \<noteq> 0 \<and> stm0cb s \<and> StStreamed s + StBanksize s \<le> StBufmax s \<and>
        pending s = Some \<lparr>cdread_lba = Stlsn s, cdread_sectors = StBanksize s, sector_size = 2048,
                          cdread_buf = StIOP_bufaddr s + StWritePtr s * 2048\<rparr>
      else (case pending s of None \<Rightarrow> True
            | Some q \<Rightarrow> sector_size q = 2048 \<and> cdread_lba q + cdread_sectors q < u32_bound \<and>
                req_region q \<inter> ring_region s = {})) \<and>
     (StStat s = 0 \<longrightarrow> \<not> alarm s \<and> \<not> stm0cb s) \<and> (alarm s \<longrightarrow> stm0cb s)"

definition stm_inv :: "('d \<Rightarrow> bool) \<Rightarrow> (nat \<Rightarrow> u8 option) \<Rightarrow> nat \<Rightarrow> 'd cdvd \<Rightarrow> bool" where
  "stm_inv dinv disc lo s \<longleftrightarrow> ring_geom s \<and> ring_data disc s \<and> ring_pending s \<and> dinv (drv s) \<and>
     (StStat s \<noteq> 0 \<longrightarrow> lo \<le> Stlsn s)"

lemma ring_dataD:
  "ring_data disc s \<Longrightarrow> i < StStreamed s \<Longrightarrow> k < 2048 \<Longrightarrow>
     on_disc disc ((stm_pos s + i) * 2048 + k) (imem s (slot_addr s i + k))"
  by (simp add: ring_data_def)

section \<open>Draining\<close>

lemma ring_cases:
  assumes "ring_geom s"
  shows "(StWritePtr s \<le> StReadPtr s \<and> StStreamed s > 0 \<and> StStreamed s = StBufmax s - StReadPtr s + StWritePtr s)
    \<or> (StReadPtr s < StWritePtr s \<and> StStreamed s = StWritePtr s - StReadPtr s)
    \<or> (StReadPtr s = StWritePtr s \<and> StStreamed s = 0)"
proof -
  let ?B = "StBufmax s" and ?R = "StReadPtr s" and ?n = "StStreamed s"
  have "?R + ?n < ?B \<or> ?B \<le> ?R + ?n" by linarith
  moreover have "(?R + ?n) mod ?B = ?R + ?n - ?B" if "?B \<le> ?R + ?n"
    using that assms by (auto simp: ring_geom_def le_mod_geq)
  ultimately show ?thesis using assms by (auto simp: ring_geom_def)
qed

lemma u16_small: "0 \<le> i \<Longrightarrow> i < 65536 \<Longrightarrow> u16_of_int i = nat i"
  by (simp add: u16_of_int_def)

lemma u16_diff: "b \<le> a \<Longrightarrow> a < 65536 \<Longrightarrow> u16_of_int (int a - int b) = a - b"
  by (simp add: u16_small nat_diff_distrib)

lemma sectors_to_copy_min:
  assumes "0 \<le> avail" and "avail < 65536" and "0 \<le> want"
  shows "sectors_to_copy avail want = nat (min avail want)"
  using assms by (auto simp: sectors_to_copy_def u16_small)

lemma next_ptr_mod: "R < B \<Longrightarrow> n \<le> B - R \<Longrightarrow> B < 65536 \<Longrightarrow> next_ptr B R n = (R + n) mod B"
  by (auto simp: next_ptr_def Let_def le_mod_geq)

text \<open>One chunk, up to the end of the ring, taken by the drain.\<close>

definition drained :: "(nat \<Rightarrow> u8 option) \<Rightarrow> nat \<Rightarrow> nat \<Rightarrow> 'd cdvd \<Rightarrow> 'd cdvd \<Rightarrow> bool" where
  "drained disc n dst s s' \<longleftrightarrow>
     s' = s\<lparr>imem := imem s', StReadPtr := (StReadPtr s + n) mod StBufmax s, StStreamed := StStreamed s - n\<rparr> \<and>
     (\<forall>a. a < dst \<or> dst + n * 2048 \<le> a \<longrightarrow> imem s' a = imem s a) \<and>
     (\<forall>j < n * 2048. on_disc disc (stm_pos s * 2048 + j) (imem s' (dst + j)))"

lemma drained_0: "ring_geom s \<Longrightarrow> drained disc 0 dst s s"
  by (simp add: drained_def ring_geom_def)

lemma drained_streamed:
  "s' = s\<lparr>imem := m, StReadPtr := r, StStreamed := n\<rparr> \<Longrightarrow> StStreamed s' = n"
  by simp

lemma drained_geom:
  assumes "ring_geom s" and "drained disc n dst s s'" and "n \<le> StStreamed s"
  shows "ring_geom s'" and "stm_pos s' = stm_pos s + n"
    and "\<And>i. slot_addr s' i = slot_addr s (n + i)"
proof -
  have s': "s' = s\<lparr>imem := imem s', StReadPtr := (StReadPtr s + n) mod StBufmax s, StStreamed := StStreamed s - n\<rparr>"
    using assms(2) by (simp add: drained_def)
  have "((StReadPtr s + n) mod StBufmax s + (StStreamed s - n)) mod StBufmax s =
      (StReadPtr s + StStreamed s) mod StBufmax s"
    using assms(3) by (simp only: mod_add_left_eq) simp
  with assms show "ring_geom s'" by (subst s') (auto simp: ring_geom_def)
  show "stm_pos s' = stm_pos s + n"
    using assms by (subst s') (auto simp: stm_pos_def ring_geom_def)
  show "slot_addr s' i = slot_addr s (n + i)" for i
    by (subst s') (simp add: slot_addr_def mod_add_left_eq add.assoc)
qed

lemma slot_in_ring: "ring_geom s \<Longrightarrow> k < 2048 \<Longrightarrow> slot_addr s i + k \<in> ring_region s"
proof -
  assume g: "ring_geom s" and k: "k < 2048"
  then have "(StReadPtr s + i) mod StBufmax s + 1 \<le> StBufmax s" by (auto simp: ring_geom_def Suc_le_eq)
  then have "((StReadPtr s + i) mod StBufmax s + 1) * 2048 \<le> StBufmax s * 2048" by (rule mult_le_mono1)
  with k show ?thesis by (auto simp: slot_addr_def ring_region_def)
qed

lemma drained_data:
  assumes "ring_geom s" and "ring_data disc s" and "drained disc n dst s s'" and "n \<le> StStreamed s"
    and "{dst ..< dst + n * 2048} \<inter> ring_region s = {}"
  shows "ring_data disc s'"
proof -
  note g = drained_geom [OF assms(1,3,4)]
  have "s' = s\<lparr>imem := imem s', StReadPtr := (StReadPtr s + n) mod StBufmax s, StStreamed := StStreamed s - n\<rparr>"
    using assms(3) by (simp add: drained_def)
  then have st: "StStreamed s' = StStreamed s - n" by (metis drained_streamed)
  have "imem s' (slot_addr s (n + i) + k) = imem s (slot_addr s (n + i) + k)" if "k < 2048" for i k
  proof -
    have "slot_addr s (n + i) + k \<notin> {dst ..< dst + n * 2048}"
      using assms(5) slot_in_ring [OF assms(1) that, of "n + i"] by blast
    then have "slot_addr s (n + i) + k < dst \<or> dst + n * 2048 \<le> slot_addr s (n + i) + k" by auto
    with assms(3) show ?thesis unfolding drained_def by blast
  qed
  moreover have "on_disc disc ((stm_pos s + (n + i)) * 2048 + k) (imem s (slot_addr s (n + i) + k))"
    if "i < StStreamed s - n" "k < 2048" for i k
    using that by (intro ring_dataD [OF assms(2)]) auto
  ultimately show ?thesis unfolding ring_data_def g st by (simp add: add.assoc)
qed

lemma ring_copy:
  assumes "ring_geom s" and "ring_data disc s" and "off + n \<le> StStreamed s"
    and "(StReadPtr s + off) mod StBufmax s + n \<le> StBufmax s" and "j < n * 2048"
  shows "on_disc disc ((stm_pos s + off) * 2048 + j)
     (memcpy dm dst (imem s) (StIOP_bufaddr s + ((StReadPtr s + off) mod StBufmax s) * 2048)
      (n * 2048) (dst + j))"
proof -
  define i k where "i = j div 2048" and "k = j mod 2048"
  have jk: "j = i * 2048 + k" "k < 2048" by (auto simp: i_def k_def)
  have i: "i < n" using assms(5) by (simp add: i_def less_mult_imp_div_less)
  have "(StReadPtr s + (off + i)) mod StBufmax s = ((StReadPtr s + off) mod StBufmax s + i) mod StBufmax s"
    by (simp only: mod_add_left_eq add.assoc)
  also have "\<dots> = (StReadPtr s + off) mod StBufmax s + i" using assms(4) i by simp
  finally have "slot_addr s (off + i) = StIOP_bufaddr s + ((StReadPtr s + off) mod StBufmax s + i) * 2048"
    by (simp add: slot_addr_def)
  moreover have "on_disc disc ((stm_pos s + (off + i)) * 2048 + k) (imem s (slot_addr s (off + i) + k))"
    using assms(3) i jk(2) by (intro ring_dataD [OF assms(2)]) auto
  ultimately have "on_disc disc ((stm_pos s + (off + i)) * 2048 + k)
      (imem s (StIOP_bufaddr s + ((StReadPtr s + off) mod StBufmax s + i) * 2048 + k))" by simp
  with assms(5) show ?thesis by (simp add: memcpy_def jk(1) algebra_simps)
qed

lemma drain_chunk_drained:
  assumes "ring_geom s" and "ring_data disc s" and "n \<le> StStreamed s" and "n \<le> StBufmax s - StReadPtr s"
  shows "drained disc n dst s (drain_chunk n dst s)"
proof -
  have b: "StReadPtr s < StBufmax s" "StBufmax s < 65536" "StStreamed s \<le> StBufmax s"
    using assms(1) by (auto simp: ring_geom_def)
  have "on_disc disc (stm_pos s * 2048 + j)
      (memcpy (imem s) dst (imem s) (StIOP_bufaddr s + StReadPtr s * 2048) (n * 2048) (dst + j))" if "j < n * 2048" for j
    using ring_copy [OF assms(1,2), of 0 n j] assms(3,4) b that by simp
  moreover have "next_ptr (StBufmax s) (StReadPtr s) n = (StReadPtr s + n) mod StBufmax s"
    using next_ptr_mod b assms(4) by simp
  moreover have "u16_of_int (int (StStreamed s) - int n) = StStreamed s - n"
    using assms(3) b by (simp add: u16_small)
  ultimately show ?thesis by (auto simp: drained_def drain_chunk_def memcpy_def)
qed

lemma drained_trans:
  assumes "drained disc n dst s s1" and "drained disc m (dst + n * 2048) s1 s2" and "ring_geom s"
    and "n \<le> StStreamed s"
  shows "drained disc (n + m) dst s s2"
proof -
  note g = drained_geom [OF assms(3,1,4)]
  have s1: "s1 = s\<lparr>imem := imem s1, StReadPtr := (StReadPtr s + n) mod StBufmax s, StStreamed := StStreamed s - n\<rparr>"
    using assms(1) by (simp add: drained_def)
  have "s2 = s1\<lparr>imem := imem s2, StReadPtr := (StReadPtr s1 + m) mod StBufmax s1, StStreamed := StStreamed s1 - m\<rparr>"
    using assms(2) by (simp add: drained_def)
  then have eq: "s2 = s\<lparr>imem := imem s2, StReadPtr := (StReadPtr s + (n + m)) mod StBufmax s,
      StStreamed := StStreamed s - (n + m)\<rparr>"
    by (subst (asm) s1, subst (asm) (2) s1, subst (asm) (3) s1, subst (asm) (4) s1)
      (simp add: mod_add_left_eq add.assoc)
  moreover have "on_disc disc (stm_pos s * 2048 + j) (imem s2 (dst + j))" if "j < (n + m) * 2048" for j
  proof (cases "j < n * 2048")
    case True
    with assms(1,2) show ?thesis by (auto simp: drained_def)
  next
    case False
    then obtain i where i: "j = n * 2048 + i" by (metis le_Suc_ex linorder_not_less)
    with that have "i < m * 2048" by (simp add: algebra_simps)
    with assms(2) g(2) show ?thesis by (auto simp: drained_def i algebra_simps)
  qed
  moreover have "imem s2 a = imem s a" if "a < dst \<or> dst + (n + m) * 2048 \<le> a" for a
    using that assms(1,2) by (auto simp: drained_def algebra_simps)
  ultimately show ?thesis unfolding drained_def by blast
qed

lemma drain_chunk_sel:
  "StWritePtr (drain_chunk n dst s) = StWritePtr s"
  "StReadPtr (drain_chunk n dst s) = next_ptr (StBufmax s) (StReadPtr s) n"
  "StBufmax (drain_chunk n dst s) = StBufmax s"
  "StStreamed (drain_chunk n dst s) = u16_of_int (int (StStreamed s) - int n)"
  by (simp_all add: drain_chunk_def)

lemma ReadSectors_two:
  assumes g: "ring_geom s" and d: "ring_data disc s"
    and w: "StWritePtr s \<le> StReadPtr s" "0 < StStreamed s"
    and n1: "n1 = StBufmax s - StReadPtr s"
    and s1: "sectors_to_copy (int (StBufmax s) - int (StReadPtr s)) maxcount = n1"
    and p1: "0 < n1" and m: "int n1 < maxcount" and pos: "0 < StWritePtr s"
    and s2: "sectors_to_copy (int (StWritePtr s)) (maxcount - int n1) = n2"
    and p2: "0 < n2" and l2: "n2 \<le> StWritePtr s" and le: "n1 + n2 \<le> StStreamed s"
    and dj: "{dst ..< dst + (n1 + n2) * 2048} \<inter> ring_region s = {}"
  shows "\<exists>s'. ReadSectors maxcount dst s = (int n1 + int n2, s') \<and> drained disc (n1 + n2) dst s s'"
proof (intro exI conjI)
  let ?s1 = "drain_chunk n1 dst s"
  have b: "StReadPtr s < StBufmax s" "StWritePtr s < StBufmax s" "StBufmax s < 65536"
    "StStreamed s < 65536" using g by (auto simp: ring_geom_def)
  have le1: "n1 \<le> StStreamed s" "n1 \<le> StBufmax s - StReadPtr s" using le n1 by auto
  have r1: "next_ptr (StBufmax s) (StReadPtr s) n1 = 0"
    using next_ptr_mod [of "StReadPtr s" "StBufmax s" n1] b by (simp add: n1)
  show "ReadSectors maxcount dst s = (int n1 + int n2, drain_chunk n2 (dst + n1 * 2048) ?s1)"
    using w s1 p1 m pos s2 p2 r1 by (simp add: ReadSectors_def Let_def drain_chunk_sel)
  have dr1: "drained disc n1 dst s ?s1" by (rule drain_chunk_drained [OF g d le1])
  have "{dst ..< dst + n1 * 2048} \<subseteq> {dst ..< dst + (n1 + n2) * 2048}" by auto
  with dj have dj1: "{dst ..< dst + n1 * 2048} \<inter> ring_region s = {}" by blast
  have dr2: "drained disc n2 (dst + n1 * 2048) ?s1 (drain_chunk n2 (dst + n1 * 2048) ?s1)"
  proof (rule drain_chunk_drained)
    show "ring_geom ?s1" by (rule drained_geom [OF g dr1 le1(1)])
    show "ring_data disc ?s1" by (rule drained_data [OF g d dr1 le1(1) dj1])
    show "n2 \<le> StStreamed ?s1" unfolding drain_chunk_sel u16_diff [OF le1(1) b(4)] using le by linarith
    show "n2 \<le> StBufmax ?s1 - StReadPtr ?s1" using l2 b r1 by (simp add: drain_chunk_sel)
  qed
  show "drained disc (n1 + n2) dst s (drain_chunk n2 (dst + n1 * 2048) ?s1)"
    by (rule drained_trans [OF dr1 dr2 g le1(1)])
qed

lemma ReadSectors_drained:
  assumes g: "ring_geom s" and d: "ring_data disc s" and mc: "0 \<le> maxcount"
    and dj: "{dst ..< dst + nat (min (int (StStreamed s)) maxcount) * 2048} \<inter> ring_region s = {}"
  shows "\<exists>s'. ReadSectors maxcount dst s = (min (int (StStreamed s)) maxcount, s') \<and>
    drained disc (nat (min (int (StStreamed s)) maxcount)) dst s s'"
proof -
  have b: "StReadPtr s < StBufmax s" "StWritePtr s < StBufmax s" "StBufmax s < 65536"
    "StStreamed s < 65536"
    using g by (auto simp: ring_geom_def)
  consider (wrap) "StWritePtr s \<le> StReadPtr s" "StStreamed s > 0"
      "StStreamed s = StBufmax s - StReadPtr s + StWritePtr s"
    | (plain) "StReadPtr s < StWritePtr s" "StStreamed s = StWritePtr s - StReadPtr s"
    | (empty) "StReadPtr s = StWritePtr s" "StStreamed s = 0"
    using ring_cases [OF g] by metis
  then show ?thesis
  proof cases
    case empty
    with mc drained_0 [OF g] show ?thesis by (simp add: ReadSectors_def)
  next
    case plain
    let ?n = "nat (min (int (StStreamed s)) maxcount)"
    have n: "sectors_to_copy (int (StWritePtr s) - int (StReadPtr s)) maxcount = ?n"
      using plain b mc by (subst sectors_to_copy_min) auto
    have "drained disc ?n dst s (drain_chunk ?n dst s)"
      using plain b by (intro drain_chunk_drained [OF g d]) auto
    with plain n mc drained_0 [OF g] show ?thesis by (auto simp: ReadSectors_def Let_def)
  next
    case wrap
    let ?n1 = "nat (min (int (StBufmax s) - int (StReadPtr s)) maxcount)"
    have n1: "sectors_to_copy (int (StBufmax s) - int (StReadPtr s)) maxcount = ?n1"
      using b mc by (subst sectors_to_copy_min) auto
    let ?s1 = "drain_chunk ?n1 dst s"
    have le1: "?n1 \<le> StStreamed s" "?n1 \<le> StBufmax s - StReadPtr s" using wrap(3) b by auto
    have dr1: "drained disc ?n1 dst s ?s1" by (rule drain_chunk_drained [OF g d le1])
    show ?thesis
    proof (cases "maxcount \<le> int (StBufmax s) - int (StReadPtr s)")
      case True
      with wrap b mc n1 dr1 drained_0 [OF g] show ?thesis
        by (cases "maxcount = 0") (auto simp: ReadSectors_def Let_def min_def)
    next
      case False
      then have e1: "?n1 = StBufmax s - StReadPtr s" "0 < ?n1" using b by auto
      have "next_ptr (StBufmax s) (StReadPtr s) ?n1 = (StReadPtr s + ?n1) mod StBufmax s"
        by (rule next_ptr_mod) (use b le1 in auto)
      also have "\<dots> = 0" unfolding e1(1) using b by simp
      finally have r1: "StReadPtr ?s1 = 0" by (simp only: drain_chunk_sel)
      let ?n2 = "nat (min (int (StWritePtr s)) (maxcount - int ?n1))"
      have tot: "nat (min (int (StStreamed s)) maxcount) = ?n1 + ?n2" using wrap e1 False b by auto
      have n2: "sectors_to_copy (int (StWritePtr s)) (maxcount - int ?n1) = ?n2"
        using b False by (subst sectors_to_copy_min) auto
      show ?thesis
      proof (cases "StWritePtr s = 0")
        case True
        with wrap e1 n1 r1 dr1 False b show ?thesis
          by (auto simp: ReadSectors_def Let_def drain_chunk_sel min_def)
      next
        case pos: False
        have res: "min (int (StStreamed s)) maxcount = int ?n1 + int ?n2" using tot mc by linarith
        have le: "?n1 + ?n2 \<le> StStreamed s" unfolding tot [symmetric] by simp
        have 12: "int ?n1 < maxcount" "0 < ?n2" "0 < StWritePtr s" "?n2 \<le> StWritePtr s"
          using False b pos by auto
        from ReadSectors_two [OF g d wrap(1,2) e1(1) n1 e1(2) 12(1) 12(3) n2 12(2) 12(4) le dj [unfolded tot]]
        show ?thesis unfolding tot unfolding res .
      qed
    qed
  qed
qed

text \<open>The EE variant: the same count and pointers, the sectors in EE memory.\<close>

definition drained_ee :: "(nat \<Rightarrow> u8 option) \<Rightarrow> nat \<Rightarrow> nat \<Rightarrow> 'd cdvd \<Rightarrow> 'd cdvd \<Rightarrow> bool" where
  "drained_ee disc n dst s s' \<longleftrightarrow>
     s' = s\<lparr>emem := emem s', StReadPtr := (StReadPtr s + n) mod StBufmax s, StStreamed := StStreamed s - n\<rparr> \<and>
     (\<forall>a. a < dst \<or> dst + n * 2048 \<le> a \<longrightarrow> emem s' a = emem s a) \<and>
     (\<forall>j < n * 2048. on_disc disc (stm_pos s * 2048 + j) (emem s' (dst + j)))"

lemma drained_ee_two:
  assumes g: "ring_geom s" and d: "ring_data disc s" and n: "n1 + n2 \<le> StStreamed s"
    and w1: "StReadPtr s + n1 \<le> StBufmax s"
    and w2: "n2 \<noteq> 0 \<Longrightarrow> (StReadPtr s + n1) mod StBufmax s + n2 \<le> StBufmax s"
    and s': "s' = s\<lparr>emem := memcpy (memcpy (emem s) dst (imem s) (StIOP_bufaddr s + StReadPtr s * 2048) (n1 * 2048))
        (dst + n1 * 2048) (imem s) (StIOP_bufaddr s + ((StReadPtr s + n1) mod StBufmax s) * 2048) (n2 * 2048),
      StReadPtr := (StReadPtr s + (n1 + n2)) mod StBufmax s, StStreamed := StStreamed s - (n1 + n2)\<rparr>"
  shows "drained_ee disc (n1 + n2) dst s s'"
proof -
  have R: "StReadPtr s mod StBufmax s = StReadPtr s" using g by (simp add: ring_geom_def)
  have "on_disc disc (stm_pos s * 2048 + j) (emem s' (dst + j))" if j: "j < (n1 + n2) * 2048" for j
  proof (cases "j < n1 * 2048")
    case True
    then show ?thesis
      using ring_copy [OF g d, of 0 n1 j "emem s" dst] n w1 by (simp add: s' R memcpy_miss)
  next
    case False
    then obtain i where i: "j = n1 * 2048 + i" by (metis le_Suc_ex linorder_not_less)
    with j have i2: "i < n2 * 2048" "n2 \<noteq> 0" by (auto simp: algebra_simps)
    have "on_disc disc ((stm_pos s + n1) * 2048 + i) (emem s' (dst + n1 * 2048 + i))"
      using ring_copy [OF g d n w2 [OF i2(2)] i2(1)] by (simp add: s')
    then show ?thesis by (simp add: i algebra_simps)
  qed
  moreover have "emem s' a = emem s a" if "a < dst \<or> dst + (n1 + n2) * 2048 \<le> a" for a
    using that by (auto simp: s' memcpy_miss algebra_simps)
  ultimately show ?thesis unfolding drained_ee_def by (simp add: s')
qed

lemma two_copies:
  assumes "StWritePtr s \<le> StReadPtr s" and "0 < StStreamed s"
    and "sectors_to_copy (int (StBufmax s) - int (StReadPtr s)) maxcount = n1" and "0 < n1"
    and "int n1 < maxcount" and "next_ptr (StBufmax s) (StReadPtr s) n1 = 0"
    and "0 < StWritePtr s" and "sectors_to_copy (int (StWritePtr s)) (maxcount - int n1) = n2" and "0 < n2"
    and "u16_of_int (int (StStreamed s) - int (n1 + n2)) = k"
  shows "ReadSectorsEE maxcount dst s = (int n1 + int n2,
    s\<lparr>emem := memcpy (memcpy (emem s) dst (imem s) (StIOP_bufaddr s + StReadPtr s * 2048) (n1 * 2048))
         (dst + n1 * 2048) (imem s) (StIOP_bufaddr s) (n2 * 2048),
       StReadPtr := next_ptr (StBufmax s) 0 n2, StStreamed := k\<rparr>)"
  using assms by (simp add: ReadSectorsEE_def Let_def)

lemma ReadSectorsEE_two:
  assumes g: "ring_geom s" and d: "ring_data disc s"
    and w: "StWritePtr s \<le> StReadPtr s" "0 < StStreamed s"
    and n1: "n1 = StBufmax s - StReadPtr s"
    and s1: "sectors_to_copy (int (StBufmax s) - int (StReadPtr s)) maxcount = n1"
    and p1: "0 < n1" and m: "int n1 < maxcount" and pos: "0 < StWritePtr s"
    and s2: "sectors_to_copy (int (StWritePtr s)) (maxcount - int n1) = n2"
    and p2: "0 < n2" and l2: "n2 \<le> StWritePtr s" and le: "n1 + n2 \<le> StStreamed s"
  shows "\<exists>s'. ReadSectorsEE maxcount dst s = (int n1 + int n2, s') \<and>
    drained_ee disc (n1 + n2) dst s s'"
proof -
  have b: "StReadPtr s < StBufmax s" "StWritePtr s < StBufmax s" "StBufmax s < 65536"
    "StStreamed s < 65536" using g by (auto simp: ring_geom_def)
  have r1: "next_ptr (StBufmax s) (StReadPtr s) n1 = 0" "(StReadPtr s + n1) mod StBufmax s = 0"
    using next_ptr_mod [of "StReadPtr s" "StBufmax s" n1] b by (simp_all add: n1)
  have "(StReadPtr s + (n1 + n2)) mod StBufmax s = ((StReadPtr s + n1) mod StBufmax s + n2) mod StBufmax s"
    by (simp only: mod_add_left_eq add.assoc)
  also have "\<dots> = n2" using r1(2) b l2 by simp
  also have "n2 = next_ptr (StBufmax s) 0 n2" using next_ptr_mod [of 0 "StBufmax s" n2] b l2 by simp
  finally have r2: "next_ptr (StBufmax s) 0 n2 = (StReadPtr s + (n1 + n2)) mod StBufmax s" ..
  show ?thesis
    unfolding two_copies [OF w s1 p1 m r1(1) pos s2 p2 u16_diff [OF le b(4)]]
  proof (intro exI conjI, rule refl, rule drained_ee_two [OF g d le])
    show "StReadPtr s + n1 \<le> StBufmax s" using n1 b by simp
    show "(StReadPtr s + n1) mod StBufmax s + n2 \<le> StBufmax s" using r1(2) b l2 by simp
  qed (simp add: r1(2) r2)
qed

lemma ReadSectorsEE_drained:
  assumes g: "ring_geom s" and d: "ring_data disc s" and mc: "0 \<le> maxcount"
  shows "\<exists>s'. ReadSectorsEE maxcount dst s = (min (int (StStreamed s)) maxcount, s') \<and>
    drained_ee disc (nat (min (int (StStreamed s)) maxcount)) dst s s'"
proof -
  have b: "StReadPtr s < StBufmax s" "StWritePtr s < StBufmax s" "StBufmax s < 65536"
    "StStreamed s \<le> StBufmax s"
    using g by (auto simp: ring_geom_def)
  have none: "drained_ee disc 0 dst s s" using b by (simp add: drained_ee_def)
  have one: "drained_ee disc n dst s
      (s\<lparr>emem := sif_dma (imem s) [(StIOP_bufaddr s + StReadPtr s * 2048, dst, n * 2048)] (emem s),
         StReadPtr := next_ptr (StBufmax s) (StReadPtr s) n, StStreamed := u16_of_int (int (StStreamed s) - int n)\<rparr>)"
    if n: "n \<le> StStreamed s" "n \<le> StBufmax s - StReadPtr s" for n
    using drained_ee_two [OF g d, of n 0 _ dst] n b by (simp add: memcpy_0 next_ptr_mod u16_diff)
  consider (wrap) "StWritePtr s \<le> StReadPtr s" "StStreamed s > 0"
      "StStreamed s = StBufmax s - StReadPtr s + StWritePtr s"
    | (plain) "StReadPtr s < StWritePtr s" "StStreamed s = StWritePtr s - StReadPtr s"
    | (empty) "StReadPtr s = StWritePtr s" "StStreamed s = 0"
    using ring_cases [OF g] by metis
  then show ?thesis
  proof cases
    case empty
    with mc none show ?thesis by (simp add: ReadSectorsEE_def)
  next
    case plain
    let ?n = "nat (min (int (StWritePtr s) - int (StReadPtr s)) maxcount)"
    have n: "sectors_to_copy (int (StWritePtr s) - int (StReadPtr s)) maxcount = ?n"
      using plain b mc by (subst sectors_to_copy_min) auto
    show ?thesis
    proof (cases "maxcount = 0")
      case True
      with plain none show ?thesis by (simp add: ReadSectorsEE_def)
    next
      case False
      with plain n mc b one [of ?n] show ?thesis
        by (auto simp: ReadSectorsEE_def Let_def of_nat_diff)
    qed
  next
    case wrap
    let ?n1 = "nat (min (int (StBufmax s) - int (StReadPtr s)) maxcount)"
    have n1: "sectors_to_copy (int (StBufmax s) - int (StReadPtr s)) maxcount = ?n1"
      using b mc by (subst sectors_to_copy_min) auto
    have le1: "?n1 \<le> StStreamed s" "?n1 \<le> StBufmax s - StReadPtr s" using wrap(3) b by auto
    show ?thesis
    proof (cases "maxcount \<le> int (StBufmax s) - int (StReadPtr s)")
      case True
      with wrap b mc n1 one [OF le1] none show ?thesis
        by (cases "maxcount = 0") (auto simp: ReadSectorsEE_def Let_def min_def of_nat_diff)
    next
      case False
      then have e1: "?n1 = StBufmax s - StReadPtr s" "0 < ?n1" using b by auto
      have r1: "next_ptr (StBufmax s) (StReadPtr s) ?n1 = 0" "(StReadPtr s + ?n1) mod StBufmax s = 0"
        using next_ptr_mod [OF b(1) le1(2) b(3)] unfolding e1(1) using b by simp_all
      let ?n2 = "nat (min (int (StWritePtr s)) (maxcount - int ?n1))"
      have tot: "nat (min (int (StStreamed s)) maxcount) = ?n1 + ?n2" using wrap e1 False b by auto
      have n2: "sectors_to_copy (int (StWritePtr s)) (maxcount - int ?n1) = ?n2"
        using b False by (subst sectors_to_copy_min) auto
      show ?thesis
      proof (cases "StWritePtr s = 0")
        case True
        with wrap e1 n1 r1 one [OF le1] False b show ?thesis
          by (auto simp: ReadSectorsEE_def Let_def min_def)
      next
        case pos: False
        have res: "min (int (StStreamed s)) maxcount = int ?n1 + int ?n2" using tot mc by linarith
        have le: "?n1 + ?n2 \<le> StStreamed s" unfolding tot [symmetric] by simp
        have 12: "int ?n1 < maxcount" "0 < ?n2" "0 < StWritePtr s" "?n2 \<le> StWritePtr s"
          using False b pos by auto
        from ReadSectorsEE_two [OF g d wrap(1,2) e1(1) n1 e1(2) 12(1) 12(3) n2 12(2) 12(4) le]
        show ?thesis unfolding tot unfolding res .
      qed
    qed
  qed
qed

end
