(* ===== verification/Cdvd_Stream_Inv.thy ===== *)
theory Cdvd_Stream_Inv
  imports Cdvd_Ring
begin

text \<open>
  The invariant of the streaming component and its preservation by every operation of the
  API, the read thread and the retry alarm, whatever disc reader satisfies the contract
  \<open>disc_reader\<close>; the operations as a step relation.
\<close>

section \<open>Fields the ring does not depend on\<close>

lemma ring_frame [simp]:
  "ring_geom (s\<lparr>cderr := e\<rparr>) = ring_geom s" "ring_geom (s\<lparr>cdstatus := c\<rparr>) = ring_geom s"
  "ring_geom (s\<lparr>sync_flag := b\<rparr>) = ring_geom s" "ring_geom (s\<lparr>pending := p\<rparr>) = ring_geom s"
  "ring_geom (s\<lparr>stm0cb := b\<rparr>) = ring_geom s" "ring_geom (s\<lparr>alarm := b\<rparr>) = ring_geom s"
  "ring_geom (s\<lparr>ef8 := b\<rparr>) = ring_geom s" "ring_geom (s\<lparr>StIsReading := n\<rparr>) = ring_geom s"
  "ring_geom (s\<lparr>StStat := n\<rparr>) = ring_geom s" "ring_geom (s\<lparr>drv := d\<rparr>) = ring_geom s"
  "ring_geom (s\<lparr>imem := m\<rparr>) = ring_geom s" "ring_geom (s\<lparr>emem := m\<rparr>) = ring_geom s"
  "ring_data disc (s\<lparr>cderr := e\<rparr>) = ring_data disc s" "ring_data disc (s\<lparr>cdstatus := c\<rparr>) = ring_data disc s"
  "ring_data disc (s\<lparr>sync_flag := b\<rparr>) = ring_data disc s" "ring_data disc (s\<lparr>pending := p\<rparr>) = ring_data disc s"
  "ring_data disc (s\<lparr>stm0cb := b\<rparr>) = ring_data disc s" "ring_data disc (s\<lparr>alarm := b\<rparr>) = ring_data disc s"
  "ring_data disc (s\<lparr>ef8 := b\<rparr>) = ring_data disc s" "ring_data disc (s\<lparr>StIsReading := n\<rparr>) = ring_data disc s"
  "ring_data disc (s\<lparr>StStat := n\<rparr>) = ring_data disc s" "ring_data disc (s\<lparr>drv := d\<rparr>) = ring_data disc s"
  "ring_data disc (s\<lparr>emem := em\<rparr>) = ring_data disc s"
  by (simp_all add: ring_geom_def ring_data_def slot_addr_def stm_pos_def)

lemma region_frame [simp]:
  "ring_region (s\<lparr>cderr := e\<rparr>) = ring_region s" "ring_region (s\<lparr>cdstatus := c\<rparr>) = ring_region s"
  "ring_region (s\<lparr>sync_flag := b\<rparr>) = ring_region s" "ring_region (s\<lparr>pending := p\<rparr>) = ring_region s"
  "ring_region (s\<lparr>stm0cb := b\<rparr>) = ring_region s" "ring_region (s\<lparr>alarm := b\<rparr>) = ring_region s"
  "ring_region (s\<lparr>ef8 := b\<rparr>) = ring_region s" "ring_region (s\<lparr>StIsReading := n\<rparr>) = ring_region s"
  "ring_region (s\<lparr>StStat := n\<rparr>) = ring_region s" "ring_region (s\<lparr>drv := d\<rparr>) = ring_region s"
  "ring_region (s\<lparr>imem := m\<rparr>) = ring_region s" "ring_region (s\<lparr>emem := m\<rparr>) = ring_region s"
  "ring_region (s\<lparr>StWritePtr := n\<rparr>) = ring_region s" "ring_region (s\<lparr>StReadPtr := n\<rparr>) = ring_region s"
  "ring_region (s\<lparr>StStreamed := n\<rparr>) = ring_region s" "ring_region (s\<lparr>Stlsn := n\<rparr>) = ring_region s"
  by (simp_all add: ring_region_def)

lemma pending_frame [simp]:
  "ring_pending (s\<lparr>cderr := e\<rparr>) = ring_pending s" "ring_pending (s\<lparr>cdstatus := c\<rparr>) = ring_pending s"
  "ring_pending (s\<lparr>ef8 := b\<rparr>) = ring_pending s" "ring_pending (s\<lparr>emem := m\<rparr>) = ring_pending s"
  "ring_pending (s\<lparr>imem := m\<rparr>) = ring_pending s" "ring_pending (s\<lparr>drv := d\<rparr>) = ring_pending s"
  by (simp_all add: ring_pending_def ring_region_def split: option.splits)

lemma stm_inv_frame [simp]:
  "stm_inv P disc l (s\<lparr>cderr := e\<rparr>) = stm_inv P disc l s"
  "stm_inv P disc l (s\<lparr>cdstatus := c\<rparr>) = stm_inv P disc l s"
  "stm_inv P disc l (s\<lparr>ef8 := b\<rparr>) = stm_inv P disc l s"
  "stm_inv P disc l (s\<lparr>emem := em\<rparr>) = stm_inv P disc l s"
  by (simp_all add: stm_inv_def)

section \<open>Filling a bank\<close>

text \<open>The state after \<^verbatim>\<open>StmCallback\<close> has accounted for the bank just read.\<close>

definition bank_done :: "'d cdvd \<Rightarrow> 'd cdvd" where
  "bank_done s = s\<lparr>Stlsn := Stlsn s + StBanksize s, StStreamed := StStreamed s + StBanksize s,
     StWritePtr := (if StWritePtr s + StBanksize s \<ge> StBufmax s then 0 else StWritePtr s + StBanksize s),
     StIsReading := 0\<rparr>"

lemma bank_fits:
  assumes "ring_geom s"
  shows "StWritePtr s + StBanksize s \<le> StBufmax s"
proof -
  obtain a b where a: "StWritePtr s = StBanksize s * a" and b: "StBufmax s = StBanksize s * b"
    using assms by (auto simp: ring_geom_def dvd_def)
  with assms have "a < b" by (auto simp: ring_geom_def)
  then have "StBanksize s * (a + 1) \<le> StBanksize s * b" by (intro mult_le_mono2) simp
  then show ?thesis by (simp add: a b)
qed

lemma free_slot:
  assumes "ring_geom s" and "StStreamed s + StBanksize s \<le> StBufmax s"
    and "i < StStreamed s" and "j < StBanksize s"
  shows "(StReadPtr s + i) mod StBufmax s \<noteq> StWritePtr s + j"
proof
  let ?B = "StBufmax s"
  assume eq: "(StReadPtr s + i) mod ?B = StWritePtr s + j"
  have "StWritePtr s + j < ?B" using bank_fits [OF assms(1)] assms(4) by simp
  moreover have "(StWritePtr s + j) mod ?B = (StReadPtr s + (StStreamed s + j)) mod ?B"
    using assms(1) unfolding ring_geom_def by (metis add.assoc mod_add_left_eq)
  ultimately have "(StReadPtr s + (StStreamed s + j)) mod ?B = (StReadPtr s + i) mod ?B"
    using eq by simp
  then have "?B dvd (StReadPtr s + (StStreamed s + j)) - (StReadPtr s + i)"
    using assms(3) by (subst (asm) mod_eq_dvd_iff_nat) auto
  then have "?B \<le> StStreamed s + j - i" using assms(3) by (intro dvd_imp_le) auto
  with assms show False by simp
qed

lemma bank_done_geom:
  assumes g: "ring_geom s" and f: "StStreamed s + StBanksize s \<le> StBufmax s"
  shows "ring_geom (bank_done s)" and "stm_pos (bank_done s) = stm_pos s"
proof -
  let ?B = "StBufmax s" and ?K = "StBanksize s" and ?W = "StWritePtr s"
  note fit = bank_fits [OF g]
  have "(StReadPtr s + (StStreamed s + ?K)) mod ?B = (?W + ?K) mod ?B"
    using g unfolding ring_geom_def by (metis add.assoc mod_add_left_eq)
  also have "\<dots> = (if ?W + ?K \<ge> ?B then 0 else ?W + ?K)"
    using fit by (cases "?W + ?K = ?B") auto
  finally have "(StReadPtr s + (StStreamed s + ?K)) mod ?B = (if ?W + ?K \<ge> ?B then 0 else ?W + ?K)" .
  then show "ring_geom (bank_done s)" using g f by (auto simp: ring_geom_def bank_done_def)
  show "stm_pos (bank_done s) = stm_pos s" by (simp add: stm_pos_def bank_done_def)
qed

lemma slot_not_free:
  assumes g: "ring_geom s" and f: "StStreamed s + StBanksize s \<le> StBufmax s"
    and i: "i < StStreamed s" and k: "k < 2048"
  shows "slot_addr s i + k < StIOP_bufaddr s + StWritePtr s * 2048 \<or>
    StIOP_bufaddr s + StWritePtr s * 2048 + StBanksize s * 2048 \<le> slot_addr s i + k"
proof -
  let ?x = "(StReadPtr s + i) mod StBufmax s"
  have "\<not> (StWritePtr s \<le> ?x \<and> ?x < StWritePtr s + StBanksize s)"
    using free_slot [OF g f i] by (metis le_Suc_ex nat_add_left_cancel_less)
  then have "?x + 1 \<le> StWritePtr s \<or> StWritePtr s + StBanksize s \<le> ?x" by linarith
  then have "(?x + 1) * 2048 \<le> StWritePtr s * 2048 \<or> (StWritePtr s + StBanksize s) * 2048 \<le> ?x * 2048"
    by (metis mult_le_mono1)
  with k show ?thesis by (auto simp: slot_addr_def add_mult_distrib)
qed

lemma bank_done_data:
  assumes g: "ring_geom s" and f: "StStreamed s + StBanksize s \<le> StBufmax s" and d: "ring_data disc s"
    and hit: "\<And>k. k < StBanksize s * 2048 \<Longrightarrow>
      on_disc disc (Stlsn s * 2048 + k) (m (StIOP_bufaddr s + StWritePtr s * 2048 + k))"
    and miss: "\<And>a. a < StIOP_bufaddr s + StWritePtr s * 2048 \<or>
      StIOP_bufaddr s + StWritePtr s * 2048 + StBanksize s * 2048 \<le> a \<Longrightarrow> m a = imem s a"
  shows "ring_data disc (bank_done (s\<lparr>imem := m\<rparr>))"
  unfolding ring_data_def
proof (intro allI impI)
  fix i k :: nat
  assume i: "i < StStreamed (bank_done (s\<lparr>imem := m\<rparr>))" and k: "k < 2048"
  let ?B = "StBufmax s"
  have slot: "slot_addr (bank_done (s\<lparr>imem := m\<rparr>)) i = slot_addr s i"
    by (simp add: slot_addr_def bank_done_def)
  have pos: "stm_pos (bank_done (s\<lparr>imem := m\<rparr>)) = stm_pos s" by (simp add: stm_pos_def bank_done_def)
  have "on_disc disc ((stm_pos s + i) * 2048 + k) (m (slot_addr s i + k))"
  proof (cases "i < StStreamed s")
    case True
    from miss [OF slot_not_free [OF g f True k]] d True k show ?thesis by (auto simp: ring_data_def)
  next
    case False
    then obtain j where j: "i = StStreamed s + j" by (metis le_Suc_ex linorder_not_less)
    with i have jB: "j < StBanksize s" by (simp add: bank_done_def)
    have "(StReadPtr s + i) mod ?B = (StWritePtr s + j) mod ?B"
      using g unfolding ring_geom_def j by (metis add.assoc mod_add_left_eq)
    also have "\<dots> = StWritePtr s + j" using bank_fits [OF g] jB by simp
    finally have x: "slot_addr s i + k = StIOP_bufaddr s + StWritePtr s * 2048 + (j * 2048 + k)"
      by (simp add: slot_addr_def algebra_simps)
    have "(j + 1) * 2048 \<le> StBanksize s * 2048" using jB by (intro mult_le_mono1) simp
    then have "j * 2048 + k < StBanksize s * 2048" using k by simp
    from hit [OF this] have "on_disc disc (Stlsn s * 2048 + (j * 2048 + k)) (m (slot_addr s i + k))"
      unfolding x .
    moreover have "stm_pos s + i = Stlsn s + j" using g j by (simp add: stm_pos_def ring_geom_def)
    ultimately show ?thesis by (simp add: algebra_simps)
  qed
  then show "on_disc disc ((stm_pos (bank_done (s\<lparr>imem := m\<rparr>)) + i) * 2048 + k)
      (imem (bank_done (s\<lparr>imem := m\<rparr>)) (slot_addr (bank_done (s\<lparr>imem := m\<rparr>)) i + k))"
    unfolding slot pos by (simp add: bank_done_def)
qed

section \<open>Starting a fill\<close>

lemma StFill_eq:
  "StFillStreamBuffer s =
     (if StIsReading s \<noteq> 0 then (0, s)
      else if StBufmax s < StStreamed s + StBanksize s then (1, s\<lparr>alarm := False, StIsReading := 0\<rparr>)
      else if sync_flag s then (-1, s\<lparr>alarm := False, StIsReading := 0\<rparr>)
      else (0, s\<lparr>alarm := False, StIsReading := 1, sync_flag := True,
             pending := Some \<lparr>cdread_lba = Stlsn s, cdread_sectors = StBanksize s, sector_size = 2048,
                          cdread_buf = StIOP_bufaddr s + StWritePtr s * 2048\<rparr>\<rparr>))"
  by (auto simp: StFillStreamBuffer_def Let_def AllocBank_def cdvdman_AsyncRead_def cdvdman_common_lock_def)

lemma pending_idle:
  "ring_pending s \<Longrightarrow> StStat s \<noteq> 0 \<Longrightarrow> StIsReading s = 0 \<Longrightarrow>
     ring_pending (s\<lparr>alarm := False, StIsReading := 0\<rparr>)"
  by (simp add: ring_pending_def split: option.splits)

lemma pending_armed:
  "ring_pending s \<Longrightarrow> stm0cb s \<Longrightarrow> StStat s \<noteq> 0 \<Longrightarrow> ring_pending (s\<lparr>alarm := True\<rparr>)"
  by (simp add: ring_pending_def split: option.splits)

lemma pending_started:
  "stm0cb s \<Longrightarrow> StStat s \<noteq> 0 \<Longrightarrow> StStreamed s + StBanksize s \<le> StBufmax s \<Longrightarrow>
     ring_pending (s\<lparr>alarm := False, StIsReading := 1, sync_flag := True,
       pending := Some \<lparr>cdread_lba = Stlsn s, cdread_sectors = StBanksize s, sector_size = 2048,
                          cdread_buf = StIOP_bufaddr s + StWritePtr s * 2048\<rparr>\<rparr>)"
  by (simp add: ring_pending_def)

text \<open>What a fill may change, and that the stream is going afterwards.\<close>

definition fill_only :: "'d cdvd \<Rightarrow> 'd cdvd \<Rightarrow> bool" where
  "fill_only s s1 \<longleftrightarrow> s1 = s\<lparr>StIsReading := StIsReading s1, pending := pending s1, sync_flag := sync_flag s1, alarm := alarm s1\<rparr>"

definition stm_live :: "'d cdvd \<Rightarrow> bool" where
  "stm_live s \<longleftrightarrow> StIsReading s \<noteq> 0 \<or> alarm s \<or> StBufmax s < StStreamed s + StBanksize s"

lemma StStartFill_inv:
  assumes "ring_pending s" and "StStat s \<noteq> 0" and "stm0cb s"
  shows "fill_only s (StStartFillStreamBuffer s)" and "ring_pending (StStartFillStreamBuffer s)"
    and "stm_live (StStartFillStreamBuffer s)"
proof -
  show "fill_only s (StStartFillStreamBuffer s)"
    by (simp add: StStartFillStreamBuffer_def StFill_eq fill_only_def)
  show "ring_pending (StStartFillStreamBuffer s)"
    using assms pending_idle [of s] pending_started [of s]
      pending_armed [of "s\<lparr>alarm := False, StIsReading := 0\<rparr>"]
    by (simp add: StStartFillStreamBuffer_def StFill_eq)
  show "stm_live (StStartFillStreamBuffer s)"
    by (auto simp: StStartFillStreamBuffer_def StFill_eq stm_live_def)
qed

lemma StmScheduleCb_eq:
  "StmScheduleCb s = StStartFillStreamBuffer (s\<lparr>alarm := False\<rparr>)"
  by (simp add: StmScheduleCb_def StStartFillStreamBuffer_def split: prod.splits)

lemma fill_only_ring:
  assumes "fill_only s s1"
  shows "ring_geom s1 = ring_geom s" "ring_data disc s1 = ring_data disc s" "drv s1 = drv s"
    "StStat s1 = StStat s" "Stlsn s1 = Stlsn s" "stm_pos s1 = stm_pos s" "imem s1 = imem s"
    "emem s1 = emem s" "ring_region s1 = ring_region s" "stm0cb s1 = stm0cb s"
    "StBanksize s1 = StBanksize s" "StStreamed s1 = StStreamed s" "ef8 s1 = ef8 s"
    "StBufmax s1 = StBufmax s"
  by (subst assms [unfolded fill_only_def]; simp add: stm_pos_def)+

lemma StStartFill_stm_inv:
  assumes "stm_inv dinv disc lo s" and "StStat s \<noteq> 0" and "stm0cb s"
  shows "stm_inv dinv disc lo (StStartFillStreamBuffer s)"
  using assms StStartFill_inv [of s] fill_only_ring [of s "StStartFillStreamBuffer s"]
  by (simp add: stm_inv_def)

text \<open>A finished read keeps what the ring holds.\<close>

lemma ring_data_write:
  assumes g: "ring_geom s" and d: "ring_data disc s" and p: "ring_pending s" and q: "pending s = Some q"
    and miss: "\<And>a. a \<notin> req_region q \<Longrightarrow> m a = imem s a"
  shows "ring_data disc (s\<lparr>imem := m\<rparr>)"
  unfolding ring_data_def
proof (intro allI impI)
  fix i k :: nat
  assume i: "i < StStreamed (s\<lparr>imem := m\<rparr>)" and k: "k < 2048"
  have "slot_addr s i + k \<notin> req_region q"
  proof (cases "StIsReading s = 0")
    case True
    with p q have "req_region q \<inter> ring_region s = {}" by (simp add: ring_pending_def)
    with slot_in_ring [OF g k, of i] show ?thesis by blast
  next
    case False
    with p q have "StStreamed s + StBanksize s \<le> StBufmax s"
      "q = \<lparr>cdread_lba = Stlsn s, cdread_sectors = StBanksize s, sector_size = 2048,
            cdread_buf = StIOP_bufaddr s + StWritePtr s * 2048\<rparr>" by (auto simp: ring_pending_def)
    with slot_not_free [OF g this(1) _ k, of i] i show ?thesis by (auto simp: req_region_def)
  qed
  with miss d i k show "on_disc disc ((stm_pos (s\<lparr>imem := m\<rparr>) + i) * 2048 + k)
      (imem (s\<lparr>imem := m\<rparr>) (slot_addr (s\<lparr>imem := m\<rparr>) i + k))"
    by (simp add: ring_data_def slot_addr_def stm_pos_def)
qed

section \<open>Finishing a read\<close>

definition read_done :: "'d reader \<Rightarrow> read_req \<Rightarrow> 'd cdvd \<Rightarrow> 'd cdvd" where
  "read_done rd q s =
     (let r = rd (drv s) (cdread_lba q) (cdread_sectors q) (sector_size q) (cdread_buf q) (imem s)
      in s\<lparr>pending := None, cdstatus := SCECdStatPause, imem := snd r, drv := fst r,
           sync_flag := False, ef8 := True\<rparr>)"

lemma cdread_finish_eq:
  "cdread_finish rd s =
     (case pending s of None \<Rightarrow> s
      | Some q \<Rightarrow> if stm0cb s then StmCallback (read_done rd q s) else read_done rd q s)"
  by (auto simp: cdread_finish_def read_done_def cdvdman_signal_read_end_def Let_def
      split: option.splits prod.splits)

lemma read_done_sel [simp]:
  "StIsReading (read_done rd q s) = StIsReading s" "StStat (read_done rd q s) = StStat s"
  "Stlsn (read_done rd q s) = Stlsn s" "StBanksize (read_done rd q s) = StBanksize s"
  "StBufmax (read_done rd q s) = StBufmax s" "StStreamed (read_done rd q s) = StStreamed s"
  "StWritePtr (read_done rd q s) = StWritePtr s" "StReadPtr (read_done rd q s) = StReadPtr s"
  "stm0cb (read_done rd q s) = stm0cb s" "alarm (read_done rd q s) = alarm s"
  "StIOP_bufaddr (read_done rd q s) = StIOP_bufaddr s"
  "pending (read_done rd q s) = None" "sync_flag (read_done rd q s) = False"
  "ef8 (read_done rd q s) = True"
  "emem (read_done rd q s) = emem s"
  "ring_geom (read_done rd q s) = ring_geom s"
  by (simp_all add: read_done_def Let_def)

lemma StmCallback_bank:
  assumes "ring_geom s" and "StStreamed s + StBanksize s \<le> StBufmax s" and "StIsReading s \<noteq> 0"
    and "Stlsn s + StBanksize s < u32_bound"
  shows "StmCallback s = StStartFillStreamBuffer (bank_done s)"
proof -
  have "StWritePtr s + StBanksize s < 65536" "StStreamed s + StBanksize s < 65536"
    using bank_fits [OF assms(1)] assms(1,2) by (auto simp: ring_geom_def)
  with assms show ?thesis by (simp add: StmCallback_def bank_done_def Let_def)
qed

lemma StmCallback_other: "StIsReading s = 0 \<Longrightarrow> StmCallback s = StStartFillStreamBuffer s"
  by (simp add: StmCallback_def)

lemma bank_done_sel [simp]:
  "StStat (bank_done s) = StStat s" "stm0cb (bank_done s) = stm0cb s"
  "pending (bank_done s) = pending s" "sync_flag (bank_done s) = sync_flag s"
  "StIsReading (bank_done s) = 0" "drv (bank_done s) = drv s" "alarm (bank_done s) = alarm s"
  "Stlsn (bank_done s) = Stlsn s + StBanksize s" "StBanksize (bank_done s) = StBanksize s"
  "emem (bank_done s) = emem s" "imem (bank_done s) = imem s"
  "ring_region (bank_done s) = ring_region s" "ef8 (bank_done s) = ef8 s"
  by (simp_all add: bank_done_def ring_region_def)

lemma bank_done_read_done:
  "ring_data disc (bank_done (read_done rd q s)) =
   ring_data disc (bank_done (s\<lparr>imem := snd (rd (drv s) (cdread_lba q) (cdread_sectors q) (sector_size q)
      (cdread_buf q) (imem s))\<rparr>))"
  by (simp add: ring_data_def bank_done_def read_done_def Let_def slot_addr_def stm_pos_def)

lemma ring_data_read_done:
  "ring_data disc (read_done rd q s) =
   ring_data disc (s\<lparr>imem := snd (rd (drv s) (cdread_lba q) (cdread_sectors q) (sector_size q)
      (cdread_buf q) (imem s))\<rparr>)"
  by (simp add: ring_data_def read_done_def Let_def slot_addr_def stm_pos_def)

lemma ring_pendingD:
  assumes "ring_pending s" and "pending s = Some q"
  shows "sector_size q = 2048" and "sync_flag s"
    and "StIsReading s \<noteq> 0 \<Longrightarrow> q = \<lparr>cdread_lba = Stlsn s, cdread_sectors = StBanksize s,
      sector_size = 2048, cdread_buf = StIOP_bufaddr s + StWritePtr s * 2048\<rparr> \<and>
      StStreamed s + StBanksize s \<le> StBufmax s \<and> stm0cb s \<and> StStat s \<noteq> 0"
    and "StIsReading s = 0 \<Longrightarrow> req_region q \<inter> ring_region s = {} \<and>
      cdread_lba q + cdread_sectors q < u32_bound"
  using assms by (auto simp: ring_pending_def split: if_splits)

context disc_reader begin

abbreviation inv :: "'d cdvd \<Rightarrow> bool" where "inv s \<equiv> stm_inv dinv disc lo s"

lemma req_u32:
  assumes "ring_pending s" and "pending s = Some q" and "Stlsn s + StBanksize s < u32_bound"
  shows "cdread_lba q + cdread_sectors q < u32_bound"
  using ring_pendingD [OF assms(1,2)] assms(3) by (cases "StIsReading s = 0") auto

lemma read_done_inv:
  assumes i: "inv s" and q: "pending s = Some q" and u: "cdread_lba q + cdread_sectors q < u32_bound"
  shows "ring_data disc (read_done rd q s)" and "dinv (drv (read_done rd q s))"
    and "\<And>a. a \<notin> req_region q \<Longrightarrow> imem (read_done rd q s) a = imem s a"
proof -
  note p = ring_pendingD [OF _ q]
  have s: "sector_size q = 2048" using i p(1) by (simp add: stm_inv_def)
  show out: "imem (read_done rd q s) a = imem s a" if "a \<notin> req_region q" for a
    using that i rd_out [OF _ u, of "drv s" a "cdread_buf q" "imem s"]
    by (auto simp: read_done_def Let_def s stm_inv_def req_region_def)
  show "ring_data disc (read_done rd q s)"
    unfolding ring_data_read_done
    using i out by (intro ring_data_write [of s disc q]) (auto simp: stm_inv_def q read_done_def Let_def)
  show "dinv (drv (read_done rd q s))"
    using i rd_inv [OF _ u] by (simp add: read_done_def Let_def s stm_inv_def)
qed

lemma ring_read_done:
  assumes i: "inv s" and r: "StIsReading s \<noteq> 0" and q: "pending s = Some q"
    and u: "Stlsn s + StBanksize s < u32_bound"
  shows "ring_data disc (bank_done (read_done rd q s))"
proof -
  have p: "ring_geom s" "ring_data disc s" "dinv (drv s)" "lo \<le> Stlsn s" "ring_pending s"
    using i r by (auto simp: stm_inv_def ring_pending_def)
  note e = ring_pendingD(3) [OF p(5) q r]
  let ?m = "snd (rd (drv s) (cdread_lba q) (cdread_sectors q) (sector_size q) (cdread_buf q) (imem s))"
  have m: "?m = snd (rd (drv s) (Stlsn s) (StBanksize s) 2048 (StIOP_bufaddr s + StWritePtr s * 2048) (imem s))"
    using e by simp
  show ?thesis
    unfolding bank_done_read_done m
    using e by (intro bank_done_data p) (auto intro!: rd_in rd_out p u)
qed

lemma finish_inv:
  assumes i: "inv s" and u: "Stlsn s + StBanksize s < u32_bound"
  shows "inv (cdread_finish rd s)"
proof (cases "pending s")
  case None
  with i show ?thesis by (simp add: cdread_finish_eq)
next
  case (Some q)
  have p: "ring_geom s" "ring_pending s" "StStat s \<noteq> 0 \<longrightarrow> lo \<le> Stlsn s" using i by (auto simp: stm_inv_def)
  note r = read_done_inv [OF i Some req_u32 [OF p(2) Some u]]
  show ?thesis
  proof (cases "StIsReading s = 0")
    case True
    with r p have "inv (read_done rd q s)" by (auto simp: stm_inv_def ring_pending_def)
    moreover have "stm0cb s \<Longrightarrow> StStat s \<noteq> 0" using p(2) by (auto simp: ring_pending_def)
    ultimately show ?thesis using True Some
      by (auto simp: cdread_finish_eq StmCallback_other intro!: StStartFill_stm_inv)
  next
    case False
    note e = ring_pendingD(3) [OF p(2) Some False]
    have "inv (bank_done (read_done rd q s))"
      using r p False e bank_done_geom(1) [of "read_done rd q s"] ring_read_done [OF i False Some u]
      by (auto simp: stm_inv_def ring_pending_def)
    then have "inv (StStartFillStreamBuffer (bank_done (read_done rd q s)))"
      using e by (intro StStartFill_stm_inv) auto
    moreover have "cdread_finish rd s = StStartFillStreamBuffer (bank_done (read_done rd q s))"
      using Some e False u p StmCallback_bank [of "read_done rd q s"] by (simp add: cdread_finish_eq)
    ultimately show ?thesis by simp
  qed
qed

lemma Stop_inv:
  assumes i: "inv s" and u: "Stlsn s + StBanksize s < u32_bound"
  shows "inv (sceCdStStop rd s)" and "StStat (sceCdStStop rd s) = 0"
    and "StBanksize (sceCdStStop rd s) = StBanksize s"
proof -
  note d = sceCdStStop_def sceCdSync0_def Let_def cdread_finish_eq
  have p: "ring_geom s" "ring_pending s" using i by (auto simp: stm_inv_def)
  let ?t = "StReset (s\<lparr>cderr := SCECdErNO, cdstatus := SCECdStatPause, alarm := False, stm0cb := False,
    StStreamed := 0, StStat := 0\<rparr>)"
  have g: "ring_geom ?t" using p(1) by (simp add: ring_geom_def StReset_def)
  have "ring_data disc (read_done rd q ?t)" for q by (simp add: ring_data_def StReset_def)
  moreover have "dinv (drv (read_done rd q ?t))" if q: "pending s = Some q" for q
    using read_done_inv(2) [OF i q req_u32 [OF p(2) q u]] i rd_inv [OF _ req_u32 [OF p(2) q u]]
      ring_pendingD(1) [OF p(2) q]
    by (simp add: read_done_def Let_def StReset_def stm_inv_def)
  ultimately have "inv (sceCdSync0 rd ?t)"
    using p g by (auto simp: d stm_inv_def ring_pending_def ring_data_def StReset_def i [unfolded stm_inv_def] split: option.splits)
  then show "inv (sceCdStStop rd s)"
    using i by (simp add: sceCdStStop_def Let_def)
  show "StStat (sceCdStStop rd s) = 0"
    by (auto simp: d StReset_def split: option.splits)
  show "StBanksize (sceCdStStop rd s) = StBanksize s"
    by (auto simp: d StReset_def split: option.splits)
qed

lemma Start_inv:
  assumes i: "inv s" and u: "Stlsn s + StBanksize s < u32_bound" and l: "lo \<le> lsn"
  shows "inv (sceCdStStart rd lsn s)"
proof -
  note p = Stop_inv [OF i u]
  let ?t = "(StReset ((sceCdStStop rd s)\<lparr>Stlsn := lsn, StStat := 1\<rparr>))\<lparr>stm0cb := True, cderr := SCECdErNO,
    cdstatus := SCECdStatPause\<rparr>"
  have "inv ?t"
    using p(1,2) l by (auto simp: stm_inv_def ring_geom_def ring_data_def ring_pending_def StReset_def
      ring_region_def split: option.splits if_splits)
  then show ?thesis
    unfolding sceCdStStart_def Let_def by (rule StStartFill_stm_inv) (simp_all add: StReset_def)
qed

lemma Pause_inv:
  assumes i: "inv s" and u: "Stlsn s + StBanksize s < u32_bound"
  shows "inv (snd (sceCdStPause rd s))"
proof (cases "StStat s = 0")
  case True
  with i show ?thesis by (simp add: sceCdStPause_def Let_def)
next
  case False
  have p: "ring_geom s" "ring_data disc s" "ring_pending s" "dinv (drv s)" "lo \<le> Stlsn s"
    using i False by (auto simp: stm_inv_def)
  let ?t = "s\<lparr>cderr := SCECdErNO, cdstatus := SCECdStatPause, alarm := False, stm0cb := False,
    StIsReading := 0\<rparr>"
  have "inv (sceCdSync0 rd ?t)"
  proof (cases "pending s")
    case None
    with p show ?thesis
      by (simp add: sceCdSync0_def cdread_finish_eq stm_inv_def) (simp add: ring_pending_def)
  next
    case (Some q)
    note r = read_done_inv [OF i Some req_u32 [OF p(3) Some u]]
    have "ring_data disc (read_done rd q ?t)" "dinv (drv (read_done rd q ?t))"
      using r(1,2) by (simp_all add: ring_data_read_done) (simp_all add: ring_data_def slot_addr_def stm_pos_def read_done_def Let_def)
    then show ?thesis
      using p Some ring_pendingD(2) [OF p(3) Some]
      by (simp add: sceCdSync0_def cdread_finish_eq stm_inv_def) (simp add: ring_pending_def)
  qed
  with False show ?thesis by (simp add: sceCdStPause_def Let_def)
qed

lemma Resume_inv:
  assumes i: "inv s"
  shows "inv (snd (sceCdStResume s))"
proof (cases "StStat s = 0")
  case False
  with i have "inv (s\<lparr>cderr := SCECdErNO, cdstatus := SCECdStatPause, stm0cb := True\<rparr>)"
    by (simp add: stm_inv_def) (auto simp: ring_pending_def split: option.splits)
  with False show ?thesis by (auto simp: sceCdStResume_def Let_def intro: StStartFill_stm_inv)
qed (use i in \<open>simp add: sceCdStResume_def Let_def\<close>)

lemma Seek_inv:
  assumes i: "inv s" and u: "Stlsn s + StBanksize s < u32_bound" and l: "lo \<le> lsn"
  shows "inv (snd (sceCdStSeek rd lsn s))"
  using i u by (auto simp: sceCdStSeek_def Let_def intro!: Start_inv l)

lemma alarm_inv:
  assumes "inv s" and "alarm s"
  shows "inv (StmScheduleCb s)"
proof -
  have "inv (s\<lparr>alarm := False\<rparr>)" "StStat s \<noteq> 0" "stm0cb s"
    using assms by (auto simp: stm_inv_def ring_pending_def ring_region_def split: option.splits if_splits)
  then show ?thesis unfolding StmScheduleCb_eq by (intro StStartFill_stm_inv) simp_all
qed

lemma AsyncRead_inv:
  assumes i: "inv s" and u: "lsn + n < u32_bound"
    and dj: "{buf ..< buf + n * 2048} \<inter> ring_region s = {}"
  shows "inv (snd (cdvdman_AsyncRead lsn n 2048 buf s))"
  using i u dj
  by (auto simp: cdvdman_AsyncRead_def cdvdman_common_lock_def stm_inv_def)
    (auto simp: ring_pending_def req_region_def)

end

lemma drained_frame:
  assumes "drained disc n dst s s'"
  shows "pending s' = pending s" "sync_flag s' = sync_flag s" "alarm s' = alarm s" "stm0cb s' = stm0cb s"
    "StIsReading s' = StIsReading s" "StStat s' = StStat s" "drv s' = drv s" "Stlsn s' = Stlsn s"
    "StBanksize s' = StBanksize s" "StBufmax s' = StBufmax s" "StIOP_bufaddr s' = StIOP_bufaddr s"
    "StWritePtr s' = StWritePtr s" "StStreamed s' = StStreamed s - n" "ring_region s' = ring_region s"
    "ef8 s' = ef8 s" "emem s' = emem s"
  by (subst assms [unfolded drained_def, THEN conjunct1]; simp)+

lemma drained_stm_inv:
  assumes i: "stm_inv P disc lo s" and dr: "drained disc n dst s s'" and n: "n \<le> StStreamed s"
    and dj: "{dst ..< dst + n * 2048} \<inter> ring_region s = {}"
  shows "stm_inv P disc lo s'"
proof -
  have p: "ring_geom s" "ring_data disc s" "ring_pending s" using i by (auto simp: stm_inv_def)
  have "ring_pending s'" using p(3) n by (auto simp: ring_pending_def drained_frame [OF dr] split: option.splits if_splits)
  with drained_geom(1) [OF p(1) dr n] drained_data [OF p(1,2) dr n dj] i show ?thesis
    by (simp add: stm_inv_def drained_frame [OF dr])
qed

lemma drained_ee_frame:
  assumes "drained_ee disc n dst s s'"
  shows "pending s' = pending s" "sync_flag s' = sync_flag s" "alarm s' = alarm s" "stm0cb s' = stm0cb s"
    "StIsReading s' = StIsReading s" "StStat s' = StStat s" "drv s' = drv s" "Stlsn s' = Stlsn s"
    "StBanksize s' = StBanksize s" "StBufmax s' = StBufmax s" "StIOP_bufaddr s' = StIOP_bufaddr s"
    "StWritePtr s' = StWritePtr s" "StStreamed s' = StStreamed s - n" "ring_region s' = ring_region s"
    "ef8 s' = ef8 s" "imem s' = imem s"
  by (subst assms [unfolded drained_ee_def, THEN conjunct1]; simp)+

text \<open>The EE drain moves the pointers as an IOP drain to an empty destination would.\<close>

lemma drained_ee_stm_inv:
  assumes i: "stm_inv P disc lo s" and dr: "drained_ee disc n dst s s'" and n: "n \<le> StStreamed s"
  shows "stm_inv P disc lo s'" and "stm_pos s' = stm_pos s + n"
proof -
  have p: "ring_geom s" "ring_data disc s" "ring_pending s" using i by (auto simp: stm_inv_def)
  have s': "s' = s\<lparr>emem := emem s', StReadPtr := (StReadPtr s + n) mod StBufmax s, StStreamed := StStreamed s - n\<rparr>"
    using dr by (simp add: drained_ee_def)
  have "((StReadPtr s + n) mod StBufmax s + (StStreamed s - n)) mod StBufmax s =
      (StReadPtr s + StStreamed s) mod StBufmax s"
    using n by (simp only: mod_add_left_eq) simp
  with p(1) have g: "ring_geom s'" by (subst s') (auto simp: ring_geom_def)
  show pos: "stm_pos s' = stm_pos s + n"
    using p(1) n by (subst s') (auto simp: stm_pos_def ring_geom_def)
  have slot: "slot_addr s' i = slot_addr s (n + i)" for i
    by (subst s') (simp add: slot_addr_def mod_add_left_eq add.assoc)
  have "on_disc disc ((stm_pos s + (n + i)) * 2048 + k) (imem s (slot_addr s (n + i) + k))"
    if "i < StStreamed s - n" "k < 2048" for i k
    using that by (intro ring_dataD [OF p(2)]) auto
  then have "ring_data disc s'"
    unfolding ring_data_def pos slot drained_ee_frame [OF dr] by (simp add: add.assoc)
  moreover have "ring_pending s'"
    using p(3) n by (auto simp: ring_pending_def drained_ee_frame [OF dr] split: option.splits if_splits)
  ultimately show "stm_inv P disc lo s'" using g i by (simp add: stm_inv_def drained_ee_frame [OF dr])
qed

section \<open>The operations as steps\<close>

lemma StInit_eq:
  assumes "0 < bankmax" and "bankmax \<le> bufmax" and "bufmax < 65536"
  shows "sceCdStInit bufmax bankmax addr s = Some (StReset (s\<lparr>cderr := SCECdErNO, alarm := False,
    StBankmax := bankmax, StBanksize := bufmax div bankmax,
    StBufmax := bufmax div bankmax * bankmax, StIOP_bufaddr := addr\<rparr>))"
proof -
  have "bufmax div bankmax \<le> bufmax" "bufmax div bankmax * bankmax \<le> bufmax"
    by simp_all
  then have "bufmax div bankmax < 65536" "bufmax div bankmax * bankmax < 65536"
    using assms(3) by (meson le_less_trans)+
  with assms show ?thesis by (simp add: sceCdStInit_def Let_def)
qed

text \<open>The game's part of the contract of \<^verbatim>\<open>sceCdStInit\<close>: no stream is running.\<close>

definition init_ok :: "nat \<Rightarrow> nat \<Rightarrow> nat \<Rightarrow> 'd cdvd \<Rightarrow> bool" where
  "init_ok bufmax bankmax addr s \<longleftrightarrow> 0 < bankmax \<and> bankmax \<le> bufmax \<and> bufmax < 65536 \<and>
     StStat s = 0 \<and> StIsReading s = 0 \<and> \<not> stm0cb s \<and> (sync_flag s \<longleftrightarrow> pending s \<noteq> None) \<and>
     (case pending s of None \<Rightarrow> True
      | Some q \<Rightarrow> sector_size q = 2048 \<and> cdread_lba q + cdread_sectors q < u32_bound \<and>
          req_region q \<inter> {addr ..< addr + bufmax div bankmax * bankmax * 2048} = {})"

lemma StInit_inv:
  assumes "init_ok bufmax bankmax addr s" and "P (drv s)"
    and "sceCdStInit bufmax bankmax addr s = Some s'"
  shows "stm_inv P disc lo s'"
proof -
  have b: "0 < bankmax" "bankmax \<le> bufmax" "bufmax < 65536" using assms(1) by (auto simp: init_ok_def)
  have "0 < bufmax div bankmax" using b by (simp add: div_greater_zero_iff)
  moreover have "bufmax div bankmax * bankmax < 65536"
    using div_times_less_eq_dividend [of bufmax bankmax] b(3) by (rule le_less_trans)
  ultimately show ?thesis using b assms
    by (auto simp: StInit_eq [OF b] init_ok_def StReset_def stm_inv_def ring_geom_def ring_data_def
        ring_pending_def ring_region_def split: option.splits)
qed

text \<open>
  One step of the driver: an API call of the game (with a destination that does not overlap the
  ring), the read thread finishing, or the alarm. The bound on \<open>Stlsn\<close> keeps the 32-bit sector
  number from wrapping.
\<close>

inductive stm_step :: "'d reader \<Rightarrow> nat \<Rightarrow> 'd cdvd \<Rightarrow> 'd cdvd \<Rightarrow> bool" for rd lo where
  init: "init_ok bufmax bankmax addr s \<Longrightarrow> sceCdStInit bufmax bankmax addr s = Some s' \<Longrightarrow>
    stm_step rd lo s s'"
| start: "lo \<le> lsn \<Longrightarrow> Stlsn s + StBanksize s < u32_bound \<Longrightarrow>
    stm_step rd lo s (sceCdStStart rd lsn s)"
| stop: "Stlsn s + StBanksize s < u32_bound \<Longrightarrow> stm_step rd lo s (sceCdStStop rd s)"
| pause: "Stlsn s + StBanksize s < u32_bound \<Longrightarrow> stm_step rd lo s (snd (sceCdStPause rd s))"
| resume: "stm_step rd lo s (snd (sceCdStResume s))"
| seek: "lo \<le> lsn \<Longrightarrow> Stlsn s + StBanksize s < u32_bound \<Longrightarrow>
    stm_step rd lo s (snd (sceCdStSeek rd lsn s))"
| stat: "stm_step rd lo s (snd (sceCdStStat s))"
| drain: "0 \<le> want \<Longrightarrow> {buf ..< buf + nat want * 2048} \<inter> ring_region s = {} \<Longrightarrow>
    stm_step rd lo s (snd (ReadSectors want buf s))"
| drain_ee: "0 \<le> want \<Longrightarrow> stm_step rd lo s (snd (ReadSectorsEE want buf s))"
| kick: "StStat s \<noteq> 0 \<Longrightarrow> stm0cb s \<Longrightarrow> stm_step rd lo s (StStartFillStreamBuffer s)"
| read: "lsn + n < u32_bound \<Longrightarrow> {buf ..< buf + n * 2048} \<inter> ring_region s = {} \<Longrightarrow>
    stm_step rd lo s (snd (cdvdman_AsyncRead lsn n 2048 buf s))"
| finish: "Stlsn s + StBanksize s < u32_bound \<Longrightarrow> stm_step rd lo s (cdread_finish rd s)"
| retry: "alarm s \<Longrightarrow> stm_step rd lo s (StmScheduleCb s)"

lemma drain_inv:
  assumes i: "stm_inv P disc lo s" and w: "0 \<le> want"
    and dj: "{buf ..< buf + nat want * 2048} \<inter> ring_region s = {}"
  shows "stm_inv P disc lo (snd (ReadSectors want buf s))"
proof -
  have p: "ring_geom s" "ring_data disc s" using i by (auto simp: stm_inv_def)
  let ?n = "nat (min (int (StStreamed s)) want)"
  have "{buf ..< buf + ?n * 2048} \<subseteq> {buf ..< buf + nat want * 2048}" by auto
  with dj have dj': "{buf ..< buf + ?n * 2048} \<inter> ring_region s = {}" by blast
  from ReadSectors_drained [OF p w this] drained_stm_inv [OF i _ _ dj'] show ?thesis by auto
qed

lemma drain_ee_inv:
  assumes i: "stm_inv P disc lo s" and w: "0 \<le> want"
  shows "stm_inv P disc lo (snd (ReadSectorsEE want buf s))"
proof -
  have p: "ring_geom s" "ring_data disc s" using i by (auto simp: stm_inv_def)
  from ReadSectorsEE_drained [OF p w, of buf] drained_ee_stm_inv(1) [OF i] show ?thesis by auto
qed

context disc_reader begin

lemma step_inv:
  assumes "stm_step rd lo s s'" and "inv s"
  shows "inv s'"
  using assms
proof (cases rule: stm_step.cases)
  case init
  from assms(2) have "dinv (drv s)" by (simp add: stm_inv_def)
  with init show ?thesis by (auto intro: StInit_inv)
next
  case stat
  with assms(2) show ?thesis by (simp add: sceCdStStat_def)
qed (use assms(2) in \<open>auto intro: Start_inv Stop_inv(1) Pause_inv Resume_inv Seek_inv drain_inv
      drain_ee_inv StStartFill_stm_inv AsyncRead_inv finish_inv alarm_inv\<close>)

lemma steps_inv: "(stm_step rd lo)\<^sup>*\<^sup>* s s' \<Longrightarrow> inv s \<Longrightarrow> inv s'"
  by (induction rule: rtranclp_induct) (auto intro: step_inv)

end

end
