(* ===== verification/Cdvd_Stream_Read.thy ===== *)
theory Cdvd_Stream_Read
  imports Cdvd_Stream_Inv
begin

text \<open>
  What \<^verbatim>\<open>sceCdStRead\<close> delivers: the sectors that follow the stream position, in order, from
  whatever mixture of buffered banks and reads that complete while it waits; when it returns and
  when it cannot.
\<close>

section \<open>Waiting for the read thread\<close>

text \<open>The destination of a read that the game queued itself.\<close>

definition game_region :: "'d cdvd \<Rightarrow> nat set" where
  "game_region s =
     (case pending s of None \<Rightarrow> {} | Some q \<Rightarrow> if StIsReading s = 0 then req_region q else {})"

text \<open>What a wait may do: fill banks, and complete the game's read; the stream does not move.\<close>

definition waited :: "'d cdvd \<Rightarrow> 'd cdvd \<Rightarrow> bool" where
  "waited s s1 \<longleftrightarrow> stm_pos s1 = stm_pos s \<and> Stlsn s1 \<le> Stlsn s + StBanksize s \<and>
     StBanksize s1 = StBanksize s \<and> ring_region s1 = ring_region s \<and> emem s1 = emem s \<and>
     (\<forall>a. a \<notin> ring_region s \<longrightarrow> a \<notin> game_region s \<longrightarrow> imem s1 a = imem s a) \<and>
     game_region s1 \<subseteq> game_region s \<and> StStat s1 = StStat s \<and> stm0cb s1 = stm0cb s"

lemma game_region_cong:
  "pending t = pending s \<Longrightarrow> StIsReading t = StIsReading s \<Longrightarrow> game_region t = game_region s"
  by (simp add: game_region_def split: option.split)

lemma waited_refl: "waited s s"
  by (simp add: waited_def)

lemma waited_trans:
  assumes a: "waited s t1" and b: "waited t1 t2" and l: "Stlsn t1 = Stlsn s"
  shows "waited s t2"
proof -
  have "imem t2 x = imem s x" if "x \<notin> ring_region s" "x \<notin> game_region s" for x
  proof -
    from a that have "x \<notin> ring_region t1" "x \<notin> game_region t1" "imem t1 x = imem s x"
      by (auto simp: waited_def)
    with b show ?thesis by (simp add: waited_def)
  qed
  moreover have "game_region t2 \<subseteq> game_region s" using a b unfolding waited_def by blast
  ultimately show ?thesis using a b l by (simp add: waited_def)
qed

lemma fill_game_region: "game_region (StStartFillStreamBuffer s) \<subseteq> game_region s"
  by (auto simp: StStartFillStreamBuffer_def StFill_eq game_region_def split: option.splits)

lemma fill_waited:
  assumes "ring_pending s" and "StStat s \<noteq> 0" and "stm0cb s"
  shows "waited s (StStartFillStreamBuffer s)"
  using fill_only_ring [OF StStartFill_inv(1) [OF assms]] fill_game_region [of s]
  by (simp add: waited_def)

lemma ring_req_region:
  assumes "ring_geom s" and "ring_pending s" and "pending s = Some q"
  shows "req_region q \<subseteq> ring_region s \<union> game_region s"
proof (cases "StIsReading s = 0")
  case False
  have "(StWritePtr s + StBanksize s) * 2048 \<le> StBufmax s * 2048"
    using bank_fits [OF assms(1)] by (rule mult_le_mono1)
  with ring_pendingD(3) [OF assms(2,3) False] show ?thesis
    by (auto simp: req_region_def ring_region_def add_mult_distrib)
qed (simp add: game_region_def assms)

context disc_reader begin

lemma finish_waited:
  assumes i: "inv s" and u: "Stlsn s + StBanksize s < u32_bound"
  shows "waited s (cdread_finish rd s)"
proof (cases "pending s")
  case None
  then show ?thesis by (simp add: cdread_finish_eq waited_def)
next
  case (Some q)
  have p: "ring_geom s" "ring_pending s" using i by (auto simp: stm_inv_def)
  note r = read_done_inv [OF i Some req_u32 [OF p(2) Some u]]
  have reg: "req_region q \<subseteq> ring_region s \<union> game_region s" by (rule ring_req_region [OF p Some])
  let ?r = "read_done rd q s"
  have rp: "stm_pos ?r = stm_pos s" "ring_region ?r = ring_region s" "game_region ?r = {}"
    by (simp_all add: stm_pos_def ring_region_def game_region_def)
  have m: "imem ?r a = imem s a" if "a \<notin> ring_region s" "a \<notin> game_region s" for a
    using r(3) reg that by blast
  show ?thesis
  proof (cases "stm0cb s")
    case False
    with Some rp m show ?thesis by (simp add: cdread_finish_eq waited_def)
  next
    case cb: True
    have st: "StStat s \<noteq> 0" using p(2) cb by (auto simp: ring_pending_def)
    show ?thesis
    proof (cases "StIsReading s = 0")
      case True
      have "ring_pending ?r" using True p(2) cb st by (simp add: ring_pending_def)
      with st cb have "waited ?r (StStartFillStreamBuffer ?r)" by (intro fill_waited) simp_all
      with True Some cb rp m show ?thesis by (simp add: cdread_finish_eq StmCallback_other waited_def)
    next
      case False
      note e = ring_pendingD(3) [OF p(2) Some False]
      let ?b = "bank_done ?r"
      have "ring_pending ?b" using p(2) cb st by (simp add: ring_pending_def)
      with st cb have "waited ?b (StStartFillStreamBuffer ?b)" by (intro fill_waited) simp_all
      moreover have "Stlsn (StStartFillStreamBuffer ?b) = Stlsn ?b"
        by (rule fill_only_ring(5) [OF StStartFill_inv(1)]) (use \<open>ring_pending ?b\<close> st cb in simp_all)
      moreover have "stm_pos ?b = stm_pos s" "game_region ?b = {}"
        by (simp_all add: stm_pos_def bank_done_def game_region_def)
      ultimately show ?thesis using False Some e u p rp m StmCallback_bank [of ?r]
        by (simp add: cdread_finish_eq waited_def)
    qed
  qed
qed

lemma wait_ef8_inv:
  assumes i: "inv s" and u: "Stlsn s + StBanksize s < u32_bound" and w: "wait_ef8 rd s = Some s1"
  shows "inv s1" and "waited s s1"
proof -
  let ?s = "if pending s = None \<and> alarm s then StmScheduleCb s else s"
  have fin: "inv (cdread_finish rd t)" "waited t (cdread_finish rd t)"
    if "inv t" "Stlsn t = Stlsn s" "StBanksize t = StBanksize s" for t
    using finish_inv [OF that(1)] finish_waited [OF that(1)] u that(2,3) by auto
  have al: "inv (StmScheduleCb s)" "waited s (StmScheduleCb s)" "Stlsn (StmScheduleCb s) = Stlsn s"
    "StBanksize (StmScheduleCb s) = StBanksize s" if "alarm s"
  proof -
    have t: "ring_pending (s\<lparr>alarm := False\<rparr>)" "StStat s \<noteq> 0" "stm0cb s"
      using i that by (auto simp: stm_inv_def ring_pending_def split: option.splits if_splits)
    show "inv (StmScheduleCb s)" by (rule alarm_inv [OF i that])
    have "waited (s\<lparr>alarm := False\<rparr>) (StmScheduleCb s)"
      unfolding StmScheduleCb_eq by (rule fill_waited [OF t(1)]) (use t in simp_all)
    moreover have "game_region (s\<lparr>alarm := False\<rparr>) = game_region s"
      "stm_pos (s\<lparr>alarm := False\<rparr>) = stm_pos s"
      by (simp_all add: game_region_def stm_pos_def split: option.split)
    ultimately show "waited s (StmScheduleCb s)" by (simp add: waited_def)
    show "Stlsn (StmScheduleCb s) = Stlsn s" "StBanksize (StmScheduleCb s) = StBanksize s"
      unfolding StmScheduleCb_eq
      using fill_only_ring [OF StStartFill_inv(1) [OF t(1)]] t by simp_all
  qed
  have ef: "inv (t\<lparr>ef8 := False\<rparr>) = inv t" "waited a (t\<lparr>ef8 := False\<rparr>) = waited a t" for a t
    by (simp_all add: waited_def stm_pos_def game_region_def split: option.split)
  have ws: "inv ?s" "waited s ?s" "Stlsn ?s = Stlsn s" "StBanksize ?s = StBanksize s"
    using al i waited_refl [of s] by simp_all
  have s1: "s1 = (if ef8 s then s else cdread_finish rd ?s)\<lparr>ef8 := False\<rparr>"
    using w by (auto simp: wait_ef8_def Let_def split: if_splits)
  show "inv s1" unfolding s1 ef using fin(1) [OF ws(1,3,4)] i by simp
  show "waited s s1" unfolding s1 ef
    using waited_trans [OF ws(2) fin(2) [OF ws(1,3,4)] ws(3)] waited_refl [of s] by simp
qed

end

section \<open>The read loop\<close>

definition out_mem :: "bool \<Rightarrow> 'd cdvd \<Rightarrow> nat \<Rightarrow> u8" where
  "out_mem ee s = (if ee then emem s else imem s)"

text \<open>An IOP destination may overlap neither the ring nor the game's own pending read.\<close>

definition dst_ok :: "bool \<Rightarrow> nat \<Rightarrow> nat \<Rightarrow> 'd cdvd \<Rightarrow> bool" where
  "dst_ok ee ptr n s \<longleftrightarrow> ee \<or> {ptr ..< ptr + n * 2048} \<inter> (ring_region s \<union> game_region s) = {}"

text \<open>\<open>n\<close> sectors delivered at \<open>ptr\<close>, the stream moved on by \<open>n\<close>.\<close>

definition delivered :: "(nat \<Rightarrow> u8 option) \<Rightarrow> bool \<Rightarrow> nat \<Rightarrow> nat \<Rightarrow> 'd cdvd \<Rightarrow> 'd cdvd \<Rightarrow> bool" where
  "delivered disc ee ptr n s s1 \<longleftrightarrow> stm_pos s1 = stm_pos s + n \<and>
     (\<forall>j < n * 2048. on_disc disc (stm_pos s * 2048 + j) (out_mem ee s1 (ptr + j)))"

lemma deliver_chunk:
  assumes i: "stm_inv P disc lo s" and k: "0 \<le> want" and ok: "dst_ok ee ptr (nat want) s"
    and r: "(n, s1) = (if ee then ReadSectorsEE want ptr s else ReadSectors want ptr s)"
  shows "0 \<le> n" and "n \<le> want" and "n = min (int (StStreamed s)) want"
    and "stm_inv P disc lo s1" and "delivered disc ee ptr (nat n) s s1"
    and "Stlsn s1 = Stlsn s" and "StBanksize s1 = StBanksize s" and "ring_region s1 = ring_region s"
    and "game_region s1 = game_region s"
    and "\<And>a. a < ptr \<Longrightarrow> out_mem ee s1 a = out_mem ee s a"
    and "StStat s1 = StStat s" and "stm0cb s1 = stm0cb s"
proof -
  have p: "ring_geom s" "ring_data disc s" using i by (auto simp: stm_inv_def)
  let ?n = "nat (min (int (StStreamed s)) want)"
  have nle: "?n \<le> StStreamed s" "?n \<le> nat want" by auto
  have n: "n = min (int (StStreamed s)) want \<and> (if ee then drained_ee disc ?n ptr s s1
      else drained disc ?n ptr s s1 \<and> {ptr ..< ptr + ?n * 2048} \<inter> ring_region s = {})"
  proof (cases ee)
    case True
    with ReadSectorsEE_drained [OF p k, of ptr] r show ?thesis by auto
  next
    case False
    have "{ptr ..< ptr + ?n * 2048} \<subseteq> {ptr ..< ptr + nat want * 2048}" using nle(2) by auto
    moreover have "{ptr ..< ptr + nat want * 2048} \<inter> ring_region s = {}"
      using ok False by (simp add: dst_ok_def Int_Un_distrib)
    ultimately have dj: "{ptr ..< ptr + ?n * 2048} \<inter> ring_region s = {}" by blast
    from ReadSectors_drained [OF p k dj] r False dj show ?thesis by auto
  qed
  show n': "n = min (int (StStreamed s)) want" using n by blast
  show "0 \<le> n" "n \<le> want" using n' k by auto
  have nn: "nat n = ?n" using n' by simp
  show "stm_inv P disc lo s1" "delivered disc ee ptr (nat n) s s1"
    "Stlsn s1 = Stlsn s" "StBanksize s1 = StBanksize s" "ring_region s1 = ring_region s"
    "game_region s1 = game_region s" "\<And>a. a < ptr \<Longrightarrow> out_mem ee s1 a = out_mem ee s a"
    "StStat s1 = StStat s" "stm0cb s1 = stm0cb s"
  proof -
    consider (ee) "ee" "drained_ee disc ?n ptr s s1"
      | (iop) "\<not> ee" "drained disc ?n ptr s s1" "{ptr ..< ptr + ?n * 2048} \<inter> ring_region s = {}"
      using n by (cases ee) auto
    then have "stm_inv P disc lo s1 \<and> delivered disc ee ptr (nat n) s s1 \<and>
      Stlsn s1 = Stlsn s \<and> StBanksize s1 = StBanksize s \<and> ring_region s1 = ring_region s \<and>
      game_region s1 = game_region s \<and> (\<forall>a < ptr. out_mem ee s1 a = out_mem ee s a) \<and>
      StStat s1 = StStat s \<and> stm0cb s1 = stm0cb s"
    proof cases
      case ee
      from ee(2) have "\<forall>j < ?n * 2048. on_disc disc (stm_pos s * 2048 + j) (emem s1 (ptr + j))"
        "\<forall>a < ptr. emem s1 a = emem s a" by (auto simp: drained_ee_def)
      with ee drained_ee_stm_inv [OF i ee(2) nle(1)] drained_ee_frame [OF ee(2)]
      show ?thesis using game_region_cong [of s1 s] by (simp add: delivered_def nn out_mem_def)
    next
      case iop
      from iop(2) have "\<forall>j < ?n * 2048. on_disc disc (stm_pos s * 2048 + j) (imem s1 (ptr + j))"
        "\<forall>a < ptr. imem s1 a = imem s a" by (auto simp: drained_def)
      with iop drained_stm_inv [OF i iop(2) nle(1) iop(3)] drained_frame [OF iop(2)]
        drained_geom(2) [OF p(1) iop(2) nle(1)]
      show ?thesis using game_region_cong [of s1 s] by (simp add: delivered_def nn out_mem_def)
    qed
    then show "stm_inv P disc lo s1" "delivered disc ee ptr (nat n) s s1"
      "Stlsn s1 = Stlsn s" "StBanksize s1 = StBanksize s" "ring_region s1 = ring_region s"
      "game_region s1 = game_region s" "\<And>a. a < ptr \<Longrightarrow> out_mem ee s1 a = out_mem ee s a"
      "StStat s1 = StStat s" "stm0cb s1 = stm0cb s"
      by auto
  qed
qed

lemma waited_out:
  "waited s s1 \<Longrightarrow> ee \<or> a \<notin> ring_region s \<union> game_region s \<Longrightarrow> out_mem ee s1 a = out_mem ee s a"
  by (auto simp: waited_def out_mem_def)

lemma dst_ok_waited: "dst_ok ee ptr n s \<Longrightarrow> waited s s1 \<Longrightarrow> dst_ok ee ptr n s1"
  unfolding dst_ok_def waited_def by blast

lemma dst_ok_rest:
  assumes "dst_ok ee ptr (n + m) s"
  shows "dst_ok ee (ptr + n * 2048) m s"
proof -
  have "{ptr + n * 2048 ..< ptr + n * 2048 + m * 2048} \<subseteq> {ptr ..< ptr + (n + m) * 2048}" by auto
  with assms show ?thesis unfolding dst_ok_def by blast
qed

lemma dst_ok_out:
  assumes "dst_ok ee ptr n s" and "j < n * 2048"
  shows "ee \<or> ptr + j \<notin> ring_region s \<union> game_region s"
proof -
  have "ptr + j \<in> {ptr ..< ptr + n * 2048}" using assms(2) by simp
  with assms(1) show ?thesis unfolding dst_ok_def by blast
qed

lemma delivered_append:
  assumes a: "delivered disc ee ptr n s s1" and b: "delivered disc ee (ptr + n * 2048) m s1 s2"
    and keep: "\<And>j. j < n * 2048 \<Longrightarrow> out_mem ee s2 (ptr + j) = out_mem ee s1 (ptr + j)"
  shows "delivered disc ee ptr (n + m) s s2"
  unfolding delivered_def
proof (intro conjI allI impI)
  show "stm_pos s2 = stm_pos s + (n + m)" using a b by (simp add: delivered_def)
  fix j assume j: "j < (n + m) * 2048"
  show "on_disc disc (stm_pos s * 2048 + j) (out_mem ee s2 (ptr + j))"
  proof (cases "j < n * 2048")
    case True
    with a keep show ?thesis by (simp add: delivered_def)
  next
    case False
    then obtain i where i: "j = n * 2048 + i" by (metis le_Suc_ex linorder_not_less)
    with j have "i < m * 2048" by (simp add: algebra_simps)
    with b a have "on_disc disc ((stm_pos s + n) * 2048 + i) (out_mem ee s2 (ptr + n * 2048 + i))"
      by (simp add: delivered_def)
    then show ?thesis by (simp add: i algebra_simps)
  qed
qed

definition loop_post ::
  "('d \<Rightarrow> bool) \<Rightarrow> (nat \<Rightarrow> u8 option) \<Rightarrow> nat \<Rightarrow> bool \<Rightarrow> nat \<Rightarrow> bool \<Rightarrow> int \<Rightarrow> nat \<Rightarrow> 'd cdvd \<Rightarrow> int \<Rightarrow> 'd cdvd \<Rightarrow> bool" where
  "loop_post P disc lo ee sectors mode result ptr s res s' \<longleftrightarrow>
     stm_inv P disc lo s' \<and> result \<le> res \<and> res \<le> int sectors \<and> (mode \<longrightarrow> res = int sectors) \<and>
     delivered disc ee ptr (nat (res - result)) s s' \<and>
     (\<forall>a < ptr. ee \<or> a \<notin> ring_region s \<union> game_region s \<longrightarrow> out_mem ee s' a = out_mem ee s a) \<and>
     StStat s' = StStat s \<and> stm0cb s' = stm0cb s"

lemma delivered_0: "delivered disc ee ptr 0 s s"
  by (simp add: delivered_def)

lemma StRead_loop_step:
  assumes "result < int sectors" and "wait_ef8 rd s = Some s1"
    and "(n, s2) = (if ee then ReadSectorsEE want ptr s1 else ReadSectors want ptr s1)"
  shows "StRead_loop rd (Suc fuel) ee sectors mode want result ptr s =
    (if \<not> mode then Some (result + n, s2)
     else StRead_loop rd fuel ee sectors mode (want - n) (result + n) (ptr + nat n * 2048) s2)"
  using assms by (cases ee) (auto split: prod.splits)

context disc_reader begin

lemma StRead_loop_post:
  assumes "inv s" and "Stlsn s + Suc fuel * StBanksize s < u32_bound" and "0 \<le> want"
    and "dst_ok ee ptr (nat want) s" and "int sectors = result + want"
    and "StRead_loop rd fuel ee sectors mode want result ptr s = Some (res, s')"
  shows "loop_post dinv disc lo ee sectors mode result ptr s res s'"
  using assms
proof (induction fuel arbitrary: want result ptr s)
  case 0
  then show ?case by simp
next
  case (Suc fuel)
  show ?case
  proof (cases "result \<ge> int sectors")
    case True
    with Suc.prems show ?thesis by (auto simp: loop_post_def delivered_0)
  next
    case False
    with Suc.prems(6) obtain s1 where w: "wait_ef8 rd s = Some s1" by (auto split: bind_splits)
    obtain n s2 where r: "(n, s2) = (if ee then ReadSectorsEE want ptr s1 else ReadSectors want ptr s1)"
      by (metis surj_pair)
    note st = StRead_loop_step [OF _ w r, of result sectors fuel mode] False
    have u: "Stlsn s + StBanksize s < u32_bound" using Suc.prems(2) by simp
    note i1 = wait_ef8_inv [OF Suc.prems(1) u w]
    have ok1: "dst_ok ee ptr (nat want) s1" by (rule dst_ok_waited [OF Suc.prems(4) i1(2)])
    note c = deliver_chunk [OF i1(1) Suc.prems(3) ok1 r]
    have pos: "stm_pos s1 = stm_pos s" using i1(2) by (simp add: waited_def)
    have fl: "StStat s2 = StStat s" "stm0cb s2 = stm0cb s"
      using i1(2) c(11,12) by (simp_all add: waited_def)
    have sub: "ee \<or> a \<notin> ring_region s2 \<union> game_region s2"
      if "ee \<or> a \<notin> ring_region s \<union> game_region s" for a
      using that i1(2) c(8,9) unfolding waited_def by blast
    have first: "delivered disc ee ptr (nat n) s s2"
      using c(5) pos by (simp add: delivered_def)
    have before: "out_mem ee s2 a = out_mem ee s a"
      if "a < ptr" "ee \<or> a \<notin> ring_region s \<union> game_region s" for a
      using that c(10) waited_out [OF i1(2)] by simp
    show ?thesis
    proof (cases mode)
      case False
      then have "res = result + n" "s' = s2" using Suc.prems(6) st by simp_all
      with False c first before fl Suc.prems(5) show ?thesis by (simp add: loop_post_def)
    next
      case True
      have rec: "StRead_loop rd fuel ee sectors mode (want - n) (result + n) (ptr + nat n * 2048) s2 = Some (res, s')"
        using Suc.prems(6) True st by simp
      have "Stlsn s2 + Suc fuel * StBanksize s2 < u32_bound"
        using Suc.prems(2) i1(2) c(6,7) by (simp add: waited_def)
      moreover have nw: "nat want = nat n + nat (want - n)" using c(1,2) by simp
      moreover have "dst_ok ee ptr (nat want) s2" using ok1 c(8,9) by (simp add: dst_ok_def)
      then have "dst_ok ee (ptr + nat n * 2048) (nat (want - n)) s2"
        unfolding nw by (rule dst_ok_rest)
      ultimately have post: "loop_post dinv disc lo ee sectors mode (result + n) (ptr + nat n * 2048) s2 res s'"
        using c(2,4) Suc.prems(5) by (intro Suc.IH [OF _ _ _ _ _ rec]) auto
      have keep: "out_mem ee s' (ptr + j) = out_mem ee s2 (ptr + j)" if j: "j < nat n * 2048" for j
      proof -
        have "j < nat want * 2048" using j nw by simp
        from sub [OF dst_ok_out [OF Suc.prems(4) this]] post j show ?thesis
          unfolding loop_post_def by (metis nat_add_left_cancel_less)
      qed
      have "delivered disc ee ptr (nat n + nat (res - (result + n))) s s'"
        using post by (intro delivered_append [OF first _ keep]) (simp_all add: loop_post_def)
      moreover have le: "result + n \<le> res" using post by (simp add: loop_post_def)
      then have "nat n + nat (res - (result + n)) = nat (res - result)" using c(1) by linarith
      moreover have "out_mem ee s' a = out_mem ee s a"
        if "a < ptr" "ee \<or> a \<notin> ring_region s \<union> game_region s" for a
        using post before [OF that] sub [OF that(2)] that(1) unfolding loop_post_def
        by (metis trans_less_add1)
      ultimately show ?thesis using post c(1) fl by (simp add: loop_post_def)
    qed
  qed
qed

text \<open>The state in which \<^verbatim>\<open>sceCdStRead\<close> enters its loop.\<close>

lemma StRead_enter:
  assumes "inv s"
  shows "inv (s\<lparr>cderr := SCECdErNO, ef8 := True\<rparr>)"
    and "stm_pos (s\<lparr>cderr := SCECdErNO, ef8 := True\<rparr>) = stm_pos s"
    and "dst_ok ee ptr n (s\<lparr>cderr := SCECdErNO, ef8 := True\<rparr>) = dst_ok ee ptr n s"
  using assms by (simp_all add: stm_pos_def dst_ok_def game_region_cong [of "s\<lparr>cderr := SCECdErNO, ef8 := True\<rparr>" s])

lemma StRead_post:
  assumes i: "inv s" and st: "StStat s \<noteq> 0" and cb: "stm0cb s"
    and u: "Stlsn s + Suc fuel * StBanksize s < u32_bound" and ok: "dst_ok ee ptr sectors s"
    and r: "sceCdStRead rd fuel sectors ee ptr mode s = Some (res, e, s')"
  shows "inv s' \<and> 0 \<le> res \<and> res \<le> int sectors \<and> (mode \<longrightarrow> res = int sectors) \<and>
    delivered disc ee ptr (nat res) s s'"
proof -
  let ?s = "s\<lparr>cderr := SCECdErNO, ef8 := True\<rparr>"
  from r st obtain s1 where l: "StRead_loop rd fuel ee sectors mode (int sectors) 0 ptr ?s = Some (res, s1)"
    and s': "s' = StStartFillStreamBuffer s1"
    by (auto simp: sceCdStRead_def Let_def split: option.splits prod.splits)
  note e = StRead_enter [OF i]
  have post: "loop_post dinv disc lo ee sectors mode 0 ptr ?s res s1"
    by (rule StRead_loop_post [OF e(1) _ _ _ _ l]) (use u ok e(3) in simp_all)
  then have p: "inv s1" "StStat s1 \<noteq> 0" "stm0cb s1" "ring_pending s1"
    using st cb by (auto simp: loop_post_def stm_inv_def)
  note f = fill_only_ring [OF StStartFill_inv(1) [OF p(4,2,3)]]
  have "out_mem ee s' = out_mem ee s1" by (rule ext) (simp add: out_mem_def s' f)
  moreover have "inv s'" unfolding s' by (rule StStartFill_stm_inv [OF p(1-3)])
  ultimately show ?thesis using post e(2) by (simp add: loop_post_def delivered_def s' f)
qed

text \<open>Enough sectors in the ring, or a non-blocking call: the first pass of the loop is the last.\<close>

lemma StRead_returns:
  assumes i: "inv s" and st: "StStat s \<noteq> 0" and ok: "dst_ok ee ptr sectors s"
    and e: "\<not> mode \<or> sectors \<le> StStreamed s"
  shows "\<exists>s'. sceCdStRead rd (Suc (Suc fuel)) sectors ee ptr mode s =
    Some (min (int (StStreamed s)) (int sectors), Some SCECdErNO, s')"
proof -
  let ?s = "s\<lparr>cderr := SCECdErNO, ef8 := True\<rparr>"
  note en = StRead_enter [OF i]
  obtain n s2 where r: "(n, s2) =
      (if ee then ReadSectorsEE (int sectors) ptr (?s\<lparr>ef8 := False\<rparr>)
       else ReadSectors (int sectors) ptr (?s\<lparr>ef8 := False\<rparr>))" by (metis surj_pair)
  have "inv (?s\<lparr>ef8 := False\<rparr>)" "dst_ok ee ptr (nat (int sectors)) (?s\<lparr>ef8 := False\<rparr>)"
    using i ok by (simp_all add: dst_ok_def game_region_cong [of "s\<lparr>cderr := SCECdErNO, ef8 := False\<rparr>" s])
  note c = deliver_chunk [OF this(1) _ this(2) r]
  have err: "cderr s2 = SCECdErNO"
    using r by (cases ee) (auto simp: ReadSectors_def ReadSectorsEE_def Let_def drain_chunk_def split: if_splits prod.splits)
  have "StRead_loop rd (Suc (Suc fuel)) ee sectors mode (int sectors) 0 ptr ?s = Some (n, s2) \<or>
      sectors = 0"
    using StRead_loop_step [OF _ _ r, of 0 sectors rd ?s "Suc fuel" mode] e c(3) by (auto simp: wait_ef8_def)
  then show ?thesis
  proof
    assume "StRead_loop rd (Suc (Suc fuel)) ee sectors mode (int sectors) 0 ptr ?s = Some (n, s2)"
    with st err c(3) show ?thesis by (simp add: sceCdStRead_def Let_def del: StRead_loop.simps)
  next
    assume "sectors = 0"
    with st show ?thesis by (simp add: sceCdStRead_def Let_def)
  qed
qed

text \<open>
  A blocking call for more than the ring holds, with no read in flight and no retry armed, never
  returns: the loop drains the ring without restarting the reads and then waits for one.
\<close>

lemma StRead_blocks:
  assumes i: "inv s" and st: "StStat s \<noteq> 0" and ok: "dst_ok ee ptr sectors s"
    and more: "StStreamed s < sectors" and idle: "pending s = None" "\<not> alarm s"
  shows "sceCdStRead rd fuel sectors ee ptr True s = None"
proof -
  let ?s = "s\<lparr>cderr := SCECdErNO, ef8 := True\<rparr>"
  obtain n s2 where r: "(n, s2) =
      (if ee then ReadSectorsEE (int sectors) ptr (?s\<lparr>ef8 := False\<rparr>)
       else ReadSectors (int sectors) ptr (?s\<lparr>ef8 := False\<rparr>))" by (metis surj_pair)
  have "inv (?s\<lparr>ef8 := False\<rparr>)" "dst_ok ee ptr (nat (int sectors)) (?s\<lparr>ef8 := False\<rparr>)"
    using i ok by (simp_all add: dst_ok_def game_region_cong [of "s\<lparr>cderr := SCECdErNO, ef8 := False\<rparr>" s])
  note c = deliver_chunk [OF this(1) _ this(2) r]
  have idle2: "pending s2 = None" "\<not> alarm s2" "\<not> ef8 s2"
    using r idle by (cases ee; auto simp: ReadSectors_def ReadSectorsEE_def Let_def drain_chunk_def split: if_splits prod.splits)+
  have stuck: "StRead_loop rd fuel ee sectors True want result ptr s2 = None"
    if "result < int sectors" for fuel want result ptr
    using that idle2 by (cases fuel) (simp_all add: wait_ef8_def)
  have "StRead_loop rd fuel ee sectors True (int sectors) 0 ptr ?s = None"
    using StRead_loop_step [OF _ _ r, of 0 sectors rd ?s _ True] c(3) more stuck
    by (cases fuel) (auto simp: wait_ef8_def simp del: StRead_loop.simps(2))
  with st show ?thesis by (simp add: sceCdStRead_def Let_def)
qed

end

end
