(* ===== verification/Cdvd_Disc.thy ===== *)
theory Cdvd_Disc
  imports Cdvd_Hdd Cdvd_Stream_Read
begin

text \<open>
  \<^verbatim>\<open>cdvdman_read\<close> over a plain image keeps the contract of a disc read: every request, aligned or
  not, chunked or not, inside the media or across its end, returns without leaving its buffers and
  fills them with the sectors of the image.
\<close>

lemma mem_write_parts:
  assumes "length buf = a + n + m" and "length new = n"
  shows "mem_write buf a new = Some (take a buf @ new @ drop (a + n) buf)"
  using assms by (simp add: mem_write_def)

lemma logo_unscramble_length: "logo_unscramble lsn st bs = (st', bs') \<Longrightarrow> length bs' = length bs"
  by (auto simp: logo_unscramble_def Let_def split: if_splits)

lemma logo_unscramble_beyond: "13 \<le> lsn \<Longrightarrow> logo_unscramble lsn st bs = (st, bs)"
  by (simp add: logo_unscramble_def)

lemma logo_unscramble_state:
  "logo_unscramble lsn st bs = (st', bs') \<Longrightarrow> \<exists>k. st' = st\<lparr>logo_key := k\<rparr>"
  by (auto simp: logo_unscramble_def Let_def split: if_splits) (metis rstate.surjective rstate.update_convs(7))+

context sector_source begin

definition iso_ready :: "'s rstate \<Rightarrow> bool" where
  "iso_ready st \<longleftrightarrow> cinv st \<and> probed st \<and> \<not> compressed st \<and> mediaLsnCount st = nsec \<and> 0 < nsec \<and>
     nsec < u32_bound \<and> (\<exists>k > 0. length (cdvdman_buf st) = k * 2048)"

lemma iso_ready_frame [simp]:
  "iso_ready (st\<lparr>rd_err := e\<rparr>) = iso_ready st" "iso_ready (st\<lparr>ReadPos := n\<rparr>) = iso_ready st"
  "iso_ready (st\<lparr>logo_key := k\<rparr>) = iso_ready st"
  by (simp_all add: iso_ready_def cinv_def cache_ok_def)

lemma iso_ready_buf: "iso_ready st \<Longrightarrow> length cb = length (cdvdman_buf st) \<Longrightarrow> iso_ready (st\<lparr>cdvdman_buf := cb\<rparr>)"
  by (simp add: iso_ready_def cinv_def cache_ok_def)

lemma dev_read_iso:
  assumes "iso_ready st" and "length old = n * 2048" and "dev_read src st lsn n old = (e, st', new)"
  shows "iso_ready st'" and "length (cdvdman_buf st') = length (cdvdman_buf st)"
proof -
  have c: "cinv st" using assms(1) by (simp add: iso_ready_def)
  note io = io_only_sel [OF conjunct1 [OF dev_read_io [OF assms(3)]]]
  from dev_read_cinv [OF c assms(2,3)] assms(1) show "iso_ready st'" by (simp add: iso_ready_def io)
  show "length (cdvdman_buf st') = length (cdvdman_buf st)" by (simp add: io)
qed

lemma read_loop_iso:
  assumes "iso_ready st" and "length buf = off + remaining * 2048 + m"
  shows "\<exists>st' new. read_loop src lz4 st lsn remaining off buf =
      Some (st', take off buf @ new @ drop (off + remaining * 2048) buf) \<and>
    length new = remaining * 2048 \<and> iso_ready st' \<and> length (cdvdman_buf st') = length (cdvdman_buf st) \<and>
    (13 \<le> lsn \<longrightarrow> lsn + remaining \<le> nsec \<longrightarrow> rd_err st = SCECdErNO \<longrightarrow>
       holds img nsec lsn new \<and> rd_err st' = SCECdErNO)"
  using assms
proof (induction remaining arbitrary: st lsn off buf rule: less_induct)
  case (less remaining)
  show ?case
  proof (cases "remaining = 0")
    case True
    with less.prems show ?thesis
      by (subst read_loop.simps) (simp add: holds_def holds_at_Nil)
  next
    case nz: False
    define n where "n = chunk_sectors st remaining"
    have n: "0 < n" "n \<le> remaining" using nz by (auto simp: n_def chunk_sectors_def)
    then obtain r where r: "remaining = n + r" by (metis le_Suc_ex)
    have lb: "length buf = off + n * 2048 + (r * 2048 + m)" using less.prems(2) r by (simp add: algebra_simps)
    let ?old = "take (n * 2048) (drop off buf)"
    have old: "mem_read buf off (n * 2048) = Some ?old" "length ?old = n * 2048"
      using lb by (simp_all add: mem_read_def)
    obtain e s1 new where d: "dev_read src st lsn n ?old = (e, s1, new)" by (metis prod_cases3)
    note s1 = dev_read_iso [OF less.prems(1) old(2) d]
    have si: "sinv (hw st)" using less.prems(1) by (simp add: iso_ready_def cinv_def)
    note dr = dev_read_src [OF si old(2) d]
    have ptr: "DeviceReadSectorsPtr src lz4 st lsn n ?old = Some (e, s1, new)"
      using less.prems(1) d by (simp add: DeviceReadSectorsPtr_def iso_ready_def)
    show ?thesis
    proof (cases "e = SCECdErNO")
      case False
      let ?new = "new @ take (r * 2048) (drop (off + n * 2048) buf)"
      have "take off buf @ new @ drop (off + n * 2048) buf =
          take off buf @ ?new @ drop (off + remaining * 2048) buf"
      proof -
        have "drop (off + n * 2048) buf =
            take (r * 2048) (drop (off + n * 2048) buf) @ drop (r * 2048) (drop (off + n * 2048) buf)"
          by (rule append_take_drop_id [symmetric])
        also have "drop (r * 2048) (drop (off + n * 2048) buf) = drop (off + remaining * 2048) buf"
          by (simp add: r algebra_simps)
        finally show ?thesis by (metis append.assoc)
      qed
      then have "read_loop src lz4 st lsn remaining off buf =
          Some (s1\<lparr>rd_err := e\<rparr>, take off buf @ ?new @ drop (off + remaining * 2048) buf)"
        using False nz old ptr mem_write_parts [OF lb dr(2)]
        by (subst read_loop.simps) (simp add: n_def [symmetric] Let_def)
      moreover have "length ?new = remaining * 2048" using dr(2) lb r by (simp add: algebra_simps)
      moreover have "\<not> lsn + remaining \<le> nsec" using False dr(4) n(2) by auto
      ultimately show ?thesis using s1 by auto
    next
      case True
      obtain s2 new2 where u: "logo_unscramble lsn (s1\<lparr>rd_err := e\<rparr>) new = (s2, new2)" by (metis surj_pair)
      have l2: "length new2 = n * 2048" using logo_unscramble_length [OF u] dr(2) by simp
      obtain k where k: "s2 = s1\<lparr>rd_err := e, logo_key := k\<rparr>"
        using logo_unscramble_state [OF u] by auto
      let ?buf = "take off buf @ new2 @ drop (off + n * 2048) buf"
      let ?s = "s2\<lparr>ReadPos := ReadPos s2 + n * 2048\<rparr>"
      have step: "read_loop src lz4 st lsn remaining off buf =
          read_loop src lz4 ?s (lsn + n) (remaining - n) (off + n * 2048) ?buf"
        using True nz old ptr u mem_write_parts [OF lb l2]
        by (subst read_loop.simps) (simp add: n_def [symmetric] Let_def)
      have rn: "remaining - n = r" using r by simp
      have lb2: "length ?buf = (off + n * 2048) + r * 2048 + m" using lb l2 by simp
      have rdy: "iso_ready ?s" using s1(1) by (simp add: k)
      have lt: "r < remaining" using r n(1) by simp
      obtain st' new3 where rec: "read_loop src lz4 ?s (lsn + n) r (off + n * 2048) ?buf =
          Some (st', take (off + n * 2048) ?buf @ new3 @ drop (off + n * 2048 + r * 2048) ?buf)"
        "length new3 = r * 2048" "iso_ready st'" "length (cdvdman_buf st') = length (cdvdman_buf ?s)"
        "13 \<le> lsn + n \<longrightarrow> lsn + n + r \<le> nsec \<longrightarrow> rd_err ?s = SCECdErNO \<longrightarrow>
           holds img nsec (lsn + n) new3 \<and> rd_err st' = SCECdErNO"
        using less.IH [OF lt rdy lb2, of "lsn + n"] by blast
      have "take (off + n * 2048) ?buf = take off buf @ new2" using lb l2 by simp
      moreover have "drop (off + n * 2048 + r * 2048) ?buf = drop (off + remaining * 2048) buf"
        using lb l2 by (simp add: r algebra_simps)
      ultimately have "read_loop src lz4 st lsn remaining off buf =
          Some (st', take off buf @ (new2 @ new3) @ drop (off + remaining * 2048) buf)"
        using step [unfolded rn] rec(1) by simp
      moreover have "holds img nsec lsn (new2 @ new3) \<and> rd_err st' = SCECdErNO"
        if "13 \<le> lsn" "lsn + remaining \<le> nsec"
      proof -
        have "new2 = new" using u logo_unscramble_beyond [OF that(1), of "s1\<lparr>rd_err := e\<rparr>" new] by simp
        with dr(2,3) rec(5) that True show ?thesis
          by (simp add: holds_def holds_at_append k r algebra_simps)
      qed
      moreover have "length (new2 @ new3) = remaining * 2048" using rec(2) l2 by (simp add: r algebra_simps)
      moreover have "length (cdvdman_buf st') = length (cdvdman_buf st)" using rec(4) s1(2) by (simp add: k)
      ultimately show ?thesis using rec(3) by blast
    qed
  qed
qed

text \<open>
  \<^verbatim>\<open>cdvdman_read_sectors\<close>: a request that crosses the end of the media is cut there and reports
  \<^verbatim>\<open>SCECdErEOM\<close>, one that starts beyond it is refused with \<^verbatim>\<open>SCECdErIPI\<close>.
\<close>

lemma read_sectors_iso:
  assumes "iso_ready st" and "lsn + sectors < u32_bound" and "length buf = sectors * 2048 + m"
  shows "\<exists>r st' new. cdvdman_read_sectors src lz4 st lsn sectors buf =
      Some (r, st', new @ drop (sectors * 2048) buf) \<and>
    length new = sectors * 2048 \<and> iso_ready st' \<and> length (cdvdman_buf st') = length (cdvdman_buf st) \<and>
    (13 \<le> lsn \<longrightarrow> holds img nsec lsn new) \<and>
    (nsec \<le> lsn \<longrightarrow> r = 1 \<and> rd_err st' = SCECdErIPI) \<and>
    (lsn < nsec \<longrightarrow> nsec < lsn + sectors \<longrightarrow> r = 1 \<and> rd_err st' = SCECdErEOM) \<and>
    (13 \<le> lsn \<longrightarrow> lsn < nsec \<longrightarrow> lsn + sectors \<le> nsec \<longrightarrow> r = 0 \<and> rd_err st' = SCECdErNO)"
proof -
  have st: "mediaLsnCount st = nsec" "0 < nsec" "probed st" using assms(1) by (simp_all add: iso_ready_def)
  show ?thesis
  proof (cases "nsec \<le> lsn")
    case True
    have "cdvdman_read_sectors src lz4 st lsn sectors buf = Some (1, st\<lparr>rd_err := SCECdErIPI\<rparr>, buf)"
      using st True by (simp add: cdvdman_read_sectors_def)
    moreover have "holds img nsec lsn (take (sectors * 2048) buf)" using True by (auto simp: holds_def holds_at_def)
    ultimately show ?thesis using assms True
      by (intro exI [of _ 1] exI [of _ "st\<lparr>rd_err := SCECdErIPI\<rparr>"] exI [of _ "take (sectors * 2048) buf"]) simp
  next
    case False
    define n where "n = (if lsn + sectors > nsec then nsec - lsn else sectors)"
    have n: "n \<le> sectors" "lsn + n \<le> nsec" using False by (auto simp: n_def)
    then obtain q where q: "sectors = n + q" by (metis le_Suc_ex)
    let ?st = "st\<lparr>rd_err := SCECdErNO\<rparr>"
    have "length buf = 0 + n * 2048 + (q * 2048 + m)" using assms(3) q by (simp add: algebra_simps)
    moreover have "iso_ready ?st" using assms(1) by simp
    ultimately obtain s1 new where l: "read_loop src lz4 ?st lsn n 0 buf = Some (s1, new @ drop (n * 2048) buf)"
      "length new = n * 2048" "iso_ready s1" "length (cdvdman_buf s1) = length (cdvdman_buf st)"
      "13 \<le> lsn \<longrightarrow> holds img nsec lsn new \<and> rd_err s1 = SCECdErNO"
      using read_loop_iso [of ?st buf 0 n "q * 2048 + m" lz4 lsn] n(2) by auto
    let ?s = "if lsn + sectors > nsec then s1\<lparr>rd_err := SCECdErEOM\<rparr> else s1"
    let ?new = "new @ take (q * 2048) (drop (n * 2048) buf)"
    have "drop (n * 2048) buf = take (q * 2048) (drop (n * 2048) buf) @ drop (sectors * 2048) buf"
    proof -
      have "drop (n * 2048) buf = take (q * 2048) (drop (n * 2048) buf) @ drop (q * 2048) (drop (n * 2048) buf)"
        by (rule append_take_drop_id [symmetric])
      also have "drop (q * 2048) (drop (n * 2048) buf) = drop (sectors * 2048) buf" by (simp add: q algebra_simps)
      finally show ?thesis .
    qed
    then have b: "new @ drop (n * 2048) buf = ?new @ drop (sectors * 2048) buf" by (metis append.assoc)
    have r: "cdvdman_read_sectors src lz4 st lsn sectors buf =
        Some (if rd_err ?s = SCECdErNO then 0 else 1, ?s, ?new @ drop (sectors * 2048) buf)"
    proof (cases "nsec < lsn + sectors")
      case True
      then have nn: "n = nsec - lsn" by (simp add: n_def)
      from l(1) [unfolded b] True st False assms(2) show ?thesis
        by (simp add: cdvdman_read_sectors_def Let_def nn)
    next
      case le: False
      then have nn: "n = sectors" by (simp add: n_def)
      from l(1) [unfolded b] le st False assms(2) show ?thesis
        by (simp add: cdvdman_read_sectors_def Let_def nn)
    qed
    have h: "holds img nsec lsn ?new" if "13 \<le> lsn"
    proof -
      have "q = 0 \<or> lsn + n = nsec" using q False by (auto simp: n_def split: if_splits)
      then have "holds_at img (nsec * 2048) (lsn * 2048 + n * 2048) (take (q * 2048) (drop (n * 2048) buf))"
      proof
        assume "lsn + n = nsec"
        then have "nsec * 2048 = lsn * 2048 + n * 2048" by (metis add_mult_distrib)
        then show ?thesis by (simp add: holds_at_def)
      qed (simp add: holds_at_Nil)
      with l(2,5) that show ?thesis by (simp add: holds_def holds_at_append)
    qed
    have ln: "length ?new = sectors * 2048" using l(2) q assms(3) by (simp add: algebra_simps)
    have rd: "iso_ready ?s" "length (cdvdman_buf ?s) = length (cdvdman_buf st)" using l(3,4) by simp_all
    have "13 \<le> lsn \<longrightarrow> rd_err s1 = SCECdErNO" using l(5) by simp
    then show ?thesis
      using ln h False by (intro exI [of _ "if rd_err ?s = SCECdErNO then 0 else 1"] exI [of _ ?s]
        exI [of _ ?new] conjI r rd) simp_all
  qed
qed

lemma read_copy_iso:
  assumes "iso_ready st" and "lsn + sectors < u32_bound" and "length buf = off + sectors * 2048"
  shows "\<exists>st' new. read_copy src lz4 st lsn sectors 2048 off buf = Some (st', take off buf @ new) \<and>
    length new = sectors * 2048 \<and> iso_ready st' \<and> (13 \<le> lsn \<longrightarrow> holds img nsec lsn new)"
  using assms
proof (induction sectors arbitrary: st lsn off buf rule: less_induct)
  case (less sectors)
  show ?case
  proof (cases "sectors = 0")
    case True
    with less.prems show ?thesis by (subst read_copy.simps) (simp add: holds_def holds_at_Nil)
  next
    case nz: False
    obtain k where k: "0 < k" "length (cdvdman_buf st) = k * 2048"
      using less.prems(1) by (auto simp: iso_ready_def)
    define n where "n = min sectors k"
    have n: "0 < n" "n \<le> sectors" "n \<le> k" using nz k(1) by (auto simp: n_def)
    then obtain r where r: "sectors = n + r" by (metis le_Suc_ex)
    obtain m where "k = n + m" using n(3) by (metis le_Suc_ex)
    then have lb: "length (cdvdman_buf st) = n * 2048 + m * 2048" using k by (simp add: algebra_simps)
    have "lsn + n < u32_bound" using less.prems(2) n(2) by simp
    then obtain rv s1 new where rs: "cdvdman_read_sectors src lz4 st lsn n (cdvdman_buf st) =
        Some (rv, s1, new @ drop (n * 2048) (cdvdman_buf st))"
      "length new = n * 2048" "iso_ready s1" "length (cdvdman_buf s1) = length (cdvdman_buf st)"
      "13 \<le> lsn \<longrightarrow> holds img nsec lsn new"
      using read_sectors_iso [OF less.prems(1) _ lb, of lsn] by blast
    let ?cb = "new @ drop (n * 2048) (cdvdman_buf st)"
    let ?s = "s1\<lparr>cdvdman_buf := ?cb\<rparr>"
    have s: "iso_ready ?s" using rs(2,3,4) lb by (intro iso_ready_buf) simp_all
    have rd: "mem_read ?cb 0 (n * 2048) = Some new" using rs(2) by (simp add: mem_read_def)
    have len: "length buf = off + n * 2048 + r * 2048" using less.prems(3) r by (simp add: algebra_simps)
    let ?buf = "take off buf @ new @ drop (off + n * 2048) buf"
    have step: "read_copy src lz4 st lsn sectors 2048 off buf =
        read_copy src lz4 ?s (lsn + n) (sectors - n) 2048 (off + n * 2048) ?buf"
      using nz k rs(1) rd mem_write_parts [OF len rs(2)]
      by (subst read_copy.simps) (simp add: n_def [symmetric] Let_def)
    have rn: "sectors - n = r" "r < sectors" using r n(1) by simp_all
    have "length ?buf = (off + n * 2048) + r * 2048" using len rs(2) by simp
    moreover have "lsn + n + r < u32_bound" using less.prems(2) r by simp
    ultimately obtain st' new2 where rec: "read_copy src lz4 ?s (lsn + n) r 2048 (off + n * 2048) ?buf =
        Some (st', take (off + n * 2048) ?buf @ new2)"
      "length new2 = r * 2048" "iso_ready st'" "13 \<le> lsn + n \<longrightarrow> holds img nsec (lsn + n) new2"
      using less.IH [OF rn(2) s] by blast
    have "take (off + n * 2048) ?buf = take off buf @ new" using len rs(2) by simp
    then have "read_copy src lz4 st lsn sectors 2048 off buf = Some (st', take off buf @ (new @ new2))"
      using step [unfolded rn(1)] rec(1) by simp
    moreover have "length (new @ new2) = sectors * 2048" using rs(2) rec(2) r by (simp add: algebra_simps)
    moreover have "13 \<le> lsn \<longrightarrow> holds img nsec lsn (new @ new2)"
      using rs(2,5) rec(4) by (simp add: holds_def holds_at_append algebra_simps)
    ultimately show ?thesis using rec(3) by blast
  qed
qed

lemma cdvdman_read_iso:
  assumes "iso_ready st" and "lsn + sectors < u32_bound" and "length buf = sectors * 2048"
  shows "\<exists>st' new. cdvdman_read src lz4 st lsn sectors 2048 addr buf = Some (st', new) \<and>
    length new = sectors * 2048 \<and> iso_ready st' \<and> (13 \<le> lsn \<longrightarrow> holds img nsec lsn new)"
proof (cases "addr mod 4 = 0")
  case True
  have "length buf = sectors * 2048 + 0" using assms(3) by simp
  then obtain r s1 new where rs: "cdvdman_read_sectors src lz4 st lsn sectors buf =
      Some (r, s1, new @ drop (sectors * 2048) buf)" "length new = sectors * 2048" "iso_ready s1"
    "13 \<le> lsn \<longrightarrow> holds img nsec lsn new"
    using read_sectors_iso [OF assms(1,2)] by blast
  have "drop (sectors * 2048) buf = []" using assms(3) by simp
  with True rs show ?thesis by (simp add: cdvdman_read_def)
next
  case False
  have "length buf = 0 + sectors * 2048" using assms(3) by simp
  from read_copy_iso [OF assms(1,2) this, of lz4] False show ?thesis
    by (auto simp: cdvdman_read_def)
qed

text \<open>The disc that a plain image presents.\<close>

definition iso_disc :: "nat \<Rightarrow> u8 option" where
  "iso_disc a = (if a < nsec * 2048 then Some (img a) else None)"

lemma iso_disc_reader: "disc_reader (cdvdman_rd src lz4) iso_ready iso_disc 13"
proof -
  have main: "\<exists>st' new. cdvdman_rd src lz4 d lba n 2048 buf m =
      (st', \<lambda>a. if buf \<le> a \<and> a < buf + n * 2048 then new ! (a - buf) else m a) \<and>
      iso_ready st' \<and> length new = n * 2048 \<and> (13 \<le> lba \<longrightarrow> holds img nsec lba new)"
    if "iso_ready d" "lba + n < u32_bound" for d lba n buf m
  proof -
    have "length (map m [buf ..< buf + n * 2048]) = n * 2048" by simp
    from cdvdman_read_iso [OF that this, of lz4 buf] show ?thesis by (auto simp: cdvdman_rd_def)
  qed
  show ?thesis
  proof
    show "iso_ready (fst (cdvdman_rd src lz4 d lba n 2048 buf m))"
      if "iso_ready d" "lba + n < u32_bound" for d lba n buf m
      using main [OF that, of buf m] by auto
    show "snd (cdvdman_rd src lz4 d lba n 2048 buf m) a = m a"
      if "iso_ready d" "lba + n < u32_bound" "a < buf \<or> buf + n * 2048 \<le> a" for d lba n buf m a
      using main [OF that(1,2), of buf m] that(3) by auto
    show "on_disc iso_disc (lba * 2048 + k) (snd (cdvdman_rd src lz4 d lba n 2048 buf m) (buf + k))"
      if "iso_ready d" "lba + n < u32_bound" "13 \<le> lba" "k < n * 2048" for d lba n buf m k
      using main [OF that(1,2), of buf m] that(3,4)
      by (auto simp: on_disc_def iso_disc_def holds_def holds_at_def)
  qed
qed

end

section \<open>The hard-disk device\<close>

interpretation hdd_disc: disc_reader "cdvdman_rd (DeviceReadSectors_hdd ata) lz4"
    "hdd.iso_ready ata img nsec" "hdd.iso_disc img nsec" 13
  for ata lz4 img nsec
  by (rule hdd.iso_disc_reader)

end
