(* ===== verification/Cdvd_Props.thy ===== *)
theory Cdvd_Props
  imports Cdvd_Disc
begin

text \<open>
  The properties of the disc driver, on the hard-disk device: its read path, and the streaming
  component on top of it. The witnesses run on a small concrete disc.
\<close>

section \<open>A concrete disc\<close>

text \<open>A hundred sectors of the byte 7 in one extent, read without a cache.\<close>

definition demo_img :: "nat \<Rightarrow> u8" where "demo_img a = 7"
definition demo_ata :: ata where "demo_ata lba n = Some (replicate (n * 512) 7)"
definition demo_lz4 :: "u8 list \<Rightarrow> u8 list \<Rightarrow> u8 list" where "demo_lz4 src dst = dst"

definition demo_hdd :: hdd where
  "demo_hdd = \<lparr>cdvdman_partspecs = [\<lparr>part_offset = 0, data_start = 64, part_size = 204800\<rparr>],
     NumParts = 1, CurrentPart = 0\<rparr>"

definition demo_rstate :: "hdd rstate" where
  "demo_rstate = \<lparr>hw = demo_hdd, mediaLsnCount = 100, probed = True, compressed = False,
     rd_err = SCECdErNO, ReadPos = 0, logo_key = 0, accu_reads = False, zso_cache = 0, alloc_ok = True,
     MAX_SECTOR_CACHE = 0, sector_cache = None, cur_sector = None, ziso_align = 0,
     ziso_total_block = 0, ziso_idx_start_block = None, ziso_idx_cache = replicate 1028 0,
     ziso_tmp_buf = replicate 2048 0, cdvdman_buf = replicate 4096 0\<rparr>"

lemma demo_hdd_ok: "hdd_ok demo_ata demo_img 100 demo_hdd"
  by (auto simp: hdd_ok_def extent_ok_def demo_ata_def demo_img_def demo_hdd_def in_part_def
      holds_def holds_at_def)

lemma demo_ready: "hdd.iso_ready demo_ata demo_img 100 demo_rstate"
  using demo_hdd_ok
  by (simp add: hdd.iso_ready_def hdd.cinv_def cache_ok_def demo_rstate_def)

lemma demo_parts:
  "hdd_ok demo_ata demo_img 100 (hw demo_rstate)" "cache_ok demo_img 100 demo_rstate"
  "length (ziso_tmp_buf demo_rstate) = 2048"
  using demo_ready by (simp_all add: hdd.iso_ready_def hdd.cinv_def) (simp add: demo_rstate_def)

text \<open>A compressed image of one stored block: index entries, then the block of the byte 9.\<close>

definition demo_zso :: "nat \<Rightarrow> u8" where
  "demo_zso a = (if a = 24 then 32 else if a = 27 then 0x80 else if a = 28 then 32 else if a = 29 then 8
     else if a < 32 then 0 else 9)"

definition demo_zata :: ata where
  "demo_zata lba n = Some (img_bytes demo_zso ((lba - 64) * 512) (n * 512))"

lemma demo_zhdd_ok: "hdd_ok demo_zata demo_zso 100 demo_hdd"
  by (auto simp: hdd_ok_def extent_ok_def demo_zata_def demo_hdd_def in_part_def part_lba_def
      holds_def holds_at_def img_bytes_nth algebra_simps)

definition demo_zstate :: "hdd rstate" where
  "demo_zstate = demo_rstate\<lparr>compressed := True, ziso_total_block := 1\<rparr>"

lemma demo_zready: "hdd.zso_ready demo_zata demo_zso 100 0 1 demo_zstate"
  using demo_zhdd_ok
  by (simp add: hdd.zso_ready_def hdd.cinv_def cache_ok_def demo_zstate_def demo_rstate_def
      ZISO_IDX_MAX_ENTRIES_def)

lemma demo_entries: "zso_entry demo_zso 0 = 0x80000020" "zso_entry demo_zso 1 = 0x820"
  by (simp_all add: zso_entry_def img_bytes_def le32_def demo_zso_def ZSO_HEADER_SIZE_def
      upt_conv_Cons push_bit_eq_mult)

lemma demo_zso_file: "zso_file demo_lz4 demo_zso (100 * 2048) 0 1 (\<lambda>_. 9)"
proof -
  have "img_bytes demo_zso 32 2048 = img_bytes (\<lambda>_. 9) 0 2048"
    by (intro nth_equalityI) (simp_all add: img_bytes_nth demo_zso_def)
  then show ?thesis
    by (simp add: zso_file_def zso_off_def zso_size_def zso_block_def demo_entries demo_entries [unfolded One_nat_def] ZSO_HEADER_SIZE_def)
qed

section \<open>The read path\<close>

text \<open>
  a read of the hard disk that walks over several partition extents returns exactly the bytes
  of the image wherever it lies inside it, fails only when it leaves it, and keeps the device's
  state well formed.
\<close>

lemma hdd_read_sectors:
  assumes "hdd_ok ata img nsec st" and "length old = n * 2048"
    and "DeviceReadSectors_hdd ata st lsn n old = (e, st', new)"
  shows "hdd_ok ata img nsec st' \<and> length new = n * 2048 \<and>
    (\<forall>k < n * 2048. lsn * 2048 + k < nsec * 2048 \<longrightarrow> new ! k = img (lsn * 2048 + k)) \<and>
    (lsn + n \<le> nsec \<longrightarrow> e = SCECdErNO)"
  using hdd_source [OF assms] by (auto simp: holds_def holds_at_def)

theorem hdd_read_sectors_witness:
  "\<exists>e st' new. DeviceReadSectors_hdd demo_ata demo_hdd 5 2 (replicate 4096 0) = (e, st', new) \<and>
     e = SCECdErNO \<and> new ! 0 = 7"
proof -
  obtain e st' new where r: "DeviceReadSectors_hdd demo_ata demo_hdd 5 2 (replicate 4096 0) = (e, st', new)"
    by (metis prod_cases3)
  from hdd_read_sectors [OF demo_hdd_ok _ r] r show ?thesis by (simp add: demo_img_def)
qed

text \<open>
  C26: reads through the sector cache return the bytes of the image, and the cache stays coherent
  with it: caching is invisible.
\<close>

theorem cached_read_transparent:
  assumes "hdd_ok ata img nsec (hw st)" and "cache_ok img nsec st" and "length old = n * 2048"
    and "DeviceReadSectorsCached (DeviceReadSectors_hdd ata) st lsn n old = (e, st', new)"
  shows "hdd_ok ata img nsec (hw st') \<and> cache_ok img nsec st' \<and> length new = n * 2048 \<and>
    (\<forall>k < n * 2048. lsn * 2048 + k < nsec * 2048 \<longrightarrow> new ! k = img (lsn * 2048 + k))"
proof -
  have "hdd.cinv ata img nsec st" using assms(1,2) by (simp add: hdd.cinv_def)
  from hdd_cached.src_inv [OF this assms(3,4)] hdd_cached.src_len [OF this assms(3,4)]
    hdd_cached.src_data [OF this assms(3,4)]
  show ?thesis by (simp add: hdd.cinv_def holds_def holds_at_def)
qed

theorem cached_read_transparent_witness:
  "\<exists>e st' new. DeviceReadSectorsCached (DeviceReadSectors_hdd demo_ata)
       (demo_rstate\<lparr>MAX_SECTOR_CACHE := 4, sector_cache := Some (replicate 8192 0)\<rparr>) 98 1
       (replicate 2048 0) = (e, st', new) \<and> cache_ok demo_img 100 st' \<and> new ! 9 = 7"
proof -
  let ?st = "demo_rstate\<lparr>MAX_SECTOR_CACHE := 4, sector_cache := Some (replicate 8192 0)\<rparr>"
  obtain e st' new where r: "DeviceReadSectorsCached (DeviceReadSectors_hdd demo_ata) ?st 98 1
      (replicate 2048 0) = (e, st', new)" by (metis prod_cases3)
  have "hdd_ok demo_ata demo_img 100 (hw ?st)" "cache_ok demo_img 100 ?st"
    using demo_hdd_ok by (simp_all add: demo_rstate_def cache_ok_def)
  from cached_read_transparent [OF this _ r] r show ?thesis by (simp add: demo_img_def)
qed

text \<open>
  C25: \<^verbatim>\<open>read_raw_data\<close> returns exactly the \<open>sz\<close> bytes that start at \<open>offset << shift\<close>, whatever
  their alignment to sectors, and leaves the decoder's variables alone.
\<close>

theorem read_raw_data_exact:
  assumes "hdd_ok ata img nsec (hw st)" and "cache_ok img nsec st" and "length (ziso_tmp_buf st) = 2048"
    and "shift \<le> 11" and "length old = sz" and "offset * 2 ^ shift + sz \<le> nsec * 2048"
  shows "\<exists>st'. read_raw_data (DeviceReadSectorsCached (DeviceReadSectors_hdd ata)) st sz offset shift old =
      (st', img_bytes img (offset * 2 ^ shift) sz, sz) \<and>
    cache_ok img nsec st' \<and> ziso_idx_cache st' = ziso_idx_cache st"
proof -
  have "hdd.cinv ata img nsec st" using assms(1,2) by (simp add: hdd.cinv_def)
  from hdd_raw.read_raw_data_ok [OF this assms(3,4,5), of offset]
  obtain st' out where r: "read_raw_data (DeviceReadSectorsCached (DeviceReadSectors_hdd ata)) st sz offset shift old
      = (st', out, sz)" "hdd_raw.raw_ok ata img nsec st st'" "length out = sz"
      "holds_at img (nsec * 2048) (offset * 2 ^ shift) out" by blast
  from r(2) have "hdd.cinv ata img nsec st'" "io_only st st'" by (simp_all add: hdd_raw.raw_ok_def)
  with io_only_sel(4) holds_at_img [OF r(4)] r(1,3) assms(6) show ?thesis
    by (auto simp: hdd.cinv_def)
qed

theorem read_raw_data_exact_witness:
  "\<exists>st'. read_raw_data (DeviceReadSectorsCached (DeviceReadSectors_hdd demo_ata)) demo_rstate 5000 300 2
      (replicate 5000 0) = (st', img_bytes demo_img 1200 5000, 5000)"
proof -
  have "length (replicate 5000 (0 :: u8)) = 5000" by simp
  from read_raw_data_exact [OF demo_parts _ this, of 2 300] show ?thesis by auto
qed

text \<open>
  C12: decoding a well-formed ZSO file: reading up to 256 sectors returns the sectors that the file
  encodes, although the compressed data is read into, and decompressed inside, the caller's own
  buffer; no access leaves the buffer or the index cache, and the cached index stays that of the
  file. The decompressor is the parameter \<open>lz4\<close>.
\<close>

theorem ziso_read_sector_decodes:
  assumes "zso_file lz4 img (nsec * 2048) align blocks disc"
    and "hdd.zso_ready ata img nsec align blocks st"
    and "count \<le> 256" and "lsn < blocks" and "lsn + count \<le> blocks" and "length buf = count * 2048"
  shows "\<exists>st'. ziso_read_sector (DeviceReadSectors_hdd ata) lz4 st lsn count buf =
      Some (count, st', img_bytes disc (lsn * 2048) (count * 2048)) \<and>
    hdd.zso_ready ata img nsec align blocks st'"
  using assms by (rule hdd.ziso_read_sector_ok)

theorem ziso_read_sector_decodes_witness:
  "\<exists>st'. ziso_read_sector (DeviceReadSectors_hdd demo_zata) demo_lz4 demo_zstate 0 1 (replicate 2048 0) =
     Some (1, st', img_bytes (\<lambda>_. 9) 0 2048)"
  using ziso_read_sector_decodes [OF demo_zso_file demo_zready, of 1 0 "replicate 2048 0"] by auto

text \<open>
  C22: \<^verbatim>\<open>cdvdman_read_sectors\<close> at the end of the media: a read that starts beyond it changes nothing
  and reports \<^verbatim>\<open>SCECdErIPI\<close>, one that crosses it reports \<^verbatim>\<open>SCECdErEOM\<close>, one inside it succeeds; the
  sectors inside the media arrive in the buffer in every case (from sector 13 on, where the logo
  descrambling ends), and nothing behind the destination is touched.
\<close>

theorem cdvdman_read_sectors_media:
  assumes "hdd.iso_ready ata img nsec st" and "13 \<le> lsn" and "lsn + sectors < 2 ^ 32"
    and "length buf = sectors * 2048 + m"
  shows "\<exists>r st' new. cdvdman_read_sectors (DeviceReadSectors_hdd ata) lz4 st lsn sectors buf =
      Some (r, st', new @ drop (sectors * 2048) buf) \<and> length new = sectors * 2048 \<and>
    hdd.iso_ready ata img nsec st' \<and>
    (\<forall>k < sectors * 2048. lsn * 2048 + k < nsec * 2048 \<longrightarrow> new ! k = img (lsn * 2048 + k)) \<and>
    rd_err st' = (if nsec \<le> lsn then SCECdErIPI else if nsec < lsn + sectors then SCECdErEOM else SCECdErNO) \<and>
    (r = 0 \<longleftrightarrow> lsn < nsec \<and> lsn + sectors \<le> nsec)"
proof -
  have u: "lsn + sectors < u32_bound" using assms(3) by simp
  from hdd.read_sectors_iso [OF assms(1) u assms(4), of lz4] assms(2) show ?thesis
    by (force simp: holds_def holds_at_def not_le)
qed

theorem cdvdman_read_sectors_media_witness:
  "\<exists>r st' new. cdvdman_read_sectors (DeviceReadSectors_hdd demo_ata) demo_lz4 demo_rstate 99 2
       (replicate 4096 0) = Some (r, st', new) \<and> rd_err st' = SCECdErEOM \<and> new ! 5 = 7"
  using cdvdman_read_sectors_media [OF demo_ready, of 99 2 "replicate 4096 0" 0 demo_lz4]
  by (fastforce simp: demo_img_def nth_append)

text \<open>
  a read into an unaligned destination, which goes through \<^verbatim>\<open>cdvdman_buf\<close> a few sectors at a
  time, delivers the same sectors as a direct one.
\<close>

lemma cdvdman_read_any_alignment:
  assumes "hdd.iso_ready ata img nsec st" and "13 \<le> lsn" and "lsn + sectors \<le> nsec"
    and "length buf = sectors * 2048"
  shows "\<exists>st'. cdvdman_read (DeviceReadSectors_hdd ata) lz4 st lsn sectors 2048 addr buf =
      Some (st', img_bytes img (lsn * 2048) (sectors * 2048)) \<and> hdd.iso_ready ata img nsec st' \<and> ReadPos st' = 0"
proof -
  have u: "lsn + sectors < u32_bound" using assms(1,3) by (simp add: hdd.iso_ready_def)
  obtain st' new where r: "cdvdman_read (DeviceReadSectors_hdd ata) lz4 st lsn sectors 2048 addr buf = Some (st', new)"
    "length new = sectors * 2048" "hdd.iso_ready ata img nsec st'" "holds img nsec lsn new"
    using hdd.cdvdman_read_iso [OF assms(1) u assms(4), of lz4 addr] assms(2) by auto
  have "new = img_bytes img (lsn * 2048) (sectors * 2048)"
  proof -
    have "lsn * 2048 + sectors * 2048 \<le> nsec * 2048"
      using assms(3) by (metis add_mult_distrib mult_le_mono1)
    with holds_at_img [of img "nsec * 2048" "lsn * 2048" new] r(2,4) show ?thesis by (simp add: holds_def)
  qed
  moreover have "ReadPos st' = 0" using r(1) by (auto simp: cdvdman_read_def split: bind_splits)
  ultimately show ?thesis using r by blast
qed

theorem cdvdman_read_any_alignment_witness:
  "\<exists>st'. cdvdman_read (DeviceReadSectors_hdd demo_ata) demo_lz4 demo_rstate 20 5 2048 3
     (replicate 10240 0) = Some (st', img_bytes demo_img 40960 10240)"
  using cdvdman_read_any_alignment [OF demo_ready, of 20 5 "replicate 10240 0" demo_lz4 3] by auto

lemma bcd_digits:
  fixes d :: u32
  assumes "unat d < 100"
  shows "bcd (ucast ((d div 10) * 16 + d - (d div 10) * 10)) = d"
    and "bcd (ucast ((d - (d div 10) * 10) + (d div 10) * 16)) = d"
proof -
  have all: "list_all (\<lambda>d :: u32. bcd (ucast ((d div 10) * 16 + d - (d div 10) * 10)) = d)
      (map word_of_nat [0 ..< 100])" by code_simp
  have "d \<in> set (map word_of_nat [0 ..< 100])"
  proof -
    have "unat d \<in> set [0 ..< 100]" unfolding set_upt using assms by simp
    then have "word_of_nat (unat d) \<in> (word_of_nat :: nat \<Rightarrow> u32) ` set [0 ..< 100]" by (rule imageI)
    moreover have "word_of_nat (unat d) = d" by simp
    ultimately show ?thesis by (simp only: set_map)
  qed
  with all show 1: "bcd (ucast ((d div 10) * 16 + d - (d div 10) * 10)) = d"
    by (simp only: list_all_iff)
  have "(d - (d div 10) * 10) + (d div 10) * 16 = (d div 10) * 16 + d - (d div 10) * 10" by simp
  with 1 show "bcd (ucast ((d - (d div 10) * 10) + (d div 10) * 16)) = d" by simp
qed

text \<open>
  positions in packed decimal: converting a sector number of a disc (below 100 minutes) to
  minute, second and sector and back gives the number, and the fields are decimal digits in range.
\<close>

lemma position_roundtrip:
  assumes "unat i + 150 < 450000"
  shows "sceCdPosToInt (sceCdIntToPos i) = i"
proof -
  let ?x = "i + 150"
  have x: "unat ?x < 450000" using assms by (subst unat_add_le) simp_all
  have se: "unat (?x div 75) = unat ?x div 75" by (simp add: unat_div)
  have mi: "unat (?x div 75 div 60) < 100" using x by (simp add: unat_div)
  have s: "?x div 75 - ?x div 75 div 60 * 60 = ?x div 75 mod 60" by (simp only: minus_div_mult_eq_mod)
  have c: "?x - ?x div 75 * 75 = ?x mod 75" by (simp only: minus_div_mult_eq_mod)
  have "unat (?x div 75 mod 60) < 100" "unat (?x mod 75) < 100"
    using mod_less_divisor [of 60 "unat (?x div 75)"] mod_less_divisor [of 75 "unat ?x"]
    by (simp_all add: unat_mod)
  note d = bcd_digits [OF mi] bcd_digits [OF this(1)] bcd_digits [OF this(2)]
  have "sceCdPosToInt (sceCdIntToPos i) =
      ((?x div 75 div 60 * 60 + ?x div 75 mod 60) * 75 + ?x mod 75) - 150"
    by (simp only: sceCdPosToInt_def sceCdIntToPos_def Let_def sceCdlLOCCD.simps s c d)
  also have "?x div 75 div 60 * 60 + ?x div 75 mod 60 = ?x div 75" by (simp only: div_mult_mod_eq)
  also have "?x div 75 * 75 + ?x mod 75 = ?x" by (simp only: div_mult_mod_eq)
  finally show ?thesis by simp
qed

theorem position_roundtrip_witness: "sceCdPosToInt (sceCdIntToPos 123456) = 123456"
  by (rule position_roundtrip) simp

section \<open>Streaming\<close>

definition demo_stream :: "hdd rstate cdvd" where
  "demo_stream = sceCdStStart (cdvdman_rd (DeviceReadSectors_hdd demo_ata) demo_lz4) 20
     (the (sceCdStInit 16 2 0 (cdvd_boot demo_rstate)))"

lemma demo_init:
  "init_ok 16 2 0 (cdvd_boot demo_rstate)"
  "sceCdStInit 16 2 0 (cdvd_boot demo_rstate) = Some (the (sceCdStInit 16 2 0 (cdvd_boot demo_rstate)))"
  "Stlsn (the (sceCdStInit 16 2 0 (cdvd_boot demo_rstate))) = 0"
  "StBanksize (the (sceCdStInit 16 2 0 (cdvd_boot demo_rstate))) = 8"
  by (simp_all add: init_ok_def cdvd_boot_def sceCdStInit_def StReset_def Let_def)

lemma demo_stream_inv:
  "stm_inv (hdd.iso_ready demo_ata demo_img 100) (hdd.iso_disc demo_img 100) 13 demo_stream"
proof -
  have "drv (cdvd_boot demo_rstate) = demo_rstate" by (simp add: cdvd_boot_def)
  with demo_ready have "hdd.iso_ready demo_ata demo_img 100 (drv (cdvd_boot demo_rstate))" by simp
  from StInit_inv [where P = "hdd.iso_ready demo_ata demo_img 100", OF demo_init(1) this demo_init(2)] show ?thesis
    unfolding demo_stream_def by (rule hdd_disc.Start_inv) (simp_all add: demo_init(3,4))
qed

lemma demo_stream_sel:
  "StStat demo_stream = 1" "stm0cb demo_stream" "Stlsn demo_stream = 20" "StBanksize demo_stream = 8"
  "StStreamed demo_stream = 0" "StIsReading demo_stream = 1" "stm_pos demo_stream = 20"
  by (simp_all add: demo_stream_def sceCdStStart_def sceCdStStop_def sceCdStInit_def StReset_def Let_def
      cdvd_boot_def StStartFillStreamBuffer_def StFill_eq stm_pos_def)




definition demo_full :: "hdd rstate cdvd" where
  "demo_full = (cdvd_boot demo_rstate)\<lparr>StBufmax := 16, StBankmax := 2, StBanksize := 8, StWritePtr := 8,
     StReadPtr := 0, StStreamed := 8, StStat := 1, Stlsn := 28, stm0cb := True, imem := (\<lambda>_. 7)\<rparr>"

lemma demo_full_inv:
  "stm_inv (hdd.iso_ready demo_ata demo_img 100) (hdd.iso_disc demo_img 100) 13 demo_full"
  using demo_ready
  by (simp add: stm_inv_def ring_geom_def ring_data_def ring_pending_def demo_full_def cdvd_boot_def
      on_disc_def hdd.iso_disc_def demo_img_def)


text \<open>
  C5: the stream is a sequential reader of the disc. When \<^verbatim>\<open>sceCdStRead\<close> returns, from whatever
  mixture of buffered banks and reads that complete while it waits, the destination (IOP or EE
  memory) holds the \<open>res\<close> sectors that follow the stream position, the position has moved on by
  \<open>res\<close>, a blocking call has delivered everything asked for, and the invariant holds again.
\<close>

theorem stream_read_sequential:
  assumes "stm_inv (hdd.iso_ready ata img nsec) (hdd.iso_disc img nsec) 13 s"
    and "StStat s \<noteq> 0" and "stm0cb s" and "Stlsn s + Suc fuel * StBanksize s < 2 ^ 32"
    and "dst_ok ee ptr sectors s"
    and "sceCdStRead (cdvdman_rd (DeviceReadSectors_hdd ata) lz4) fuel sectors ee ptr mode s = Some (res, e, s')"
  shows "0 \<le> res \<and> res \<le> int sectors \<and> (mode \<longrightarrow> res = int sectors) \<and>
    stm_pos s' = stm_pos s + nat res \<and>
    (\<forall>j < nat res * 2048. stm_pos s * 2048 + j < nsec * 2048 \<longrightarrow>
       out_mem ee s' (ptr + j) = img (stm_pos s * 2048 + j)) \<and>
    stm_inv (hdd.iso_ready ata img nsec) (hdd.iso_disc img nsec) 13 s'"
proof -
  have u: "Stlsn s + Suc fuel * StBanksize s < u32_bound" using assms(4) by simp
  from hdd_disc.StRead_post [OF assms(1-3) u assms(5,6)] show ?thesis
    by (auto simp: delivered_def on_disc_def hdd.iso_disc_def)
qed

theorem stream_read_sequential_witness:
  "\<exists>s' e. sceCdStRead (cdvdman_rd (DeviceReadSectors_hdd demo_ata) demo_lz4) 2 5 True 0 True demo_full =
     Some (5, e, s') \<and> stm_pos s' = 25 \<and> emem s' 9000 = 7"
proof -
  let ?rd = "cdvdman_rd (DeviceReadSectors_hdd demo_ata) demo_lz4"
  have st: "StStat demo_full \<noteq> 0" "stm0cb demo_full" "StStreamed demo_full = 8"
    "Stlsn demo_full + Suc 2 * StBanksize demo_full < 2 ^ 32" "stm_pos demo_full = 20"
    by (simp_all add: demo_full_def cdvd_boot_def stm_pos_def)
  have ok: "dst_ok True 0 5 demo_full" by (simp add: dst_ok_def)
  obtain s' where r: "sceCdStRead ?rd 2 5 True 0 True demo_full = Some (5, Some SCECdErNO, s')"
    using hdd_disc.StRead_returns [OF demo_full_inv st(1) ok, of True demo_lz4 0] st(3)
    by (auto simp: numeral_2_eq_2)
  from stream_read_sequential [OF demo_full_inv st(1,2,4) ok r] st(5)
  show ?thesis using r by (auto simp: demo_img_def out_mem_def)
qed

text \<open>
  C38: a call that asks for no more than the ring holds, and any non-blocking call, returns at once
  with exactly the sectors available and no error.
\<close>

theorem stream_read_returns:
  assumes "stm_inv (hdd.iso_ready ata img nsec) (hdd.iso_disc img nsec) 13 s"
    and "StStat s \<noteq> 0" and "dst_ok ee ptr sectors s" and "\<not> mode \<or> sectors \<le> StStreamed s"
  shows "\<exists>s'. sceCdStRead (cdvdman_rd (DeviceReadSectors_hdd ata) lz4) (Suc (Suc fuel)) sectors ee ptr mode s =
    Some (min (int (StStreamed s)) (int sectors), Some SCECdErNO, s')"
  using assms by (rule hdd_disc.StRead_returns)

theorem stream_read_returns_witness:
  "\<exists>s'. sceCdStRead (cdvdman_rd (DeviceReadSectors_hdd demo_ata) demo_lz4) 2 12 True 0 False demo_full =
    Some (8, Some SCECdErNO, s')"
proof -
  have st: "StStat demo_full \<noteq> 0" "StStreamed demo_full = 8"
    by (simp_all add: demo_full_def cdvd_boot_def)
  have ok: "dst_ok True 0 12 demo_full" by (simp add: dst_ok_def)
  from stream_read_returns [OF demo_full_inv st(1) ok, of False demo_lz4 0] st(2)
  show ?thesis by (simp add: numeral_2_eq_2)
qed

text \<open>
  C37: a blocking \<^verbatim>\<open>sceCdStRead\<close> for more sectors than are buffered never returns when no read is in
  flight and no retry is armed (a full ring): the loop drains the ring but restarts the reads only
  after it ends.
\<close>

theorem stream_read_blocks_forever:
  assumes "stm_inv (hdd.iso_ready ata img nsec) (hdd.iso_disc img nsec) 13 s"
    and "StStat s \<noteq> 0" and "dst_ok ee ptr sectors s" and "StStreamed s < sectors"
    and "pending s = None" and "\<not> alarm s"
  shows "sceCdStRead (cdvdman_rd (DeviceReadSectors_hdd ata) lz4) fuel sectors ee ptr True s = None"
  using assms by (rule hdd_disc.StRead_blocks)

definition demo_ring_full :: "hdd rstate cdvd" where
  "demo_ring_full = demo_full\<lparr>StWritePtr := 0, StStreamed := 16, Stlsn := 36\<rparr>"

theorem stream_read_blocks_forever_witness:
  "sceCdStRead (cdvdman_rd (DeviceReadSectors_hdd demo_ata) demo_lz4) 1000 17 True 0 True demo_ring_full = None"
proof (rule stream_read_blocks_forever)
  show "stm_inv (hdd.iso_ready demo_ata demo_img 100) (hdd.iso_disc demo_img 100) 13 demo_ring_full"
    using demo_ready
    by (simp add: stm_inv_def ring_geom_def ring_data_def ring_pending_def demo_ring_full_def demo_full_def
        cdvd_boot_def on_disc_def hdd.iso_disc_def demo_img_def)
qed (simp_all add: demo_ring_full_def demo_full_def cdvd_boot_def dst_ok_def)

end
