(* ===== verification/Cdvd_Ncmd.thy ===== *)
theory Cdvd_Ncmd
  imports Cdvd_Stream Cdvd_Read
begin

text \<open>
  The N commands of the emulated drive (\<^verbatim>\<open>modules/iopcore/cdvdman/ncmd.c\<close>): reads, the table of contents,
  seek, stop, pause, standby and the disc id, on the state of \<open>Cdvd_Stream\<close>.

  The settings that the loader passes are a record; \<open>lsn_count\<close> reads \<^verbatim>\<open>mediaLsnCount\<close>, which is part of
  the read path's state.
\<close>

section \<open>State\<close>

record cd_settings =
  alt_read :: bool
  emu_dvddl :: bool
  skip_videos :: bool
  cfg_layer1_start :: nat
  cfg_DiscID :: "u8 list"

text \<open>The disc types that the table of contents distinguishes.\<close>

datatype disc_type = SCECdPS2CD | SCECdPS2CDDA | SCECdPS2DVD | SCECdDVDV | SCECdOther

datatype datapattern = SCECdSecS2048 | SCECdSecS2328 | SCECdSecS2340

section \<open>Reads\<close>

definition cdvdman_SyncRead :: "'d reader \<Rightarrow> nat \<Rightarrow> nat \<Rightarrow> nat \<Rightarrow> nat \<Rightarrow> 'd cdvd \<Rightarrow> nat \<times> 'd cdvd" where
  "cdvdman_SyncRead rd lsn sectors ssize buf s =
     (case cdvdman_common_lock s of
        (False, s1) \<Rightarrow> (0, s1)
      | (True, s1) \<Rightarrow>
          (let (d, m) = rd (drv s1) lsn sectors ssize buf (imem s1)
           in (1, (cdvdman_signal_read_end (s1\<lparr>drv := d, imem := m\<rparr>))\<lparr>sync_flag := False, ef8 := True\<rparr>)))"

text \<open>\<open>mode\<close> is \<open>None\<close> for a null pointer, \<open>intr\<close> the answer of \<^verbatim>\<open>QueryIntrContext\<close>.\<close>

definition sceCdRead ::
  "cd_settings \<Rightarrow> bool \<Rightarrow> 'd reader \<Rightarrow> nat \<Rightarrow> nat \<Rightarrow> nat \<Rightarrow> datapattern option \<Rightarrow> 'd cdvd \<Rightarrow> nat \<times> 'd cdvd" where
  "sceCdRead cfg intr rd lsn sectors buf mode s =
     (let ssize = (case mode of Some SCECdSecS2328 \<Rightarrow> 2328 | Some SCECdSecS2340 \<Rightarrow> 2340 | _ \<Rightarrow> 2048) in
      if \<not> alt_read cfg \<or> intr then cdvdman_AsyncRead lsn sectors ssize buf s
      else cdvdman_SyncRead rd lsn sectors ssize buf s)"

text \<open>\<^verbatim>\<open>sceCdSync\<close>: the poll modes answer at once, the others wait for the read thread.\<close>

definition sceCdSync :: "'d reader \<Rightarrow> nat \<Rightarrow> 'd cdvd \<Rightarrow> nat \<times> 'd cdvd" where
  "sceCdSync rd mode s =
     (if \<not> sync_flag s then (0, s)
      else if mode = 1 \<or> mode = 17 then (1, s)
      else (0, sceCdSync0 rd s))"

section \<open>The table of contents\<close>

definition lba_to_msf :: "nat \<Rightarrow> u8 \<times> u8 \<times> u8" where
  "lba_to_msf lba =
     (let lba = lba + 150 in (of_nat (lba div (60 * 75)), of_nat ((lba div 75) mod 60), of_nat (lba mod 75)))"

definition itob :: "u8 \<Rightarrow> u8" where
  "itob i = of_nat (unat i div 10 * 16 + unat i mod 10)"

definition toc_point :: "u8 \<Rightarrow> u8 \<Rightarrow> u8 \<Rightarrow> u8 \<Rightarrow> u8 \<Rightarrow> u8 list" where
  "toc_point ctrl point m se f = [ctrl, 0, point, 0, 0, 0, 0, m, se, f]"

text \<open>\<^verbatim>\<open>toc_t\<close> of a CD: the three lead-in points, no tracks.\<close>

definition toc_cd :: "nat \<Rightarrow> u8 list" where
  "toc_cd mlc =
     (case lba_to_msf mlc of (m, se, f) \<Rightarrow>
        toc_point 0x41 0xA0 1 0 0 @ toc_point 0 0xA1 1 0 0 @ toc_point 0 0xA2 (itob m) (itob se) (itob f) @
        replicate (99 * 10 + 4) 0)"

definition toc_dvd :: "cd_settings \<Rightarrow> nat \<Rightarrow> u8 list" where
  "toc_dvd cfg mlc =
     (let dual = \<not> emu_dvddl cfg \<or> cfg_layer1_start cfg > 0;
          maxlsn = (of_nat (if cfg_layer1_start cfg \<noteq> 0 then cfg_layer1_start cfg else mlc) + (0x30000 - 1) :: u32)
      in [if dual then 0x24 else 0x04, 0x02, 0xF2, 0x00, if dual then 0x41 else 0x86, if dual then 0x95 else 0x72,
          0, 0, 0, 0, 0, 0, 0x01, 0x02, if dual then 0x21 else 0x01, 0x00, 0, 0x03, 0, 0,
          ucast (drop_bit 24 maxlsn), ucast (drop_bit 16 maxlsn), ucast (drop_bit 8 maxlsn), ucast maxlsn] @
         replicate (2048 - 24) 0)"

text \<open>\<^verbatim>\<open>None\<close>: the disc type has no table of contents here.\<close>

definition cdvdman_fill_toc :: "cd_settings \<Rightarrow> disc_type \<Rightarrow> nat \<Rightarrow> u8 list option" where
  "cdvdman_fill_toc cfg ty mlc =
     (case ty of
        SCECdPS2CD \<Rightarrow> Some (toc_cd mlc) | SCECdPS2CDDA \<Rightarrow> Some (toc_cd mlc)
      | SCECdPS2DVD \<Rightarrow> Some (toc_dvd cfg mlc) | SCECdDVDV \<Rightarrow> Some (toc_dvd cfg mlc)
      | SCECdOther \<Rightarrow> None)"

text \<open>The callback event; its effect on this state is the end of the operation.\<close>

definition cdvdman_cb_event :: "'d cdvd \<Rightarrow> 'd cdvd" where
  "cdvdman_cb_event s = cdvdman_signal_read_end s"

definition sceCdGetToc ::
  "cd_settings \<Rightarrow> disc_type \<Rightarrow> ('d \<Rightarrow> nat) \<Rightarrow> 'd cdvd \<Rightarrow> nat \<times> u8 list option \<times> 'd cdvd" where
  "sceCdGetToc cfg ty lsn_count s =
     (if sync_flag s then (0, None, s)
      else
        (let s = s\<lparr>cderr := SCECdErNO\<rparr>; toc = cdvdman_fill_toc cfg ty (lsn_count (drv s));
             s = (if toc = None then s\<lparr>cderr := SCECdErREAD\<rparr> else s)
         in (if toc = None then 0 else 1, toc, cdvdman_cb_event s)))"

section \<open>Drive commands\<close>

definition sceCdSeek :: "('d \<Rightarrow> nat) \<Rightarrow> nat \<Rightarrow> 'd cdvd \<Rightarrow> nat \<times> 'd cdvd" where
  "sceCdSeek lsn_count lsn s =
     (if sync_flag s then (0, s)
      else
        (let s = s\<lparr>cderr := SCECdErNO, cdstatus := SCECdStatPause\<rparr>; mlc = lsn_count (drv s)
         in (1, cdvdman_cb_event (if mlc \<noteq> 0 \<and> lsn \<ge> mlc then s\<lparr>cderr := SCECdErIPI\<rparr> else s))))"

definition sceCdStandby :: "'d cdvd \<Rightarrow> nat \<times> 'd cdvd" where
  "sceCdStandby s = (1, cdvdman_cb_event (s\<lparr>cderr := SCECdErNO, cdstatus := SCECdStatPause\<rparr>))"

definition sceCdStop :: "'d cdvd \<Rightarrow> nat \<times> 'd cdvd" where
  "sceCdStop s =
     (if sync_flag s then (0, s)
      else (1, cdvdman_cb_event (s\<lparr>cderr := SCECdErNO, cdstatus := SCECdStatStop\<rparr>)))"

definition sceCdPause :: "'d cdvd \<Rightarrow> nat \<times> 'd cdvd" where
  "sceCdPause s =
     (if sync_flag s then (0, s)
      else (1, cdvdman_cb_event (s\<lparr>cderr := SCECdErNO, cdstatus := SCECdStatPause\<rparr>)))"

text \<open>\<open>ready\<close> is \<^verbatim>\<open>DeviceReady\<close>; \<open>False\<close> is \<^verbatim>\<open>SCECdNotReady\<close>.\<close>

definition sceCdDiskReady :: "'d reader \<Rightarrow> ('d \<Rightarrow> bool) \<Rightarrow> bool \<Rightarrow> nat \<Rightarrow> 'd cdvd \<Rightarrow> bool \<times> 'd cdvd" where
  "sceCdDiskReady rd ready cdinited mode s =
     (let s = s\<lparr>cderr := SCECdErNO\<rparr> in
      if cdinited then
        (let s = (if mode = 0 then sceCdSync0 rd s else s)
         in if \<not> sync_flag s then (ready (drv s), s) else (False, s))
      else (False, s))"

text \<open>
  The five bytes at \<^verbatim>\<open>DiskID\<close>: all zero, the first two become \<^verbatim>\<open>DE AD\<close>, otherwise they become
  the disc's id.
\<close>

definition sceCdReadDiskID :: "cd_settings \<Rightarrow> u8 list \<Rightarrow> u8 list" where
  "sceCdReadDiskID cfg old =
     (if \<forall>b\<in>set (take 5 old). b = 0 then [0xDE, 0xAD] @ drop 2 old else take 5 (cfg_DiscID cfg) @ drop 5 old)"

definition sceCdReadDvdDualInfo :: "cd_settings \<Rightarrow> bool \<times> nat" where
  "sceCdReadDvdDualInfo cfg =
     (if emu_dvddl cfg then (True, 0) else (cfg_layer1_start cfg > 0, cfg_layer1_start cfg))"

end
