(* ===== verification/Cdvd_Search.thy ===== *)
theory Cdvd_Search
  imports Cdvd_Ncmd
begin

text \<open>
  The file search of the emulated drive (\<^verbatim>\<open>modules/iopcore/cdvdman/searchfile.c\<close>): the path is walked
  through the ISO 9660 directories of the disc, read sector by sector into \<^verbatim>\<open>cdvdman_buf\<close>.

  Paths and names are C strings without their terminating zero. \<open>None\<close> is a walk that leaves one of the
  fixed buffers of the code, or that never ends.
\<close>

section \<open>Strings\<close>

abbreviation SLASH :: u8 where "SLASH \<equiv> 0x2F"
abbreviation BACKSLASH :: u8 where "BACKSLASH \<equiv> 0x5C"

definition cdvdman_trimspaces :: "u8 list \<Rightarrow> u8 list" where
  "cdvdman_trimspaces str = rev (dropWhile (\<lambda>c. c = 0x20 \<or> c = 0x2E) (rev str))"

text \<open>The C string in a buffer, and \<^verbatim>\<open>strncmp(a, b, 12) == 0\<close>.\<close>

definition cstr :: "u8 list \<Rightarrow> u8 list" where
  "cstr bs = takeWhile (\<lambda>c. c \<noteq> 0) bs"

definition strncmp12 :: "u8 list \<Rightarrow> u8 list \<Rightarrow> bool" where
  "strncmp12 a b \<longleftrightarrow> take 12 (cstr a) = take 12 (cstr b)"

fun strchr :: "u8 list \<Rightarrow> u8 \<Rightarrow> nat option" where
  "strchr [] c = None"
| "strchr (x # xs) c = (if x = c then Some 0 else map_option Suc (strchr xs c))"

text \<open>
  The first component of a path and, if a separator follows, the rest behind it: leading slashes and then
  leading backslashes are skipped; the separator is the first slash or, without one, the first backslash.
\<close>

definition next_segment :: "u8 list \<Rightarrow> u8 list \<times> u8 list option" where
  "next_segment path =
     (let p = dropWhile (\<lambda>c. c = BACKSLASH) (dropWhile (\<lambda>c. c = SLASH) path);
          slash = (case strchr p SLASH of None \<Rightarrow> strchr p BACKSLASH | Some n \<Rightarrow> Some n)
      in case slash of None \<Rightarrow> (p, None) | Some n \<Rightarrow> (take n p, Some (drop (n + 1) p)))"

section \<open>Directory sectors\<close>

record dirTocEntry =
  entry_length :: int
  fileLBA :: nat
  fileSize :: u32
  fileProperties :: u8
  filenameLength :: nat
  filename :: "u8 list"

text \<open>The entry at address \<open>a\<close> of memory \<open>m\<close>; the name up to its length.\<close>

definition entry_at :: "(nat \<Rightarrow> u8) \<Rightarrow> nat \<Rightarrow> dirTocEntry" where
  "entry_at m a =
     (let bs = map m [a ..< a + 33]; n = unat (bs ! 32)
      in \<lparr>entry_length = sint (le16 bs 0), fileLBA = unat (le32 bs 2), fileSize = le32 bs 10,
          fileProperties = bs ! 25, filenameLength = n, filename = map m [a + 33 ..< a + 33 + n]\<rparr>)"

text \<open>What the scan of one sector finds: the file, a directory to descend into, or neither.\<close>

datatype scan_result = Found_entry dirTocEntry | Descend dirTocEntry | Next_sector

text \<open>
  The inner loop over a sector at address \<open>b\<close>. \<open>dir\<close> is the component searched, \<open>is_last\<close> whether it
  is the last one. An entry without a name but with a length does not move \<open>tocPos\<close>: the loop spins. A
  name of more than 14 characters leaves \<^verbatim>\<open>cdvdman_curdir\<close>.
\<close>

partial_function (option) scan_sector ::
  "(nat \<Rightarrow> u8) \<Rightarrow> nat \<Rightarrow> u8 list \<Rightarrow> bool \<Rightarrow> int \<Rightarrow> scan_result option" where
  "scan_sector m b dir is_last tocPos =
     (let e = entry_at m (nat (int b + tocPos)) in
      if entry_length e = 0 then Some Next_sector
      else if filenameLength e = 0 then
        (if tocPos < 2016 then scan_sector m b dir is_last tocPos else Some Next_sector)
      else if filenameLength e > 14 then None
      else if strncmp12 dir (filename e) \<and> is_last then Some (Found_entry e)
      else if strncmp12 dir (filename e) \<and> fileProperties e AND 2 \<noteq> 0 then Some (Descend e)
      else
        (let tocPos = tocPos + entry_length e
         in if tocPos < 2016 then scan_sector m b dir is_last tocPos else Some Next_sector))"

section \<open>The walk\<close>

text \<open>\<^verbatim>\<open>sceCdRead(lba, 1, cdvdman_buf, NULL)\<close> and \<^verbatim>\<open>sceCdSync(0)\<close>; \<open>False\<close> if the read is refused.\<close>

definition read_toc_sector :: "cd_settings \<Rightarrow> 'd reader \<Rightarrow> nat \<Rightarrow> nat \<Rightarrow> 'd cdvd \<Rightarrow> bool \<times> 'd cdvd" where
  "read_toc_sector cfg rd b lba s =
     (case sceCdRead cfg False rd lba 1 b None s of
        (r, s1) \<Rightarrow> if r = 0 then (False, s1) else (True, snd (sceCdSync rd 0 s1)))"

text \<open>
  \<^verbatim>\<open>cdvdman_locatefile\<close> from the point where the component \<open>dir\<close> has been cut off: \<open>rest\<close> is the path
  behind its separator, \<open>lba\<close> and \<open>len\<close> the directory. Descending starts over with the rest; a component
  of 32 characters or more leaves \<^verbatim>\<open>cdvdman_dirname\<close>.
\<close>

partial_function (option) locate_loop ::
  "cd_settings \<Rightarrow> 'd reader \<Rightarrow> nat \<Rightarrow> bool \<Rightarrow> u8 list \<Rightarrow> u8 list option \<Rightarrow> nat \<Rightarrow> int \<Rightarrow> 'd cdvd \<Rightarrow>
     (dirTocEntry option \<times> 'd cdvd) option" where
  "locate_loop cfg rd b layer dir rest lba len s =
     (if len \<le> 0 then Some (None, s)
      else
        (case read_toc_sector cfg rd b lba s of
           (ok, s) \<Rightarrow>
             if \<not> ok then Some (None, s)
             else
               (case scan_sector (imem s) b dir (rest = None) 0 of
                  None \<Rightarrow> None
                | Some r \<Rightarrow>
                    (case r of
                       Found_entry e \<Rightarrow> Some (Some e, s)
                     | Next_sector \<Rightarrow> locate_loop cfg rd b layer dir rest ((lba + 1) mod 2 ^ 32) (len - 2048) s
                     | Descend e \<Rightarrow>
                         (let (dir', rest') = next_segment (the rest);
                              lba' = (if \<not> emu_dvddl cfg \<and> layer
                                      then (fileLBA e + snd (sceCdReadDvdDualInfo cfg)) mod 2 ^ 32 else fileLBA e)
                          in if length dir' > 31 then None
                             else locate_loop cfg rd b layer dir' rest' lba' (sint (fileSize e)) s)))))"

definition cdvdman_locatefile ::
  "cd_settings \<Rightarrow> 'd reader \<Rightarrow> nat \<Rightarrow> bool \<Rightarrow> u8 list \<Rightarrow> nat \<Rightarrow> int \<Rightarrow> 'd cdvd \<Rightarrow> (dirTocEntry option \<times> 'd cdvd) option" where
  "cdvdman_locatefile cfg rd b layer name lba len s =
     (let (dir, rest) = next_segment name in
      if length dir > 31 then None else locate_loop cfg rd b layer dir rest lba len s)"

section \<open>Finding a file\<close>

record sceCdlFILE =
  file_lsn :: nat
  file_size :: u32
  file_name :: "u8 list"

record layer_info =
  rootDirtocLBA :: nat
  rootDirtocLength :: int

text \<open>What follows the last backslash, \<open>None\<close> without one (the code then copies from address 1).\<close>

definition after_last_backslash :: "u8 list \<Rightarrow> u8 list option" where
  "after_last_backslash name =
     (if BACKSLASH \<in> set name then Some (rev (takeWhile (\<lambda>c. c \<noteq> BACKSLASH) (rev name))) else None)"

text \<open>
  The test for a video: four characters from the sixth from the end; for a path shorter than six
  characters the index lies before the buffer (\<open>None\<close>).
\<close>

definition is_video :: "u8 list \<Rightarrow> bool option" where
  "is_video path =
     (if length path < 6 then None
      else Some (take 4 (drop (length path - 6) path) \<in> {[0x2E, 0x50, 0x53, 0x53], [0x2E, 0x70, 0x73, 0x73]}))"

text \<open>The outcome: the return value, the filled \<^verbatim>\<open>sceCdlFILE\<close> if it is 1, the state.\<close>

definition cdvdman_findfile ::
  "cd_settings \<Rightarrow> 'd reader \<Rightarrow> nat \<Rightarrow> (layer_info \<times> layer_info) \<Rightarrow> u8 list \<Rightarrow> bool \<Rightarrow> 'd cdvd \<Rightarrow>
     (sceCdlFILE option \<times> 'd cdvd) option" where
  "cdvdman_findfile cfg rd b layers name layer s =
     (let layer = (if emu_dvddl cfg then False else layer);
          info = (if layer then snd layers else fst layers);
          path = cdvdman_trimspaces (take 255 (cstr name))
      in if rootDirtocLBA info = 0 then Some (None, s)
         else
           do { (e, s) \<leftarrow> cdvdman_locatefile cfg rd b layer path (rootDirtocLBA info) (rootDirtocLength info) s;
                case e of
                  None \<Rightarrow> Some (None, s)
                | Some e \<Rightarrow>
                    do { video \<leftarrow> (if skip_videos cfg then is_video path else Some False);
                         nm \<leftarrow> after_last_backslash (cstr name);
                         Some (Some \<lparr>file_lsn = (if layer then (fileLBA e + snd (sceCdReadDvdDualInfo cfg)) mod 2 ^ 32
                                                else fileLBA e),
                                     file_size = (if video then 0 else fileSize e), file_name = nm\<rparr>, s) } })"

definition sceCdSearchFile ::
  "cd_settings \<Rightarrow> 'd reader \<Rightarrow> nat \<Rightarrow> (layer_info \<times> layer_info) \<Rightarrow> u8 list \<Rightarrow> 'd cdvd \<Rightarrow> (sceCdlFILE option \<times> 'd cdvd) option" where
  "sceCdSearchFile cfg rd b layers name s = cdvdman_findfile cfg rd b layers name False s"

definition sceCdLayerSearchFile ::
  "cd_settings \<Rightarrow> 'd reader \<Rightarrow> nat \<Rightarrow> (layer_info \<times> layer_info) \<Rightarrow> u8 list \<Rightarrow> bool \<Rightarrow> 'd cdvd \<Rightarrow>
     (sceCdlFILE option \<times> 'd cdvd) option" where
  "sceCdLayerSearchFile cfg rd b layers name layer s = cdvdman_findfile cfg rd b layers name layer s"

text \<open>
  \<^verbatim>\<open>cdvdman_searchfile_init\<close>: the root directories of both layers and \<^verbatim>\<open>mediaLsnCount\<close> from the volume
  descriptors; \<open>set_count\<close> stores the latter in the read path. The results of the reads are not checked.
\<close>

definition cdvdman_searchfile_init ::
  "cd_settings \<Rightarrow> 'd reader \<Rightarrow> nat \<Rightarrow> (nat \<Rightarrow> 'd \<Rightarrow> 'd) \<Rightarrow> (layer_info \<times> layer_info) \<Rightarrow> 'd cdvd \<Rightarrow>
     (layer_info \<times> layer_info) \<times> 'd cdvd" where
  "cdvdman_searchfile_init cfg rd b set_count layers s =
     (let s = snd (read_toc_sector cfg rd b 16 s); e = entry_at (imem s) (b + 0x9C);
          l0 = \<lparr>rootDirtocLBA = fileLBA e, rootDirtocLength = sint (fileSize e)\<rparr>;
          lsn0 = unat (le32 (map (imem s) [b ..< b + 0x54]) 0x50);
          s = s\<lparr>drv := set_count lsn0 (drv s)\<rparr>;
          (on_dual, layer1_start) = sceCdReadDvdDualInfo cfg
      in if \<not> emu_dvddl cfg \<and> on_dual then
           (let s = s\<lparr>drv := set_count 0 (drv s)\<rparr>;
                s = snd (read_toc_sector cfg rd b (layer1_start + 16) s); e = entry_at (imem s) (b + 0x9C);
                lsn1 = unat (le32 (map (imem s) [b ..< b + 0x54]) 0x50)
            in ((l0, \<lparr>rootDirtocLBA = (layer1_start + fileLBA e) mod 2 ^ 32, rootDirtocLength = sint (fileSize e)\<rparr>),
                s\<lparr>drv := set_count ((lsn0 + lsn1 + (2 ^ 32 - 16)) mod 2 ^ 32) (drv s)\<rparr>))
         else ((l0, snd layers), s))"

end
