(* ===== verification/Cdvd_Search_Spec.thy ===== *)
theory Cdvd_Search_Spec
  imports Cdvd_Search
begin

text \<open>
  What the file search promises: directories as lists of entries, a lookup in them, and the walk of the
  driver as its implementation on any disc that holds the directories.
\<close>

section \<open>Directories\<close>

definition entry_matches :: "u8 list \<Rightarrow> dirTocEntry \<Rightarrow> bool" where
  "entry_matches dir e \<longleftrightarrow> strncmp12 dir (filename e)"

fun pick :: "u8 list \<Rightarrow> bool \<Rightarrow> dirTocEntry list \<Rightarrow> scan_result" where
  "pick dir is_last [] = Next_sector"
| "pick dir is_last (e # es) =
     (if entry_matches dir e \<and> is_last then Found_entry e
      else if entry_matches dir e \<and> fileProperties e AND 2 \<noteq> 0 then Descend e
      else pick dir is_last es)"

lemma next_segment_shorter: "next_segment path = (dir, Some rest) \<Longrightarrow> length rest < length path"
proof -
  assume a: "next_segment path = (dir, Some rest)"
  define p where "p = dropWhile (\<lambda>c. c = BACKSLASH) (dropWhile (\<lambda>c. c = SLASH) path)"
  have "length p \<le> length path"
    unfolding p_def by (meson le_trans length_dropWhile_le)
  moreover have "n < length q" if "strchr q c = Some n" for q c n
    using that by (induction q arbitrary: n) (auto split: if_splits)
  ultimately show ?thesis using a
    by (fastforce simp: next_segment_def Let_def p_def [symmetric] split: option.splits)
qed

text \<open>
  A file system gives the entries of the directory at a sector; all sectors of a directory together make
  one list. A path is looked up component by component.
\<close>

type_synonym iso_dirs = "nat \<Rightarrow> dirTocEntry list list option"

function lookup_path :: "iso_dirs \<Rightarrow> nat \<Rightarrow> u8 list \<Rightarrow> dirTocEntry option" where
  "lookup_path fs lba path =
     (case next_segment path of
        (dir, rest) \<Rightarrow>
          (case fs lba of None \<Rightarrow> None
           | Some ess \<Rightarrow>
               (case pick dir (rest = None) (concat ess) of
                  Next_sector \<Rightarrow> None
                | Found_entry e \<Rightarrow> Some e
                | Descend e \<Rightarrow> (case rest of None \<Rightarrow> None | Some r \<Rightarrow> lookup_path fs (fileLBA e) r))))"
  by pat_completeness auto
termination
  by (relation "measure (\<lambda>(fs, lba, path). length path)") (auto dest!: next_segment_shorter [OF sym])

declare lookup_path.simps [simp del]

text \<open>Every component fits \<^verbatim>\<open>cdvdman_dirname\<close>.\<close>

function components_fit :: "u8 list \<Rightarrow> bool" where
  "components_fit path \<longleftrightarrow>
     (case next_segment path of
        (dir, rest) \<Rightarrow> length dir \<le> 31 \<and> (case rest of None \<Rightarrow> True | Some r \<Rightarrow> components_fit r))"
  by pat_completeness auto
termination
  by (relation "measure length") (auto dest!: next_segment_shorter [OF sym])

declare components_fit.simps [simp del]

section \<open>Sectors\<close>

text \<open>The entries of a sector at address \<open>b\<close> from offset \<open>pos\<close> on.\<close>

fun sector_holds :: "(nat \<Rightarrow> u8) \<Rightarrow> nat \<Rightarrow> nat \<Rightarrow> dirTocEntry list \<Rightarrow> bool" where
  "sector_holds m b pos [] \<longleftrightarrow> 2016 \<le> pos \<and> 0 < pos \<or> pos < 2016 \<and> m (b + pos) = 0 \<and> m (b + pos + 1) = 0"
| "sector_holds m b pos (e # es) \<longleftrightarrow>
     pos < 2016 \<and> entry_at m (b + pos) = e \<and> 0 < entry_length e \<and> 0 < filenameLength e \<and>
     filenameLength e \<le> 14 \<and> pos + 33 + filenameLength e \<le> 2048 \<and>
     sector_holds m b (pos + nat (entry_length e)) es"

lemma entry_at_cong:
  assumes "\<And>k. k < 33 \<Longrightarrow> m (a + k) = m' (a' + k)"
    and "\<And>k. k < unat (m (a + 32)) \<Longrightarrow> m (a + 33 + k) = m' (a' + 33 + k)"
  shows "entry_at m a = entry_at m' a'"
proof -
  have 1: "map m [a ..< a + 33] = map m' [a' ..< a' + 33]"
    by (rule nth_equalityI) (simp_all add: assms(1))
  have "map m [a ..< a + 33] ! 32 = m (a + 32)" by simp
  then have "map m [a + 33 ..< a + 33 + unat (map m [a ..< a + 33] ! 32)] =
      map m' [a' + 33 ..< a' + 33 + unat (map m [a ..< a + 33] ! 32)]"
    using assms(2) by (intro nth_equalityI) (simp_all add: add.assoc)
  then show ?thesis unfolding entry_at_def Let_def by (simp only: 1)
qed

lemma entry_at_fields: "filenameLength (entry_at m a) = unat (m (a + 32))"
  by (simp add: entry_at_def Let_def)

lemma entry_length_zero: "m a = 0 \<Longrightarrow> m (a + 1) = 0 \<Longrightarrow> entry_length (entry_at m a) = 0"
  by (simp add: entry_at_def Let_def le16_def)

lemma sector_holds_cong:
  assumes "\<And>k. k < 2048 \<Longrightarrow> m (b + k) = m' (b' + k)" and "sector_holds m b pos es"
  shows "sector_holds m' b' pos es"
  using assms(2)
proof (induction es arbitrary: pos)
  case Nil
  then show ?case using assms(1) [of pos] assms(1) [of "pos + 1"] by (auto simp: add.assoc)
next
  case (Cons e es)
  have fl: "filenameLength e = unat (m (b + pos + 32))"
    using Cons.prems by (auto simp: entry_at_fields)
  have "entry_at m (b + pos) = entry_at m' (b' + pos)"
  proof (rule entry_at_cong)
    show "m (b + pos + k) = m' (b' + pos + k)" if "k < 33" for k
      using assms(1) [of "pos + k"] Cons.prems that by (simp add: add.assoc)
    show "m (b + pos + 33 + k) = m' (b' + pos + 33 + k)" if "k < unat (m (b + pos + 32))" for k
      using assms(1) [of "pos + 33 + k"] Cons.prems that fl by (simp add: add.assoc)
  qed
  with Cons show ?case by auto
qed

lemma scan_sector_pick:
  assumes "sector_holds m b pos es" and "pos < 2016"
  shows "scan_sector m b dir is_last (int pos) = Some (pick dir is_last es)"
  using assms
proof (induction es arbitrary: pos)
  case Nil
  then have "entry_length (entry_at m (b + pos)) = 0"
    by (intro entry_length_zero) auto
  then show ?case by (subst scan_sector.simps) (simp add: Let_def nat_int_add)
next
  case (Cons e es)
  have e: "entry_at m (nat (int b + int pos)) = e" "0 < entry_length e" "0 < filenameLength e" "\<not> 14 < filenameLength e"
    using Cons.prems by (auto simp: nat_int_add)
  have n: "int pos + entry_length e = int (pos + nat (entry_length e))" using e(2) by simp
  show ?case
  proof (cases "pos + nat (entry_length e) < 2016")
    case True
    have "scan_sector m b dir is_last (int (pos + nat (entry_length e))) = Some (pick dir is_last es)"
      by (rule Cons.IH) (use Cons.prems True in auto)
    then have "scan_sector m b dir is_last (int pos + entry_length e) = Some (pick dir is_last es)"
      by (simp only: n)
    moreover have "int pos + entry_length e < 2016" using True n by linarith
    ultimately show ?thesis
      using e by (subst scan_sector.simps) (simp add: Let_def entry_matches_def)
  next
    case False
    then have "es = []" using Cons.prems by (cases es) auto
    moreover have "\<not> int pos + entry_length e < 2016" using False n by linarith
    ultimately show ?thesis
      using e by (subst scan_sector.simps) (simp add: Let_def entry_matches_def)
  qed
qed

lemma pick_append:
  "pick dir is_last (xs @ ys) =
    (case pick dir is_last xs of Next_sector \<Rightarrow> pick dir is_last ys | r \<Rightarrow> r)"
  by (induction xs) auto

lemma pick_Descend: "pick dir is_last xs = Descend e \<Longrightarrow> e \<in> set xs \<and> fileProperties e AND 2 \<noteq> 0 \<and> \<not> is_last"
  by (induction xs) (auto split: if_splits)

section \<open>The walk\<close>

text \<open>
  The disc holds the directories: every directory's sectors are readable and hold its entries, and an
  entry that is a directory names one, with its size.
\<close>

definition fs_on_disc :: "(nat \<Rightarrow> u8 option) \<Rightarrow> nat \<Rightarrow> iso_dirs \<Rightarrow> bool" where
  "fs_on_disc disc lo fs \<longleftrightarrow>
     (\<forall>lba ess. fs lba = Some ess \<longrightarrow> lo \<le> lba \<and> lba + length ess + 1 < 2 ^ 32 \<and>
        (\<forall>i<length ess. (\<forall>k<2048. disc ((lba + i) * 2048 + k) \<noteq> None) \<and>
           sector_holds (\<lambda>k. the (disc ((lba + i) * 2048 + k))) 0 0 (ess ! i)) \<and>
        (\<forall>e\<in>set (concat ess). fileProperties e AND 2 \<noteq> 0 \<longrightarrow>
           (\<exists>ess'. fs (fileLBA e) = Some ess' \<and> sint (fileSize e) = 2048 * int (length ess'))))"

text \<open>The driver between commands: nothing under way and no stream.\<close>

definition cd_idle :: "('d \<Rightarrow> bool) \<Rightarrow> 'd cdvd \<Rightarrow> bool" where
  "cd_idle dinv s \<longleftrightarrow> dinv (drv s) \<and> \<not> sync_flag s \<and> \<not> stm0cb s"

context disc_reader begin

lemma read_toc_sector_ok:
  assumes "cd_idle dinv s" and "lo \<le> lba" and "lba + 1 < u32_bound"
  shows "\<exists>s'. read_toc_sector cfg rd b lba s = (True, s') \<and> cd_idle dinv s' \<and>
    (\<forall>k<2048. on_disc disc (lba * 2048 + k) (imem s' (b + k)))"
proof -
  let ?r = "rd (drv s) lba 1 2048 b (imem s)"
  have i: "dinv (fst ?r)" using rd_inv assms by (simp add: cd_idle_def)
  have d: "on_disc disc (lba * 2048 + k) (snd ?r (b + k))" if "k < 2048" for k
    using rd_in assms that by (simp add: cd_idle_def)
  show ?thesis
    using assms(1) i d
    by (auto simp: read_toc_sector_def sceCdRead_def cdvdman_AsyncRead_def cdvdman_SyncRead_def Let_def
        cdvdman_common_lock_def cd_idle_def sceCdSync_def sceCdSync0_def cdread_finish_def
        cdvdman_signal_read_end_def split: prod.splits)
qed

lemma locate_loop_ok:
  assumes fs: "fs_on_disc disc lo fs" and s: "cd_idle dinv s" and dir: "fs lba = Some ess"
    and seg: "next_segment path = (dir, rest)" and fit: "components_fit path" and i: "i \<le> length ess"
    and none: "pick dir (rest = None) (concat (take i ess)) = Next_sector"
  shows "\<exists>s'. locate_loop cfg rd b False dir rest (lba + i) (2048 * int (length ess - i)) s =
      Some (lookup_path fs lba path, s') \<and> cd_idle dinv s'"
  using s dir seg fit i none
proof (induction path arbitrary: lba ess dir rest i s rule: measure_induct_rule [where f = length])
  case (less path)
  note outer = less.IH
  from less.prems show ?case
  proof (induction "length ess - i" arbitrary: i s)
    case 0
    then have "i = length ess" by simp
    with 0 have "lookup_path fs lba path = None"
      by (simp add: lookup_path.simps)
    with 0 show ?case by (subst locate_loop.simps) auto
  next
    case (Suc n)
    have fd: "lo \<le> lba" "lba + length ess + 1 < 2 ^ 32"
        "\<And>j. j < length ess \<Longrightarrow> (\<forall>k<2048. disc ((lba + j) * 2048 + k) \<noteq> None) \<and>
           sector_holds (\<lambda>k. the (disc ((lba + j) * 2048 + k))) 0 0 (ess ! j)"
        "\<And>e. e \<in> set (concat ess) \<Longrightarrow> fileProperties e AND 2 \<noteq> 0 \<Longrightarrow>
           \<exists>ess'. fs (fileLBA e) = Some ess' \<and> sint (fileSize e) = 2048 * int (length ess')"
      using fs Suc.prems(2) unfolding fs_on_disc_def by blast+
    have i: "i < length ess" using Suc.hyps(2) by simp
    obtain s1 where s1: "read_toc_sector cfg rd b (lba + i) s = (True, s1)" "cd_idle dinv s1"
        "\<forall>k<2048. on_disc disc ((lba + i) * 2048 + k) (imem s1 (b + k))"
      using read_toc_sector_ok [of s "lba + i" cfg b] Suc.prems(1) fd(1,2) i by auto
    have "sector_holds (imem s1) b 0 (ess ! i)"
    proof (rule sector_holds_cong)
      show "sector_holds (\<lambda>k. the (disc ((lba + i) * 2048 + k))) 0 0 (ess ! i)" using fd(3) [OF i] by blast
      show "the (disc ((lba + i) * 2048 + (0 + k))) = imem s1 (b + k)" if "k < 2048" for k
        using s1(3) fd(3) [OF i] that by (auto simp: on_disc_def split: option.splits)
    qed
    then have scan: "scan_sector (imem s1) b dir (rest = None) 0 = Some (pick dir (rest = None) (ess ! i))"
      using scan_sector_pick [of "imem s1" b 0] by simp
    have cs: "concat ess = concat (take i ess) @ ess ! i @ concat (drop (i + 1) ess)"
      using i by (metis append_take_drop_id concat.simps(2) concat_append Cons_nth_drop_Suc Suc_eq_plus1)
    have len: "\<not> 2048 * int (length ess - i) \<le> 0" using i by simp
    show ?case
    proof (cases "pick dir (rest = None) (ess ! i)")
      case Next_sector
      have t: "pick dir (rest = None) (concat (take (i + 1) ess)) = Next_sector"
        using Suc.prems(6) Next_sector i by (simp add: take_Suc_conv_app_nth pick_append)
      have l: "2048 * int (length ess - i) - 2048 = 2048 * int (length ess - (i + 1))" using i by simp
      have m: "Suc (lba + i) mod 4294967296 = Suc (lba + i)" using fd(2) i by simp
      have nn: "n = length ess - (i + 1)" "i + 1 \<le> length ess" using Suc.hyps(2) by auto
      from Suc.hyps(1) [OF nn(1) s1(2) Suc.prems(2-4) nn(2) t]
      obtain s' where "locate_loop cfg rd b False dir rest (lba + (i + 1)) (2048 * int (length ess - (i + 1))) s1 =
          Some (lookup_path fs lba path, s')" "cd_idle dinv s'" by blast
      then show ?thesis
        using len by (subst locate_loop.simps) (simp add: s1(1) scan Next_sector l [unfolded of_nat_diff] m del: of_nat_diff)
    next
      case (Found_entry e)
      have "lookup_path fs lba path = Some e"
        using Suc.prems Found_entry by (simp add: lookup_path.simps cs pick_append)
      then show ?thesis
        using len s1(2) by (subst locate_loop.simps) (simp add: s1(1) scan Found_entry)
    next
      case (Descend e)
      then obtain r where r: "rest = Some r" and e: "e \<in> set (ess ! i)" "fileProperties e AND 2 \<noteq> 0"
        using pick_Descend [OF Descend] by (cases rest) auto
      have "e \<in> set (concat ess)" using e(1) cs by auto
      then obtain ess' where sub: "fs (fileLBA e) = Some ess'" "sint (fileSize e) = 2048 * int (length ess')"
        using fd(4) e(2) by blast
      obtain dir' rest' where seg': "next_segment r = (dir', rest')" by (metis surj_pair)
      have fit': "components_fit r" using Suc.prems(3,4) r by (simp add: components_fit.simps [of path])
      then have short: "\<not> 31 < length dir'" using seg' by (simp add: components_fit.simps [of r])
      have "length r < length path" using next_segment_shorter Suc.prems(3) r by blast
      from outer [OF this s1(2) sub(1) seg' fit', of 0]
      obtain s' where "locate_loop cfg rd b False dir' rest' (fileLBA e) (2048 * int (length ess')) s1 =
          Some (lookup_path fs (fileLBA e) r, s')" "cd_idle dinv s'" by auto
      moreover have "lookup_path fs lba path = lookup_path fs (fileLBA e) r"
        using Suc.prems Descend r by (subst lookup_path.simps) (simp add: cs pick_append)
      moreover have "scan_sector (imem s1) b dir False 0 = Some (Descend e)" using scan Descend r by simp
      ultimately show ?thesis
        using len short by (subst locate_loop.simps) (simp add: s1(1) r seg' sub(2))
    qed
  qed
qed

lemma locatefile_ok:
  assumes "fs_on_disc disc lo fs" and "cd_idle dinv s" and "fs lba = Some ess" and "components_fit path"
  shows "\<exists>s'. cdvdman_locatefile cfg rd b False path lba (2048 * int (length ess)) s =
      Some (lookup_path fs lba path, s') \<and> cd_idle dinv s'"
proof -
  obtain dir rest where seg: "next_segment path = (dir, rest)" by (metis surj_pair)
  then have "\<not> 31 < length dir" using assms(4) by (simp add: components_fit.simps [of path])
  with locate_loop_ok [OF assms(1-3) seg assms(4), of 0 cfg b] seg show ?thesis
    by (simp add: cdvdman_locatefile_def)
qed

end

end
