(* ===== verification/Cdvd_Search_Props.thy ===== *)
theory Cdvd_Search_Props
  imports Cdvd_Search_Spec Cdvd_Props
begin

text \<open>The properties of the file search and of the table of contents, on the hard-disk device.\<close>

section \<open>File search\<close>

text \<open>
  C15: on a disc that holds a tree of directories, a search for a path whose components have at most 31
  characters returns, and finds what the lookup in the tree finds: the first sector and the size of the
  file, or nothing. Whatever the device's caches did before, and whether the reads are alternate ones or
  not, the drive is idle again afterwards.
\<close>

theorem search_finds_file:
  assumes fs: "fs_on_disc (hdd.iso_disc img nsec) 13 fs" and s: "cd_idle (hdd.iso_ready ata img nsec) s"
    and root: "fs root = Some ess" "root \<noteq> 0"
      "fst layers = \<lparr>rootDirtocLBA = root, rootDirtocLength = 2048 * int (length ess)\<rparr>"
    and path: "path = cdvdman_trimspaces (take 255 (cstr name))" "components_fit path"
    and name: "after_last_backslash (cstr name) = Some nm" and video: "\<not> skip_videos cfg"
  shows "\<exists>s'. sceCdSearchFile cfg (cdvdman_rd (DeviceReadSectors_hdd ata) lz4) b layers name s =
      Some (map_option (\<lambda>e. \<lparr>file_lsn = fileLBA e, file_size = fileSize e, file_name = nm\<rparr>)
        (lookup_path fs root path), s') \<and> cd_idle (hdd.iso_ready ata img nsec) s'"
proof -
  obtain s' where "cdvdman_locatefile cfg (cdvdman_rd (DeviceReadSectors_hdd ata) lz4) b False path root
      (2048 * int (length ess)) s = Some (lookup_path fs root path, s')" "cd_idle (hdd.iso_ready ata img nsec) s'"
    using disc_reader.locatefile_ok [OF hdd.iso_disc_reader fs s root(1) path(2), of cfg lz4 b] by blast
  then show ?thesis
    using root name video path(1)
    by (cases "lookup_path fs root path") (simp_all add: sceCdSearchFile_def cdvdman_findfile_def Let_def)
qed

text \<open>A disc whose directory at sector 20 holds one file \<open>A\<close>, of 5 bytes at sector 30.\<close>

definition demo_dimg :: "nat \<Rightarrow> u8" where
  "demo_dimg a = (if a = 40960 then 40 else if a = 40962 then 30 else if a = 40970 then 5
     else if a = 40992 then 1 else if a = 40993 then 0x41 else 0)"

definition demo_data :: ata where
  "demo_data lba n = Some (img_bytes demo_dimg ((lba - 64) * 512) (n * 512))"

definition demo_entry :: dirTocEntry where
  "demo_entry = \<lparr>entry_length = 40, fileLBA = 30, fileSize = 5, fileProperties = 0, filenameLength = 1,
     filename = [0x41]\<rparr>"

definition demo_fs :: iso_dirs where
  "demo_fs lba = (if lba = 20 then Some [[demo_entry]] else None)"

definition demo_cfg :: cd_settings where
  "demo_cfg = \<lparr>alt_read = True, emu_dvddl = False, skip_videos = False, cfg_layer1_start = 0, cfg_DiscID = [1, 2, 3, 4, 5]\<rparr>"

lemma demo_dhdd_ok: "hdd_ok demo_data demo_dimg 100 demo_hdd"
  by (auto simp: hdd_ok_def extent_ok_def demo_data_def demo_hdd_def in_part_def part_lba_def
      holds_def holds_at_def img_bytes_nth algebra_simps)

lemma demo_dready: "cd_idle (hdd.iso_ready demo_data demo_dimg 100) (cdvd_boot demo_rstate)"
  using demo_dhdd_ok
  by (simp add: cd_idle_def hdd.iso_ready_def hdd.cinv_def cache_ok_def demo_rstate_def cdvd_boot_def)

lemma demo_entry_at: "entry_at (\<lambda>k. demo_dimg (40960 + k)) 0 = demo_entry"
  by (simp add: entry_at_def demo_dimg_def demo_entry_def upt_conv_Cons le16_def le32_def)

lemma demo_fs_on_disc: "fs_on_disc (hdd.iso_disc demo_dimg 100) 13 demo_fs"
proof -
  let ?m = "\<lambda>k. the (hdd.iso_disc demo_dimg 100 (40960 + k))"
  have "sector_holds (\<lambda>k. demo_dimg (40960 + k)) 0 0 [demo_entry]"
    using demo_entry_at by (simp add: demo_entry_def) (simp add: demo_dimg_def)
  then have m: "sector_holds ?m 0 0 [demo_entry]"
    by (rule sector_holds_cong [rotated]) (simp add: hdd.iso_disc_def)
  show ?thesis
    unfolding fs_on_disc_def
  proof (intro allI impI)
    fix lba ess
    assume "demo_fs lba = Some ess"
    then have l: "lba = 20" "ess = [[demo_entry]]" by (auto simp: demo_fs_def split: if_splits)
    have "sector_holds (\<lambda>k. the (hdd.iso_disc demo_dimg 100 ((lba + i) * 2048 + k))) 0 0 (ess ! i)"
      if "i < length ess" for i
      using m l that by (simp del: sector_holds.simps)
    then show "13 \<le> lba \<and> lba + length ess + 1 < 2 ^ 32 \<and>
        (\<forall>i<length ess. (\<forall>k<2048. hdd.iso_disc demo_dimg 100 ((lba + i) * 2048 + k) \<noteq> None) \<and>
           sector_holds (\<lambda>k. the (hdd.iso_disc demo_dimg 100 ((lba + i) * 2048 + k))) 0 0 (ess ! i)) \<and>
        (\<forall>e\<in>set (concat ess). fileProperties e AND 2 \<noteq> 0 \<longrightarrow>
           (\<exists>ess'. demo_fs (fileLBA e) = Some ess' \<and> sint (fileSize e) = 2048 * int (length ess')))"
      using l by (simp add: hdd.iso_disc_def demo_entry_def del: sector_holds.simps)
  qed
qed

theorem search_finds_file_witness:
  "\<exists>s'. sceCdSearchFile demo_cfg (cdvdman_rd (DeviceReadSectors_hdd demo_data) demo_lz4) 0
      (\<lparr>rootDirtocLBA = 20, rootDirtocLength = 2048\<rparr>, \<lparr>rootDirtocLBA = 0, rootDirtocLength = 0\<rparr>) [0x5C, 0x41]
      (cdvd_boot demo_rstate) = Some (Some \<lparr>file_lsn = 30, file_size = 5, file_name = [0x41]\<rparr>, s')"
proof -
  let ?l = "(\<lparr>rootDirtocLBA = 20, rootDirtocLength = 2048\<rparr>, \<lparr>rootDirtocLBA = 0, rootDirtocLength = 0\<rparr>)"
  have seg: "next_segment [0x5C, 0x41] = ([0x41], None)" by (simp add: next_segment_def)
  have p: "[0x5C, 0x41] = cdvdman_trimspaces (take 255 (cstr [0x5C, 0x41]))"
    by (simp add: cdvdman_trimspaces_def cstr_def)
  have fit: "components_fit [0x5C, 0x41]" by (simp add: components_fit.simps [of "[0x5C, 0x41]"] seg)
  have nm: "after_last_backslash (cstr [0x5C, 0x41]) = Some [0x41]"
    by (simp add: after_last_backslash_def cstr_def)
  have look: "lookup_path demo_fs 20 [0x5C, 0x41] = Some demo_entry"
    by (simp add: lookup_path.simps seg demo_fs_def entry_matches_def demo_entry_def strncmp12_def cstr_def)
  have r: "demo_fs 20 = Some [[demo_entry]]" "20 \<noteq> (0::nat)"
      "fst ?l = \<lparr>rootDirtocLBA = 20, rootDirtocLength = 2048 * int (length [[demo_entry]])\<rparr>" "\<not> skip_videos demo_cfg"
    by (simp_all add: demo_fs_def demo_cfg_def)
  from search_finds_file [OF demo_fs_on_disc demo_dready r(1-3) p fit nm r(4), of demo_lz4 0] look
  show ?thesis by (auto simp: demo_entry_def)
qed

text \<open>
  an entry with a length but without a name never moves the search on: a sector that has one is
  scanned for ever.
\<close>

lemma nameless_entry_hangs:
  assumes "entry_length (entry_at m (nat (int b + pos))) \<noteq> 0" and "filenameLength (entry_at m (nat (int b + pos))) = 0"
    and "pos < 2016"
  shows "scan_sector m b dir is_last pos = None"
proof -
  let ?stuck = "\<lambda>m b pos. entry_length (entry_at m (nat (int b + pos))) \<noteq> 0 \<and>
      filenameLength (entry_at m (nat (int b + pos))) = 0 \<and> pos < 2016"
  have "\<not> ?stuck m b pos" if "scan_sector m b dir is_last pos = Some r" for r
    by (rule scan_sector.raw_induct [of "\<lambda>m b dir is_last pos r. \<not> ?stuck m b pos", OF _ that])
      (auto simp: Let_def split: if_splits, force)
  with assms show ?thesis by fastforce
qed

theorem nameless_entry_hangs_witness: "scan_sector (\<lambda>a. if a = 0 then 40 else 0) 0 [0x41] True 0 = None"
  by (rule nameless_entry_hangs) (simp_all add: entry_at_def Let_def upt_conv_Cons le16_def)

section \<open>Table of contents\<close>

lemma itob_bcd_table: "list_all (\<lambda>n. bcd (itob (of_nat n)) = of_nat n) [0 ..< 100]"
  by code_simp

lemma itob_bcd: "n < 100 \<Longrightarrow> bcd (itob (of_nat n)) = of_nat n"
  using itob_bcd_table unfolding list_all_iff set_upt by (meson atLeastLessThan_iff le0)

lemma toc_cd_points:
  assumes "lba_to_msf mlc = (m, se, f)"
  shows "length (toc_cd mlc) = 1024" and "toc_cd mlc ! 27 = itob m" and "toc_cd mlc ! 28 = itob se"
    and "toc_cd mlc ! 29 = itob f"
  by (simp_all add: toc_cd_def toc_point_def assms)

text \<open>
  the lead-out point of a CD's table of contents is the number of sectors of the disc: its packed
  decimal minute, second and frame convert back to it, for every size a CD can have.
\<close>

lemma toc_lead_out:
  assumes "mlc + 150 < 450000"
  shows "\<exists>toc. cdvdman_fill_toc cfg SCECdPS2CD mlc = Some toc \<and> length toc = 1024 \<and>
    sceCdPosToInt \<lparr>minute = toc ! 27, second = toc ! 28, sector = toc ! 29\<rparr> = of_nat mlc"
proof -
  define a b c where abc: "a = (mlc + 150) div 4500" "b = (mlc + 150) div 75 mod 60" "c = (mlc + 150) mod 75"
  have m: "a < 100" "b < 100" "c < 100"
    using assms by (auto simp: abc intro: less_trans [OF mod_less_divisor])
  have "a = (mlc + 150) div 75 div 60" using div_mult2_eq [of "mlc + 150" 75 60] by (simp add: abc)
  then have "(a * 60 + b) * 75 + c = mlc + 150" unfolding abc(2,3) by (metis div_mult_mod_eq)
  then have "(of_nat a * 60 + of_nat b) * 75 + of_nat c = (of_nat (mlc + 150) :: u32)"
    by (metis of_nat_add of_nat_mult of_nat_numeral)
  moreover have "(of_nat (mlc + 150) - 150 :: u32) = of_nat mlc" by simp
  ultimately have sum: "(of_nat a * 60 + of_nat b) * 75 + of_nat c - 150 = (of_nat mlc :: u32)" by argo
  have "lba_to_msf mlc = (of_nat a, of_nat b, of_nat c)" by (simp add: lba_to_msf_def abc Let_def)
  note toc = toc_cd_points [OF this]
  have "sceCdPosToInt \<lparr>minute = toc_cd mlc ! 27, second = toc_cd mlc ! 28, sector = toc_cd mlc ! 29\<rparr> = of_nat mlc"
    unfolding sceCdPosToInt_def sceCdlLOCCD.simps toc itob_bcd [OF m(1)] itob_bcd [OF m(2)] itob_bcd [OF m(3)]
    by (rule sum)
  with toc(1) show ?thesis by (auto simp: cdvdman_fill_toc_def)
qed

theorem toc_lead_out_witness: "\<exists>toc. cdvdman_fill_toc demo_cfg SCECdPS2CD 300000 = Some toc \<and> length toc = 1024 \<and>
    sceCdPosToInt \<lparr>minute = toc ! 27, second = toc ! 28, sector = toc ! 29\<rparr> = 300000"
  using toc_lead_out [of 300000 demo_cfg] by simp

text \<open>The table of contents and the dual-layer query disagree about every single-layer DVD.\<close>

lemma toc_dvd_dual_disagrees:
  assumes "\<not> emu_dvddl cfg" and "cfg_layer1_start cfg = 0"
  shows "toc_dvd cfg mlc ! 0 = 0x24" and "sceCdReadDvdDualInfo cfg = (False, 0)"
  using assms by (simp_all add: toc_dvd_def sceCdReadDvdDualInfo_def Let_def)

end
