(* ===== verification/Atlas.thy ===== *)
theory Atlas
  imports Wopl_Prelude
begin

text \<open>
  The texture atlas of the user interface (\<^verbatim>\<open>src/atlas.c\<close>): a binary tree of rectangles
  that packs glyph pixmaps into one texture. \<open>NULL\<close> is the null pointer, \<open>Alloc\<close> a node
  \<^verbatim>\<open>struct atlas_allocation_t\<close>. On the EE both \<^verbatim>\<open>int\<close> and \<^verbatim>\<open>size_t\<close> have 32 bits, and C
  converts the \<^verbatim>\<open>int\<close> operand of a mixed expression to unsigned, so every field is a
  \<open>32 word\<close>.
\<close>

section \<open>Data and operations\<close>

datatype atlas_allocation =
    NULL
  | Alloc (al_x: u32) (al_y: u32) (al_w: u32) (al_h: u32)
      (leaf1: atlas_allocation) (leaf2: atlas_allocation)

definition allocNew :: "u32 \<Rightarrow> u32 \<Rightarrow> u32 \<Rightarrow> u32 \<Rightarrow> atlas_allocation" where
  "allocNew x y width height = Alloc x y width height NULL NULL"

definition ALLOC_FITS :: "atlas_allocation \<Rightarrow> u32 \<Rightarrow> u32 \<Rightarrow> bool" where
  "ALLOC_FITS al width height \<longleftrightarrow> al_w al \<ge> width \<and> al_h al \<ge> height"

definition ALLOC_ISFREE :: "atlas_allocation \<Rightarrow> bool" where
  "ALLOC_ISFREE al \<longleftrightarrow> leaf1 al = NULL \<and> leaf2 al = NULL"

text \<open>
  \<open>allocPlace\<close> returns the updated tree and the corner \<open>(x, y)\<close> of the node it hands out
  (the C function returns the pointer to that node, of which the callers read \<^verbatim>\<open>x\<close> and
  \<^verbatim>\<open>y\<close>), \<open>None\<close> inside for the null result. The outer \<open>None\<close> is a null pointer
  dereferenced.
\<close>

fun allocPlace ::
  "atlas_allocation \<Rightarrow> u32 \<Rightarrow> u32 \<Rightarrow> (atlas_allocation \<times> (u32 \<times> u32) option) option" where
  "allocPlace NULL width height = None"
| "allocPlace (Alloc x y w h l1 l2) width height =
     (if \<not> ALLOC_FITS (Alloc x y w h l1 l2) width height then
        Some (Alloc x y w h l1 l2, None)
      else if ALLOC_ISFREE (Alloc x y w h l1 l2) then
        (let dx = w - width; dy = h - height
         in if dx < dy then
              Some (Alloc x y w h
                      (allocNew (x + width) y dx height)
                      (allocNew x (y + height) w dy), Some (x, y))
            else
              Some (Alloc x y w h
                      (allocNew x (y + height) width dy)
                      (allocNew (x + width) y dx h), Some (x, y)))
      else
        (case allocPlace l1 width height of
           None \<Rightarrow> None
         | Some (l1', Some p) \<Rightarrow> Some (Alloc x y w h l1' l2, Some p)
         | Some (l1', None) \<Rightarrow>
             (case allocPlace l2 width height of
                None \<Rightarrow> None
              | Some (l2', Some p) \<Rightarrow> Some (Alloc x y w h l1' l2', Some p)
              | Some (l2', None) \<Rightarrow> Some (Alloc x y w h l1' l2', None))))"

text \<open>The pixel formats that \<^verbatim>\<open>pixelSize\<close> knows, and its default branch.\<close>

datatype psm = GS_PSM_CT32 | GS_PSM_CT24 | GS_PSM_CT16 | GS_PSM_CT16S | GS_PSM_T8 | GS_PSM_other

fun pixelSize :: "psm \<Rightarrow> u32" where
  "pixelSize GS_PSM_CT32 = 4"
| "pixelSize GS_PSM_CT24 = 4"
| "pixelSize GS_PSM_CT16 = 2"
| "pixelSize GS_PSM_CT16S = 2"
| "pixelSize GS_PSM_T8 = 1"
| "pixelSize GS_PSM_other = 0"

text \<open>
  The atlas: the tree and, of the surface, what the code computes with. \<open>Mem\<close> is the
  texture memory, \<open>invalidated\<close> records that \<^verbatim>\<open>rmInvalidateTexture\<close> was called on the
  surface (its effect is inside gsKit).
\<close>

record atlas =
  allocation :: atlas_allocation
  sWidth :: u32
  sHeight :: u32
  sPSM :: psm
  sMem :: "u8 list"
  invalidated :: bool

text \<open>
  \<open>texture_size\<close> is \<^verbatim>\<open>gsKit_texture_size\<close>; \<^verbatim>\<open>memset\<close> zeroes the fresh memory.
\<close>

definition atlasNew :: "(u32 \<Rightarrow> u32 \<Rightarrow> psm \<Rightarrow> u32) \<Rightarrow> u32 \<Rightarrow> u32 \<Rightarrow> psm \<Rightarrow> atlas" where
  "atlasNew texture_size width height psm =
     \<lparr>allocation = allocNew 0 0 width height, sWidth = width, sHeight = height, sPSM = psm,
      sMem = replicate (unat (texture_size width height psm)) 0, invalidated = False\<rparr>"

text \<open>
  The row loop of \<^verbatim>\<open>atlasCopyData\<close>: \<open>n\<close> rows are left, \<open>d\<close> and \<open>s\<close> are the offsets
  of \<^verbatim>\<open>data\<close> in the texture and of \<^verbatim>\<open>src\<close> in the pixmap.
\<close>

fun copyRows ::
  "nat \<Rightarrow> nat \<Rightarrow> nat \<Rightarrow> nat \<Rightarrow> nat \<Rightarrow> nat \<Rightarrow> u8 list \<Rightarrow> u8 list \<Rightarrow> u8 list option" where
  "copyRows 0 d s dstep sstep rowsize surface mem = Some mem"
| "copyRows (Suc n) d s dstep sstep rowsize surface mem =
     do { row \<leftarrow> mem_read surface s rowsize;
          mem' \<leftarrow> mem_write mem d row;
          copyRows n (d + dstep) (s + sstep) dstep sstep rowsize surface mem' }"

definition atlasCopyData ::
  "atlas \<Rightarrow> u32 \<times> u32 \<Rightarrow> u32 \<Rightarrow> u32 \<Rightarrow> u8 list \<Rightarrow> atlas option" where
  "atlasCopyData at p width height surface =
     (let ps = pixelSize (sPSM at) in
      if ps = 0 then Some at
      else
        (let d = unat (ps * (snd p * al_w (allocation at) + fst p));
             dstep = unat (ps * al_w (allocation at));
             rowsize = unat (width * ps)
         in do { mem' \<leftarrow> copyRows (unat height) d 0 dstep (unat (ps * width)) rowsize
                   surface (sMem at);
                 Some (at\<lparr>sMem := mem'\<rparr>) }))"

text \<open>
  \<open>surface = None\<close> is the null pointmap pointer. The result pairs the atlas with the corner
  handed out (inner \<open>None\<close>: no room); the outer \<open>None\<close> is an access outside a buffer.
\<close>

definition atlasPlace ::
  "atlas \<Rightarrow> u32 \<Rightarrow> u32 \<Rightarrow> u8 list option \<Rightarrow> (atlas \<times> (u32 \<times> u32) option) option" where
  "atlasPlace at width height surface =
     (case surface of
        None \<Rightarrow> Some (at, None)
      | Some s \<Rightarrow>
          (case allocPlace (allocation at) (width + 1) (height + 1) of
             None \<Rightarrow> None
           | Some (al', None) \<Rightarrow> Some (at\<lparr>allocation := al'\<rparr>, None)
           | Some (al', Some p) \<Rightarrow>
               (case atlasCopyData (at\<lparr>allocation := al'\<rparr>) p width height s of
                  None \<Rightarrow> None
                | Some at' \<Rightarrow> Some (at'\<lparr>invalidated := True\<rparr>, Some p))))"

section \<open>The tree: what is free and what is well formed\<close>

definition rect :: "nat \<Rightarrow> nat \<Rightarrow> nat \<Rightarrow> nat \<Rightarrow> (nat \<times> nat) set" where
  "rect x y w h = {x..<x + w} \<times> {y..<y + h}"

fun area :: "atlas_allocation \<Rightarrow> (nat \<times> nat) set" where
  "area NULL = {}"
| "area (Alloc x y w h l1 l2) = rect (unat x) (unat y) (unat w) (unat h)"

fun free_area :: "atlas_allocation \<Rightarrow> (nat \<times> nat) set" where
  "free_area NULL = {}"
| "free_area (Alloc x y w h l1 l2) =
     (if l1 = NULL \<and> l2 = NULL then rect (unat x) (unat y) (unat w) (unat h)
      else free_area l1 \<union> free_area l2)"

fun alloc_ok :: "atlas_allocation \<Rightarrow> bool" where
  "alloc_ok NULL \<longleftrightarrow> True"
| "alloc_ok (Alloc x y w h l1 l2) \<longleftrightarrow>
     unat x + unat w < 2 ^ 32 \<and> unat y + unat h < 2 ^ 32 \<and>
     (l1 = NULL \<longleftrightarrow> l2 = NULL) \<and> alloc_ok l1 \<and> alloc_ok l2 \<and>
     area l1 \<subseteq> rect (unat x) (unat y) (unat w) (unat h) \<and>
     area l2 \<subseteq> rect (unat x) (unat y) (unat w) (unat h) \<and> area l1 \<inter> area l2 = {}"

lemma free_area_subset: "alloc_ok a \<Longrightarrow> free_area a \<subseteq> area a"
  by (induction a) auto

lemma allocPlace_total: "alloc_ok a \<Longrightarrow> a \<noteq> NULL \<Longrightarrow> \<exists>r. allocPlace a w h = Some r"
  by (induction a) (force simp: Let_def ALLOC_ISFREE_def split: option.split)+

lemma allocPlace_area: "allocPlace a w h = Some (a', r) \<Longrightarrow> area a' = area a \<and> (a' = NULL \<longleftrightarrow> a = NULL)"
  by (cases a) (auto simp: Let_def split: if_splits option.splits)

lemma allocPlace_None: "allocPlace a w h = Some (a', None) \<Longrightarrow> a' = a"
  by (induction a w h arbitrary: a' rule: allocPlace.induct)
    (auto simp: Let_def split: if_splits option.splits)

text \<open>The two ways to cut a free node, both tile what the pixmap leaves free.\<close>

lemma rect_cut:
  assumes "w \<le> W" and "h \<le> H"
  shows "rect (x + w) y (W - w) h \<union> rect x (y + h) W (H - h) = rect x y W H - rect x y w h"
    and "rect x (y + h) w (H - h) \<union> rect (x + w) y (W - w) H = rect x y W H - rect x y w h"
  using assms by (auto simp: rect_def)

lemma split_ok:
  assumes "alloc_ok (Alloc x y W H NULL NULL)" and "w \<le> W" and "h \<le> H"
  shows "unat (x + w) = unat x + unat w" "unat (y + h) = unat y + unat h"
    "unat (W - w) = unat W - unat w" "unat (H - h) = unat H - unat h"
    "unat w \<le> unat W" "unat h \<le> unat H"
proof -
  show w: "unat w \<le> unat W" and h: "unat h \<le> unat H" using assms by (auto simp: word_le_nat_alt)
  show "unat (x + w) = unat x + unat w" "unat (y + h) = unat y + unat h"
    using assms w h by (auto intro!: unat_add_le)
  show "unat (W - w) = unat W - unat w" "unat (H - h) = unat H - unat h"
    using assms by (auto intro!: unat_sub_le)
qed

lemma allocPlace_ok:
  assumes "allocPlace a w h = Some (a', Some (px, py))" and "alloc_ok a"
  shows "alloc_ok a' \<and> rect (unat px) (unat py) (unat w) (unat h) \<subseteq> free_area a \<and>
    free_area a' = free_area a - rect (unat px) (unat py) (unat w) (unat h)"
  using assms
proof (induction a arbitrary: a')
  case NULL
  then show ?case by simp
next
  case (Alloc x y W H l1 l2)
  let ?r = "rect (unat px) (unat py) (unat w) (unat h)"
  have fits: "ALLOC_FITS (Alloc x y W H l1 l2) w h"
    using Alloc.prems(1) by (auto split: if_splits)
  then have le: "w \<le> W" "h \<le> H" by (auto simp: ALLOC_FITS_def)
  show ?case
  proof (cases "ALLOC_ISFREE (Alloc x y W H l1 l2)")
    case True
    then have nul: "l1 = NULL" "l2 = NULL" by (auto simp: ALLOC_ISFREE_def)
    note u = split_ok [OF Alloc.prems(2) [unfolded nul] le]
    from Alloc.prems fits True u rect_cut [OF u(5,6)] show ?thesis
      by (auto simp: nul Let_def allocNew_def rect_def split: if_splits)
  next
    case False
    with Alloc.prems(2) have nn: "l1 \<noteq> NULL" "l2 \<noteq> NULL" by (auto simp: ALLOC_ISFREE_def)
    have ok: "alloc_ok l1" "alloc_ok l2" "area l1 \<inter> area l2 = {}"
      using Alloc.prems(2) by auto
    have sub: "free_area l1 \<subseteq> area l1" "free_area l2 \<subseteq> area l2"
      using ok by (auto dest: free_area_subset)
    then have dj: "free_area l1 \<inter> free_area l2 = {}" using ok(3) by blast
    show ?thesis
    proof (cases "\<exists>l1'. allocPlace l1 w h = Some (l1', Some (px, py))")
      case True
      then obtain l1' where l1': "allocPlace l1 w h = Some (l1', Some (px, py))" by blast
      then have a': "a' = Alloc x y W H l1' l2" using Alloc.prems(1) fits False by auto
      from Alloc.IH(1) [OF l1' ok(1)] ok sub dj nn Alloc.prems(2) allocPlace_area [OF l1']
      show ?thesis unfolding a' by (auto 0 4)
    next
      case none: False
      then obtain l1' l2' where l1': "allocPlace l1 w h = Some (l1', None)"
        and l2': "allocPlace l2 w h = Some (l2', Some (px, py))"
        and "a' = Alloc x y W H l1' l2'"
        using Alloc.prems(1) fits False by (auto split: option.splits)
      then have a': "a' = Alloc x y W H l1 l2'" using allocPlace_None [OF l1'] by simp
      from Alloc.IH(2) [OF l2' ok(2)] ok sub dj nn Alloc.prems(2) allocPlace_area [OF l2']
      show ?thesis unfolding a' by (auto 0 4)
    qed
  qed
qed

section \<open>The allocator as an interface\<close>

text \<open>
  What the atlas relies on: \<open>place\<close> either leaves the allocator as it was or takes a
  rectangle out of the free area. \<open>place_all\<close> runs a sequence of requests, as the glyph
  cache makes them one after the other.
\<close>

fun place_all ::
  "('a \<Rightarrow> u32 \<Rightarrow> u32 \<Rightarrow> ('a \<times> (u32 \<times> u32) option) option) \<Rightarrow> 'a \<Rightarrow> (u32 \<times> u32) list \<Rightarrow>
     (u32 \<times> u32) option list" where
  "place_all place a [] = []"
| "place_all place a ((w, h) # rs) =
     (case place a w h of None \<Rightarrow> [] | Some (a', p) \<Rightarrow> p # place_all place a' rs)"

definition placed_rect :: "(u32 \<times> u32) \<Rightarrow> (u32 \<times> u32) \<Rightarrow> (nat \<times> nat) set" where
  "placed_rect p r = rect (unat (fst p)) (unat (snd p)) (unat (fst r)) (unat (snd r))"

locale rect_allocator =
  fixes place :: "'a \<Rightarrow> u32 \<Rightarrow> u32 \<Rightarrow> ('a \<times> (u32 \<times> u32) option) option"
    and inv :: "'a \<Rightarrow> bool"
    and free :: "'a \<Rightarrow> (nat \<times> nat) set"
  assumes place_total: "inv a \<Longrightarrow> \<exists>a' r. place a w h = Some (a', r)"
    and place_fail: "place a w h = Some (a', None) \<Longrightarrow> a' = a"
    and place_inv: "place a w h = Some (a', Some p) \<Longrightarrow> inv a \<Longrightarrow> inv a'"
    and place_inside: "place a w h = Some (a', Some p) \<Longrightarrow> inv a \<Longrightarrow> placed_rect p (w, h) \<subseteq> free a"
    and place_takes: "place a w h = Some (a', Some p) \<Longrightarrow> inv a \<Longrightarrow>
      free a' = free a - placed_rect p (w, h)"
begin

lemma place_step:
  assumes "place a w h = Some (a', r)" and "inv a"
  shows "inv a'" and "free a' \<subseteq> free a"
  using assms place_fail place_inv place_takes by (cases r; fastforce)+

lemma place_all_length: "inv a \<Longrightarrow> length (place_all place a rs) = length rs"
proof (induction rs arbitrary: a)
  case (Cons r rs)
  obtain w h where r: "r = (w, h)" by (cases r)
  obtain a' p where p: "place a w h = Some (a', p)" using place_total [OF Cons.prems] by blast
  with Cons.IH [OF place_step(1) [OF p Cons.prems]] show ?case by (simp add: r)
qed simp

lemma place_all_free:
  assumes "inv a" and "i < length rs" and "place_all place a rs ! i = Some p"
  shows "placed_rect p (rs ! i) \<subseteq> free a"
  using assms
proof (induction rs arbitrary: a i)
  case (Cons r rs)
  obtain w h where r: "r = (w, h)" by (cases r)
  obtain a' q where q: "place a w h = Some (a', q)" using place_total [OF Cons.prems(1)] by blast
  show ?case
  proof (cases i)
    case 0
    with Cons.prems q show ?thesis by (auto simp: r dest: place_inside)
  next
    case (Suc j)
    with Cons.IH [OF place_step(1) [OF q Cons.prems(1)], of j] place_step(2) [OF q Cons.prems(1)]
      Cons.prems q r show ?thesis by auto
  qed
qed simp

lemma place_all_disjoint:
  assumes "inv a" and "i < j" and "j < length rs"
    and "place_all place a rs ! i = Some p" and "place_all place a rs ! j = Some q"
  shows "placed_rect p (rs ! i) \<inter> placed_rect q (rs ! j) = {}"
  using assms
proof (induction rs arbitrary: a i j)
  case (Cons r rs)
  obtain w h where r: "r = (w, h)" by (cases r)
  obtain a' t where t: "place a w h = Some (a', t)" using place_total [OF Cons.prems(1)] by blast
  note step = place_step [OF t Cons.prems(1)]
  obtain j' where j: "j = Suc j'" using Cons.prems(2) by (cases j) auto
  show ?case
  proof (cases i)
    case 0
    with Cons.prems t r have tp: "t = Some p" by simp
    from place_all_free [OF step(1), of j' rs q] Cons.prems t r j
    have "placed_rect q (rs ! j') \<subseteq> free a'" by simp
    with place_takes [OF t [unfolded tp] Cons.prems(1)] 0 j r show ?thesis by auto
  next
    case (Suc i')
    with Cons.IH [OF step(1), of i' j'] Cons.prems t r j show ?thesis by simp
  qed
qed simp

end

interpretation al: rect_allocator allocPlace "\<lambda>a. alloc_ok a \<and> a \<noteq> NULL" free_area
proof
  fix a a' w h and p :: "u32 \<times> u32"
  show "alloc_ok a \<and> a \<noteq> NULL \<Longrightarrow> \<exists>a' r. allocPlace a w h = Some (a', r)"
    using allocPlace_total by fastforce
  show "allocPlace a w h = Some (a', None) \<Longrightarrow> a' = a" by (rule allocPlace_None)
  obtain px py where p: "p = (px, py)" by (cases p)
  assume a: "allocPlace a w h = Some (a', Some p)" "alloc_ok a \<and> a \<noteq> NULL"
  with allocPlace_ok [of a w h a' px py] allocPlace_area [OF a(1)]
  show "alloc_ok a' \<and> a' \<noteq> NULL" and "placed_rect p (w, h) \<subseteq> free_area a"
    and "free_area a' = free_area a - placed_rect p (w, h)"
    by (auto simp: p placed_rect_def)
qed

section \<open>Copying the pixmap\<close>

lemma copyRows_total:
  assumes "\<And>r. r < n \<Longrightarrow> d + r * dst + rs \<le> length mem" 
    and "\<And>r. r < n \<Longrightarrow> s + r * sst + rs \<le> length surf"
  shows "\<exists>mem'. copyRows n d s dst sst rs surf mem = Some mem' \<and> length mem' = length mem"
  using assms
proof (induction n arbitrary: d s mem)
  case 0
  then show ?case by simp
next
  case (Suc n)
  obtain row where row: "mem_read surf s rs = Some row" "length row = rs"
    using Suc.prems(2) [of 0] by (auto simp: mem_read_def)
  obtain m where m: "mem_write mem d row = Some m"
    using Suc.prems(1) [of 0] mem_write_exists [of d row mem] row by auto
  have "\<exists>mem'. copyRows n (d + dst) (s + sst) dst sst rs surf m = Some mem' \<and> length mem' = length m"
    using Suc.prems(1) [of "Suc _"] Suc.prems(2) [of "Suc _"] mem_write_length [OF m]
    by (intro Suc.IH) (auto simp: algebra_simps)
  with row m mem_write_length [OF m] show ?case by auto
qed

lemma copyRows_miss:
  assumes "copyRows n d s dst sst rs surf mem = Some mem'" and "i < length mem"
    and "\<And>r. r < n \<Longrightarrow> \<not> (d + r * dst \<le> i \<and> i < d + r * dst + rs)"
  shows "mem' ! i = mem ! i"
  using assms
proof (induction n arbitrary: d s mem)
  case 0
  then show ?case by simp
next
  case (Suc n)
  then obtain row m where row: "mem_read surf s rs = Some row" and m: "mem_write mem d row = Some m"
    and rest: "copyRows n (d + dst) (s + sst) dst sst rs surf m = Some mem'"
    by (auto split: bind_splits)
  have "mem' ! i = m ! i"
    using Suc.IH [OF rest] Suc.prems(2) Suc.prems(3) [of "Suc _"] mem_write_length [OF m]
    by (auto simp: algebra_simps)
  also have "\<dots> = mem ! i"
    using mem_write_nth [OF m Suc.prems(2)] Suc.prems(3) [of 0] mem_read_length [OF row] by auto
  finally show ?case .
qed

lemma copyRows_hit:
  assumes "copyRows n d s dst sst rs surf mem = Some mem'" and "r < n" and "k < rs" and "rs \<le> dst"
    and "\<And>r. r < n \<Longrightarrow> d + r * dst + rs \<le> length mem"
  shows "mem' ! (d + r * dst + k) = surf ! (s + r * sst + k)"
  using assms
proof (induction n arbitrary: d s mem r)
  case 0
  then show ?case by simp
next
  case (Suc n)
  then obtain row m where row: "mem_read surf s rs = Some row" and m: "mem_write mem d row = Some m"
    and rest: "copyRows n (d + dst) (s + sst) dst sst rs surf m = Some mem'"
    by (auto split: bind_splits)
  have len: "length m = length mem" "length row = rs"
    using mem_write_length [OF m] mem_read_length [OF row] by auto
  show ?case
  proof (cases r)
    case 0
    have "mem' ! (d + k) = m ! (d + k)"
      using Suc.prems(3,4) Suc.prems(5) [of 0] len
      by (intro copyRows_miss [OF rest]) auto
    also have "\<dots> = row ! k" using mem_write_nth_in [OF m] Suc.prems(3) len by simp
    also have "\<dots> = surf ! (s + k)" using row Suc.prems(3) by (auto simp: mem_simps)
    finally show ?thesis by (simp add: 0)
  next
    case (Suc q)
    with Suc.IH [OF rest, of q] Suc.prems(2-4) Suc.prems(5) [of "Suc _"] len
    show ?thesis by (auto simp: algebra_simps)
  qed
qed

text \<open>
  What the code keeps of an atlas: the root of the tree covers the whole surface and the
  texture memory holds \<open>ps\<close> bytes for each of its pixels.
\<close>

definition atlas_ok :: "atlas \<Rightarrow> bool" where
  "atlas_ok at \<longleftrightarrow> alloc_ok (allocation at) \<and> allocation at \<noteq> NULL \<and>
     al_x (allocation at) = 0 \<and> al_y (allocation at) = 0 \<and>
     al_w (allocation at) = sWidth at \<and> al_h (allocation at) = sHeight at \<and>
     length (sMem at) = unat (pixelSize (sPSM at)) * (unat (sHeight at) * unat (sWidth at)) \<and>
     length (sMem at) < 2 ^ 32"

definition texel :: "atlas \<Rightarrow> nat \<Rightarrow> nat \<Rightarrow> nat \<Rightarrow> u8" where
  "texel at x y k = sMem at ! (unat (pixelSize (sPSM at)) * (y * unat (sWidth at) + x) + k)"

text \<open>The pixmap \<open>s\<close> stands at \<open>(px, py)\<close>, every other texel is unchanged.\<close>

definition pixmap_at :: "atlas \<Rightarrow> atlas \<Rightarrow> u32 \<Rightarrow> u32 \<Rightarrow> u32 \<Rightarrow> u32 \<Rightarrow> u8 list \<Rightarrow> bool" where
  "pixmap_at at at' px py w h s \<longleftrightarrow>
     (\<forall>x y k. x < unat (sWidth at) \<longrightarrow> y < unat (sHeight at) \<longrightarrow> k < unat (pixelSize (sPSM at)) \<longrightarrow>
        texel at' x y k =
          (if (x, y) \<in> rect (unat px) (unat py) (unat w) (unat h)
           then s ! (unat (pixelSize (sPSM at)) * ((y - unat py) * unat w + (x - unat px)) + k)
           else texel at x y k))"

lemma allocPlace_root:
  "allocPlace a w h = Some (a', p) \<Longrightarrow>
     al_x a' = al_x a \<and> al_y a' = al_y a \<and> al_w a' = al_w a \<and> al_h a' = al_h a"
  by (cases a) (auto simp: Let_def split: if_splits option.splits)

lemma row_index:
  fixes ps :: nat
  assumes "ps * (Y * W + X) \<le> ps * (y * W + x) + k" and "ps * (y * W + x) + k < ps * (Y * W + X) + w * ps"
    and "k < ps" and "x < W" and "X + w \<le> W"
  shows "y = Y \<and> X \<le> x \<and> x < X + w"
proof -
  have "(ps * (y * W + x) + k) div ps = y * W + x" using assms(3) by simp
  moreover have "(ps * (Y * W + X)) div ps \<le> (ps * (y * W + x) + k) div ps"
    using assms(1) by (rule div_le_mono)
  moreover have "(ps * (y * W + x) + k) div ps < Y * W + X + w"
  proof (rule less_mult_imp_div_less)
    have "(Y * W + X + w) * ps = ps * (Y * W + X) + w * ps" by (simp add: algebra_simps)
    with assms(2) show "ps * (y * W + x) + k < (Y * W + X + w) * ps" by simp
  qed
  ultimately have 1: "Y * W + X \<le> y * W + x" and 2: "y * W + x < Y * W + X + w"
    using assms(3) by auto
  have "(y * W + x) div W = y" using assms(4) by simp
  moreover have "(Y * W + X + (y * W + x - (Y * W + X))) div W = Y"
    using 1 2 assms(4,5) by (intro div_nat_eqI) (auto simp: algebra_simps)
  ultimately have "y = Y" using 1 by simp
  with 1 2 show ?thesis by simp
qed


lemma atlas_corner:
  assumes "atlas_ok at" and "allocPlace (allocation at) (w + 1) (h + 1) = Some (a', Some (px, py))"
    and "w + 1 \<noteq> 0" and "h + 1 \<noteq> 0"
  shows "unat px + unat w < unat (sWidth at)" and "unat py + unat h < unat (sHeight at)"
proof -
  have wh: "unat (w + 1) = unat w + 1" "unat (h + 1) = unat h + 1"
    using assms(3,4) by (simp_all add: unatSuc add.commute)
  have ok: "alloc_ok (allocation at)" using assms(1) by (simp add: atlas_ok_def)
  have "rect (unat px) (unat py) (unat (w + 1)) (unat (h + 1)) \<subseteq> area (allocation at)"
    using allocPlace_ok [OF assms(2) ok] free_area_subset [OF ok] by blast
  moreover have "area (allocation at) = rect 0 0 (unat (sWidth at)) (unat (sHeight at))"
    using assms(1) by (cases "allocation at") (auto simp: atlas_ok_def)
  moreover have "(unat px + unat w, unat py + unat h) \<in>
      rect (unat px) (unat py) (unat (w + 1)) (unat (h + 1))"
    by (simp add: rect_def wh)
  ultimately have "(unat px + unat w, unat py + unat h) \<in> rect 0 0 (unat (sWidth at)) (unat (sHeight at))"
    by blast
  then show "unat px + unat w < unat (sWidth at)" "unat py + unat h < unat (sHeight at)"
    by (simp_all add: rect_def)
qed

lemma unat_mult_bound:
  fixes a b :: "'a::len word"
  assumes "unat a * unat b < 2 ^ LENGTH('a)"
  shows "unat (a * b) = unat a * unat b"
  using assms by (simp add: unat_word_ariths)

text \<open>The offsets the C code computes do not wrap around.\<close>

lemma atlas_offsets:
  fixes ps W H px py w h :: u32
  assumes "unat ps * (unat H * unat W) < 2 ^ 32" and "ps \<noteq> 0"
    and "unat px + unat w < unat W" and "unat py + unat h < unat H"
  shows "unat (ps * (py * W + px)) = unat ps * (unat py * unat W + unat px)"
    and "unat (ps * W) = unat ps * unat W" and "unat (w * ps) = unat w * unat ps"
    and "unat (ps * w) = unat ps * unat w"
proof -
  have p: "unat ps > 0" using assms(2) by (simp add: unat_gt_0)
  have H: "unat H \<ge> 1" using assms(4) by simp
  have "unat py * unat W + unat px < unat py * unat W + unat W" using assms(3) by simp
  also have "\<dots> \<le> unat H * unat W"
    using assms(4) mult_le_mono1 [of "unat py + 1" "unat H" "unat W"] by simp
  finally have o: "unat py * unat W + unat px < unat H * unat W" .
  have W: "unat W \<le> unat H * unat W" using H by simp
  have lim: "unat ps * m < 2 ^ 32" "m < 2 ^ 32" if "m \<le> unat H * unat W" for m
  proof -
    show "unat ps * m < 2 ^ 32" using mult_le_mono2 [OF that, of "unat ps"] assms(1) by linarith
    moreover have "m \<le> unat ps * m" using p by simp
    ultimately show "m < 2 ^ 32" by linarith
  qed
  have 1: "unat (py * W) = unat py * unat W"
  proof (rule unat_mult_bound)
    have "unat py * unat W \<le> unat H * unat W" using o by linarith
    then show "unat py * unat W < 2 ^ LENGTH(32)" using lim(2) by simp
  qed
  have 2: "unat (py * W + px) = unat py * unat W + unat px"
    using unat_add_le [of "py * W" px] lim(2) [of "unat py * unat W + unat px"] o 1 by simp
  show "unat (ps * (py * W + px)) = unat ps * (unat py * unat W + unat px)"
    using unat_mult_bound [of ps "py * W + px"] lim(1) [of "unat py * unat W + unat px"] o 2 by simp
  show "unat (ps * W) = unat ps * unat W" using lim(1) [OF W] by (intro unat_mult_bound) simp
  show "unat (ps * w) = unat ps * unat w" using lim(1) [of "unat w"] W assms(3)
    by (intro unat_mult_bound) simp
  then show "unat (w * ps) = unat w * unat ps" by (simp add: mult.commute)
qed


lemma atlasCopyData_texels:
  assumes "atlas_ok at" and "sPSM at \<noteq> GS_PSM_other"
    and "unat px + unat w < unat (sWidth at)" and "unat py + unat h < unat (sHeight at)"
    and "length s = unat (pixelSize (sPSM at)) * (unat h * unat w)"
  shows "\<exists>m. atlasCopyData at (px, py) w h s = Some (at\<lparr>sMem := m\<rparr>) \<and> length m = length (sMem at) \<and>
    pixmap_at at (at\<lparr>sMem := m\<rparr>) px py w h s"
proof -
  define ps W H where "ps = pixelSize (sPSM at)" and "W = sWidth at" and "H = sHeight at"
  have ps0: "ps \<noteq> 0" using assms(2) by (cases "sPSM at") (auto simp: ps_def)
  then have psp: "unat ps > 0" by (simp add: unat_gt_0)
  have len: "length (sMem at) = unat ps * (unat H * unat W)"
    and aw: "al_w (allocation at) = W"
    using assms(1) by (auto simp: atlas_ok_def ps_def W_def H_def)
  have lt: "unat ps * (unat H * unat W) < 2 ^ 32" using assms(1) len by (simp add: atlas_ok_def)
  note off = atlas_offsets [OF lt ps0 assms(3,4) [folded W_def H_def]]
  let ?d = "unat ps * (unat py * unat W + unat px)" and ?rs = "unat w * unat ps"
  let ?dst = "unat ps * unat W" and ?sst = "unat ps * unat w"
  have row_in: "?d + r * ?dst + ?rs \<le> length (sMem at)" if "r < unat h" for r
  proof -
    have "unat py + r + 1 \<le> unat H" using that assms(4) by (simp add: H_def)
    then have "(unat py + r + 1) * unat W \<le> unat H * unat W" by (rule mult_le_mono1)
    then have "unat ps * ((unat py + r + 1) * unat W) \<le> length (sMem at)"
      unfolding len by (rule mult_le_mono2)
    moreover have "unat ps * (unat px + unat w) \<le> unat ps * unat W"
      using assms(3) by (simp add: W_def)
    ultimately show ?thesis by (simp add: algebra_simps)
  qed
  have src_in: "0 + r * ?sst + ?rs \<le> length s" if "r < unat h" for r
  proof -
    have "(r + 1) * unat w \<le> unat h * unat w" using that by (intro mult_le_mono1) simp
    then have "unat ps * ((r + 1) * unat w) \<le> length s"
      using assms(5) by (simp add: ps_def)
    then show ?thesis by (simp add: algebra_simps)
  qed
  obtain m where m: "copyRows (unat h) ?d 0 ?dst ?sst ?rs s (sMem at) = Some m"
    and lm: "length m = length (sMem at)"
    using copyRows_total [of "unat h" ?d ?dst ?rs "sMem at" 0 ?sst s] row_in src_in by auto
  have cp: "atlasCopyData at (px, py) w h s = Some (at\<lparr>sMem := m\<rparr>)"
    using m ps0 off by (simp add: atlasCopyData_def ps_def [symmetric] aw Let_def)
  have tex: "texel (at\<lparr>sMem := m\<rparr>) x y k =
         (if (x, y) \<in> rect (unat px) (unat py) (unat w) (unat h)
          then s ! (unat ps * ((y - unat py) * unat w + (x - unat px)) + k) else texel at x y k)"
    if xy: "x < unat W" "y < unat H" "k < unat ps" for x y k
  proof (cases "(x, y) \<in> rect (unat px) (unat py) (unat w) (unat h)")
    case True
    then obtain r c where rc: "y = unat py + r" "x = unat px + c" "r < unat h" "c < unat w"
      by (auto simp: rect_def dest!: le_Suc_ex)
    have "unat ps * c + k < unat ps * (c + 1)" using xy(3) by simp
    also have "\<dots> \<le> unat ps * unat w" using rc(4) by (intro mult_le_mono2) simp
    finally have k: "unat ps * c + k < ?rs" by (simp add: mult.commute)
    have le: "?rs \<le> ?dst" using assms(3) by (simp add: W_def)
    from copyRows_hit [OF m rc(3) k le row_in]
    have "m ! (?d + r * ?dst + (unat ps * c + k)) = s ! (r * ?sst + (unat ps * c + k))" by simp
    with True rc show ?thesis
      by (simp add: texel_def ps_def [symmetric] W_def [symmetric] algebra_simps)
  next
    case False
    let ?i = "unat ps * (y * unat W + x) + k"
    have "y * unat W + x < unat H * unat W"
      using xy mult_le_mono1 [of "y + 1" "unat H" "unat W"] by simp
    then have "unat ps * (y * unat W + x + 1) \<le> length (sMem at)"
      unfolding len by (intro mult_le_mono2) simp
    then have i: "?i < length (sMem at)" using xy(3) by (simp add: algebra_simps)
    have "m ! ?i = sMem at ! ?i"
    proof (rule copyRows_miss [OF m i], rule notI, elim conjE)
      fix r assume r: "r < unat h" and 1: "?d + r * ?dst \<le> ?i" and 2: "?i < ?d + r * ?dst + ?rs"
      have "y = unat py + r \<and> unat px \<le> x \<and> x < unat px + unat w"
        using 1 2 xy assms(3)
        by (intro row_index [of "unat ps" _ "unat W" _ _ _ k]) (simp_all add: algebra_simps W_def)
      with False r show False by (simp add: rect_def)
    qed
    with False show ?thesis by (simp add: texel_def ps_def [symmetric] W_def [symmetric])
  qed
  show ?thesis using cp lm tex unfolding ps_def W_def H_def pixmap_at_def by blast
qed

lemma atlasNew_ok:
  assumes "unat (pixelSize psm) * (unat h * unat w) < 2 ^ 32"
    and "unat (texture_size w h psm) = unat (pixelSize psm) * (unat h * unat w)"
  shows "atlas_ok (atlasNew texture_size w h psm)"
  using assms unsigned_less [of w] unsigned_less [of h]
  by (auto simp: atlas_ok_def atlasNew_def allocNew_def)

section \<open>Properties\<close>

text \<open>
  C27: the rectangles that \<^verbatim>\<open>allocPlace\<close> hands out for a sequence of pixmaps never
  overlap, whatever the order and the sizes of the requests.
\<close>

theorem atlas_placements_disjoint:
  assumes "alloc_ok a" and "a \<noteq> NULL" and "i < j" and "j < length rs"
    and "place_all allocPlace a rs ! i = Some p" and "place_all allocPlace a rs ! j = Some q"
  shows "placed_rect p (rs ! i) \<inter> placed_rect q (rs ! j) = {}"
  using assms by (intro al.place_all_disjoint [of a]) simp_all

theorem atlas_placements_disjoint_witness:
  "placed_rect (0, 0) (5, 4) \<inter> placed_rect (0, 4) (3, 4) = {}"
proof -
  have r: "place_all allocPlace (allocNew 0 0 16 8) [(5, 4), (3, 4)] = [Some (0, 0), Some (0, 4)]"
    by (simp add: allocNew_def ALLOC_FITS_def ALLOC_ISFREE_def Let_def)
  have "alloc_ok (allocNew 0 0 16 8)" "allocNew 0 0 16 8 \<noteq> NULL" by (simp_all add: allocNew_def)
  then show ?thesis
    using atlas_placements_disjoint [of "allocNew 0 0 16 8" 0 1 "[(5, 4), (3, 4)]" "(0, 0)" "(0, 4)"] r
    by simp
qed

text \<open>
  C33: \<^verbatim>\<open>atlasPlace\<close> never touches memory outside the pixmap and the texture; when it finds
  room, the texture holds the pixmap at the returned corner, every other texel is what it was,
  and the atlas stays well formed.
\<close>

theorem atlasPlace_texels:
  assumes "atlas_ok at" and "sPSM at \<noteq> GS_PSM_other" and "w + 1 \<noteq> 0" and "h + 1 \<noteq> 0"
    and "length s = unat (pixelSize (sPSM at)) * (unat h * unat w)"
  shows "\<exists>at' r. atlasPlace at w h (Some s) = Some (at', r) \<and> atlas_ok at' \<and>
    (case r of None \<Rightarrow> at' = at
     | Some (px, py) \<Rightarrow>
         pixmap_at at at' px py w h s)"
proof -
  from assms(1) have ok: "alloc_ok (allocation at)" "allocation at \<noteq> NULL"
    by (auto simp: atlas_ok_def)
  then obtain a' r where p: "allocPlace (allocation at) (w + 1) (h + 1) = Some (a', r)"
    using allocPlace_total by fastforce
  show ?thesis
  proof (cases r)
    case None
    with allocPlace_None p have "a' = allocation at" by blast
    with None p assms(1) show ?thesis by (simp add: atlasPlace_def)
  next
    case (Some q)
    obtain px py where q: "q = (px, py)" by (cases q)
    let ?at = "at\<lparr>allocation := a'\<rparr>"
    have ok': "atlas_ok ?at"
      using allocPlace_ok [of _ _ _ a' px py] allocPlace_root [OF p] allocPlace_area [OF p]
        p Some q ok assms(1) by (auto simp: atlas_ok_def)
    note corner = atlas_corner [OF assms(1) p [unfolded Some q] assms(3,4)]
    obtain m where m: "atlasCopyData ?at (px, py) w h s = Some (?at\<lparr>sMem := m\<rparr>)"
        "length m = length (sMem at)"
      and t: "pixmap_at ?at (?at\<lparr>sMem := m\<rparr>) px py w h s"
      using atlasCopyData_texels [OF ok', of px w py h s] assms(2,5) corner by auto
    have "atlasPlace at w h (Some s) = Some (?at\<lparr>sMem := m, invalidated := True\<rparr>, Some (px, py))"
      using p m by (simp add: atlasPlace_def Some q)
    moreover have "atlas_ok (?at\<lparr>sMem := m, invalidated := True\<rparr>)"
      using ok' m(2) by (simp add: atlas_ok_def)
    ultimately show ?thesis using t by (auto simp: texel_def pixmap_at_def)
  qed
qed


theorem atlasPlace_texels_witness:
  "\<exists>at' r. atlasPlace (atlasNew (\<lambda>w h p. pixelSize p * (h * w)) 4 4 GS_PSM_T8) 2 1 (Some [7, 9]) =
       Some (at', r) \<and> atlas_ok at' \<and>
     (case r of None \<Rightarrow> at' = atlasNew (\<lambda>w h p. pixelSize p * (h * w)) 4 4 GS_PSM_T8
      | Some (px, py) \<Rightarrow>
          pixmap_at (atlasNew (\<lambda>w h p. pixelSize p * (h * w)) 4 4 GS_PSM_T8) at' px py 2 1 [7, 9])"
proof (rule atlasPlace_texels)
  show "atlas_ok (atlasNew (\<lambda>w h p. pixelSize p * (h * w)) 4 4 GS_PSM_T8)"
    by (rule atlasNew_ok) simp_all
qed (simp_all add: atlasNew_def)

end
