(* ===== verification/Mcemu.thy ===== *)
theory Mcemu
  imports Wopl_Prelude
begin

text \<open>
  The memory card emulation (\<^verbatim>\<open>modules/mcemu\<close>): the page engine behind a virtual memory card, its
  ECC and EDC (\<^verbatim>\<open>mcemu_sys.c\<close>), the SIO2 command handler (\<^verbatim>\<open>mcemu.c\<close>) and the page store on
  a hard disk (\<^verbatim>\<open>device-hdd.c\<close>).

  \<open>None\<close> is an access outside a buffer (or fuel running out in the restart loops). Page numbers and
  offsets are \<open>nat\<close>, the ECC offsets, which may go below zero, \<open>int\<close>.
\<close>

section \<open>Checksums\<close>

definition xortable :: "u8 list" where
  "xortable = [
   0x00, 0x87, 0x96, 0x11, 0xA5, 0x22, 0x33, 0xB4, 0xB4, 0x33, 0x22, 0xA5, 0x11, 0x96, 0x87, 0x00,
   0xC3, 0x44, 0x55, 0xD2, 0x66, 0xE1, 0xF0, 0x77, 0x77, 0xF0, 0xE1, 0x66, 0xD2, 0x55, 0x44, 0xC3,
   0xD2, 0x55, 0x44, 0xC3, 0x77, 0xF0, 0xE1, 0x66, 0x66, 0xE1, 0xF0, 0x77, 0xC3, 0x44, 0x55, 0xD2,
   0x11, 0x96, 0x87, 0x00, 0xB4, 0x33, 0x22, 0xA5, 0xA5, 0x22, 0x33, 0xB4, 0x00, 0x87, 0x96, 0x11,
   0xE1, 0x66, 0x77, 0xF0, 0x44, 0xC3, 0xD2, 0x55, 0x55, 0xD2, 0xC3, 0x44, 0xF0, 0x77, 0x66, 0xE1,
   0x22, 0xA5, 0xB4, 0x33, 0x87, 0x00, 0x11, 0x96, 0x96, 0x11, 0x00, 0x87, 0x33, 0xB4, 0xA5, 0x22,
   0x33, 0xB4, 0xA5, 0x22, 0x96, 0x11, 0x00, 0x87, 0x87, 0x00, 0x11, 0x96, 0x22, 0xA5, 0xB4, 0x33,
   0xF0, 0x77, 0x66, 0xE1, 0x55, 0xD2, 0xC3, 0x44, 0x44, 0xC3, 0xD2, 0x55, 0xE1, 0x66, 0x77, 0xF0,
   0xF0, 0x77, 0x66, 0xE1, 0x55, 0xD2, 0xC3, 0x44, 0x44, 0xC3, 0xD2, 0x55, 0xE1, 0x66, 0x77, 0xF0,
   0x33, 0xB4, 0xA5, 0x22, 0x96, 0x11, 0x00, 0x87, 0x87, 0x00, 0x11, 0x96, 0x22, 0xA5, 0xB4, 0x33,
   0x22, 0xA5, 0xB4, 0x33, 0x87, 0x00, 0x11, 0x96, 0x96, 0x11, 0x00, 0x87, 0x33, 0xB4, 0xA5, 0x22,
   0xE1, 0x66, 0x77, 0xF0, 0x44, 0xC3, 0xD2, 0x55, 0x55, 0xD2, 0xC3, 0x44, 0xF0, 0x77, 0x66, 0xE1,
   0x11, 0x96, 0x87, 0x00, 0xB4, 0x33, 0x22, 0xA5, 0xA5, 0x22, 0x33, 0xB4, 0x00, 0x87, 0x96, 0x11,
   0xD2, 0x55, 0x44, 0xC3, 0x77, 0xF0, 0xE1, 0x66, 0x66, 0xE1, 0xF0, 0x77, 0xC3, 0x44, 0x55, 0xD2,
   0xC3, 0x44, 0x55, 0xD2, 0x66, 0xE1, 0xF0, 0x77, 0x77, 0xF0, 0xE1, 0x66, 0xD2, 0x55, 0x44, 0xC3,
   0x00, 0x87, 0x96, 0x11, 0xA5, 0x22, 0x33, 0xB4, 0xB4, 0x33, 0x22, 0xA5, 0x11, 0x96, 0x87, 0x00]"

text \<open>\<^verbatim>\<open>CalculateEDC\<close>: the exclusive or of the bytes.\<close>

fun edc_loop :: "u32 \<Rightarrow> u8 list \<Rightarrow> u32" where
  "edc_loop x [] = x"
| "edc_loop x (b # bs) = edc_loop (x XOR ucast b) bs"

definition CalculateEDC :: "u8 list \<Rightarrow> u32" where
  "CalculateEDC bs = edc_loop 0 bs AND 0xFF"

text \<open>\<^verbatim>\<open>CalculateECC\<close> over the bytes of a chunk: column parities in \<open>c1\<close>, line parities in the others.\<close>

fun ecc_loop :: "u32 \<Rightarrow> u32 \<Rightarrow> u32 \<Rightarrow> u32 \<Rightarrow> u8 list \<Rightarrow> u32 \<times> u32 \<times> u32" where
  "ecc_loop i c1 c2 c3 [] = (c1, c2, c3)"
| "ecc_loop i c1 c2 c3 (x # xs) =
     (let b = ucast (xortable ! unat x) :: u32 in
      if b AND 0x80 \<noteq> 0 then ecc_loop (i + 1) (c1 XOR b) (c2 XOR NOT i) (c3 XOR i) xs
      else ecc_loop (i + 1) (c1 XOR b) c2 c3 xs)"

definition CalculateECC :: "u8 list \<Rightarrow> u8 list" where
  "CalculateECC bs =
     (case ecc_loop 0 0 0 0 bs of
        (c1, c2, c3) \<Rightarrow>
          [ucast (NOT c1 AND 0x77), ucast (NOT c2 AND 0x7F), ucast (NOT c3 AND 0x7F)])"

definition GetInt :: "u8 list \<Rightarrow> u32" where
  "GetInt p = le32 p 0"

section \<open>State\<close>

record MemoryCard =
  mcnum :: int
  rpage :: nat
  rdoff :: nat
  wpage :: nat
  wroff :: nat
  rcoff :: int
  wcoff :: int
  tcode :: u8
  PageSize :: nat
  BlockSize :: nat
  CardSize :: nat
  mflags :: u32

text \<open>
  Both cards share \<^verbatim>\<open>mcdatabuf\<close>; each port has its ECC buffer. \<open>vdev\<close> is the state of the device that
  stores the pages.
\<close>

record 'v mcemu =
  memcards :: "MemoryCard list"
  mcdatabuf :: "u8 list"
  mceccbuf :: "u8 list list"
  vdev :: 'v

type_synonym 'v page_reader = "'v \<Rightarrow> int \<Rightarrow> nat \<Rightarrow> u8 list option"
type_synonym 'v page_writer = "'v \<Rightarrow> int \<Rightarrow> u8 list \<Rightarrow> nat \<Rightarrow> 'v option"

definition card :: "'v mcemu \<Rightarrow> nat \<Rightarrow> MemoryCard" where
  "card st p = memcards st ! p"

definition set_card :: "nat \<Rightarrow> MemoryCard \<Rightarrow> 'v mcemu \<Rightarrow> 'v mcemu" where
  "set_card p m st = st\<lparr>memcards := (memcards st)[p := m]\<rparr>"

definition cbuf :: "'v mcemu \<Rightarrow> nat \<Rightarrow> u8 list" where
  "cbuf st p = mceccbuf st ! p"

definition set_cbuf :: "nat \<Rightarrow> u8 list \<Rightarrow> 'v mcemu \<Rightarrow> 'v mcemu" where
  "set_cbuf p b st = st\<lparr>mceccbuf := (mceccbuf st)[p := b]\<rparr>"

section \<open>Configuration\<close>

record McImageSpec =
  active :: int
  spec_flags :: u32
  specPageSize :: nat
  specBlockSize :: nat
  specCardSize :: nat

text \<open>\<^verbatim>\<open>mc_configure\<close>: \<open>False\<close> when no card is active; an inactive card gets number -1.\<close>

definition configure_card :: "nat \<Rightarrow> McImageSpec \<Rightarrow> MemoryCard \<Rightarrow> MemoryCard" where
  "configure_card i sp m =
     (if active sp = 1 then
        m\<lparr>mcnum := int i, tcode := 0x5A, mflags := spec_flags sp, PageSize := specPageSize sp,
          BlockSize := specBlockSize sp, CardSize := specCardSize sp\<rparr>
      else m\<lparr>mcnum := -1\<rparr>)"

definition mc_configure :: "McImageSpec list \<Rightarrow> 'v mcemu \<Rightarrow> bool \<times> 'v mcemu" where
  "mc_configure spec st =
     (if active (spec ! 0) = 0 \<and> active (spec ! 1) = 0 then (False, st)
      else (True, st\<lparr>memcards := map (\<lambda>i. configure_card i (spec ! i) (memcards st ! i)) [0 ..< 2]\<rparr>))"

section \<open>Pages\<close>

text \<open>Writing the same page-sized buffer to \<open>n\<close> pages from \<open>page\<close> on; \<open>False\<close> on the first failure.\<close>

fun erase_pages :: "'v page_writer \<Rightarrow> int \<Rightarrow> u8 list \<Rightarrow> nat \<Rightarrow> nat \<Rightarrow> 'v \<Rightarrow> bool \<times> 'v" where
  "erase_pages dwr mc bs page 0 v = (True, v)"
| "erase_pages dwr mc bs page (Suc n) v =
     (case dwr v mc bs page of
        None \<Rightarrow> (False, v)
      | Some v' \<Rightarrow> erase_pages dwr mc bs (page + 1) n v')"

definition MceEraseBlock :: "'v page_writer \<Rightarrow> nat \<Rightarrow> nat \<Rightarrow> 'v mcemu \<Rightarrow> (bool \<times> 'v mcemu) option" where
  "MceEraseBlock dwr p page st =
     (let m = card st p; r = (if mflags m AND 0x10 \<noteq> 0 then 0 else 0xFF) in
      do { db \<leftarrow> mem_write (mcdatabuf st) 0 (replicate (PageSize m) r);
           let (ok, v) = erase_pages dwr (mcnum m) (take (PageSize m) db) page (BlockSize m) (vdev st);
           Some (ok, st\<lparr>mcdatabuf := db, vdev := v\<rparr>) })"

text \<open>The loop of \<^verbatim>\<open>do_read\<close>: three bytes of ECC for every 128 bytes of the page.\<close>

fun ecc_chunks :: "nat \<Rightarrow> u8 list \<Rightarrow> nat \<Rightarrow> u8 list \<Rightarrow> u8 list option" where
  "ecc_chunks 0 db i cb = Some cb"
| "ecc_chunks (Suc n) db i cb =
     do { bs \<leftarrow> mem_read db (i * 128) 128;
          cb \<leftarrow> mem_write cb (i * 3) (CalculateECC bs);
          ecc_chunks n db (i + 1) cb }"

definition do_read :: "'v page_reader \<Rightarrow> nat \<Rightarrow> 'v mcemu \<Rightarrow> (bool \<times> 'v mcemu) option" where
  "do_read drd p st =
     (let m = card st p; r = (if mflags m AND 0x10 \<noteq> 0 then 0xFF else 0) in
      do { cb \<leftarrow> mem_write (cbuf st p) 0 (replicate 16 r);
           let st = set_cbuf p cb st;
           (case drd (vdev st) (mcnum m) (rpage m) of
              None \<Rightarrow> Some (False, st)
            | Some bs \<Rightarrow>
                do { db \<leftarrow> mem_write (mcdatabuf st) 0 bs;
                     cb \<leftarrow> ecc_chunks ((PageSize m + 127) div 128) db 0 cb;
                     Some (True, set_cbuf p cb (st\<lparr>mcdatabuf := db\<rparr>)) }) })"

definition MceStartRead :: "nat \<Rightarrow> nat \<Rightarrow> 'v mcemu \<Rightarrow> 'v mcemu" where
  "MceStartRead p page st = set_card p ((card st p)\<lparr>rpage := page, rdoff := 0, rcoff := 0\<rparr>) st"

definition MceStartWrite :: "nat \<Rightarrow> nat \<Rightarrow> 'v mcemu \<Rightarrow> 'v mcemu" where
  "MceStartWrite p page st = set_card p ((card st p)\<lparr>wpage := page, wroff := 0, wcoff := 0\<rparr>) st"

text \<open>
  \<^verbatim>\<open>MceRead\<close> from the label \<^verbatim>\<open>restart\<close> on: \<open>tot\<close> is the requested size, \<open>sz\<close> what this pass has to
  deliver, \<open>out\<close> what has been delivered so far.
\<close>

fun MceRead_loop ::
  "'v page_reader \<Rightarrow> nat \<Rightarrow> nat \<Rightarrow> nat \<Rightarrow> nat \<Rightarrow> u8 list \<Rightarrow> 'v mcemu \<Rightarrow> (bool \<times> u8 list \<times> 'v mcemu) option" where
  "MceRead_loop drd 0 p tot sz out st = None"
| "MceRead_loop drd (Suc fuel) p tot sz out st =
     do { (sz, out, st, done) \<leftarrow>
            (let m = card st p in
             if rcoff m \<noteq> 0 \<and> rdoff m = 0 then
               (let csize = min sz 16 in
                do { bs \<leftarrow> mem_read (cbuf st p) 0 csize;
                     Some (sz - csize, out @ bs,
                       set_card p (m\<lparr>rcoff := (if csize > 12 then 0 else rcoff m - int csize)\<rparr>) st,
                       sz - csize = 0) })
             else Some (sz, out, st, False));
          if done then Some (True, out, st)
          else
            do { (ok, sz, out, st) \<leftarrow>
                   (if rdoff (card st p) < PageSize (card st p) then
                      do { (ok, st) \<leftarrow> (if rdoff (card st p) = 0 then do_read drd p st else Some (True, st));
                           let m = card st p;
                           if \<not> ok then Some (False, sz, out, st)
                           else
                             (let sz = min sz (PageSize m - rdoff m) in
                              do { bs \<leftarrow> mem_read (mcdatabuf st) (rdoff m) sz;
                                   Some (True, sz, out @ bs,
                                     set_card p (m\<lparr>rdoff := rdoff m + sz, rcoff := rcoff m + 3\<rparr>) st) }) }
                    else Some (True, sz, out, st));
                 if \<not> ok then Some (False, out, st)
                 else
                   (let m = card st p in
                    if rdoff m = PageSize m then
                      (let sz = tot - sz; st = set_card p (m\<lparr>rpage := rpage m + 1, rdoff := 0\<rparr>) st in
                       if sz > 0 then MceRead_loop drd fuel p tot sz out st else Some (True, out, st))
                    else Some (True, out, st)) } }"

definition MceRead ::
  "'v page_reader \<Rightarrow> nat \<Rightarrow> nat \<Rightarrow> nat \<Rightarrow> 'v mcemu \<Rightarrow> (bool \<times> u8 list \<times> 'v mcemu) option" where
  "MceRead drd fuel p sz st = MceRead_loop drd fuel p sz sz [] st"

text \<open>\<^verbatim>\<open>MceWrite\<close>: \<open>buf\<close> is the data from the current position of the pointer on.\<close>

fun MceWrite_loop ::
  "'v page_writer \<Rightarrow> nat \<Rightarrow> nat \<Rightarrow> nat \<Rightarrow> nat \<Rightarrow> u8 list \<Rightarrow> 'v mcemu \<Rightarrow> (bool \<times> 'v mcemu) option" where
  "MceWrite_loop dwr 0 p tot sz buf st = None"
| "MceWrite_loop dwr (Suc fuel) p tot sz buf st =
     do { (sz, buf, st, done) \<leftarrow>
            (let m = card st p in
             if wcoff m \<noteq> 0 \<and> wroff m = 0 then
               (let csize = min sz 16 in
                Some (sz - csize, drop csize buf,
                  set_card p (m\<lparr>wcoff := (if csize > 12 then 0 else wcoff m - int csize)\<rparr>) st,
                  sz - csize = 0))
             else Some (sz, buf, st, False));
          if done then Some (True, st)
          else
            do { (sz, st) \<leftarrow>
                   (let m = card st p in
                    if wroff m < PageSize m then
                      (let sz = min sz (PageSize m - wroff m) in
                       do { bs \<leftarrow> mem_read buf 0 sz;
                            db \<leftarrow> mem_write (mcdatabuf st) (wroff m) bs;
                            Some (sz, set_card p (m\<lparr>wroff := wroff m + sz, wcoff := wcoff m + 3\<rparr>)
                              (st\<lparr>mcdatabuf := db\<rparr>)) })
                    else Some (sz, st));
                 let m = card st p;
                 if wroff m = PageSize m then
                   (let buf = drop sz buf; sz = tot - sz; st = set_card p (m\<lparr>wroff := 0\<rparr>) st in
                    case dwr (vdev st) (mcnum m) (take (PageSize m) (mcdatabuf st)) (wpage m) of
                      None \<Rightarrow> Some (False, st)
                    | Some v \<Rightarrow>
                        (let st = set_card p (m\<lparr>wroff := 0, wpage := wpage m + 1\<rparr>) (st\<lparr>vdev := v\<rparr>) in
                         if sz > 0 then MceWrite_loop dwr fuel p tot sz buf st else Some (True, st)))
                 else Some (True, st) } }"

definition MceWrite ::
  "'v page_writer \<Rightarrow> nat \<Rightarrow> nat \<Rightarrow> u8 list \<Rightarrow> nat \<Rightarrow> 'v mcemu \<Rightarrow> (bool \<times> 'v mcemu) option" where
  "MceWrite dwr fuel p buf sz st = MceWrite_loop dwr fuel p sz sz buf st"

section \<open>SIO2 commands\<close>

text \<open>\<^verbatim>\<open>0xFF ... 0xFF 0x2B tcode\<close>; a length below two writes nothing.\<close>

definition SioResponse :: "u8 \<Rightarrow> nat \<Rightarrow> nat \<Rightarrow> u8 list \<Rightarrow> u8 list option" where
  "SioResponse tc off len rbuf =
     (if len < 2 then Some rbuf else mem_write rbuf off (replicate (len - 2) 0xFF @ [0x2B, tc]))"

definition spec_bytes :: "MemoryCard \<Rightarrow> u8 list" where
  "spec_bytes m =
     [of_nat (PageSize m), of_nat (PageSize m div 256), of_nat (BlockSize m), of_nat (BlockSize m div 256),
      of_nat (CardSize m), of_nat (CardSize m div 256), of_nat (CardSize m div 65536),
      of_nat (CardSize m div 16777216)]"

text \<open>
  The command switch: \<open>w\<close> is the command's write buffer, \<open>off\<close> the offset of its read buffer in \<open>rbuf\<close>,
  \<open>result\<close> the result of the previous command.
\<close>

definition mc2_command ::
  "'v page_reader \<Rightarrow> 'v page_writer \<Rightarrow> nat \<Rightarrow> nat \<Rightarrow> u8 list \<Rightarrow> nat \<Rightarrow> nat \<Rightarrow> bool \<Rightarrow> u8 list \<Rightarrow> 'v mcemu \<Rightarrow>
     (bool \<times> 'v mcemu \<times> u8 list) option" where
  "mc2_command drd dwr fuel p w off len result rbuf st =
     (let tc = tcode (card st p); cmd = w ! 1; page = do { bs \<leftarrow> mem_read w 2 4; Some (unat (GetInt bs)) } in
      if cmd = 0x21 then
        do { rb \<leftarrow> SioResponse tc off len rbuf; pg \<leftarrow> page;
             (ok, st) \<leftarrow> MceEraseBlock dwr p pg st; Some (ok, st, rb) }
      else if cmd = 0x22 then
        do { pg \<leftarrow> page; rb \<leftarrow> SioResponse tc off len rbuf; Some (True, MceStartWrite p pg st, rb) }
      else if cmd = 0x23 then
        do { pg \<leftarrow> page; rb \<leftarrow> SioResponse tc off len rbuf; Some (True, MceStartRead p pg st, rb) }
      else if cmd = 0x26 then
        (let m = card st p; sp = spec_bytes m in
         do { rb \<leftarrow> mem_write rbuf off
                ([0xFF, 0xFF, ucast (mflags m)] @ sp @ [ucast (CalculateEDC sp), tc]);
              Some (True, st, rb) })
      else if cmd = 0x27 then
        do { bs \<leftarrow> mem_read w 2 1;
             let st = set_card p ((card st p)\<lparr>tcode := bs ! 0\<rparr>) st;
             rb \<leftarrow> SioResponse (bs ! 0) off len rbuf; Some (True, st, rb) }
      else if cmd = 0x28 then
        do { rb \<leftarrow> SioResponse tc off 4 rbuf; rb \<leftarrow> mem_write rb (off + 4) [tc]; Some (True, st, rb) }
      else if cmd = 0x42 then
        do { rb \<leftarrow> SioResponse tc off len rbuf; n \<leftarrow> mem_read w 2 1;
             if result then
               do { (ok, st) \<leftarrow> MceWrite dwr fuel p (drop 3 w) (unat (n ! 0)) st; Some (ok, st, rb) }
             else Some (False, st, rb) }
      else if cmd = 0x43 then
        do { n \<leftarrow> mem_read w 2 1;
             let len = unat (n ! 0);
             rb \<leftarrow> SioResponse tc off 5 rbuf;
             (ok, data, st) \<leftarrow> (if result then MceRead drd fuel p len st else Some (False, [], st));
             rb \<leftarrow> mem_write rb (off + 4) data;
             rb \<leftarrow> (if ok then Some rb else mem_write rb (off + 4) (replicate len 0xFF));
             bs \<leftarrow> mem_read rb (off + 4) len;
             rb \<leftarrow> mem_write rb (off + len + 4) [ucast (CalculateEDC bs), tc];
             Some (ok, st, rb) }
      else
        do { rb \<leftarrow> SioResponse tc off len rbuf;
             Some (cmd \<in> {0x12, 0x11, 0x81, 0x82, 0xBF, 0xF3}, st, rb) })"

text \<open>\<^verbatim>\<open>Sio2Packet\<close>, the fields the handler uses.\<close>

record sio2_packet =
  iostatus :: u32
  ctrl :: "u32 list"
  wrmem :: "u8 list"
  wrwords :: nat
  wrcount :: nat
  rdmem :: "u8 list"
  rdwords :: nat

text \<open>The loop over the control codes; \<open>ddi\<close> counts the commands done.\<close>

fun sio2_loop ::
  "'v page_reader \<Rightarrow> 'v page_writer \<Rightarrow> nat \<Rightarrow> sio2_packet \<Rightarrow> nat \<Rightarrow> u32 list \<Rightarrow> bool \<Rightarrow> u8 list \<Rightarrow> 'v mcemu \<Rightarrow>
     (bool \<times> nat \<times> 'v mcemu \<times> u8 list) option" where
  "sio2_loop drd dwr fuel sd ddi [] result rbuf st = Some (result, ddi, st, rbuf)"
| "sio2_loop drd dwr fuel sd ddi (c # cs) result rbuf st =
     (if \<not> (ddi < wrcount sd \<and> ddi < 16 \<and> c \<noteq> 0) then Some (result, ddi, st, rbuf)
      else
        (let w = drop (ddi * wrwords sd * 4) (wrmem sd); off = ddi * rdwords sd * 4;
             p = unat (c AND 1); len = unat (drop_bit 18 c AND 0x1FF) in
         do { (result, st, rbuf) \<leftarrow>
                (if length w < 2 then None
                 else if w ! 0 \<noteq> 0x81 then Some (False, st, rbuf)
                 else if mcnum (card st p) = -1 then
                   do { rb \<leftarrow> mem_write rbuf off (replicate (rdwords sd * 4) 0xFF); Some (False, st, rb) }
                 else mc2_command drd dwr fuel p w off len result rbuf st);
              sio2_loop drd dwr fuel sd (ddi + 1) cs result rbuf st }))"

definition Sio2McEmu ::
  "'v page_reader \<Rightarrow> 'v page_writer \<Rightarrow> nat \<Rightarrow> sio2_packet \<Rightarrow> 'v mcemu \<Rightarrow> (sio2_packet \<times> 'v mcemu) option" where
  "Sio2McEmu drd dwr fuel sd st =
     (if ctrl sd ! 0 AND 0xF0 = 0x70 then
        do { (result, ddi, st, rbuf) \<leftarrow> sio2_loop drd dwr fuel sd 0 (ctrl sd) True (rdmem sd) st;
             Some (sd\<lparr>rdmem := rbuf,
               iostatus := (if result then 0x1000 else 0x1D000) OR push_bit 8 (of_nat ddi AND 0xF)\<rparr>, st) }
      else Some (sd\<lparr>iostatus := 0x1D100\<rparr>, st))"

text \<open>
  \<^verbatim>\<open>hookSio2man\<close>: whether the packet goes to the emulation (\<open>True\<close>) or to the original routine;
  \<open>pio\<close> is the first byte of the PIO buffer.
\<close>

definition hookSio2man :: "sio2_packet \<Rightarrow> u8 \<Rightarrow> 'v mcemu \<Rightarrow> bool" where
  "hookSio2man sd pio st =
     (let c = ctrl sd ! 0 in
      mcnum (card st (unat (c AND 1))) \<noteq> -1 \<and>
      (if c AND 0xF0 = 0x70 then wrmem sd ! 0 else if c AND 0xF0 = 0x40 then pio else 0) = 0x81)"

section \<open>Pages on a hard disk\<close>

text \<open>The extents of the card's file: start sector of each partition, then (number, partition, count).\<close>

record vmc_extents =
  apa_start :: "nat list"
  pfs_blocks :: "(nat \<times> nat \<times> nat) list"

text \<open>The loop of \<^verbatim>\<open>Mcpage_to_Apasector\<close>: a later block that holds the page overrides an earlier one.\<close>

fun apasector_loop :: "nat list \<Rightarrow> nat \<Rightarrow> nat \<Rightarrow> nat \<Rightarrow> (nat \<times> nat \<times> nat) list \<Rightarrow> nat" where
  "apasector_loop starts page ubound sec [] = sec"
| "apasector_loop starts page ubound sec ((number, subpart, count) # bs) =
     (let lbound = ubound; ubound = ubound + count in
      apasector_loop starts page ubound
        (if lbound * 16 \<le> page \<and> page < ubound * 16
         then (starts ! subpart + number * 16 + (page - lbound * 16)) mod 2 ^ 32 else sec) bs)"

definition Mcpage_to_Apasector :: "vmc_extents \<Rightarrow> nat \<Rightarrow> nat" where
  "Mcpage_to_Apasector v page = apasector_loop (apa_start v) page 0 0 (pfs_blocks v)"

text \<open>\<open>ard\<close> and \<open>awr\<close> are \<^verbatim>\<open>sceAtaDmaTransfer\<close> of one sector, \<open>ext\<close> the extents of each card.\<close>

definition DeviceReadPage_hdd ::
  "('a \<Rightarrow> nat \<Rightarrow> u8 list option) \<Rightarrow> (int \<Rightarrow> vmc_extents) \<Rightarrow> 'a page_reader" where
  "DeviceReadPage_hdd ard ext d mc page = ard d (Mcpage_to_Apasector (ext mc) page)"

definition DeviceWritePage_hdd ::
  "('a \<Rightarrow> nat \<Rightarrow> u8 list \<Rightarrow> 'a option) \<Rightarrow> (int \<Rightarrow> vmc_extents) \<Rightarrow> 'a page_writer" where
  "DeviceWritePage_hdd awr ext d mc bs page = awr d (Mcpage_to_Apasector (ext mc) page) bs"

end
