(* ===== verification/Mcemu_Ecc.thy ===== *)
theory Mcemu_Ecc
  imports Mcemu
begin

fun comb :: "u8 list \<Rightarrow> nat \<Rightarrow> u8" where
  "comb [] n = 0"
| "comb (b # bs) n = (if odd n then b else 0) XOR comb bs (n div 2)"

definition columns :: "u8 list" where
  "columns = [0x87, 0x96, 0xA5, 0xB4, 0xC3, 0xD2, 0xE1, 0xF0]"

fun span_low :: "u8 list \<Rightarrow> u8 list" where
  "span_low [] = [0]"
| "span_low (b # bs) = concat (map (\<lambda>t. [t, b XOR t]) (span_low bs))"

lemma xortable_span: "xortable = span_low columns"
  unfolding xortable_def columns_def by simp

lemma concat_pairs_nth:
  "n < 2 * length ts \<Longrightarrow> concat (map (\<lambda>t. [t, f t]) ts) ! n = (if odd n then f (ts ! (n div 2)) else ts ! (n div 2))"
proof (induction ts arbitrary: n)
  case (Cons t ts)
  show ?case
  proof (cases "n < 2")
    case True then show ?thesis by (auto simp: less_2_cases_iff)
  next
    case False
    then obtain m where m: "n = m + 2" by (metis add.commute le_Suc_ex not_less)
    with Cons show ?thesis by simp
  qed
qed simp

lemma span_low_length: "length (span_low bs) = 2 ^ length bs"
proof (induction bs)
  case (Cons b bs)
  have "length (concat (map (\<lambda>t. [t, f t]) ts)) = 2 * length ts" for f :: "u8 \<Rightarrow> u8" and ts
    by (induction ts) auto
  with Cons show ?case by simp
qed simp

lemma span_low_nth: "n < 2 ^ length bs \<Longrightarrow> span_low bs ! n = comb bs n"
proof (induction bs arbitrary: n)
  case (Cons b bs)
  then have "n div 2 < 2 ^ length bs" by auto
  with Cons.IH Cons.prems show ?case
    by (simp add: concat_pairs_nth span_low_length)
qed simp

lemma comb_flip:
  "k < length bs \<Longrightarrow> comb bs (flip_bit k n) = comb bs n XOR bs ! k"
proof (induction bs arbitrary: k n)
  case (Cons b bs)
  show ?case
  proof (cases k)
    case 0
    then show ?thesis by (simp add: flip_bit_0 ac_simps)
  next
    case (Suc j)
    with Cons show ?thesis by (auto simp: flip_bit_Suc ac_simps)
  qed
qed simp

lemma xortable_nth: "n < 256 \<Longrightarrow> xortable ! n = comb columns n"
  unfolding xortable_span by (rule span_low_nth) (simp add: columns_def)

lemma unat_flip_bit: "k < 8 \<Longrightarrow> unat (flip_bit k (x :: u8)) = flip_bit k (unat x)"
  by (rule bit_eqI) (auto simp: bit_flip_bit_iff bit_unsigned_iff dest: bit_imp_le_length)

lemma xortable_flip:
  fixes x :: u8
  assumes "k < 8"
  shows "xortable ! unat (flip_bit k x) = xortable ! unat x XOR columns ! k"
proof -
  have "unat (flip_bit k x) < 256" "unat x < 256"
    using unsigned_less [of x] unsigned_less [of "flip_bit k x"] by auto
  then have "xortable ! unat (flip_bit k x) = comb columns (flip_bit k (unat x))"
    using assms by (simp add: xortable_nth unat_flip_bit)
  also have "\<dots> = comb columns (unat x) XOR columns ! k"
    by (rule comb_flip) (use assms in \<open>simp add: columns_def\<close>)
  finally show ?thesis using \<open>unat x < 256\<close> by (simp add: xortable_nth)
qed


text \<open>What a byte at index \<open>i\<close> contributes to the line parities.\<close>

definition line :: "u8 \<Rightarrow> u32 \<Rightarrow> u32" where
  "line x v = (if (ucast (xortable ! unat x) :: u32) AND 0x80 \<noteq> 0 then v else 0)"

lemma ecc_loop_step:
  "ecc_loop i c1 c2 c3 (x # xs) =
    ecc_loop (i + 1) (c1 XOR ucast (xortable ! unat x)) (c2 XOR line x (NOT i)) (c3 XOR line x i) xs"
  by (simp add: line_def Let_def)

lemma xor_swap: "(c XOR d) XOR e = (c XOR e) XOR (d :: u32)"
  by (simp add: ac_simps)

definition shift :: "u32 \<times> u32 \<times> u32 \<Rightarrow> u32 \<Rightarrow> u32 \<Rightarrow> u32 \<Rightarrow> u32 \<times> u32 \<times> u32" where
  "shift r d1 d2 d3 = (case r of (a, b, c) \<Rightarrow> (a XOR d1, b XOR d2, c XOR d3))"

lemma ecc_loop_acc:
  "ecc_loop i (c1 XOR d1) (c2 XOR d2) (c3 XOR d3) xs = shift (ecc_loop i c1 c2 c3 xs) d1 d2 d3"
proof (induction xs arbitrary: i c1 c2 c3)
  case Nil
  show ?case by (simp add: shift_def)
next
  case (Cons x xs)
  show ?case
    unfolding ecc_loop_step Cons.IH [symmetric]
    by (simp only: xor_swap [of _ d1] xor_swap [of _ d2] xor_swap [of _ d3])
qed

lemma columns_parity: "k < 8 \<Longrightarrow> bit (columns ! k) 7"
  by (auto simp: columns_def less_Suc_eq numeral_eq_Suc)

lemma and_0x80: "ucast (x :: u8) AND 0x80 \<noteq> (0 :: u32) \<longleftrightarrow> bit x 7"
proof -
  have "(0x80 :: u32) = push_bit 7 1" by simp
  then have "ucast x AND 0x80 = (0 :: u32) \<longleftrightarrow> \<not> bit (ucast x :: u32) 7"
    by (simp add: and_exp_eq_0_iff_not_bit [symmetric])
  then show ?thesis by (simp add: bit_unsigned_iff)
qed

lemma line_flip:
  assumes "k < 8"
  shows "line (flip_bit k x) v = line x v XOR v"
  using assms columns_parity [of k]
  by (simp add: line_def and_0x80 xortable_flip bit_xor_iff)

lemma ecc_loop_flip:
  assumes "k < 8" and "j < length xs"
  shows "ecc_loop i c1 c2 c3 (xs[j := flip_bit k (xs ! j)]) =
    shift (ecc_loop i c1 c2 c3 xs) (ucast (columns ! k)) (NOT (i + of_nat j)) (i + of_nat j)"
  using assms(2)
proof (induction xs arbitrary: i j c1 c2 c3)
  case (Cons x xs)
  show ?case
  proof (cases j)
    case 0
    have "ucast (xortable ! unat (flip_bit k x)) = (ucast (xortable ! unat x) XOR ucast (columns ! k) :: u32)"
      using assms(1) by (simp add: xortable_flip unsigned_xor_eq)
    then have "ecc_loop i c1 c2 c3 (flip_bit k x # xs) =
        ecc_loop (i + 1) ((c1 XOR ucast (xortable ! unat x)) XOR ucast (columns ! k))
          ((c2 XOR line x (NOT i)) XOR NOT i) ((c3 XOR line x i) XOR i) xs"
      by (simp only: ecc_loop_step line_flip [OF assms(1)] xor.assoc)
    then show ?thesis by (simp only: ecc_loop_acc [of _ _ _ _ "NOT i"]) (simp add: 0 ecc_loop_step del: ecc_loop.simps)
  next
    case (Suc l)
    with Cons.IH [of l "i + 1"] Cons.prems show ?thesis
      by (simp add: ecc_loop_step add.assoc del: ecc_loop.simps)
  qed
qed simp

section \<open>Location\<close>

text \<open>\<open>flip_at j k xs\<close> is \<open>xs\<close> with bit \<open>k\<close> of byte \<open>j\<close> flipped, \<open>syndrome\<close> the difference of two ECCs.\<close>

definition flip_at :: "nat \<Rightarrow> nat \<Rightarrow> u8 list \<Rightarrow> u8 list" where
  "flip_at j k xs = xs[j := flip_bit k (xs ! j)]"

definition syndrome :: "u8 list \<Rightarrow> u8 list \<Rightarrow> u8 list" where
  "syndrome xs ys = map2 (XOR) (CalculateECC xs) (CalculateECC ys)"

text \<open>The syndrome of one wrong bit.\<close>

definition locator :: "nat \<Rightarrow> nat \<Rightarrow> u8 list" where
  "locator j k = [of_nat (16 * k + (7 - k)), of_nat (127 - j), of_nat j]"

lemma flip_at_length [simp]: "length (flip_at j k xs) = length xs"
  by (simp add: flip_at_def)

lemma ucast_mask_xor:
  "ucast (NOT (a XOR d) AND m) = (ucast (NOT a AND m) XOR ucast (d AND m) :: u8)" for a d m :: u32
  by (rule bit_eqI) (auto simp: bit_simps)

lemma column_mask: "k < 8 \<Longrightarrow> ucast (ucast (columns ! k) AND (0x77 :: u32)) = (of_nat (16 * k + (7 - k)) :: u8)"
proof -
  assume "k < 8"
  then consider "k = 0" | "k = 1" | "k = 2" | "k = 3" | "k = 4" | "k = 5" | "k = 6" | "k = 7" by linarith
  then show ?thesis by cases (simp_all add: columns_def)
qed

lemma line_mask_table:
  "list_all (\<lambda>j. ucast (of_nat j AND (0x7F :: u32)) = (of_nat j :: u8) \<and>
     ucast (NOT (of_nat j) AND (0x7F :: u32)) = (of_nat (127 - j) :: u8)) [0 ..< 128]"
  by code_simp

lemma line_mask:
  assumes "j < 128"
  shows "ucast (of_nat j AND (0x7F :: u32)) = (of_nat j :: u8)"
    and "ucast (NOT (of_nat j) AND (0x7F :: u32)) = (of_nat (127 - j) :: u8)"
  using line_mask_table assms unfolding list_all_iff set_upt by (metis atLeastLessThan_iff le0)+

lemma ecc_flip:
  assumes "k < 8" and "j < length xs" and "length xs \<le> 128"
  shows "CalculateECC (flip_at j k xs) = map2 (XOR) (CalculateECC xs) (locator j k)"
proof -
  have j: "j < 128" using assms by simp
  obtain a b c where abc: "ecc_loop 0 0 0 0 xs = (a, b, c)" by (metis surj_pair)
  have "ecc_loop 0 0 0 0 (flip_at j k xs) = (a XOR ucast (columns ! k), b XOR NOT (of_nat j), c XOR of_nat j)"
    using ecc_loop_flip [OF assms(1,2), of 0 0 0 0] by (simp add: flip_at_def abc shift_def)
  then show ?thesis
    unfolding CalculateECC_def
    by (simp only: abc prod.case ucast_mask_xor column_mask [OF assms(1)] line_mask [OF j] locator_def list.map zip_Cons_Cons zip_Nil)
qed

lemma CalculateECC_cases: obtains a b c where "CalculateECC xs = [a, b, c]"
  by (cases "ecc_loop 0 0 0 0 xs") (auto simp: CalculateECC_def)

lemma xor_cancel: "(a XOR x) XOR a = (x :: u8)"
  by (simp add: xor.commute [of a] xor.assoc)

lemma map2_xor_cancel:
  "length xs = 3 \<Longrightarrow> length ys = 3 \<Longrightarrow> map2 (XOR) (map2 (XOR) xs ys) xs = (ys :: u8 list)"
  by (auto simp: numeral_eq_Suc length_Suc_conv xor_cancel)

lemma map2_xor_assoc:
  "length xs = 3 \<Longrightarrow> length ys = 3 \<Longrightarrow> length zs = 3 \<Longrightarrow>
    map2 (XOR) (map2 (XOR) xs ys) zs = map2 (XOR) xs (map2 (XOR) ys (zs :: u8 list))"
  by (auto simp: numeral_eq_Suc length_Suc_conv xor.assoc)

lemma CalculateECC_len: "length (CalculateECC xs) = 3"
  by (rule CalculateECC_cases [of xs]) simp

lemma locator_length [simp]: "length (locator j k) = 3"
  by (simp add: locator_def)

lemma syndrome_flip:
  assumes "k < 8" and "j < length xs" and "length xs \<le> 128"
  shows "syndrome (flip_at j k xs) xs = locator j k"
  unfolding syndrome_def ecc_flip [OF assms] by (rule map2_xor_cancel) (simp_all add: CalculateECC_len)

lemma column_codes:
  "list_all (\<lambda>k. list_all (\<lambda>m. (of_nat (16 * k + (7 - k)) :: u8) XOR of_nat (16 * m + (7 - m)) = 0 \<longrightarrow> k = m) [0 ..< 8])
     [0 ..< 8]"
  by code_simp

lemma column_codes2:
  "list_all (\<lambda>k. list_all (\<lambda>m. list_all (\<lambda>n. (of_nat (16 * k + (7 - k)) :: u8) XOR of_nat (16 * m + (7 - m)) \<noteq>
     of_nat (16 * n + (7 - n))) [0 ..< 8]) [0 ..< 8]) [0 ..< 8]"
  by code_simp

lemma column_codes_inj:
  assumes "k < 8" "m < 8" "(of_nat (16 * k + (7 - k)) :: u8) XOR of_nat (16 * m + (7 - m)) = 0"
  shows "k = m"
proof -
  have "k \<in> set [0 ..< 8]" "m \<in> set [0 ..< 8]" using assms by auto
  with column_codes assms(3) show ?thesis unfolding list_all_iff by blast
qed

lemma column_codes_distance:
  assumes "k < 8" "m < 8" "n < 8"
  shows "(of_nat (16 * k + (7 - k)) :: u8) XOR of_nat (16 * m + (7 - m)) \<noteq> of_nat (16 * n + (7 - n))"
proof -
  have "k \<in> set [0 ..< 8]" "m \<in> set [0 ..< 8]" "n \<in> set [0 ..< 8]" using assms by auto
  with column_codes2 show ?thesis unfolding list_all_iff by blast
qed

lemma syndrome_flip_twice:
  assumes "k < 8" "m < 8" "j < length xs" "l < length xs" "length xs \<le> 128"
  shows "syndrome (flip_at j k (flip_at l m xs)) xs = map2 (XOR) (locator l m) (locator j k)"
proof -
  have "CalculateECC (flip_at j k (flip_at l m xs)) =
      map2 (XOR) (map2 (XOR) (CalculateECC xs) (locator l m)) (locator j k)"
    using ecc_flip [OF assms(1), of j "flip_at l m xs"] ecc_flip [OF assms(2,4,5)] assms by simp
  also have "\<dots> = map2 (XOR) (CalculateECC xs) (map2 (XOR) (locator l m) (locator j k))"
    by (rule map2_xor_assoc) (simp_all add: CalculateECC_len)
  finally show ?thesis
    unfolding syndrome_def by (simp only: map2_xor_cancel CalculateECC_len length_map length_zip locator_length min.idem)
qed

lemma word_byte_inj: "j < 128 \<Longrightarrow> l < 128 \<Longrightarrow> (of_nat j :: u8) = of_nat l \<Longrightarrow> j = l"
  by (simp add: word_of_nat_eq_iff take_bit_nat_eq_self)

lemma locators_distinct:
  assumes "k < 8" "m < 8" "j < 128" "l < 128" "(j, k) \<noteq> (l, m)"
  shows "map2 (XOR) (locator l m) (locator j k) \<noteq> [0, 0, 0]"
proof
  assume "map2 (XOR) (locator l m) (locator j k) = [0, 0, 0]"
  then have c: "(of_nat (16 * m + (7 - m)) :: u8) XOR of_nat (16 * k + (7 - k)) = 0"
    and l: "(of_nat l :: u8) XOR of_nat j = 0"
    unfolding locator_def zip_Cons_Cons zip_Nil list.map prod.case list.inject by blast+
  have "((of_nat l :: u8) XOR of_nat j) XOR of_nat j = of_nat j" by (simp only: l xor.left_neutral)
  then have "(of_nat l :: u8) = of_nat j" by (simp add: xor.assoc)
  then show False using column_codes_inj [OF assms(2,1) c] word_byte_inj assms by blast
qed

lemma locators_distance:
  assumes "k < 8" "m < 8" "n < 8"
  shows "map2 (XOR) (locator l m) (locator j k) \<noteq> locator i n"
  using column_codes_distance [OF assms(2,1,3)]
  unfolding locator_def zip_Cons_Cons zip_Nil list.map prod.case list.inject by blast

end
