(* ===== verification/Mcemu_Page.thy ===== *)
theory Mcemu_Page
  imports Mcemu
begin

text \<open>
  What the page engine of the memory card needs from the device that stores the pages (the locale
  \<open>page_device\<close>), and the hard-disk page store as an instance of it: the extents of the card's file
  name every page's sector, and writing a sector changes no other.
\<close>

section \<open>The contract\<close>

locale page_device =
  fixes rd :: "'v page_reader" and wr :: "'v page_writer"
    and good :: "'v \<Rightarrow> bool" and npages :: "int \<Rightarrow> nat" and cards :: "int set"
  assumes read_page: "good v \<Longrightarrow> c \<in> cards \<Longrightarrow> q < npages c \<Longrightarrow> \<exists>bs. rd v c q = Some bs \<and> length bs = 512"
    and write_page: "good v \<Longrightarrow> c \<in> cards \<Longrightarrow> q < npages c \<Longrightarrow> length bs = 512 \<Longrightarrow>
      \<exists>v'. wr v c bs q = Some v' \<and> good v' \<and>
        (\<forall>c' q'. c' \<in> cards \<longrightarrow> q' < npages c' \<longrightarrow>
           rd v' c' q' = (if (c', q') = (c, q) then Some bs else rd v c' q'))"

section \<open>The sectors of a card's file\<close>

definition run_sectors :: "nat list \<Rightarrow> nat \<times> nat \<times> nat \<Rightarrow> nat list" where
  "run_sectors starts b = (case b of (number, subpart, count) \<Rightarrow>
     [starts ! subpart + number * 16 ..< starts ! subpart + number * 16 + count * 16])"

definition vmc_sectors :: "vmc_extents \<Rightarrow> nat list" where
  "vmc_sectors v = concat (map (run_sectors (apa_start v)) (pfs_blocks v))"

lemma apasector_loop_before:
  "page < ub * 16 \<Longrightarrow> apasector_loop starts page ub sec bs = sec"
  by (induction bs arbitrary: ub) (auto simp: Let_def)

lemma apasector_loop_sectors:
  assumes "ub * 16 \<le> page" and "page - ub * 16 < length (concat (map (run_sectors starts) bs))"
    and "\<forall>s\<in>set (concat (map (run_sectors starts) bs)). s < 2 ^ 32"
  shows "apasector_loop starts page ub sec bs = concat (map (run_sectors starts) bs) ! (page - ub * 16)"
  using assms
proof (induction bs arbitrary: ub sec)
  case (Cons b bs)
  obtain number subpart count where b: "b = (number, subpart, count)" by (cases b)
  let ?s = "starts ! subpart + number * 16"
  have run: "run_sectors starts b = [?s ..< ?s + count * 16]" by (simp add: b run_sectors_def)
  show ?case
  proof (cases "page < (ub + count) * 16")
    case True
    with Cons.prems have k: "page - ub * 16 < count * 16" by simp
    then have "?s + (page - ub * 16) \<in> set (run_sectors starts b)" by (simp add: run)
    with Cons.prems have "?s + (page - ub * 16) < 2 ^ 32" by auto
    with True Cons.prems k show ?thesis
      by (simp add: b Let_def apasector_loop_before run [unfolded b] nth_append)
  next
    case False
    then have "\<not> page - ub * 16 < count * 16" by simp
    with False Cons.prems Cons.IH [of "ub + count"] show ?thesis
      by (simp add: b Let_def run [unfolded b] nth_append)
  qed
qed simp

lemma Mcpage_to_Apasector_nth:
  assumes "page < length (vmc_sectors v)" and "\<forall>s\<in>set (vmc_sectors v). s < 2 ^ 32"
  shows "Mcpage_to_Apasector v page = vmc_sectors v ! page"
  using apasector_loop_sectors [of 0 page "apa_start v" "pfs_blocks v"] assms
  by (simp add: Mcpage_to_Apasector_def vmc_sectors_def)

section \<open>The hard disk\<close>

text \<open>
  \<open>sceAtaDmaTransfer\<close> of one sector on a disk of \<open>n\<close> sectors: a read succeeds, a write changes that
  sector only. \<open>fit\<close> says which disk states work.
\<close>

definition ata_laws ::
  "('a \<Rightarrow> nat \<Rightarrow> u8 list option) \<Rightarrow> ('a \<Rightarrow> nat \<Rightarrow> u8 list \<Rightarrow> 'a option) \<Rightarrow> ('a \<Rightarrow> bool) \<Rightarrow> nat \<Rightarrow> bool" where
  "ata_laws ard awr fit n \<longleftrightarrow>
     (\<forall>d s. fit d \<longrightarrow> s < n \<longrightarrow> (\<exists>bs. ard d s = Some bs \<and> length bs = 512)) \<and>
     (\<forall>d s bs. fit d \<longrightarrow> s < n \<longrightarrow> length bs = 512 \<longrightarrow>
        (\<exists>d'. awr d s bs = Some d' \<and> fit d' \<and> (\<forall>t<n. ard d' t = (if t = s then Some bs else ard d t))))"

definition vmc_layout :: "(int \<Rightarrow> vmc_extents) \<Rightarrow> nat \<Rightarrow> bool" where
  "vmc_layout ext n \<longleftrightarrow> distinct (vmc_sectors (ext 0) @ vmc_sectors (ext 1)) \<and>
     (\<forall>s\<in>set (vmc_sectors (ext 0) @ vmc_sectors (ext 1)). s < n) \<and> n \<le> 2 ^ 32"

definition vmc_pages :: "(int \<Rightarrow> vmc_extents) \<Rightarrow> int \<Rightarrow> nat" where
  "vmc_pages ext c = length (vmc_sectors (ext c))"

definition vmc_good ::
  "('a \<Rightarrow> nat \<Rightarrow> u8 list option) \<Rightarrow> ('a \<Rightarrow> nat \<Rightarrow> u8 list \<Rightarrow> 'a option) \<Rightarrow> ('a \<Rightarrow> bool) \<Rightarrow> nat \<Rightarrow>
     (int \<Rightarrow> vmc_extents) \<Rightarrow> 'a \<Rightarrow> bool" where
  "vmc_good ard awr fit n ext d \<longleftrightarrow> ata_laws ard awr fit n \<and> vmc_layout ext n \<and> fit d"

lemma layout_sector:
  assumes "vmc_layout ext n" and "c \<in> {0, 1}" and "q < vmc_pages ext c"
  shows "Mcpage_to_Apasector (ext c) q = vmc_sectors (ext c) ! q"
    and "vmc_sectors (ext c) ! q < n" and "vmc_sectors (ext c) ! q \<in> set (vmc_sectors (ext c))"
proof -
  have lt: "\<forall>s\<in>set (vmc_sectors (ext c)). s < n" and n: "n \<le> 2 ^ 32"
    using assms(1,2) by (auto simp: vmc_layout_def)
  show in_set: "vmc_sectors (ext c) ! q \<in> set (vmc_sectors (ext c))"
    using assms(3) by (simp add: vmc_pages_def)
  show "vmc_sectors (ext c) ! q < n" using lt in_set by blast
  show "Mcpage_to_Apasector (ext c) q = vmc_sectors (ext c) ! q"
  proof (rule Mcpage_to_Apasector_nth)
    show "q < length (vmc_sectors (ext c))" using assms(3) by (simp add: vmc_pages_def)
    show "\<forall>s\<in>set (vmc_sectors (ext c)). s < 2 ^ 32" using lt n by (meson less_le_trans)
  qed
qed

lemma layout_inj:
  assumes l: "vmc_layout ext n" and c: "c \<in> {0, 1}" "c' \<in> {0, 1}"
    and q: "q < vmc_pages ext c" "q' < vmc_pages ext c'"
    and eq: "Mcpage_to_Apasector (ext c) q = Mcpage_to_Apasector (ext c') q'"
  shows "c = c' \<and> q = q'"
proof -
  have d: "distinct (vmc_sectors (ext 0))" "distinct (vmc_sectors (ext 1))"
    "set (vmc_sectors (ext 0)) \<inter> set (vmc_sectors (ext 1)) = {}"
    using l by (auto simp: vmc_layout_def)
  have s: "vmc_sectors (ext c) ! q = vmc_sectors (ext c') ! q'"
    using eq layout_sector(1) [OF l c(1) q(1)] layout_sector(1) [OF l c(2) q(2)] by simp
  have "c = c'"
    using s layout_sector(3) [OF l c(1) q(1)] layout_sector(3) [OF l c(2) q(2)] d(3) c
    by (auto simp: disjoint_iff)
  moreover have "distinct (vmc_sectors (ext c))" using d c by auto
  ultimately show ?thesis
    using s q by (auto simp: vmc_pages_def nth_eq_iff_index_eq)
qed

lemma hdd_read_page:
  assumes "vmc_good ard awr fit n ext d" and "c \<in> {0, 1}" and "q < vmc_pages ext c"
  shows "\<exists>bs. DeviceReadPage_hdd ard ext d c q = Some bs \<and> length bs = 512"
  using assms layout_sector [of ext n c q]
  by (simp add: vmc_good_def ata_laws_def DeviceReadPage_hdd_def)

lemma hdd_write_page:
  assumes g: "vmc_good ard awr fit n ext d" and c: "c \<in> {0, 1}" and q: "q < vmc_pages ext c"
    and len: "length bs = 512"
  shows "\<exists>d'. DeviceWritePage_hdd awr ext d c bs q = Some d' \<and> vmc_good ard awr fit n ext d' \<and>
    (\<forall>c' q'. c' \<in> {0, 1} \<longrightarrow> q' < vmc_pages ext c' \<longrightarrow>
       DeviceReadPage_hdd ard ext d' c' q' =
         (if (c', q') = (c, q) then Some bs else DeviceReadPage_hdd ard ext d c' q'))"
proof -
  have l: "vmc_layout ext n" using g by (simp add: vmc_good_def)
  let ?s = "Mcpage_to_Apasector (ext c) q"
  have s: "?s < n" using layout_sector [OF l c q] by simp
  obtain d' where d': "awr d ?s bs = Some d'" "fit d'"
      "\<And>t. t < n \<Longrightarrow> ard d' t = (if t = ?s then Some bs else ard d t)"
    using g s len unfolding vmc_good_def ata_laws_def by blast
  have "ard d' (Mcpage_to_Apasector (ext c') q') =
      (if (c', q') = (c, q) then Some bs else ard d (Mcpage_to_Apasector (ext c') q'))"
    if "c' \<in> {0, 1}" "q' < vmc_pages ext c'" for c' q'
    using d'(3) [of "Mcpage_to_Apasector (ext c') q'"] layout_sector [OF l that]
      layout_inj [OF l that(1) c that(2) q] by auto
  with d' g show ?thesis
    by (auto simp: DeviceReadPage_hdd_def DeviceWritePage_hdd_def vmc_good_def)
qed

interpretation hdd_pages: page_device "DeviceReadPage_hdd ard ext" "DeviceWritePage_hdd awr ext"
    "vmc_good ard awr fit n ext" "vmc_pages ext" "{0, 1}" for ard awr fit n ext
  by unfold_locales (rule hdd_read_page hdd_write_page; assumption)+

end
