(* ===== verification/Mcemu_Engine.thy ===== *)
theory Mcemu_Engine
  imports Mcemu_Page
begin

text \<open>
  The page engine against the page device contract: reading pages in chunks of 128 bytes followed by
  16 bytes of ECC, writing them the same way, erasing blocks.
\<close>

section \<open>The state\<close>

lemma card_frame [simp]:
  "card (st\<lparr>mcdatabuf := b\<rparr>) q = card st q" "card (st\<lparr>vdev := v\<rparr>) q = card st q"
  "card (set_cbuf p cb st) q = card st q"
  by (simp_all add: card_def set_cbuf_def)

lemma cbuf_frame [simp]:
  "cbuf (st\<lparr>mcdatabuf := b\<rparr>) q = cbuf st q" "cbuf (st\<lparr>vdev := v\<rparr>) q = cbuf st q"
  "cbuf (set_card p m st) q = cbuf st q"
  by (simp_all add: cbuf_def set_card_def)

lemma set_frame [simp]:
  "mcdatabuf (set_card p m st) = mcdatabuf st" "vdev (set_card p m st) = vdev st"
  "mceccbuf (set_card p m st) = mceccbuf st"
  "mcdatabuf (set_cbuf p cb st) = mcdatabuf st" "vdev (set_cbuf p cb st) = vdev st"
  "memcards (set_cbuf p cb st) = memcards st"
  "length (memcards (set_card p m st)) = length (memcards st)"
  "length (mceccbuf (set_cbuf p cb st)) = length (mceccbuf st)"
  by (simp_all add: set_card_def set_cbuf_def)

lemma card_set [simp]: "p < length (memcards st) \<Longrightarrow> card (set_card p m st) p = m"
  by (simp add: card_def set_card_def)

lemma cbuf_set [simp]: "p < length (mceccbuf st) \<Longrightarrow> cbuf (set_cbuf p cb st) p = cb"
  by (simp add: cbuf_def set_cbuf_def)

lemma set_card_twice [simp]: "set_card p m (set_card p m' st) = set_card p m st"
  by (simp add: set_card_def)

definition mc_ok :: "nat \<Rightarrow> 'v mcemu \<Rightarrow> bool" where
  "mc_ok p st \<longleftrightarrow> p < length (memcards st) \<and> p < length (mceccbuf st) \<and>
     length (cbuf st p) = 32 \<and> length (mcdatabuf st) = 512 \<and> PageSize (card st p) = 512"

section \<open>ECC of a page\<close>

definition fill :: "u32 \<Rightarrow> u8" where
  "fill fl = (if fl AND 0x10 \<noteq> 0 then 0xFF else 0)"

definition erased :: "u32 \<Rightarrow> u8" where
  "erased fl = (if fl AND 0x10 \<noteq> 0 then 0 else 0xFF)"

definition chunk :: "nat \<Rightarrow> u8 list \<Rightarrow> u8 list" where
  "chunk k bs = take 128 (drop (k * 128) bs)"

definition page_ecc :: "u32 \<Rightarrow> u8 list \<Rightarrow> u8 list" where
  "page_ecc fl bs = concat (map (\<lambda>k. CalculateECC (chunk k bs)) [0 ..< 4]) @ replicate 4 (fill fl)"

lemma CalculateECC_length [simp]: "length (CalculateECC bs) = 3"
  by (simp add: CalculateECC_def split: prod.splits)

lemma concat_ecc_length:
  "length (concat (map (\<lambda>k. CalculateECC (chunk k bs)) ks)) = 3 * length ks"
  by (induction ks) auto

lemma page_ecc_length [simp]: "length (page_ecc fl bs) = 16"
  by (simp add: page_ecc_def concat_ecc_length)

lemma chunk_length: "length bs = 512 \<Longrightarrow> k < 4 \<Longrightarrow> length (chunk k bs) = 128"
  by (auto simp: chunk_def)

lemma ecc_chunks_ok:
  assumes "128 * (i + n) \<le> length db" and "3 * (i + n) \<le> length cb"
  shows "ecc_chunks n db i cb =
    Some (take (i * 3) cb @ concat (map (\<lambda>k. CalculateECC (chunk k db)) [i ..< i + n])
      @ drop ((i + n) * 3) cb)"
  using assms
proof (induction n arbitrary: i cb)
  case (Suc n)
  let ?e = "CalculateECC (chunk i db)"
  let ?cb = "take (i * 3) cb @ ?e @ drop (i * 3 + 3) cb"
  have r: "mem_read db (i * 128) 128 = Some (chunk i db)"
    using Suc.prems by (simp add: mem_read_def chunk_def)
  have w: "mem_write cb (i * 3) ?e = Some ?cb"
    using Suc.prems by (simp add: mem_write_def)
  have "ecc_chunks n db (i + 1) ?cb =
      Some (take ((i + 1) * 3) ?cb @ concat (map (\<lambda>k. CalculateECC (chunk k db)) [i + 1 ..< i + 1 + n])
        @ drop ((i + 1 + n) * 3) ?cb)"
    using Suc.prems by (intro Suc.IH) auto
  moreover have "take ((i + 1) * 3) ?cb = take (i * 3) cb @ ?e"
    using Suc.prems by (simp add: min_def)
  moreover have "drop ((i + 1 + n) * 3) ?cb = drop ((i + Suc n) * 3) cb"
    using Suc.prems by (simp add: min_def ac_simps)
  moreover have "[i ..< i + Suc n] = i # [i + 1 ..< i + 1 + n]"
    by (simp add: upt_rec)
  ultimately show ?case by (simp add: r w)
qed simp

lemma do_read_ok:
  assumes ok: "mc_ok p st" and rd: "drd (vdev st) (mcnum (card st p)) (rpage (card st p)) = Some bs"
    and len: "length bs = 512"
  shows "do_read drd p st =
    Some (True, set_cbuf p (page_ecc (mflags (card st p)) bs @ drop 16 (cbuf st p)) (st\<lparr>mcdatabuf := bs\<rparr>))"
proof -
  let ?f = "fill (mflags (card st p))"
  let ?cb = "replicate 16 ?f @ drop 16 (cbuf st p)"
  have cl: "length (cbuf st p) = 32" and pl: "p < length (mceccbuf st)"
    and bl: "length (mcdatabuf st) = 512" and ps: "PageSize (card st p) = 512"
    using ok by (auto simp: mc_ok_def)
  have 1: "mem_write (cbuf st p) 0 (replicate 16 ?f) = Some ?cb" using cl by (simp add: mem_write_def)
  have 2: "mem_write (mcdatabuf st) 0 bs = Some bs" using bl len by (simp add: mem_write_def)
  have "ecc_chunks 4 bs 0 ?cb =
      Some (take (0 * 3) ?cb @ concat (map (\<lambda>k. CalculateECC (chunk k bs)) [0 ..< 0 + 4])
        @ drop ((0 + 4) * 3) ?cb)"
    by (rule ecc_chunks_ok) (simp_all add: len cl)
  also have "drop ((0 + 4) * 3) ?cb = replicate 4 ?f @ drop 16 (cbuf st p)" by simp
  finally have 3: "ecc_chunks 4 bs 0 ?cb = Some (page_ecc (mflags (card st p)) bs @ drop 16 (cbuf st p))"
    by (simp add: page_ecc_def)
  show ?thesis
    unfolding do_read_def fill_def [symmetric]
    by (simp add: Let_def 1 2 3 ps rd pl) (simp add: set_cbuf_def)
qed
section \<open>Reading\<close>

text \<open>
  The state after \<open>k\<close> chunks of page \<open>pg\<close>, whose bytes are \<open>bs\<close>: \<open>m\<close> is the card's record up to the
  positions, \<open>v\<close> the device. After the fourth chunk the engine stands on the next page with the ECC
  still to be read.
\<close>

definition reading :: "nat \<Rightarrow> nat \<Rightarrow> nat \<Rightarrow> u8 list \<Rightarrow> MemoryCard \<Rightarrow> 'v \<Rightarrow> 'v mcemu \<Rightarrow> bool" where
  "reading p pg k bs m v st \<longleftrightarrow> mc_ok p st \<and> vdev st = v \<and>
     card st p = m\<lparr>rpage := pg + k div 4, rdoff := 128 * (k mod 4), rcoff := 3 * int k\<rparr> \<and>
     (0 < k \<longrightarrow> mcdatabuf st = bs \<and> take 16 (cbuf st p) = page_ecc (mflags m) bs)"

lemma MceRead_chunk:
  assumes m: "mc_ok p st" and k: "rdoff (card st p) = 128 * k" "k < 4" "rcoff (card st p) = 3 * int k"
    and st1: "st1 = st \<and> 0 < k \<or> k = 0 \<and> do_read drd p st = Some (True, st1)"
    and c1: "card st1 p = card st p" and l1: "length (memcards st1) = length (memcards st)"
    and d: "mcdatabuf st1 = bs" "length bs = 512"
  shows "MceRead drd (Suc f) p 128 st =
    Some (True, chunk k bs,
      set_card p ((card st p)\<lparr>rpage := (if k = 3 then rpage (card st p) + 1 else rpage (card st p)),
         rdoff := (if k = 3 then 0 else 128 * (k + 1)), rcoff := 3 * (int k + 1)\<rparr>) st1)"
proof -
  have ps: "PageSize (card st p) = 512" and pl: "p < length (memcards st)" using m by (auto simp: mc_ok_def)
  have rdb: "mem_read bs (128 * k) 128 = Some (chunk k bs)"
    using d k(2) by (simp add: mem_read_def chunk_def mult.commute)
  have first: "\<not> (rcoff (card st p) \<noteq> 0 \<and> rdoff (card st p) = 0)" using k by auto
  have load: "(if rdoff (card st p) = 0 then do_read drd p st else Some (True, st)) = Some (True, st1)"
    using st1 k by auto
  have lt: "rdoff (card st p) < PageSize (card st p)" using k ps by simp
  have mn: "min 128 (512 - 128 * k) = 128" using k(2) by simp
  show ?thesis
    unfolding MceRead_def MceRead_loop.simps(2)
    by (simp only: first load lt if_True if_False Let_def bind.bind_lunit prod.case)
      (simp add: c1 k d ps mn rdb pl l1 Let_def,
       auto intro!: arg_cong [where f = "\<lambda>m. set_card p m st1"])
qed

lemma readingI:
  assumes "mc_ok p st" and "vdev st = v" and "mcdatabuf st = bs"
    and "take 16 (cbuf st p) = page_ecc (mflags m) bs" and "PageSize m = 512"
  shows "reading p pg k bs m v
    (set_card p (m\<lparr>rpage := pg + k div 4, rdoff := 128 * (k mod 4), rcoff := 3 * int k\<rparr>) st)"
  using assms by (auto simp: reading_def mc_ok_def)

lemma reading_step:
  assumes r: "reading p pg k bs m v st" and k: "k < 4"
    and page: "drd v (mcnum m) pg = Some bs" "length bs = 512"
  shows "\<exists>st'. MceRead drd (Suc f) p 128 st = Some (True, chunk k bs, st') \<and> reading p pg (k + 1) bs m v st'"
proof -
  have m: "mc_ok p st" and v: "vdev st = v" and c: "card st p = m\<lparr>rpage := pg, rdoff := 128 * k, rcoff := 3 * int k\<rparr>"
    and buf: "0 < k \<Longrightarrow> mcdatabuf st = bs \<and> take 16 (cbuf st p) = page_ecc (mflags m) bs"
    using r k by (auto simp: reading_def)
  let ?st1 = "if k = 0 then set_cbuf p (page_ecc (mflags m) bs @ drop 16 (cbuf st p)) (st\<lparr>mcdatabuf := bs\<rparr>) else st"
  have pl: "p < length (mceccbuf st)" "p < length (memcards st)" using m by (auto simp: mc_ok_def)
  have load: "do_read drd p st =
      Some (True, set_cbuf p (page_ecc (mflags (card st p)) bs @ drop 16 (cbuf st p)) (st\<lparr>mcdatabuf := bs\<rparr>))"
    by (rule do_read_ok [OF m]) (use page in \<open>simp_all add: v c\<close>)
  have st1: "?st1 = st \<and> 0 < k \<or> k = 0 \<and> do_read drd p st = Some (True, ?st1)"
    using load by (auto simp: c)
  have dbuf: "mcdatabuf ?st1 = bs" and ecc: "take 16 (cbuf ?st1 p) = page_ecc (mflags m) bs"
    using buf pl by auto
  have ok1: "mc_ok p ?st1" using m page(2) by (auto simp: mc_ok_def)
  have c1: "card ?st1 p = card st p" and v1: "vdev ?st1 = v"
    and l1: "length (memcards ?st1) = length (memcards st)" using v by auto
  let ?st' = "set_card p (m\<lparr>rpage := pg + (k + 1) div 4, rdoff := 128 * ((k + 1) mod 4), rcoff := 3 * int (k + 1)\<rparr>) ?st1"
  have "MceRead drd (Suc f) p 128 st = Some (True, chunk k bs,
      set_card p ((card st p)\<lparr>rpage := (if k = 3 then rpage (card st p) + 1 else rpage (card st p)),
         rdoff := (if k = 3 then 0 else 128 * (k + 1)), rcoff := 3 * (int k + 1)\<rparr>) ?st1)"
    by (rule MceRead_chunk [OF m _ k _ st1 c1 l1 dbuf page(2)]) (simp_all add: c)
  also have "(card st p)\<lparr>rpage := (if k = 3 then rpage (card st p) + 1 else rpage (card st p)),
         rdoff := (if k = 3 then 0 else 128 * (k + 1)), rcoff := 3 * (int k + 1)\<rparr> =
      m\<lparr>rpage := pg + (k + 1) div 4, rdoff := 128 * ((k + 1) mod 4), rcoff := 3 * int (k + 1)\<rparr>"
  proof (cases "k = 3")
    case False
    then have "k + 1 < 4" using k by simp
    then show ?thesis using False by (simp add: c)
  qed (simp add: c)
  finally have run: "MceRead drd (Suc f) p 128 st = Some (True, chunk k bs, ?st')" .
  have "reading p pg (k + 1) bs m v ?st'"
    by (rule readingI [OF ok1 v1 dbuf ecc]) (use m c in \<open>simp add: mc_ok_def\<close>)
  with run show ?thesis by blast
qed

lemma reading_ecc:
  assumes r: "reading p pg 4 bs m v st"
  shows "\<exists>st'. MceRead drd (Suc f) p 16 st = Some (True, page_ecc (mflags m) bs, st') \<and>
    reading p (pg + 1) 0 bs' m v st'"
proof -
  have m: "mc_ok p st" and v: "vdev st = v" and c: "card st p = m\<lparr>rpage := pg + 1, rdoff := 0, rcoff := 12\<rparr>"
    and ecc: "take 16 (cbuf st p) = page_ecc (mflags m) bs"
    using r by (auto simp: reading_def)
  let ?st' = "set_card p (m\<lparr>rpage := pg + 1, rdoff := 0, rcoff := 0\<rparr>) st"
  have "mem_read (cbuf st p) 0 16 = Some (page_ecc (mflags m) bs)"
    using m ecc by (simp add: mem_read_def mc_ok_def)
  then have "MceRead drd (Suc f) p 16 st = Some (True, page_ecc (mflags m) bs, ?st')"
    by (simp add: MceRead_def c Let_def)
  moreover have "reading p (pg + 1) 0 bs' m v ?st'"
    using m v c by (auto simp: reading_def mc_ok_def)
  ultimately show ?thesis by blast
qed

lemma MceStartRead_reading:
  assumes "mc_ok p st"
  shows "reading p pg 0 bs (card st p) (vdev st) (MceStartRead p pg st)"
  using assms by (auto simp: reading_def MceStartRead_def mc_ok_def)

text \<open>The client's side: a sequence of reads, which stops at the first failure.\<close>

fun mce_reads :: "'v page_reader \<Rightarrow> nat \<Rightarrow> nat \<Rightarrow> nat list \<Rightarrow> 'v mcemu \<Rightarrow> (u8 list list \<times> 'v mcemu) option" where
  "mce_reads drd f p [] st = Some ([], st)"
| "mce_reads drd f p (n # ns) st =
     do { (ok, bs, st) \<leftarrow> MceRead drd f p n st;
          if ok then do { (rest, st) \<leftarrow> mce_reads drd f p ns st; Some (bs # rest, st) } else None }"

definition page_sizes :: "nat list" where
  "page_sizes = [128, 128, 128, 128, 16]"

definition page_parts :: "u32 \<Rightarrow> u8 list \<Rightarrow> u8 list list" where
  "page_parts fl bs = [chunk 0 bs, chunk 1 bs, chunk 2 bs, chunk 3 bs, page_ecc fl bs]"

lemma mce_reads_append:
  "mce_reads drd f p (ns @ ns') st =
    do { (xs, st) \<leftarrow> mce_reads drd f p ns st; (ys, st) \<leftarrow> mce_reads drd f p ns' st; Some (xs @ ys, st) }"
proof (induction ns arbitrary: st)
  case (Cons n ns)
  then show ?case
    by (cases "MceRead drd f p n st")
      (auto simp: bind_eq_Some_conv split: prod.splits Option.bind_splits)
qed (auto split: prod.splits Option.bind_splits)

lemma reading_page:
  assumes r: "reading p pg 0 bs m v st" and page: "drd v (mcnum m) pg = Some bs" "length bs = 512"
  shows "\<exists>st'. mce_reads drd (Suc f) p page_sizes st = Some (page_parts (mflags m) bs, st') \<and>
    reading p (pg + 1) 0 bs' m v st'"
proof -
  obtain s1 where 1: "MceRead drd (Suc f) p 128 st = Some (True, chunk 0 bs, s1)" "reading p pg 1 bs m v s1"
    using reading_step [where f = f and drd = drd, OF r, OF _ page] by auto
  obtain s2 where 2: "MceRead drd (Suc f) p 128 s1 = Some (True, chunk 1 bs, s2)" "reading p pg 2 bs m v s2"
    using reading_step [where f = f and drd = drd, OF 1(2), OF _ page] by (auto simp: numeral_eq_Suc)
  obtain s3 where 3: "MceRead drd (Suc f) p 128 s2 = Some (True, chunk 2 bs, s3)" "reading p pg 3 bs m v s3"
    using reading_step [where f = f and drd = drd, OF 2(2), OF _ page] by (auto simp: numeral_eq_Suc)
  obtain s4 where 4: "MceRead drd (Suc f) p 128 s3 = Some (True, chunk 3 bs, s4)" "reading p pg 4 bs m v s4"
    using reading_step [where f = f and drd = drd, OF 3(2), OF _ page] by (auto simp: numeral_eq_Suc)
  obtain s5 where 5: "MceRead drd (Suc f) p 16 s4 = Some (True, page_ecc (mflags m) bs, s5)"
      "reading p (pg + 1) 0 bs' m v s5"
    using reading_ecc [where f = f and drd = drd, OF 4(2)] by blast
  show ?thesis
    using 5(2) by (intro exI [of _ s5] conjI) (simp_all add: page_sizes_def page_parts_def 1 2 3 4 5(1))
qed

lemma reading_pages:
  assumes r: "reading p pg 0 bs0 m v st"
    and page: "\<And>i. i < n \<Longrightarrow> drd v (mcnum m) (pg + i) = Some (bs i) \<and> length (bs i) = 512"
  shows "\<exists>st'. mce_reads drd (Suc f) p (concat (replicate n page_sizes)) st =
      Some (concat (map (\<lambda>i. page_parts (mflags m) (bs i)) [0 ..< n]), st') \<and>
    reading p (pg + n) 0 bs' m v st'"
  using assms
proof (induction n)
  case 0
  then have "reading p pg 0 bs' m v st" by (simp add: reading_def)
  then show ?case by simp
next
  case (Suc n)
  then obtain s1 where s1: "mce_reads drd (Suc f) p (concat (replicate n page_sizes)) st =
      Some (concat (map (\<lambda>i. page_parts (mflags m) (bs i)) [0 ..< n]), s1)"
      "reading p (pg + n) 0 bs' m v s1" by auto
  then have r': "reading p (pg + n) 0 (bs n) m v s1" by (simp add: reading_def)
  obtain s2 where s2: "mce_reads drd (Suc f) p page_sizes s1 = Some (page_parts (mflags m) (bs n), s2)"
      "reading p (pg + n + 1) 0 bs' m v s2"
    using reading_page [OF r', where drd = drd and f = f and bs' = bs'] Suc.prems(2) by blast
  have e: "concat (replicate (Suc n) page_sizes) = concat (replicate n page_sizes) @ page_sizes" for n
    by (induction n) simp_all
  show ?case
    using s2(2) by (intro exI [of _ s2] conjI) (simp_all add: e mce_reads_append s1(1) s2(1) del: replicate_Suc)
qed

section \<open>Writing\<close>

text \<open>The state after \<open>k < 4\<close> chunks of the new page \<open>bs\<close>.\<close>

definition writing :: "nat \<Rightarrow> nat \<Rightarrow> nat \<Rightarrow> u8 list \<Rightarrow> MemoryCard \<Rightarrow> 'v \<Rightarrow> 'v mcemu \<Rightarrow> bool" where
  "writing p pg k bs m v st \<longleftrightarrow> mc_ok p st \<and> vdev st = v \<and> PageSize m = 512 \<and>
     card st p = m\<lparr>wpage := pg, wroff := 128 * k, wcoff := 3 * int k\<rparr> \<and>
     take (128 * k) (mcdatabuf st) = take (128 * k) bs"

lemma chunk_written:
  assumes "take (128 * k) db = take (128 * k) bs" and "128 * (k + 1) \<le> length db" and "length bs = length db"
  shows "\<exists>db'. mem_write db (128 * k) (chunk k bs) = Some db' \<and> length db' = length db \<and>
    take (128 * (k + 1)) db' = take (128 * (k + 1)) bs"
proof -
  have l: "length (chunk k bs) = 128" using assms by (auto simp: chunk_def)
  have "take (128 * (k + 1)) (take (128 * k) bs @ chunk k bs @ drop (128 * k + 128) db) =
      take (128 * k) bs @ chunk k bs"
    using assms l by (simp add: min_def)
  also have "\<dots> = take (128 * (k + 1)) bs"
    by (simp add: chunk_def take_add [symmetric] mult.commute add.commute)
  finally show ?thesis using assms l by (simp add: mem_write_def)
qed

lemma writing_step:
  assumes w: "writing p pg k bs m v st" and k: "k < 3" and bs: "length bs = 512"
    and buf: "take 128 buf = chunk k bs"
  shows "\<exists>st'. MceWrite dwr (Suc f) p buf 128 st = Some (True, st') \<and> writing p pg (k + 1) bs m v st'"
proof -
  have m: "mc_ok p st" and v: "vdev st = v" and ps: "PageSize m = 512"
    and c: "card st p = m\<lparr>wpage := pg, wroff := 128 * k, wcoff := 3 * int k\<rparr>"
    and d: "take (128 * k) (mcdatabuf st) = take (128 * k) bs"
    using w by (auto simp: writing_def)
  have pl: "p < length (memcards st)" using m by (simp add: mc_ok_def)
  obtain db where db: "mem_write (mcdatabuf st) (128 * k) (chunk k bs) = Some db" "length db = 512"
      "take (128 * (k + 1)) db = take (128 * (k + 1)) bs"
    using chunk_written [OF d] m bs k by (auto simp: mc_ok_def)
  have "length (take 128 buf) = 128" using buf chunk_length [OF bs, of k] k by simp
  then have bl: "128 \<le> length buf" by simp
  have rdb: "mem_read buf 0 128 = Some (chunk k bs)" using bl buf by (simp add: mem_read_def)
  let ?st' = "set_card p (m\<lparr>wpage := pg, wroff := 128 * (k + 1), wcoff := 3 * int (k + 1)\<rparr>) (st\<lparr>mcdatabuf := db\<rparr>)"
  have mn: "min 128 (512 - 128 * k) = 128" using k by simp
  have "MceWrite dwr (Suc f) p buf 128 st = Some (True, ?st')"
    using k by (auto simp: MceWrite_def c ps pl mn rdb db(1) Let_def intro!: arg_cong [where f = "\<lambda>m. set_card p m (st\<lparr>mcdatabuf := db\<rparr>)"])
  moreover have "writing p pg (k + 1) bs m v ?st'"
    unfolding writing_def using m db ps v pl by (auto simp: mc_ok_def)
  ultimately show ?thesis by blast
qed

lemma writing_last:
  assumes w: "writing p pg 3 bs m v st" and bs: "length bs = 512"
    and buf: "take 128 buf = chunk 3 bs" and wr: "dwr v (mcnum m) bs pg = Some v'"
  shows "\<exists>st'. MceWrite dwr (Suc f) p buf 128 st = Some (True, st') \<and> mc_ok p st' \<and> vdev st' = v' \<and>
    card st' p = m\<lparr>wpage := pg + 1, wroff := 0, wcoff := 12\<rparr>"
proof -
  have m: "mc_ok p st" and v: "vdev st = v" and ps: "PageSize m = 512"
    and c: "card st p = m\<lparr>wpage := pg, wroff := 384, wcoff := 9\<rparr>"
    and d: "take (128 * 3) (mcdatabuf st) = take (128 * 3) bs"
    using w by (auto simp: writing_def)
  have pl: "p < length (memcards st)" using m by (simp add: mc_ok_def)
  obtain db where db: "mem_write (mcdatabuf st) 384 (chunk 3 bs) = Some db" "length db = 512"
      "take 512 db = take 512 bs"
    using chunk_written [OF d] m bs by (auto simp: mc_ok_def)
  have [simp]: "take 512 db = bs" using db(2,3) bs by simp
  have "length (take 128 buf) = 128" using buf chunk_length [OF bs, of 3] by simp
  then have bl: "128 \<le> length buf" by simp
  have rdb: "mem_read buf 0 128 = Some (chunk 3 bs)" using bl buf by (simp add: mem_read_def)
  let ?st' = "set_card p (m\<lparr>wpage := pg + 1, wroff := 0, wcoff := 12\<rparr>) (st\<lparr>mcdatabuf := db, vdev := v'\<rparr>)"
  have sv: "set_card p mm (st\<lparr>mcdatabuf := db\<rparr>)\<lparr>vdev := v'\<rparr> = set_card p mm (st\<lparr>mcdatabuf := db, vdev := v'\<rparr>)" for mm
    by (simp add: set_card_def)
  have "MceWrite dwr (Suc f) p buf 128 st = Some (True, ?st')"
    by (auto simp: MceWrite_def c ps pl rdb db(1) Let_def v wr sv
      intro!: arg_cong [where f = "\<lambda>m. set_card p m (st\<lparr>mcdatabuf := db, vdev := v'\<rparr>)"])
  moreover have "mc_ok p ?st' \<and> vdev ?st' = v' \<and> card ?st' p = m\<lparr>wpage := pg + 1, wroff := 0, wcoff := 12\<rparr>"
    using m db ps v pl by (auto simp: mc_ok_def)
  ultimately show ?thesis by blast
qed

lemma writing_ecc:
  assumes m: "mc_ok p st" and c: "card st p = m\<lparr>wpage := pg, wroff := 0, wcoff := 12\<rparr>"
  shows "\<exists>st'. MceWrite dwr (Suc f) p buf 16 st = Some (True, st') \<and> mc_ok p st' \<and> vdev st' = vdev st \<and>
    card st' p = m\<lparr>wpage := pg, wroff := 0, wcoff := 0\<rparr>"
proof -
  let ?st' = "set_card p (m\<lparr>wpage := pg, wroff := 0, wcoff := 0\<rparr>) st"
  have "MceWrite dwr (Suc f) p buf 16 st = Some (True, ?st')"
    by (simp add: MceWrite_def c Let_def)
  moreover have "mc_ok p ?st' \<and> vdev ?st' = vdev st \<and> card ?st' p = m\<lparr>wpage := pg, wroff := 0, wcoff := 0\<rparr>"
    using m c by (auto simp: mc_ok_def)
  ultimately show ?thesis by blast
qed

fun mce_writes :: "'v page_writer \<Rightarrow> nat \<Rightarrow> nat \<Rightarrow> u8 list list \<Rightarrow> 'v mcemu \<Rightarrow> 'v mcemu option" where
  "mce_writes dwr f p [] st = Some st"
| "mce_writes dwr f p (b # bs) st =
     do { (ok, st) \<leftarrow> MceWrite dwr f p b (length b) st;
          if ok then mce_writes dwr f p bs st else None }"

lemma writing_page:
  assumes m: "mc_ok p st" and bs: "length bs = 512"
    and wr: "dwr (vdev st) (mcnum (card st p)) bs pg = Some v'" and ecc: "length e = 16"
  shows "\<exists>st'. mce_writes dwr (Suc f) p [chunk 0 bs, chunk 1 bs, chunk 2 bs, chunk 3 bs, e] (MceStartWrite p pg st)
      = Some st' \<and> mc_ok p st' \<and> vdev st' = v' \<and>
    card st' p = (card st p)\<lparr>wpage := pg + 1, wroff := 0, wcoff := 0\<rparr>"
proof -
  have t: "take 128 (chunk k bs) = chunk k bs" for k by (simp add: chunk_def)
  have l: "length (chunk k bs) = 128" if "k < 4" for k using chunk_length bs that by blast
  have 0: "writing p pg 0 bs (card st p) (vdev st) (MceStartWrite p pg st)"
    using m by (auto simp: writing_def MceStartWrite_def mc_ok_def)
  obtain s1 where 1: "MceWrite dwr (Suc f) p (chunk 0 bs) 128 (MceStartWrite p pg st) = Some (True, s1)"
      "writing p pg 1 bs (card st p) (vdev st) s1"
    using writing_step [where f = f and dwr = dwr, OF 0, OF _ bs t] by auto
  obtain s2 where 2: "MceWrite dwr (Suc f) p (chunk 1 bs) 128 s1 = Some (True, s2)"
      "writing p pg 2 bs (card st p) (vdev st) s2"
    using writing_step [where f = f and dwr = dwr, OF 1(2), OF _ bs t] by (auto simp: numeral_eq_Suc)
  obtain s3 where 3: "MceWrite dwr (Suc f) p (chunk 2 bs) 128 s2 = Some (True, s3)"
      "writing p pg 3 bs (card st p) (vdev st) s3"
    using writing_step [where f = f and dwr = dwr, OF 2(2), OF _ bs t] by (auto simp: numeral_eq_Suc)
  obtain s4 where 4: "MceWrite dwr (Suc f) p (chunk 3 bs) 128 s3 = Some (True, s4)" "mc_ok p s4" "vdev s4 = v'"
      "card s4 p = (card st p)\<lparr>wpage := pg + 1, wroff := 0, wcoff := 12\<rparr>"
    using writing_last [where f = f and dwr = dwr, OF 3(2) bs t wr] by blast
  obtain s5 where 5: "MceWrite dwr (Suc f) p e 16 s4 = Some (True, s5)" "mc_ok p s5" "vdev s5 = vdev s4"
      "card s5 p = (card st p)\<lparr>wpage := pg + 1, wroff := 0, wcoff := 0\<rparr>"
    using writing_ecc [where f = f and dwr = dwr, OF 4(2,4)] by blast
  show ?thesis using 5(2-4) 4(3)
    by (intro exI [of _ s5] conjI) (simp_all add: l ecc 1(1) 2(1) 3(1) 4(1) 5(1) del: One_nat_def)
qed

section \<open>Against the page device\<close>

text \<open>\<open>pages_of rd npages cards v\<close>: the contents of the cards as a map, the abstract state.\<close>

context page_device begin

lemma write_then_read:
  assumes m: "mc_ok p st" and g: "good (vdev st)" and c: "mcnum (card st p) \<in> cards"
    and q: "pg < npages (mcnum (card st p))" and bs: "length bs = 512" and e: "length e = 16"
  obtains st1 st2 where "mce_writes wr (Suc f) p [chunk 0 bs, chunk 1 bs, chunk 2 bs, chunk 3 bs, e]
      (MceStartWrite p pg st) = Some st1"
    and "mce_reads rd (Suc f) p page_sizes (MceStartRead p pg st1) = Some (page_parts (mflags (card st p)) bs, st2)"
    and "mc_ok p st2" and "good (vdev st2)"
    and "\<And>c' q'. c' \<in> cards \<Longrightarrow> q' < npages c' \<Longrightarrow> (c', q') \<noteq> (mcnum (card st p), pg) \<Longrightarrow>
      rd (vdev st2) c' q' = rd (vdev st) c' q'"
proof -
  obtain v' where v': "wr (vdev st) (mcnum (card st p)) bs pg = Some v'" "good v'"
      "\<forall>c' q'. c' \<in> cards \<longrightarrow> q' < npages c' \<longrightarrow>
        rd v' c' q' = (if (c', q') = (mcnum (card st p), pg) then Some bs else rd (vdev st) c' q')"
    using write_page [OF g c q bs] by blast
  obtain st1 where st1: "mce_writes wr (Suc f) p [chunk 0 bs, chunk 1 bs, chunk 2 bs, chunk 3 bs, e]
      (MceStartWrite p pg st) = Some st1" "mc_ok p st1" "vdev st1 = v'"
      "card st1 p = (card st p)\<lparr>wpage := pg + 1, wroff := 0, wcoff := 0\<rparr>"
    using writing_page [where dwr = wr and f = f, OF m bs v'(1) e] by blast
  have "rd v' (mcnum (card st1 p)) pg = Some bs" using v'(3) c q st1(4) by simp
  with reading_page [OF MceStartRead_reading [OF st1(2)] _ bs] st1(3)
  obtain st2 where st2: "mce_reads rd (Suc f) p page_sizes (MceStartRead p pg st1) =
      Some (page_parts (mflags (card st1 p)) bs, st2)" "reading p (pg + 1) 0 bs (card st1 p) v' st2"
    by metis
  have fl: "mflags (card st1 p) = mflags (card st p)" using st1(4) by simp
  have "mc_ok p st2" "vdev st2 = v'" using st2(2) by (auto simp: reading_def)
  with v' show thesis by (intro that [OF st1(1) st2(1) [unfolded fl]]) auto
qed

lemma erase_pages_ok:
  assumes "good v" and "c \<in> cards" and "pg + n \<le> npages c" and "length bs = 512"
  shows "\<exists>v'. erase_pages wr c bs pg n v = (True, v') \<and> good v' \<and>
    (\<forall>c' q'. c' \<in> cards \<longrightarrow> q' < npages c' \<longrightarrow>
       rd v' c' q' = (if c' = c \<and> pg \<le> q' \<and> q' < pg + n then Some bs else rd v c' q'))"
  using assms
proof (induction n arbitrary: pg v)
  case (Suc n)
  have "pg < npages c" using Suc.prems(3) by simp
  then obtain v1 where v1: "wr v c bs pg = Some v1" "good v1"
      "\<forall>c' q'. c' \<in> cards \<longrightarrow> q' < npages c' \<longrightarrow> rd v1 c' q' = (if (c', q') = (c, pg) then Some bs else rd v c' q')"
    using write_page Suc.prems by blast
  obtain v2 where v2: "erase_pages wr c bs (pg + 1) n v1 = (True, v2)" "good v2"
      "\<forall>c' q'. c' \<in> cards \<longrightarrow> q' < npages c' \<longrightarrow>
        rd v2 c' q' = (if c' = c \<and> pg + 1 \<le> q' \<and> q' < pg + 1 + n then Some bs else rd v1 c' q')"
    using Suc.IH [of v1 "pg + 1", OF v1(2) Suc.prems(2) _ Suc.prems(4)] Suc.prems(3) by force
  have "rd v2 c' q' = (if c' = c \<and> pg \<le> q' \<and> q' < pg + Suc n then Some bs else rd v c' q')"
    if "c' \<in> cards" "q' < npages c'" for c' q'
    using v1(3) v2(3) that by (cases "q' = pg") auto
  with v1 v2 show ?case by auto
next
  case 0
  then show ?case by (intro exI [of _ v]) auto
qed

lemma erase_block:
  assumes m: "mc_ok p st" and g: "good (vdev st)" and c: "mcnum (card st p) \<in> cards"
    and q: "pg + BlockSize (card st p) \<le> npages (mcnum (card st p))"
  obtains st' where "MceEraseBlock wr p pg st = Some (True, st')" and "mc_ok p st'" and "good (vdev st')"
    and "\<And>c' q'. c' \<in> cards \<Longrightarrow> q' < npages c' \<Longrightarrow>
      rd (vdev st') c' q' = (if c' = mcnum (card st p) \<and> pg \<le> q' \<and> q' < pg + BlockSize (card st p)
        then Some (replicate 512 (erased (mflags (card st p)))) else rd (vdev st) c' q')"
proof -
  let ?bs = "replicate 512 (erased (mflags (card st p)))"
  have ps: "PageSize (card st p) = 512" and dl: "length (mcdatabuf st) = 512" using m by (auto simp: mc_ok_def)
  have w: "mem_write (mcdatabuf st) 0 ?bs = Some ?bs" using dl by (simp add: mem_write_def)
  obtain v' where v': "erase_pages wr (mcnum (card st p)) ?bs pg (BlockSize (card st p)) (vdev st) = (True, v')"
      "good v'" "\<forall>c' q'. c' \<in> cards \<longrightarrow> q' < npages c' \<longrightarrow>
       rd v' c' q' = (if c' = mcnum (card st p) \<and> pg \<le> q' \<and> q' < pg + BlockSize (card st p)
         then Some ?bs else rd (vdev st) c' q')"
    using erase_pages_ok [OF g c q, of ?bs] by auto
  show thesis
  proof (rule that)
    show "MceEraseBlock wr p pg st = Some (True, st\<lparr>mcdatabuf := ?bs, vdev := v'\<rparr>)"
      unfolding MceEraseBlock_def Let_def erased_def [symmetric] ps w
      by (simp add: v'(1))
  qed (use m v' in \<open>auto simp: mc_ok_def\<close>)
qed

end

end
