(* ===== verification/Mcemu_Props.thy ===== *)
theory Mcemu_Props
  imports Mcemu_Ecc Mcemu_Engine
begin

text \<open>
  The properties of the memory card emulation, on the hard-disk page store; the witnesses run on a
  disk of 64 sectors that holds two small cards.
\<close>

section \<open>A concrete disk\<close>

definition demo_ard :: "u8 list list \<Rightarrow> nat \<Rightarrow> u8 list option" where
  "demo_ard d s = (if s < length d then Some (d ! s) else None)"

definition demo_awr :: "u8 list list \<Rightarrow> nat \<Rightarrow> u8 list \<Rightarrow> u8 list list option" where
  "demo_awr d s bs = (if s < length d then Some (d[s := bs]) else None)"

definition demo_fit :: "u8 list list \<Rightarrow> bool" where
  "demo_fit d \<longleftrightarrow> length d = 64 \<and> (\<forall>s\<in>set d. length s = 512)"

text \<open>Card 0 has two blocks of 16 pages, card 1 one.\<close>

definition demo_ext :: "int \<Rightarrow> vmc_extents" where
  "demo_ext c = (if c = 0 then \<lparr>apa_start = [16], pfs_blocks = [(0, 0, 1), (2, 0, 1)]\<rparr>
     else \<lparr>apa_start = [0], pfs_blocks = [(0, 0, 1)]\<rparr>)"

definition demo_card :: "int \<Rightarrow> MemoryCard" where
  "demo_card c = \<lparr>mcnum = c, rpage = 0, rdoff = 0, wpage = 0, wroff = 0, rcoff = 0, wcoff = 0, tcode = 0x5A,
     PageSize = 512, BlockSize = 16, CardSize = 32, mflags = 0x10\<rparr>"

definition demo_mc :: "u8 list list mcemu" where
  "demo_mc = \<lparr>memcards = [demo_card 0, demo_card 1], mcdatabuf = replicate 512 0,
     mceccbuf = [replicate 32 0, replicate 32 0],
     vdev = replicate 16 (replicate 512 1) @ replicate 48 (replicate 512 2)\<rparr>"

lemma demo_laws: "ata_laws demo_ard demo_awr demo_fit 64"
  unfolding ata_laws_def demo_ard_def demo_awr_def demo_fit_def
  by (auto simp: nth_list_update dest!: set_update_subset_insert [THEN subsetD])

lemma demo_sectors: "vmc_sectors (demo_ext 0) = [16 ..< 32] @ [48 ..< 64]" "vmc_sectors (demo_ext 1) = [0 ..< 16]"
  by (simp_all add: vmc_sectors_def demo_ext_def run_sectors_def)

lemma demo_layout: "vmc_layout demo_ext 64"
  unfolding vmc_layout_def demo_sectors by auto

lemma demo_good: "vmc_good demo_ard demo_awr demo_fit 64 demo_ext (vdev demo_mc)"
  by (simp add: vmc_good_def demo_laws demo_layout demo_mc_def demo_fit_def)

lemma demo_pages: "vmc_pages demo_ext 0 = 32" "vmc_pages demo_ext 1 = 16"
  by (simp_all add: vmc_pages_def demo_sectors del: upt_Suc)

lemma demo_mc_card [simp]: "card demo_mc 0 = demo_card 0" "card demo_mc 1 = demo_card 1"
  "card demo_mc (Suc 0) = demo_card 1"
  by (simp_all add: card_def demo_mc_def)

lemma demo_mc_ok: "p < 2 \<Longrightarrow> mc_ok p demo_mc"
  by (auto simp: mc_ok_def demo_mc_def card_def cbuf_def demo_card_def less_2_cases_iff)

section \<open>Pages and sectors\<close>

text \<open>
  page \<open>q\<close> of a card lives in the \<open>q\<close>th sector of the file's extents, so no two pages, of one card
  or of both, share a sector.
\<close>

lemma vmc_pages_distinct:
  assumes "vmc_layout ext n" and "c \<in> {0, 1}" and "c' \<in> {0, 1}"
    and "q < vmc_pages ext c" and "q' < vmc_pages ext c'" and "(c, q) \<noteq> (c', q')"
  shows "Mcpage_to_Apasector (ext c) q = vmc_sectors (ext c) ! q \<and>
    Mcpage_to_Apasector (ext c) q \<noteq> Mcpage_to_Apasector (ext c') q'"
  using layout_inj [OF assms(1-5)] layout_sector(1) [OF assms(1,2,4)] assms(6) by blast

theorem vmc_pages_distinct_witness: "Mcpage_to_Apasector (demo_ext 0) 17 \<noteq> Mcpage_to_Apasector (demo_ext 1) 1"
  using vmc_pages_distinct [OF demo_layout, of 0 1 17 1] by (simp add: demo_pages)

section \<open>Protocol\<close>

text \<open>
  C23: a page written in four chunks of 128 bytes (and 16 bytes of ECC, which are not stored) is read
  back in four chunks of 128 bytes with the page's bytes, followed by the ECC of each chunk and four
  fill bytes, and no other page of either card changes. The writes and reads all succeed.
\<close>

theorem page_write_read:
  assumes m: "mc_ok p st" and g: "vmc_good ard awr fit n ext (vdev st)"
    and c: "mcnum (card st p) \<in> {0, 1}" and q: "pg < vmc_pages ext (mcnum (card st p))"
    and bs: "length bs = 512" and e: "length e = 16"
  shows "\<exists>st1 st2. mce_writes (DeviceWritePage_hdd awr ext) (Suc f) p
        [chunk 0 bs, chunk 1 bs, chunk 2 bs, chunk 3 bs, e] (MceStartWrite p pg st) = Some st1 \<and>
      mce_reads (DeviceReadPage_hdd ard ext) (Suc f) p [128, 128, 128, 128, 16] (MceStartRead p pg st1) =
        Some ([chunk 0 bs, chunk 1 bs, chunk 2 bs, chunk 3 bs, page_ecc (mflags (card st p)) bs], st2) \<and>
      (\<forall>c' q'. c' \<in> {0, 1} \<longrightarrow> q' < vmc_pages ext c' \<longrightarrow> (c', q') \<noteq> (mcnum (card st p), pg) \<longrightarrow>
         DeviceReadPage_hdd ard ext (vdev st2) c' q' = DeviceReadPage_hdd ard ext (vdev st) c' q')"
  by (rule hdd_pages.write_then_read [where ard = ard and f = f, OF m g c q bs e])
    (unfold page_sizes_def page_parts_def, blast)

theorem page_write_read_witness:
  "\<exists>st1 st2. mce_writes (DeviceWritePage_hdd demo_awr demo_ext) 1 0
        [replicate 128 7, replicate 128 7, replicate 128 7, replicate 128 7, replicate 16 0] (MceStartWrite 0 20 demo_mc) = Some st1 \<and>
      mce_reads (DeviceReadPage_hdd demo_ard demo_ext) 1 0 [128, 128, 128, 128, 16] (MceStartRead 0 20 st1) =
        Some ([replicate 128 7, replicate 128 7, replicate 128 7, replicate 128 7,
          page_ecc 0x10 (replicate 512 7)], st2)"
proof -
  have "chunk k (replicate 512 7) = replicate 128 7" if "k < 4" for k
    using that by (simp add: chunk_def min_def)
  then have k: "chunk 0 (replicate 512 7) = replicate 128 7" "chunk 1 (replicate 512 7) = replicate 128 7"
    "chunk 2 (replicate 512 7) = replicate 128 7" "chunk 3 (replicate 512 7) = replicate 128 7" by simp_all
  have "mc_ok 0 demo_mc" by (rule demo_mc_ok) simp
  from page_write_read [OF this demo_good, of 20 "replicate 512 7" "replicate 16 0" 0]
  show ?thesis unfolding k by (simp add: demo_pages demo_card_def) blast
qed

text \<open>
  reading \<open>n\<close> consecutive pages after one start command delivers each page with its ECC: after the
  ECC the engine stands at the start of the next page. One pass of fuel per command is enough.
\<close>

lemma consecutive_pages_read:
  assumes m: "mc_ok p st" and g: "vmc_good ard awr fit ns ext (vdev st)"
    and c: "mcnum (card st p) \<in> {0, 1}" and q: "pg + n \<le> vmc_pages ext (mcnum (card st p))"
  shows "\<exists>st' bs. (\<forall>i<n. DeviceReadPage_hdd ard ext (vdev st) (mcnum (card st p)) (pg + i) = Some (bs i)) \<and>
    mce_reads (DeviceReadPage_hdd ard ext) (Suc f) p (concat (replicate n page_sizes)) (MceStartRead p pg st) =
      Some (concat (map (\<lambda>i. page_parts (mflags (card st p)) (bs i)) [0 ..< n]), st') \<and>
    vdev st' = vdev st"
proof -
  define bs where "bs i = the (DeviceReadPage_hdd ard ext (vdev st) (mcnum (card st p)) (pg + i))" for i
  have bs: "DeviceReadPage_hdd ard ext (vdev st) (mcnum (card st p)) (pg + i) = Some (bs i) \<and> length (bs i) = 512"
    if "i < n" for i
    using hdd_read_page [OF g c, of "pg + i"] that q by (auto simp: bs_def)
  from reading_pages [where f = f and bs = bs and bs' = "[]" and drd = "DeviceReadPage_hdd ard ext", OF MceStartRead_reading [OF m, of pg] bs]
  obtain st' where "mce_reads (DeviceReadPage_hdd ard ext) (Suc f) p (concat (replicate n page_sizes)) (MceStartRead p pg st) =
      Some (concat (map (\<lambda>i. page_parts (mflags (card st p)) (bs i)) [0 ..< n]), st')"
    and "reading p (pg + n) 0 [] (card st p) (vdev st) st'" by blast
  with bs show ?thesis by (auto simp: reading_def)
qed

theorem consecutive_pages_read_witness:
  "\<exists>st' bs. bs 0 = replicate 512 2 \<and>
    mce_reads (DeviceReadPage_hdd demo_ard demo_ext) 1 0 (concat (replicate 3 page_sizes)) (MceStartRead 0 29 demo_mc) =
      Some (concat (map (\<lambda>i. page_parts 0x10 (bs i)) [0 ..< 3]), st')"
proof -
  have m: "mc_ok 0 demo_mc" by (rule demo_mc_ok) simp
  have s: "Mcpage_to_Apasector (demo_ext 0) 29 = 61" by (simp add: Mcpage_to_Apasector_def demo_ext_def Let_def)
  have "DeviceReadPage_hdd demo_ard demo_ext (vdev demo_mc) 0 29 = Some (replicate 512 2)"
    by (simp add: DeviceReadPage_hdd_def s demo_ard_def demo_mc_def nth_append)
  moreover have "mcnum (card demo_mc 0) = 0" "mflags (card demo_mc 0) = 0x10" by (simp_all add: demo_card_def)
  moreover obtain st' bs where "\<forall>i<3. DeviceReadPage_hdd demo_ard demo_ext (vdev demo_mc) 0 (29 + i) = Some (bs i)"
    "mce_reads (DeviceReadPage_hdd demo_ard demo_ext) 1 0 (concat (replicate 3 page_sizes)) (MceStartRead 0 29 demo_mc) =
      Some (concat (map (\<lambda>i. page_parts 0x10 (bs i)) [0 ..< 3]), st')"
    using consecutive_pages_read [OF m demo_good, of 29 3 0] calculation(2,3) by (auto simp: demo_pages)
  moreover from this(1) have "DeviceReadPage_hdd demo_ard demo_ext (vdev demo_mc) 0 (29 + 0) = Some (bs 0)"
    by (meson zero_less_numeral)
  ultimately show ?thesis by (intro exI [of _ st'] exI [of _ bs]) simp
qed

text \<open>
  erasing a block makes each of its pages read as all ones (or zeros, by the card's flag), and
  leaves every other page of both cards as it was.
\<close>

lemma block_erased:
  assumes m: "mc_ok p st" and g: "vmc_good ard awr fit n ext (vdev st)"
    and c: "mcnum (card st p) \<in> {0, 1}" and q: "pg + BlockSize (card st p) \<le> vmc_pages ext (mcnum (card st p))"
  shows "\<exists>st'. MceEraseBlock (DeviceWritePage_hdd awr ext) p pg st = Some (True, st') \<and>
    (\<forall>c' q'. c' \<in> {0, 1} \<longrightarrow> q' < vmc_pages ext c' \<longrightarrow>
       DeviceReadPage_hdd ard ext (vdev st') c' q' =
         (if c' = mcnum (card st p) \<and> pg \<le> q' \<and> q' < pg + BlockSize (card st p)
          then Some (replicate 512 (if mflags (card st p) AND 0x10 \<noteq> 0 then 0 else 0xFF))
          else DeviceReadPage_hdd ard ext (vdev st) c' q'))"
  by (rule hdd_pages.erase_block [where ard = ard, OF m g c q]) (unfold erased_def, blast)

theorem block_erased_witness:
  "\<exists>st'. MceEraseBlock (DeviceWritePage_hdd demo_awr demo_ext) 0 16 demo_mc = Some (True, st') \<and>
     DeviceReadPage_hdd demo_ard demo_ext (vdev st') 0 31 = Some (replicate 512 0)"
proof -
  have m: "mc_ok 0 demo_mc" by (rule demo_mc_ok) simp
  have "mcnum (card demo_mc 0) = 0" "mflags (card demo_mc 0) AND 0x10 \<noteq> 0" "BlockSize (card demo_mc 0) = 16"
    by (simp_all add: demo_card_def)
  then show ?thesis using block_erased [OF m demo_good, of 16] by (auto simp: demo_pages)
qed

section \<open>ECC\<close>

text \<open>
  C24: the ECC of a chunk locates a wrong bit: after flipping bit \<open>k\<close> of byte \<open>j\<close> the third byte of the
  difference of the two ECCs is \<open>j\<close>, the second its complement, and the first holds \<open>k\<close> and its
  complement.
\<close>

theorem ecc_locates_bit:
  assumes "k < 8" and "j < length xs" and "length xs \<le> 128"
  shows "map2 (XOR) (CalculateECC (xs[j := flip_bit k (xs ! j)])) (CalculateECC xs) =
    [of_nat (16 * k + (7 - k)), of_nat (127 - j), of_nat j]"
  using syndrome_flip [OF assms] by (simp only: syndrome_def flip_at_def locator_def)

theorem ecc_locates_bit_witness:
  "map2 (XOR) (CalculateECC [0xFF, 0x80, 0x12]) (CalculateECC [0xFF, 0x81, 0x12]) = [0x07, 126, 1]"
  using ecc_locates_bit [of 0 1 "[0xFF, 0x81, 0x12]"] by (simp add: flip_bit_eq_xor)

text \<open>
  C34: two wrong bits in a chunk always change the ECC, and never in the way that one wrong bit does:
  they are detected and not miscorrected.
\<close>

theorem ecc_detects_two_bits:
  assumes "k < 8" "m < 8" "j < length xs" "l < length xs" "length xs \<le> 128" "(j, k) \<noteq> (l, m)"
    and "n < 8" "i < length xs"
  shows "CalculateECC (flip_at j k (flip_at l m xs)) \<noteq> CalculateECC xs \<and>
    CalculateECC (flip_at j k (flip_at l m xs)) \<noteq> CalculateECC (flip_at i n xs)"
proof -
  have two: "syndrome (flip_at j k (flip_at l m xs)) xs = map2 (XOR) (locator l m) (locator j k)"
    by (rule syndrome_flip_twice [OF assms(1-5)])
  have one: "syndrome (flip_at i n xs) xs = locator i n"
    by (rule syndrome_flip [OF assms(7,8,5)])
  have none: "syndrome xs xs = [0, 0, 0]"
    by (rule CalculateECC_cases [of xs]) (simp add: syndrome_def)
  have "j < 128" "l < 128" using assms by auto
  with locators_distinct [OF assms(1,2) _ _ assms(6)] two none
  have "syndrome (flip_at j k (flip_at l m xs)) xs \<noteq> syndrome xs xs" by auto
  moreover have "syndrome (flip_at j k (flip_at l m xs)) xs \<noteq> syndrome (flip_at i n xs) xs"
    unfolding two one by (rule locators_distance [OF assms(1,2,7)])
  ultimately show ?thesis unfolding syndrome_def by metis
qed

theorem ecc_detects_two_bits_witness:
  "CalculateECC (flip_at 1 7 (flip_at 0 3 [1, 2, 3])) \<noteq> CalculateECC [1, 2, 3] \<and>
   CalculateECC (flip_at 1 7 (flip_at 0 3 [1, 2, 3])) \<noteq> CalculateECC (flip_at 2 5 [1, 2, 3])"
  by (rule ecc_detects_two_bits) simp_all

section \<open>Commands\<close>

lemma mem_write_exact:
  "length mid = length xs \<Longrightarrow> mem_write (pre @ mid @ post) (length pre) xs = Some (pre @ xs @ post)"
  by (simp add: mem_write_def)

text \<open>
  the answer to a read command (0x43) of \<open>n\<close> bytes: \<open>FF FF FF 2B\<close>, the data, its EDC and the
  termination code, inside the command's part of the read buffer.
\<close>

lemma read_response:
  assumes w: "w ! 1 = 0x43" "w ! 2 = n" "3 \<le> length w"
    and r: "MceRead drd f p (unat n) st = Some (True, data, st')" "length data = unat n"
    and tc: "tcode (card st p) = tc"
    and buf: "rbuf = pre @ mid @ post" "length pre = off" "length mid = unat n + 6"
  shows "mc2_command drd dwr f p w off len True rbuf st =
    Some (True, st', pre @ [0xFF, 0xFF, 0xFF, 0x2B] @ data @ [ucast (CalculateEDC data), tc] @ post)"
proof -
  have wr: "mem_read w 2 1 = Some [n]"
    using w by (simp add: mem_read_def take_Suc_conv_app_nth hd_drop_conv_nth)
  define m1 m2 where "m1 = take 5 mid" and "m2 = drop 5 mid"
  have m: "mid = m1 @ m2" "length m1 = 5" "length m2 = unat n + 1"
    using buf by (auto simp: m1_def m2_def)
  obtain a b c d e where m1: "m1 = [a, b, c, d, e]"
    using m(2) by (auto simp: numeral_eq_Suc length_Suc_conv)
  define h where "h = pre @ [0xFF, 0xFF, 0xFF, 0x2B :: u8]"
  have 1: "SioResponse tc off 5 rbuf = Some (pre @ ([0xFF, 0xFF, 0xFF, 0x2B, tc] @ m2) @ post)"
    using mem_write_exact [of m1 "[0xFF, 0xFF, 0xFF, 0x2B, tc]" pre "m2 @ post"]
    by (simp add: SioResponse_def buf m m1 numeral_eq_Suc)
  define t1 t2 where "t1 = take (unat n) (tc # m2)" and "t2 = drop (unat n) (tc # m2)"
  have t: "tc # m2 = t1 @ t2" "length t1 = unat n" "length t2 = 2"
    using m by (auto simp: t1_def t2_def)
  have o: "off + 4 = length h" "off + unat n + 4 = length (h @ data)" using buf r by (auto simp: h_def)
  have b1: "pre @ ([0xFF, 0xFF, 0xFF, 0x2B, tc] @ m2) @ post = h @ t1 @ t2 @ post"
    using t(1) by (simp add: h_def)
  have 2: "mem_write (h @ t1 @ t2 @ post) (off + 4) data = Some (h @ data @ t2 @ post)"
    unfolding o(1) by (rule mem_write_exact) (simp add: t r)
  have 3: "mem_read (h @ data @ t2 @ post) (off + 4) (unat n) = Some data"
    unfolding o(1) by (simp add: mem_read_def r)
  have 4: "mem_write (h @ data @ t2 @ post) (off + unat n + 4) [ucast (CalculateEDC data), tc] =
      Some (h @ data @ [ucast (CalculateEDC data), tc] @ post)"
    using mem_write_exact [of t2 "[ucast (CalculateEDC data), tc]" "h @ data" post] t(3)
    unfolding o(2) by simp
  have g: "pre @ [0xFF, 0xFF, 0xFF, 0x2B] @ data @ [ucast (CalculateEDC data), tc] @ post =
      h @ data @ [ucast (CalculateEDC data), tc] @ post" by (simp add: h_def)
  have r1: "SioResponse tc off 5 rbuf = Some (h @ t1 @ t2 @ post)" using 1 b1 by simp
  show ?thesis
    unfolding mc2_command_def Let_def w(1) tc g
    by (simp add: wr r1 r(1) 2 3 4 del: One_nat_def)
qed

theorem read_response_witness:
  "\<exists>st'. mc2_command (DeviceReadPage_hdd demo_ard demo_ext) (DeviceWritePage_hdd demo_awr demo_ext) 1 0
      [0x81, 0x43, 128] 2 0 True (replicate 140 1) (MceStartRead 0 3 demo_mc) =
    Some (True, st', replicate 2 1 @ [0xFF, 0xFF, 0xFF, 0x2B] @ replicate 128 2 @
      [ucast (CalculateEDC (replicate 128 2)), 0x5A] @ replicate 4 1)"
proof -
  let ?bs = "replicate 512 (2 :: u8)"
  have m: "mc_ok 0 demo_mc" by (rule demo_mc_ok) simp
  have pg: "DeviceReadPage_hdd demo_ard demo_ext (vdev demo_mc) (mcnum (card demo_mc 0)) 3 = Some ?bs"
  proof -
    have "Mcpage_to_Apasector (demo_ext 0) 3 = 19" by (simp add: Mcpage_to_Apasector_def demo_ext_def Let_def)
    moreover have "mcnum (card demo_mc 0) = 0" by (simp add: demo_card_def)
    ultimately show ?thesis by (simp add: DeviceReadPage_hdd_def demo_ard_def) (simp add: demo_mc_def nth_append)
  qed
  obtain st' where r: "MceRead (DeviceReadPage_hdd demo_ard demo_ext) (Suc 0) 0 128 (MceStartRead 0 3 demo_mc) =
      Some (True, chunk 0 ?bs, st')"
    using reading_step [where f = 0 and drd = "DeviceReadPage_hdd demo_ard demo_ext",
      OF MceStartRead_reading [OF m, of 3 ?bs], OF _ pg] by auto
  have ch: "chunk 0 ?bs = replicate 128 2" by (simp add: chunk_def)
  have r': "MceRead (DeviceReadPage_hdd demo_ard demo_ext) (Suc 0) 0 (unat (128 :: u8)) (MceStartRead 0 3 demo_mc) =
      Some (True, replicate 128 2, st')" using r by (simp add: ch)
  have t: "tcode (card (MceStartRead 0 3 demo_mc) 0) = 0x5A"
    using m by (simp add: MceStartRead_def mc_ok_def demo_card_def)
  have b: "replicate 140 (1 :: u8) = replicate 2 1 @ replicate 134 1 @ replicate 4 1"
    by (simp flip: replicate_add)
  have "mc2_command (DeviceReadPage_hdd demo_ard demo_ext) (DeviceWritePage_hdd demo_awr demo_ext) (Suc 0) 0
      [0x81, 0x43, 128] 2 0 True (replicate 140 1) (MceStartRead 0 3 demo_mc) =
    Some (True, st', replicate 2 1 @ [0xFF, 0xFF, 0xFF, 0x2B] @ replicate 128 2 @
      [ucast (CalculateEDC (replicate 128 2)), 0x5A] @ replicate 4 1)"
    by (rule read_response [OF _ _ _ r' _ t b]) simp_all
  then show ?thesis by (simp only: One_nat_def) blast
qed

section \<open>Two cards at once\<close>

lemma card_other [simp]: "p \<noteq> q \<Longrightarrow> card (set_card p m st) q = card st q"
  by (simp add: card_def set_card_def)

lemma cbuf_other [simp]: "p \<noteq> q \<Longrightarrow> cbuf (set_cbuf p b st) q = cbuf st q"
  by (simp add: cbuf_def set_cbuf_def)

lemma mc_ok_frame:
  "mc_ok q st \<Longrightarrow> length bs = 512 \<Longrightarrow> p \<noteq> q \<Longrightarrow>
    mc_ok q (set_card p m (set_cbuf p b (st\<lparr>mcdatabuf := bs\<rparr>)))"
  by (simp add: mc_ok_def)

lemma mc_ok_set:
  "mc_ok p st \<Longrightarrow> length bs = 512 \<Longrightarrow> length b = 32 \<Longrightarrow> PageSize m = 512 \<Longrightarrow>
    mc_ok p (set_card p m (set_cbuf p b (st\<lparr>mcdatabuf := bs\<rparr>)))"
  by (simp add: mc_ok_def)

lemma MceRead_first:
  assumes m: "mc_ok p st" and z: "rdoff (card st p) = 0" "rcoff (card st p) = 0"
    and rd: "drd (vdev st) (mcnum (card st p)) (rpage (card st p)) = Some bs" and len: "length bs = 512"
  shows "\<exists>b. length b = 32 \<and> MceRead drd (Suc f) p 128 st = Some (True, chunk 0 bs,
    set_card p ((card st p)\<lparr>rdoff := 128, rcoff := 3\<rparr>) (set_cbuf p b (st\<lparr>mcdatabuf := bs\<rparr>)))"
proof -
  let ?b = "page_ecc (mflags (card st p)) bs @ drop 16 (cbuf st p)"
  have "MceRead drd (Suc f) p 128 st = Some (True, chunk 0 bs,
      set_card p ((card st p)\<lparr>rpage := (if (0::nat) = 3 then rpage (card st p) + 1 else rpage (card st p)),
         rdoff := (if (0::nat) = 3 then 0 else 128 * (0 + 1)), rcoff := 3 * (int 0 + 1)\<rparr>)
        (set_cbuf p ?b (st\<lparr>mcdatabuf := bs\<rparr>)))"
    by (rule MceRead_chunk [OF m]) (use do_read_ok [where drd = drd, OF m rd len] z len in simp_all)
  moreover have "length ?b = 32" using m by (simp add: mc_ok_def)
  ultimately show ?thesis by (intro exI [of _ ?b]) simp
qed

text \<open>
  both ports use one page buffer: when the reads of a page on one port are interleaved with a read
  on the other port, the rest of the first page is answered with the bytes of the other card's page.
\<close>

lemma interleaved_reads_mix:
  assumes m: "mc_ok p st" "mc_ok q st" "p \<noteq> q"
    and rd: "drd (vdev st) (mcnum (card st p)) x = Some bs" "length bs = 512"
      "drd (vdev st) (mcnum (card st q)) y = Some cs" "length cs = 512"
  shows "do { (_, a, st1) \<leftarrow> MceRead drd (Suc f) p 128 (MceStartRead q y (MceStartRead p x st));
              (_, b, st2) \<leftarrow> MceRead drd (Suc f) q 128 st1;
              (_, c, _) \<leftarrow> MceRead drd (Suc f) p 128 st2; Some [a, b, c] } =
    Some [chunk 0 bs, chunk 0 cs, chunk 1 cs]"
proof -
  let ?st = "MceStartRead q y (MceStartRead p x st)"
  have ok: "mc_ok p ?st" "mc_ok q ?st" and v: "vdev ?st = vdev st"
    and c: "card ?st p = (card st p)\<lparr>rpage := x, rdoff := 0, rcoff := 0\<rparr>"
      "card ?st q = (card st q)\<lparr>rpage := y, rdoff := 0, rcoff := 0\<rparr>"
    using m by (auto simp: mc_ok_def MceStartRead_def)
  have ps: "PageSize (card ?st p) = 512" using ok(1) by (simp add: mc_ok_def)
  obtain b1 where b1: "length b1 = 32" and 1: "MceRead drd (Suc f) p 128 ?st = Some (True, chunk 0 bs,
      set_card p ((card ?st p)\<lparr>rdoff := 128, rcoff := 3\<rparr>) (set_cbuf p b1 (?st\<lparr>mcdatabuf := bs\<rparr>)))"
    using MceRead_first [where drd = drd and f = f, OF ok(1) _ _ _ rd(2)] rd v c by auto
  define s1 where "s1 = set_card p ((card ?st p)\<lparr>rdoff := 128, rcoff := 3\<rparr>) (set_cbuf p b1 (?st\<lparr>mcdatabuf := bs\<rparr>))"
  have ok1: "mc_ok q s1" unfolding s1_def by (rule mc_ok_frame [OF ok(2) rd(2) m(3)])
  have c1: "card s1 q = card ?st q" "vdev s1 = vdev st" "card s1 p = (card ?st p)\<lparr>rdoff := 128, rcoff := 3\<rparr>"
    using m(3) ok(1) v by (auto simp: s1_def mc_ok_def)
  obtain b2 where 2: "MceRead drd (Suc f) q 128 s1 = Some (True, chunk 0 cs,
      set_card q ((card s1 q)\<lparr>rdoff := 128, rcoff := 3\<rparr>) (set_cbuf q b2 (s1\<lparr>mcdatabuf := cs\<rparr>)))"
    using MceRead_first [where drd = drd and f = f, OF ok1 _ _ _ rd(4)] rd c1 c by auto
  define s2 where "s2 = set_card q ((card s1 q)\<lparr>rdoff := 128, rcoff := 3\<rparr>) (set_cbuf q b2 (s1\<lparr>mcdatabuf := cs\<rparr>))"
  have c2: "card s2 p = (card ?st p)\<lparr>rdoff := 128, rcoff := 3\<rparr>" "mcdatabuf s2 = cs"
    using m(3) c1 by (auto simp: s2_def)
  have "mc_ok p s1" unfolding s1_def by (rule mc_ok_set [OF ok(1) rd(2) b1]) (simp add: ps)
  then have ok2: "mc_ok p s2" unfolding s2_def by (rule mc_ok_frame) (use rd m(3) in auto)
  have "MceRead drd (Suc f) p 128 s2 = Some (True, chunk 1 cs,
      set_card p ((card s2 p)\<lparr>rpage := (if (1::nat) = 3 then rpage (card s2 p) + 1 else rpage (card s2 p)),
         rdoff := (if (1::nat) = 3 then 0 else 128 * (1 + 1)), rcoff := 3 * (int 1 + 1)\<rparr>) s2)"
    by (rule MceRead_chunk [OF ok2]) (simp_all add: c2 rd)
  with 1 2 show ?thesis by (simp add: s1_def [symmetric] s2_def [symmetric])
qed

theorem interleaved_reads_mix_witness:
  "do { (_, a, st1) \<leftarrow> MceRead (DeviceReadPage_hdd demo_ard demo_ext) 1 0 128 (MceStartRead 1 4 (MceStartRead 0 3 demo_mc));
        (_, b, st2) \<leftarrow> MceRead (DeviceReadPage_hdd demo_ard demo_ext) 1 1 128 st1;
        (_, c, _) \<leftarrow> MceRead (DeviceReadPage_hdd demo_ard demo_ext) 1 0 128 st2; Some [a, b, c] } =
    Some [chunk 0 (replicate 512 2), chunk 0 (replicate 512 1), chunk 1 (replicate 512 1)]"
proof -
  have s: "Mcpage_to_Apasector (demo_ext 0) 3 = 19" "Mcpage_to_Apasector (demo_ext 1) 4 = 4"
    by (simp_all add: Mcpage_to_Apasector_def demo_ext_def Let_def)
  have c: "mcnum (card demo_mc 0) = 0" "mcnum (card demo_mc 1) = 1" by (simp_all add: demo_card_def)
  have p0: "DeviceReadPage_hdd demo_ard demo_ext (vdev demo_mc) (mcnum (card demo_mc 0)) 3 = Some (replicate 512 2)"
    unfolding DeviceReadPage_hdd_def c s by (simp add: demo_ard_def demo_mc_def nth_append)
  have p1: "DeviceReadPage_hdd demo_ard demo_ext (vdev demo_mc) (mcnum (card demo_mc 1)) 4 = Some (replicate 512 1)"
    unfolding DeviceReadPage_hdd_def c s by (simp add: demo_ard_def demo_mc_def nth_append)
  have "mc_ok 0 demo_mc" "mc_ok 1 demo_mc" by (simp_all add: demo_mc_ok)
  from interleaved_reads_mix [where drd = "DeviceReadPage_hdd demo_ard demo_ext" and f = 0,
    OF this zero_neq_one p0 _ p1] show ?thesis by simp
qed

end
