(* ===== verification/Ioman.thy ===== *)
theory Ioman
  imports Wopl_Prelude "HOL-Library.Sublist"
begin

text \<open>
  The I/O manager of the user interface (\<^verbatim>\<open>src/ioman.c\<close>): handlers by request type, a linked list of
  requests with a pointer to its last node, and the worker thread that serves it. Nodes live in a heap
  of addresses; the address that \<^verbatim>\<open>malloc\<close> returns is an argument. The semaphores are flags, true when
  they can be taken; \<open>None\<close> is a caller that blocks on one, or a dereferenced pointer to no node.
\<close>

section \<open>State\<close>

record 'd io_node =
  ntype :: int
  ndata :: 'd
  nnext :: "nat option"

type_synonym 'd io_heap = "nat \<Rightarrow> 'd io_node option"

record ('h, 'd) ioman =
  io_heap :: "'d io_heap"
  gReqList :: "nat option"
  gReqEnd :: "nat option"
  gRequestHandlers :: "(int \<times> 'h) list"
  procSema :: bool
  endSema :: bool
  gIOTerminate :: bool
  isIOBlocked :: bool

definition MAX_IO_HANDLERS :: nat where "MAX_IO_HANDLERS = 64"
definition IO_OK :: int where "IO_OK = 0"
definition IO_ERR_TOO_MANY_HANDLERS :: int where "IO_ERR_TOO_MANY_HANDLERS = -2"
definition IO_ERR_DUPLICIT_HANDLER :: int where "IO_ERR_DUPLICIT_HANDLER = -3"
definition IO_ERR_INVALID_HANDLER :: int where "IO_ERR_INVALID_HANDLER = -4"
definition IO_ERR_IO_BLOCKED :: int where "IO_ERR_IO_BLOCKED = -5"
definition IO_CUSTOM_SIMPLEACTION :: int where "IO_CUSTOM_SIMPLEACTION = 1"

section \<open>Handlers\<close>

fun find_handler :: "(int \<times> 'h) list \<Rightarrow> int \<Rightarrow> 'h option" where
  "find_handler [] ty = None"
| "find_handler ((t, h) # hs) ty = (if t = ty then Some h else find_handler hs ty)"

definition ioGetHandler :: "('h, 'd) ioman \<Rightarrow> int \<Rightarrow> 'h option" where
  "ioGetHandler st ty = find_handler (gRequestHandlers st) ty"

text \<open>The error returns come before \<^verbatim>\<open>SignalSema\<close>: the semaphore stays taken.\<close>

definition ioRegisterHandler :: "int \<Rightarrow> 'h option \<Rightarrow> ('h, 'd) ioman \<Rightarrow> (int \<times> ('h, 'd) ioman) option" where
  "ioRegisterHandler ty hdl st =
     (if \<not> procSema st then None
      else
        (let st = st\<lparr>procSema := False\<rparr> in
         case hdl of
           None \<Rightarrow> Some (IO_ERR_INVALID_HANDLER, st)
         | Some h \<Rightarrow>
             if length (gRequestHandlers st) \<ge> MAX_IO_HANDLERS then Some (IO_ERR_TOO_MANY_HANDLERS, st)
             else if \<exists>x\<in>set (gRequestHandlers st). fst x = ty then Some (IO_ERR_DUPLICIT_HANDLER, st)
             else Some (IO_OK, st\<lparr>gRequestHandlers := gRequestHandlers st @ [(ty, h)], procSema := True\<rparr>)))"

text \<open>\<^verbatim>\<open>ioInit\<close>, up to the start of the worker thread; \<open>simple\<close> is \<^verbatim>\<open>ioSimpleActionHandler\<close>.\<close>

definition ioInit :: "'h \<Rightarrow> ('h, 'd) ioman \<Rightarrow> (int \<times> ('h, 'd) ioman) option" where
  "ioInit simple st =
     ioRegisterHandler IO_CUSTOM_SIMPLEACTION (Some simple)
       (st\<lparr>gIOTerminate := False, gRequestHandlers := [], gReqList := None, gReqEnd := None,
           procSema := True, endSema := True\<rparr>)"

section \<open>The queue\<close>

text \<open>
  \<^verbatim>\<open>ioPutRequest\<close> in two parts, between which other threads may run: the checks, and the work under
  the end semaphore, with \<open>a\<close> the address of the new node.
\<close>

definition put_check :: "int \<Rightarrow> ('h, 'd) ioman \<Rightarrow> int" where
  "put_check ty st =
     (if isIOBlocked st then IO_ERR_IO_BLOCKED
      else if ioGetHandler st ty = None then IO_ERR_INVALID_HANDLER else IO_OK)"

definition put_enqueue :: "int \<Rightarrow> 'd \<Rightarrow> nat \<Rightarrow> ('h, 'd) ioman \<Rightarrow> ('h, 'd) ioman option" where
  "put_enqueue ty d a st =
     (if \<not> endSema st then None
      else
        do { st \<leftarrow>
               (case gReqEnd st of
                  None \<Rightarrow> Some (st\<lparr>gReqList := Some a, gReqEnd := Some a\<rparr>)
                | Some e \<Rightarrow>
                    do { n \<leftarrow> io_heap st e;
                         Some (st\<lparr>io_heap := (io_heap st)(e \<mapsto> n\<lparr>nnext := Some a\<rparr>), gReqEnd := Some a\<rparr>) });
             Some (st\<lparr>io_heap := (io_heap st)(a \<mapsto> \<lparr>ntype = ty, ndata = d, nnext = None\<rparr>)\<rparr>) })"

definition ioPutRequest :: "int \<Rightarrow> 'd \<Rightarrow> nat \<Rightarrow> ('h, 'd) ioman \<Rightarrow> (int \<times> ('h, 'd) ioman) option" where
  "ioPutRequest ty d a st =
     (if put_check ty st \<noteq> IO_OK then Some (put_check ty st, st)
      else do { st \<leftarrow> put_enqueue ty d a st; Some (IO_OK, st) })"

text \<open>The loop of \<^verbatim>\<open>ioRemoveRequests\<close>; it ends on a list without a cycle.\<close>

partial_function (option) remove_loop ::
  "int \<Rightarrow> nat option \<Rightarrow> nat option \<Rightarrow> nat \<Rightarrow> ('h, 'd) ioman \<Rightarrow> (nat \<times> ('h, 'd) ioman) option" where
  "remove_loop ty req lst count st =
     (case req of
        None \<Rightarrow> Some (count, st)
      | Some a \<Rightarrow>
          (case io_heap st a of
             None \<Rightarrow> None
           | Some n \<Rightarrow>
               if ntype n = ty then
                 remove_loop ty (nnext n) lst (count + 1)
                   (let st = (case lst of None \<Rightarrow> st
                              | Some l \<Rightarrow> st\<lparr>io_heap := (io_heap st)(l := map_option (nnext_update (\<lambda>_. nnext n)) (io_heap st l))\<rparr>);
                        st = (if gReqList st = Some a then st\<lparr>gReqList := nnext n\<rparr> else st);
                        st = (if gReqEnd st = Some a then st\<lparr>gReqEnd := lst\<rparr> else st)
                    in st\<lparr>io_heap := (io_heap st)(a := None)\<rparr>)
               else remove_loop ty (nnext n) (Some a) count st))"

definition ioRemoveRequests :: "int \<Rightarrow> ('h, 'd) ioman \<Rightarrow> (nat \<times> ('h, 'd) ioman) option" where
  "ioRemoveRequests ty st =
     (if \<not> procSema st \<or> \<not> endSema st then None else remove_loop ty (gReqList st) None 0 st)"

partial_function (option) count_loop :: "'d io_heap \<Rightarrow> nat option \<Rightarrow> nat \<Rightarrow> nat option" where
  "count_loop h req count =
     (case req of None \<Rightarrow> Some count
      | Some a \<Rightarrow> (case h a of None \<Rightarrow> None | Some n \<Rightarrow> count_loop h (nnext n) (count + 1)))"

definition ioGetPendingRequestCount :: "('h, 'd) ioman \<Rightarrow> nat option" where
  "ioGetPendingRequestCount st = (if \<not> procSema st then None else count_loop (io_heap st) (gReqList st) 0)"

definition ioHasPendingRequests :: "('h, 'd) ioman \<Rightarrow> bool" where
  "ioHasPendingRequests st \<longleftrightarrow> gReqList st \<noteq> None"

section \<open>The worker thread\<close>

text \<open>
  Where \<^verbatim>\<open>ioWorkerThread\<close> is: asleep, at the head of its inner loop (with the processing semaphore),
  inside the handler of a request, or over.
\<close>

datatype worker = Asleep | Looping | Serving nat | Finished

text \<open>Awake: leave the outer loop, or take the semaphore (\<open>None\<close>: wait).\<close>

definition worker_wake :: "('h, 'd) ioman \<Rightarrow> (worker \<times> ('h, 'd) ioman) option" where
  "worker_wake st =
     (if gIOTerminate st then Some (Finished, st)
      else if procSema st then Some (Looping, st\<lparr>procSema := False\<rparr>) else None)"

text \<open>The head of the inner loop: serve the first request, or give the semaphore back.\<close>

definition worker_loop :: "('h, 'd) ioman \<Rightarrow> worker \<times> ('h, 'd) ioman" where
  "worker_loop st =
     (case gReqList st of
        Some a \<Rightarrow> if gIOTerminate st then (Asleep, st\<lparr>procSema := True\<rparr>) else (Serving a, st)
      | None \<Rightarrow> (Asleep, st\<lparr>procSema := True\<rparr>))"

text \<open>What \<^verbatim>\<open>ioProcessRequest\<close> calls: the handler and its argument, if there is a handler.\<close>

definition ioProcessRequest :: "nat \<Rightarrow> ('h, 'd) ioman \<Rightarrow> ('h \<times> 'd) option" where
  "ioProcessRequest a st =
     (case io_heap st a of None \<Rightarrow> None
      | Some n \<Rightarrow> (case ioGetHandler st (ntype n) of None \<Rightarrow> None | Some h \<Rightarrow> Some (h, ndata n)))"

text \<open>After the handler: unlink and free the request, under the end semaphore.\<close>

definition worker_pop :: "nat \<Rightarrow> ('h, 'd) ioman \<Rightarrow> (worker \<times> ('h, 'd) ioman) option" where
  "worker_pop a st =
     (if \<not> endSema st then None
      else
        do { n \<leftarrow> io_heap st a;
             let st = st\<lparr>gReqList := nnext n, io_heap := (io_heap st)(a := None)\<rparr>;
             Some (Looping, if gReqList st = None then st\<lparr>gReqEnd := None\<rparr> else st) })"

text \<open>The end of the thread: the pending requests are freed and the semaphores deleted.\<close>

partial_function (option) free_loop :: "('h, 'd) ioman \<Rightarrow> ('h, 'd) ioman option" where
  "free_loop st =
     (case gReqList st of
        None \<Rightarrow> Some st
      | Some a \<Rightarrow>
          (case io_heap st a of
             None \<Rightarrow> None
           | Some n \<Rightarrow> free_loop (st\<lparr>gReqList := nnext n, io_heap := (io_heap st)(a := None)\<rparr>)))"

definition worker_exit :: "('h, 'd) ioman \<Rightarrow> ('h, 'd) ioman option" where
  "worker_exit st = do { st \<leftarrow> free_loop st; Some (st\<lparr>procSema := False, endSema := False\<rparr>) }"

definition ioEnd :: "('h, 'd) ioman \<Rightarrow> ('h, 'd) ioman" where
  "ioEnd st = st\<lparr>gIOTerminate := True\<rparr>"

text \<open>\<^verbatim>\<open>ioBlockOps\<close> up to its waiting loop, which ends when the queue is empty.\<close>

definition ioBlockOps :: "bool \<Rightarrow> ('h, 'd) ioman \<Rightarrow> ('h, 'd) ioman" where
  "ioBlockOps block st =
     (if block \<and> \<not> isIOBlocked st then st\<lparr>isIOBlocked := True\<rparr>
      else if \<not> block \<and> isIOBlocked st then st\<lparr>isIOBlocked := False\<rparr> else st)"

end
