(* ===== verification/Ioman_Queue.thy ===== *)
theory Ioman_Queue
  imports Ioman
begin

text \<open>
  The I/O manager's linked list as a queue: the shape invariant, what each operation does to the list of
  requests, and the threads as a step relation with the order in which requests are served.
\<close>

section \<open>Linked lists\<close>

fun lseg :: "'d io_heap \<Rightarrow> nat option \<Rightarrow> nat list \<Rightarrow> nat option \<Rightarrow> bool" where
  "lseg h p [] q \<longleftrightarrow> p = q"
| "lseg h p (a # as) q \<longleftrightarrow> p = Some a \<and> (\<exists>n. h a = Some n \<and> lseg h (nnext n) as q)"

definition contents :: "'d io_heap \<Rightarrow> nat list \<Rightarrow> (int \<times> 'd) list" where
  "contents h xs = map (\<lambda>a. (ntype (the (h a)), ndata (the (h a)))) xs"

lemma contents_simps [simp]:
  "contents h [] = []" "contents h (a # as) = (ntype (the (h a)), ndata (the (h a))) # contents h as"
  "contents h (as @ bs) = contents h as @ contents h bs" "length (contents h as) = length as"
  by (simp_all add: contents_def)

lemma lseg_append: "lseg h p (xs @ ys) q \<longleftrightarrow> (\<exists>r. lseg h p xs r \<and> lseg h r ys q)"
  by (induction xs arbitrary: p) auto

lemma lseg_other [simp]: "a \<notin> set xs \<Longrightarrow> lseg (h(a := v)) p xs q = lseg h p xs q"
  by (induction xs arbitrary: p) auto

lemma contents_cong: "(\<And>a. a \<in> set xs \<Longrightarrow> h a = h' a) \<Longrightarrow> contents h xs = contents h' xs"
  by (simp add: contents_def)

lemma contents_other [simp]: "a \<notin> set xs \<Longrightarrow> contents (h(a := v)) xs = contents h xs"
  by (rule contents_cong) auto

definition queue_ok :: "('h, 'd) ioman \<Rightarrow> nat list \<Rightarrow> bool" where
  "queue_ok st xs \<longleftrightarrow> lseg (io_heap st) (gReqList st) xs None \<and> distinct xs \<and> dom (io_heap st) = set xs \<and>
     gReqEnd st = (if xs = [] then None else Some (last xs))"

lemma queue_okD:
  assumes "queue_ok st xs"
  shows "lseg (io_heap st) (gReqList st) xs None" and "distinct xs" and "dom (io_heap st) = set xs"
    and "gReqEnd st = (if xs = [] then None else Some (last xs))"
  using assms by (auto simp: queue_ok_def)

lemma queue_ok_empty: "queue_ok st xs \<Longrightarrow> gReqList st = None \<longleftrightarrow> xs = []"
  by (cases xs) (auto simp: queue_ok_def)

section \<open>Operations\<close>

lemma put_enqueue_ok:
  assumes q: "queue_ok st xs" and a: "a \<notin> dom (io_heap st)" and e: "endSema st"
  shows "\<exists>st'. put_enqueue ty d a st = Some st' \<and> queue_ok st' (xs @ [a]) \<and>
    contents (io_heap st') (xs @ [a]) = contents (io_heap st) xs @ [(ty, d)] \<and>
    gRequestHandlers st' = gRequestHandlers st \<and> procSema st' = procSema st \<and> endSema st' = endSema st \<and>
    gIOTerminate st' = gIOTerminate st \<and> isIOBlocked st' = isIOBlocked st"
proof (cases xs rule: rev_cases)
  case Nil
  with q a e show ?thesis by (simp add: put_enqueue_def queue_ok_def)
next
  case (snoc ys l)
  let ?h = "io_heap st"
  have s: "lseg ?h (gReqList st) (ys @ [l]) None" "distinct (ys @ [l])" "dom ?h = set (ys @ [l])"
    "gReqEnd st = Some l" using q by (simp_all add: queue_ok_def snoc)
  then obtain n where n: "?h l = Some n" "nnext n = None" "lseg ?h (gReqList st) ys (Some l)"
    by (auto simp: lseg_append)
  have al: "a \<notin> set ys" "a \<noteq> l" "l \<notin> set ys" using a s by auto
  let ?n = "n\<lparr>nnext := Some a\<rparr>" and ?m = "\<lparr>ntype = ty, ndata = d, nnext = None\<rparr>"
  let ?st = "st\<lparr>gReqEnd := Some a, io_heap := ?h(l \<mapsto> ?n, a \<mapsto> ?m)\<rparr>"
  have put: "put_enqueue ty d a st = Some ?st"
    by (simp add: put_enqueue_def e s(4) n(1))
  have "queue_ok ?st (xs @ [a])"
    using s al n by (auto simp: queue_ok_def snoc lseg_append)
  moreover have "contents (io_heap ?st) (xs @ [a]) = contents ?h xs @ [(ty, d)]"
    using al n by (simp add: snoc)
  ultimately show ?thesis using put by auto
qed

text \<open>Unlinking node \<open>a\<close> after the kept nodes \<open>ks\<close>.\<close>

definition unlink :: "nat \<Rightarrow> 'd io_node \<Rightarrow> nat option \<Rightarrow> ('h, 'd) ioman \<Rightarrow> ('h, 'd) ioman" where
  "unlink a n lst st =
     (let st = (case lst of None \<Rightarrow> st
              | Some l \<Rightarrow> st\<lparr>io_heap := (io_heap st)(l := map_option (nnext_update (\<lambda>_. nnext n)) (io_heap st l))\<rparr>);
          st = (if gReqList st = Some a then st\<lparr>gReqList := nnext n\<rparr> else st);
          st = (if gReqEnd st = Some a then st\<lparr>gReqEnd := lst\<rparr> else st)
      in st\<lparr>io_heap := (io_heap st)(a := None)\<rparr>)"

lemma remove_loop_None: "remove_loop ty None lst c st = Some (c, st)"
  by (subst remove_loop.simps) simp

lemma remove_loop_Some:
  "io_heap st a = Some n \<Longrightarrow> remove_loop ty (Some a) lst c st =
    (if ntype n = ty then remove_loop ty (nnext n) lst (c + 1) (unlink a n lst st)
     else remove_loop ty (nnext n) (Some a) c st)"
  by (subst remove_loop.simps) (simp add: unlink_def)

definition last_of :: "nat list \<Rightarrow> nat option" where
  "last_of xs = (if xs = [] then None else Some (last xs))"

lemma unlink_frame [simp]:
  "gRequestHandlers (unlink a n lst st) = gRequestHandlers st" "procSema (unlink a n lst st) = procSema st"
  "endSema (unlink a n lst st) = endSema st" "gIOTerminate (unlink a n lst st) = gIOTerminate st"
  "isIOBlocked (unlink a n lst st) = isIOBlocked st"
  by (simp_all add: unlink_def Let_def split: option.splits)

lemma unlink_ok:
  assumes q: "queue_ok st (ks @ a # as)" and n: "io_heap st a = Some n"
  shows "queue_ok (unlink a n (last_of ks) st) (ks @ as) \<and>
    contents (io_heap (unlink a n (last_of ks) st)) (ks @ as) = contents (io_heap st) (ks @ as)"
proof -
  let ?h = "io_heap st"
  have s: "lseg ?h (gReqList st) (ks @ a # as) None" "distinct (ks @ a # as)" "dom ?h = set (ks @ a # as)"
    "gReqEnd st = Some (last (a # as))" using q by (auto simp: queue_ok_def)
  have seg: "lseg ?h (gReqList st) ks (Some a)" "lseg ?h (nnext n) as None"
    using s(1) n by (auto simp: lseg_append)
  have last_a: "last (a # as) = a \<longleftrightarrow> as = []" using s(2) by (auto simp: last_in_set)
  show ?thesis
  proof (cases ks rule: rev_cases)
    case Nil
    with seg s n last_a show ?thesis
      by (auto simp: unlink_def last_of_def queue_ok_def)
  next
    case (snoc js l)
    then obtain m where m: "?h l = Some m" "nnext m = Some a" "lseg ?h (gReqList st) js (Some l)"
      using seg(1) by (auto simp: lseg_append)
    have d: "l \<notin> set js" "l \<noteq> a" "l \<notin> set as" "a \<notin> set js" "a \<notin> set as" "distinct js" "distinct as"
      "set js \<inter> set as = {}" using s(2) by (auto simp: snoc)
    have first: "gReqList st \<noteq> Some a" using m(3) d by (cases js) auto
    let ?st = "unlink a n (last_of ks) st"
    have h': "io_heap ?st = ?h(l \<mapsto> m\<lparr>nnext := nnext n\<rparr>, a := None)"
      and p': "gReqList ?st = gReqList st" and e': "gReqEnd ?st = (if as = [] then Some l else Some (last as))"
      using m first s(4) last_a by (auto simp: unlink_def last_of_def snoc)
    have "lseg (io_heap ?st) (gReqList ?st) (ks @ as) None"
      unfolding h' p' using m seg d by (simp add: snoc lseg_append)
    moreover have "dom (io_heap ?st) = set (ks @ as)"
      unfolding h' using s(3) d by (auto simp: snoc)
    moreover have "contents (io_heap ?st) (ks @ as) = contents ?h (ks @ as)"
      unfolding h' using d m by (simp add: snoc)
    ultimately show ?thesis
      using d e' by (auto simp: queue_ok_def snoc)
  qed
qed

lemma remove_loop_ok:
  assumes "queue_ok st (ks @ xs)"
  shows "\<exists>st' ys. remove_loop ty (if xs = [] then None else Some (hd xs)) (last_of ks) c st =
      Some (c + length (filter (\<lambda>r. fst r = ty) (contents (io_heap st) xs)), st') \<and>
    queue_ok st' ys \<and>
    contents (io_heap st') ys =
      contents (io_heap st) ks @ filter (\<lambda>r. fst r \<noteq> ty) (contents (io_heap st) xs) \<and>
    gRequestHandlers st' = gRequestHandlers st \<and> procSema st' = procSema st \<and> endSema st' = endSema st \<and>
    gIOTerminate st' = gIOTerminate st \<and> isIOBlocked st' = isIOBlocked st"
  using assms
proof (induction xs arbitrary: ks st c)
  case Nil
  then show ?case by (auto simp: remove_loop_None)
next
  case (Cons a as)
  let ?h = "io_heap st"
  obtain n where n: "?h a = Some n" and seg: "lseg ?h (nnext n) as None"
    using queue_okD(1) [OF Cons.prems] by (auto simp: lseg_append)
  have nx: "nnext n = (if as = [] then None else Some (hd as))" using seg by (cases as) auto
  show ?case
  proof (cases "ntype n = ty")
    case True
    let ?st = "unlink a n (last_of ks) st"
    have u: "queue_ok ?st (ks @ as)" "contents (io_heap ?st) (ks @ as) = contents ?h (ks @ as)"
      using unlink_ok [OF Cons.prems n] by auto
    then have "contents (io_heap ?st) ks = contents ?h ks" "contents (io_heap ?st) as = contents ?h as"
      by (auto simp: contents_def)
    with Cons.IH [OF u(1), of "c + 1"] n True nx show ?thesis
      by (auto simp: remove_loop_Some)
  next
    case False
    have q: "queue_ok st ((ks @ [a]) @ as)" using Cons.prems by simp
    show ?thesis
      using Cons.IH [OF q, of c] n False nx by (auto simp: remove_loop_Some last_of_def)
  qed
qed

lemma ioRemoveRequests_ok:
  assumes q: "queue_ok st xs" and s: "procSema st" "endSema st"
  shows "\<exists>st' ys. ioRemoveRequests ty st =
      Some (length (filter (\<lambda>r. fst r = ty) (contents (io_heap st) xs)), st') \<and> queue_ok st' ys \<and>
    contents (io_heap st') ys = filter (\<lambda>r. fst r \<noteq> ty) (contents (io_heap st) xs) \<and>
    gRequestHandlers st' = gRequestHandlers st \<and> procSema st' = procSema st \<and> endSema st' = endSema st \<and>
    gIOTerminate st' = gIOTerminate st \<and> isIOBlocked st' = isIOBlocked st"
proof -
  have "gReqList st = (if xs = [] then None else Some (hd xs))"
    using queue_okD(1) [OF q] by (cases xs) auto
  with remove_loop_ok [of st "[]" xs ty 0] q s show ?thesis
    by (simp add: ioRemoveRequests_def last_of_def)
qed

lemma worker_pop_ok:
  assumes q: "queue_ok st (a # as)" and s: "endSema st"
  shows "\<exists>st'. worker_pop a st = Some (Looping, st') \<and> queue_ok st' as \<and>
    contents (io_heap st') as = contents (io_heap st) as \<and>
    gRequestHandlers st' = gRequestHandlers st \<and> procSema st' = procSema st \<and> endSema st' = endSema st \<and>
    gIOTerminate st' = gIOTerminate st \<and> isIOBlocked st' = isIOBlocked st"
proof -
  obtain n where n: "io_heap st a = Some n" and seg: "lseg (io_heap st) (nnext n) as None"
    using queue_okD(1) [OF q] by auto
  have d: "a \<notin> set as" "distinct as" "dom (io_heap st) = insert a (set as)"
    "gReqEnd st = Some (last (a # as))" using q by (auto simp: queue_ok_def)
  have nx: "nnext n = None \<longleftrightarrow> as = []" using seg by (cases as) auto
  have e: "(io_heap st)(a := None) = Map.empty" if "as = []"
    using d(3) that by (auto simp: fun_eq_iff)
  show ?thesis
    using d seg nx s n e by (auto simp: worker_pop_def queue_ok_def)
qed

lemma count_loop_ok:
  "lseg h p xs None \<Longrightarrow> count_loop h p c = Some (c + length xs)"
proof (induction xs arbitrary: p c)
  case Nil
  then show ?case by (subst count_loop.simps) simp
next
  case (Cons a as)
  then obtain n where "p = Some a" "h a = Some n" "lseg h (nnext n) as None" by auto
  with Cons.IH [of "nnext n" "c + 1"] show ?case by (subst count_loop.simps) simp
qed

end
