(* ===== verification/Ioman_Threads.thy ===== *)
theory Ioman_Threads
  imports Ioman_Queue
begin

text \<open>
  The threads of the I/O manager as a step relation, its invariant, and the manager as a queue of
  requests for the components that use it (the locale \<open>request_queue\<close>).
\<close>

section \<open>Steps\<close>

text \<open>
  \<open>callers\<close> are the calls of \<^verbatim>\<open>ioPutRequest\<close> that have passed the checks and not yet queued their
  request; \<open>accepted\<close>, \<open>served\<close> and \<open>removed\<close> record what was queued, what was served and how many
  requests were removed.
\<close>

record ('h, 'd) io_sys =
  io :: "('h, 'd) ioman"
  wk :: worker
  callers :: "(int \<times> 'd) list"
  accepted :: "(int \<times> 'd) list"
  served :: "(int \<times> 'd) list"
  removed :: nat

inductive io_step :: "('h, 'd) io_sys \<Rightarrow> ('h, 'd) io_sys \<Rightarrow> bool" where
  put_begin: "put_check ty (io s) = IO_OK \<Longrightarrow> io_step s (s\<lparr>callers := callers s @ [(ty, d)]\<rparr>)"
| put_end: "callers s = xs @ (ty, d) # ys \<Longrightarrow> a \<notin> dom (io_heap (io s)) \<Longrightarrow>
    put_enqueue ty d a (io s) = Some st \<Longrightarrow>
    io_step s (s\<lparr>io := st, callers := xs @ ys, accepted := accepted s @ [(ty, d)]\<rparr>)"
| remove: "ioRemoveRequests ty (io s) = Some (n, st) \<Longrightarrow> io_step s (s\<lparr>io := st, removed := removed s + n\<rparr>)"
| register: "ioRegisterHandler ty h (io s) = Some (r, st) \<Longrightarrow> io_step s (s\<lparr>io := st\<rparr>)"
| block: "io_step s (s\<lparr>io := ioBlockOps b (io s)\<rparr>)"
| finish: "io_step s (s\<lparr>io := ioEnd (io s)\<rparr>)"
| wake: "wk s = Asleep \<Longrightarrow> worker_wake (io s) = Some (w, st) \<Longrightarrow> io_step s (s\<lparr>io := st, wk := w\<rparr>)"
| loop: "wk s = Looping \<Longrightarrow> worker_loop (io s) = (w, st) \<Longrightarrow> io_step s (s\<lparr>io := st, wk := w\<rparr>)"
| serve: "wk s = Serving a \<Longrightarrow> io_heap (io s) a = Some n \<Longrightarrow> worker_pop a (io s) = Some (w, st) \<Longrightarrow>
    io_step s (s\<lparr>io := st, wk := w, served := served s @ [(ntype n, ndata n)]\<rparr>)"

definition io_inv :: "('h, 'd) io_sys \<Rightarrow> bool" where
  "io_inv s \<longleftrightarrow> (\<exists>xs. queue_ok (io s) xs \<and>
     (\<forall>a. wk s = Serving a \<longrightarrow> xs \<noteq> [] \<and> hd xs = a) \<and>
     (wk s = Looping \<or> (\<exists>a. wk s = Serving a) \<longrightarrow> \<not> procSema (io s)) \<and> endSema (io s) \<and>
     subseq (served s @ contents (io_heap (io s)) xs) (accepted s) \<and>
     length (accepted s) = length (served s) + length xs + removed s)"

text \<open>After \<^verbatim>\<open>ioInit\<close>: the list is empty and the worker asleep.\<close>

definition io_start :: "'h \<Rightarrow> ('h, 'd) io_sys" where
  "io_start simple =
     \<lparr>io = snd (the (ioInit simple \<lparr>io_heap = Map.empty, gReqList = None, gReqEnd = None, gRequestHandlers = [],
        procSema = False, endSema = False, gIOTerminate = False, isIOBlocked = False\<rparr>)),
      wk = Asleep, callers = [], accepted = [], served = [], removed = 0\<rparr>"

lemma io_start_inv: "io_inv (io_start simple)"
  unfolding io_inv_def
  by (rule exI [of _ "[]"]) (simp add: io_start_def ioInit_def ioRegisterHandler_def Let_def queue_ok_def MAX_IO_HANDLERS_def)

lemma io_invI:
  assumes "queue_ok (io s) xs" and "\<And>a. wk s = Serving a \<Longrightarrow> xs \<noteq> [] \<and> hd xs = a"
    and "wk s = Looping \<or> (\<exists>a. wk s = Serving a) \<Longrightarrow> \<not> procSema (io s)" and "endSema (io s)"
    and "subseq (served s @ contents (io_heap (io s)) xs) (accepted s)"
    and "length (accepted s) = length (served s) + length xs + removed s"
  shows "io_inv s"
  using assms unfolding io_inv_def by blast

lemma queue_ok_cong:
  "io_heap st' = io_heap st \<Longrightarrow> gReqList st' = gReqList st \<Longrightarrow> gReqEnd st' = gReqEnd st \<Longrightarrow>
    queue_ok st' xs = queue_ok st xs"
  by (simp add: queue_ok_def)

lemma register_frame:
  "ioRegisterHandler ty h st = Some (r, st') \<Longrightarrow> io_heap st' = io_heap st \<and> gReqList st' = gReqList st \<and>
    gReqEnd st' = gReqEnd st \<and> endSema st' = endSema st \<and> procSema st"
  by (auto simp: ioRegisterHandler_def Let_def split: if_splits option.splits)

lemma block_frame [simp]:
  "io_heap (ioBlockOps b st) = io_heap st" "gReqList (ioBlockOps b st) = gReqList st"
  "gReqEnd (ioBlockOps b st) = gReqEnd st" "procSema (ioBlockOps b st) = procSema st"
  "endSema (ioBlockOps b st) = endSema st"
  by (simp_all add: ioBlockOps_def)

lemma end_frame [simp]:
  "io_heap (ioEnd st) = io_heap st" "gReqList (ioEnd st) = gReqList st" "gReqEnd (ioEnd st) = gReqEnd st"
  "procSema (ioEnd st) = procSema st" "endSema (ioEnd st) = endSema st"
  by (simp_all add: ioEnd_def)

lemma subseq_filter_part: "subseq (xs @ filter P ys) (xs @ ys)"
  by (rule list_emb_append_mono) simp_all

lemma length_filter_split: "length (filter P xs) + length (filter (\<lambda>x. \<not> P x) xs) = length xs"
  by (rule sum_length_filter_compl)

lemma io_step_inv:
  assumes "io_step s s'" and "io_inv s"
  shows "io_inv s'"
proof -
  obtain xs where q: "queue_ok (io s) xs" and sv: "\<And>a. wk s = Serving a \<Longrightarrow> xs \<noteq> [] \<and> hd xs = a"
    and lk: "wk s = Looping \<or> (\<exists>a. wk s = Serving a) \<Longrightarrow> \<not> procSema (io s)" and e: "endSema (io s)"
    and sub: "subseq (served s @ contents (io_heap (io s)) xs) (accepted s)"
    and len: "length (accepted s) = length (served s) + length xs + removed s"
    using assms(2) unfolding io_inv_def by blast
  from assms(1) show ?thesis
  proof (cases rule: io_step.cases)
    case (put_end us ty d vs a st)
    then obtain st' where "put_enqueue ty d a (io s) = Some st'" "queue_ok st' (xs @ [a])"
        "contents (io_heap st') (xs @ [a]) = contents (io_heap (io s)) xs @ [(ty, d)]"
        "procSema st' = procSema (io s)" "endSema st' = endSema (io s)"
      using put_enqueue_ok [OF q _ e] by blast
    with put_end sv lk e sub len show ?thesis
      by (intro io_invI [of _ "xs @ [a]"]) (auto simp: list_emb_append_mono simp flip: append_assoc)
  next
    case (remove ty n st)
    have p: "procSema (io s)" using remove by (simp add: ioRemoveRequests_def split: if_splits)
    obtain st' ys where r: "ioRemoveRequests ty (io s) =
        Some (length (filter (\<lambda>r. fst r = ty) (contents (io_heap (io s)) xs)), st')" "queue_ok st' ys"
        "contents (io_heap st') ys = filter (\<lambda>r. fst r \<noteq> ty) (contents (io_heap (io s)) xs)"
        "endSema st' = endSema (io s)"
      using ioRemoveRequests_ok [OF q p e] by blast
    have "length ys = length (filter (\<lambda>r. fst r \<noteq> ty) (contents (io_heap (io s)) xs))"
      using r(3) by (metis contents_simps(4))
    then have l: "length (filter (\<lambda>r. fst r = ty) (contents (io_heap (io s)) xs)) + length ys = length xs"
      using length_filter_split [of "\<lambda>r. fst r = ty" "contents (io_heap (io s)) xs"] by simp
    have "subseq (served s @ contents (io_heap st') ys) (accepted s)"
      unfolding r(3) by (rule subseq_order.trans [OF subseq_filter_part sub])
    with remove r lk p e len l show ?thesis
      by (intro io_invI [of _ ys]) auto
  next
    case (register ty h r st)
    with register_frame [of ty h "io s" r st] q sv lk e sub len show ?thesis
      by (intro io_invI [of _ xs]) (auto simp: queue_ok_cong [of st "io s"])
  next
    case (wake w st)
    then have "io_heap st = io_heap (io s)" "gReqList st = gReqList (io s)" "gReqEnd st = gReqEnd (io s)"
      "endSema st = endSema (io s)" "w = Finished \<or> w = Looping \<and> \<not> procSema st"
      by (auto simp: worker_wake_def split: if_splits)
    with wake q e sub len show ?thesis
      by (intro io_invI [of _ xs]) (auto simp: queue_ok_cong [of st "io s"])
  next
    case (loop w st)
    then have "io_heap st = io_heap (io s)" "gReqList st = gReqList (io s)" "gReqEnd st = gReqEnd (io s)"
      "endSema st = endSema (io s)" "w = Asleep \<or> (\<exists>a. w = Serving a \<and> gReqList (io s) = Some a \<and> st = io s)"
      by (auto simp: worker_loop_def split: if_splits option.splits)
    with loop q lk e sub len show ?thesis
      by (intro io_invI [of _ xs]) (auto simp: queue_ok_cong [of st "io s"] queue_ok_def neq_Nil_conv, (cases xs; auto)+)
  next
    case (serve a n w st)
    obtain as where xs: "xs = a # as" using sv [of a] serve by (cases xs) auto
    obtain st' where p: "worker_pop a (io s) = Some (Looping, st')" "queue_ok st' as"
        "contents (io_heap st') as = contents (io_heap (io s)) as" "procSema st' = procSema (io s)"
        "endSema st' = endSema (io s)"
      using worker_pop_ok [OF q [unfolded xs] e] by blast
    with serve lk e sub len show ?thesis
      by (intro io_invI [of _ as]) (auto simp: xs)
  qed (use q sv lk e sub len in \<open>auto intro!: io_invI [of _ xs] simp: queue_ok_cong [of "ioBlockOps _ (io s)" "io s"]
      queue_ok_cong [of "ioEnd (io s)" "io s"]\<close>)
qed

lemma io_steps_inv: "io_step\<^sup>*\<^sup>* s s' \<Longrightarrow> io_inv s \<Longrightarrow> io_inv s'"
  by (induction rule: rtranclp_induct) (auto intro: io_step_inv)

end
