(* ===== verification/Ioman_Props.thy ===== *)
theory Ioman_Props
  imports Ioman_Threads
begin

text \<open>
  The properties of the I/O manager, and its contract as a queue of requests for the components that
  use it.
\<close>

section \<open>Pending requests\<close>

partial_function (option) walk :: "'d io_heap \<Rightarrow> nat option \<Rightarrow> (int \<times> 'd) list \<Rightarrow> (int \<times> 'd) list option" where
  "walk h p acc =
     (case p of None \<Rightarrow> Some acc
      | Some a \<Rightarrow> (case h a of None \<Rightarrow> None | Some n \<Rightarrow> walk h (nnext n) (acc @ [(ntype n, ndata n)])))"

definition pending :: "('h, 'd) ioman \<Rightarrow> (int \<times> 'd) list" where
  "pending st = (case walk (io_heap st) (gReqList st) [] of None \<Rightarrow> [] | Some l \<Rightarrow> l)"

lemma walk_contents: "lseg h p xs None \<Longrightarrow> walk h p acc = Some (acc @ contents h xs)"
proof (induction xs arbitrary: p acc)
  case Nil
  then show ?case by (subst walk.simps) simp
next
  case (Cons a as)
  then obtain n where "p = Some a" "h a = Some n" "lseg h (nnext n) as None" by auto
  with Cons.IH [of "nnext n"] show ?case by (subst walk.simps) simp
qed

lemma pending_contents: "queue_ok st xs \<Longrightarrow> pending st = contents (io_heap st) xs"
  using walk_contents [of "io_heap st" "gReqList st" xs "[]"] by (simp add: pending_def queue_ok_def)

definition list_ok :: "('h, 'd) ioman \<Rightarrow> bool" where
  "list_ok st \<longleftrightarrow> (\<exists>xs. queue_ok st xs)"

definition accepts :: "int \<Rightarrow> ('h, 'd) ioman \<Rightarrow> bool" where
  "accepts ty st \<longleftrightarrow> put_check ty st = IO_OK"

lemma put_check_cong:
  "gRequestHandlers st' = gRequestHandlers st \<Longrightarrow> isIOBlocked st' = isIOBlocked st \<Longrightarrow>
    put_check ty st' = put_check ty st"
  by (simp add: put_check_def ioGetHandler_def)

section \<open>The queue's contract\<close>

locale request_queue =
  fixes qinv :: "'s \<Rightarrow> bool" and reqs :: "'s \<Rightarrow> (int \<times> 'd) list" and takes :: "int \<Rightarrow> 's \<Rightarrow> bool"
    and free_at :: "nat \<Rightarrow> 's \<Rightarrow> bool"
    and put :: "int \<Rightarrow> 'd \<Rightarrow> nat \<Rightarrow> 's \<Rightarrow> (int \<times> 's) option"
    and cancel :: "int \<Rightarrow> 's \<Rightarrow> (nat \<times> 's) option" and idle :: "'s \<Rightarrow> bool"
  assumes put_taken: "qinv s \<Longrightarrow> takes ty s \<Longrightarrow> free_at a s \<Longrightarrow>
      \<exists>s'. put ty d a s = Some (IO_OK, s') \<and> qinv s' \<and> reqs s' = reqs s @ [(ty, d)] \<and>
        (\<forall>t. takes t s' = takes t s)"
    and put_refused: "\<not> takes ty s \<Longrightarrow> \<exists>r. r \<noteq> IO_OK \<and> put ty d a s = Some (r, s)"
    and cancelled: "qinv s \<Longrightarrow> idle s \<Longrightarrow>
      \<exists>s'. cancel ty s = Some (length (filter (\<lambda>r. fst r = ty) (reqs s)), s') \<and> qinv s' \<and>
        reqs s' = filter (\<lambda>r. fst r \<noteq> ty) (reqs s) \<and> (\<forall>t. takes t s' = takes t s)"
begin

lemma put_cases:
  assumes "qinv s" and "free_at a s" and "put ty d a s = Some (r, s')"
  shows "qinv s' \<and> (reqs s' = reqs s @ [(ty, d)] \<and> r = IO_OK \<or> s' = s \<and> r \<noteq> IO_OK)"
proof (cases "takes ty s")
  case True
  with put_taken [OF assms(1) True assms(2), of d] assms(3) show ?thesis by auto
next
  case False
  with put_refused [OF False, of d a] assms(1,3) show ?thesis by auto
qed

end

definition io_idle :: "('h, 'd) ioman \<Rightarrow> bool" where
  "io_idle st \<longleftrightarrow> procSema st \<and> endSema st"

definition io_good :: "('h, 'd) ioman \<Rightarrow> bool" where
  "io_good st \<longleftrightarrow> list_ok st \<and> endSema st"

lemma io_put_taken:
  assumes g: "io_good st" and t: "accepts ty st" and a: "a \<notin> dom (io_heap st)"
  shows "\<exists>st'. ioPutRequest ty d a st = Some (IO_OK, st') \<and> io_good st' \<and>
    pending st' = pending st @ [(ty, d)] \<and> (\<forall>t. accepts t st' = accepts t st)"
proof -
  obtain xs where q: "queue_ok st xs" and e: "endSema st" using g by (auto simp: io_good_def list_ok_def)
  obtain st' where p: "put_enqueue ty d a st = Some st'" "queue_ok st' (xs @ [a])"
      "contents (io_heap st') (xs @ [a]) = contents (io_heap st) xs @ [(ty, d)]"
      "gRequestHandlers st' = gRequestHandlers st" "endSema st' = endSema st" "isIOBlocked st' = isIOBlocked st"
    using put_enqueue_ok [OF q a e] by blast
  have "pending st' = pending st @ [(ty, d)]"
    using p(3) pending_contents [OF q] pending_contents [OF p(2)] by simp
  with p q e t show ?thesis
    by (auto simp: ioPutRequest_def accepts_def io_good_def list_ok_def put_check_cong [of st' st])
qed

lemma io_put_refused: "\<not> accepts ty st \<Longrightarrow> \<exists>r. r \<noteq> IO_OK \<and> ioPutRequest ty d a st = Some (r, st)"
  by (simp add: ioPutRequest_def accepts_def)

lemma io_cancelled:
  assumes g: "io_good st" and i: "io_idle st"
  shows "\<exists>st'. ioRemoveRequests ty st = Some (length (filter (\<lambda>r. fst r = ty) (pending st)), st') \<and> io_good st' \<and>
    pending st' = filter (\<lambda>r. fst r \<noteq> ty) (pending st) \<and> (\<forall>t. accepts t st' = accepts t st)"
proof -
  obtain xs where q: "queue_ok st xs" using g by (auto simp: io_good_def list_ok_def)
  have s: "procSema st" "endSema st" using i by (auto simp: io_idle_def)
  obtain st' ys where r: "ioRemoveRequests ty st =
        Some (length (filter (\<lambda>r. fst r = ty) (contents (io_heap st) xs)), st')" "queue_ok st' ys"
      "contents (io_heap st') ys = filter (\<lambda>r. fst r \<noteq> ty) (contents (io_heap st) xs)"
      "gRequestHandlers st' = gRequestHandlers st" "endSema st' = endSema st" "isIOBlocked st' = isIOBlocked st"
    using ioRemoveRequests_ok [OF q s] by metis
  with g show ?thesis
    by (auto simp: pending_contents [OF q] pending_contents [OF r(2)] io_good_def list_ok_def accepts_def
        put_check_cong [of st' st])
qed

interpretation ioq: request_queue io_good pending accepts "\<lambda>a st. a \<notin> dom (io_heap st)" ioPutRequest
    ioRemoveRequests io_idle
  by unfold_locales (rule io_put_taken io_put_refused io_cancelled; assumption)+

section \<open>Concrete runs\<close>

text \<open>One call past the checks, then its request queued at address 0; and the same call after blocking.\<close>

definition demo_io :: "(unit, nat) io_sys" where
  "demo_io = (io_start ())\<lparr>callers := [(1, 7)]\<rparr>"

definition demo_queued :: "(unit, nat) io_sys" where
  "demo_queued = demo_io\<lparr>io := the (put_enqueue 1 7 0 (io demo_io)), callers := [], accepted := [(1, 7)]\<rparr>"

definition demo_blocked :: "(unit, nat) io_sys" where
  "demo_blocked = demo_io\<lparr>io := ioBlockOps True (io demo_io)\<rparr>"

lemmas demo_io_defs = demo_io_def demo_queued_def demo_blocked_def io_start_def ioInit_def ioRegisterHandler_def
  MAX_IO_HANDLERS_def IO_CUSTOM_SIMPLEACTION_def put_enqueue_def put_check_def ioGetHandler_def IO_OK_def
  ioBlockOps_def

lemma demo_io_step: "io_step (io_start ()) demo_io"
proof -
  have "put_check 1 (io (io_start ())) = IO_OK" by (simp add: demo_io_defs)
  from put_begin [OF this, of "7 :: nat"] show ?thesis by (simp add: demo_io_def) (simp add: io_start_def)
qed

lemma demo_queued_step: "io_step demo_io demo_queued"
proof -
  have "callers demo_io = [] @ (1, 7) # []" "0 \<notin> dom (io_heap (io demo_io))"
    and "put_enqueue 1 7 0 (io demo_io) = Some (the (put_enqueue 1 7 0 (io demo_io)))"
    by (simp_all add: demo_io_defs)
  from put_end [OF this] show ?thesis by (simp add: demo_queued_def) (simp add: demo_io_def io_start_def)
qed

lemma demo_blocked_step: "io_step demo_io demo_blocked"
  unfolding demo_blocked_def by (rule io_step.block)

text \<open>
  \<^verbatim>\<open>ioPutRequest\<close> looks at \<^verbatim>\<open>isIOBlocked\<close> before it takes the end semaphore: a call that passed the
  check queues its request although I/O has been blocked and the queue has been found empty.
\<close>

lemma late_put_after_block:
  "\<exists>s s'. io_step\<^sup>*\<^sup>* (io_start ()) (s :: (unit, nat) io_sys) \<and> isIOBlocked (io s) \<and> \<not> ioHasPendingRequests (io s) \<and>
     io_step s s' \<and> isIOBlocked (io s') \<and> ioHasPendingRequests (io s')"
proof -
  let ?st = "the (put_enqueue 1 7 0 (io demo_blocked))"
  let ?s = "demo_blocked\<lparr>io := ?st, callers := [], accepted := [(1, 7)]\<rparr>"
  have reach: "io_step\<^sup>*\<^sup>* (io_start ()) demo_blocked"
    using demo_io_step demo_blocked_step by (meson converse_rtranclp_into_rtranclp rtranclp.rtrancl_refl)
  have "callers demo_blocked = [] @ (1, 7) # []" "0 \<notin> dom (io_heap (io demo_blocked))"
    and "put_enqueue 1 7 0 (io demo_blocked) = Some ?st"
    by (simp_all add: demo_io_defs)
  from put_end [OF this] have "io_step demo_blocked ?s"
    by simp (simp add: demo_blocked_def demo_io_def io_start_def)
  moreover have "isIOBlocked (io demo_blocked)" "\<not> ioHasPendingRequests (io demo_blocked)"
    "isIOBlocked (io ?s)" "ioHasPendingRequests (io ?s)"
    by (simp_all add: demo_io_defs ioHasPendingRequests_def)
  ultimately show ?thesis using reach by blast
qed

section \<open>Properties\<close>



text \<open>
  on a well-formed list, a request that passes the checks is appended to the pending ones, removing a
  type takes out its requests, keeps the order of the rest and returns how many they were, and the
  count of pending requests is their number; each of the loops ends.
\<close>

lemma queue_operations:
  assumes "io_good st" and "a \<notin> dom (io_heap st)" and "accepts ty st" and "procSema st"
  shows "(\<exists>st'. ioPutRequest ty d a st = Some (IO_OK, st') \<and> io_good st' \<and> pending st' = pending st @ [(ty, d)]) \<and>
    (\<exists>st'. ioRemoveRequests ty st = Some (length (filter (\<lambda>r. fst r = ty) (pending st)), st') \<and> io_good st' \<and>
       pending st' = filter (\<lambda>r. fst r \<noteq> ty) (pending st)) \<and>
    ioGetPendingRequestCount st = Some (length (pending st))"
proof -
  obtain xs where "queue_ok st xs" using assms(1) by (auto simp: io_good_def list_ok_def)
  then have "ioGetPendingRequestCount st = Some (length (pending st))"
    using count_loop_ok [of "io_heap st" "gReqList st" xs 0] assms(4) queue_okD(1)
    by (auto simp: ioGetPendingRequestCount_def pending_contents)
  moreover have "io_idle st" using assms by (simp add: io_idle_def io_good_def)
  ultimately show ?thesis
    using ioq.put_taken [OF assms(1,3,2), of d] ioq.cancelled [OF assms(1), of ty] by blast
qed

theorem queue_operations_witness:
  "\<exists>st'. ioPutRequest 1 8 1 (io demo_queued) = Some (IO_OK, st') \<and> pending st' = pending (io demo_queued) @ [(1, 8)]"
proof -
  have "queue_ok (io demo_queued) [0]" "endSema (io demo_queued)"
    by (simp_all add: demo_io_defs queue_ok_def)
  then have "io_good (io demo_queued)" by (auto simp: io_good_def list_ok_def)
  moreover have "1 \<notin> dom (io_heap (io demo_queued))" "accepts 1 (io demo_queued)" "procSema (io demo_queued)"
    by (simp_all add: demo_io_defs accepts_def)
  ultimately show ?thesis using queue_operations [of "io demo_queued" 1 1 8] by blast
qed

lemma stuck_step:
  assumes "io_step s s'" and "wk s = Asleep \<or> wk s = Finished" and "\<not> procSema (io s)"
  shows "(wk s' = Asleep \<or> wk s' = Finished) \<and> \<not> procSema (io s') \<and> served s' = served s"
  using assms
proof cases
  case (put_end xs ty d ys a st)
  then have "procSema st = procSema (io s)"
    by (auto simp: put_enqueue_def bind_eq_Some_conv split: if_splits option.splits)
  with put_end assms show ?thesis by simp
next
  case (register ty h r st)
  then show ?thesis using assms(3) by (auto simp: ioRegisterHandler_def)
next
  case (wake w st)
  then show ?thesis using assms(3) by (auto simp: worker_wake_def split: if_splits)
qed (use assms in \<open>auto simp: ioRemoveRequests_def\<close>)

text \<open>
  \<^verbatim>\<open>ioRegisterHandler\<close> returns its errors without giving the processing semaphore back: whatever
  the threads do afterwards, no request is served any more (while the worker sleeps), and the calls that
  need the semaphore block.
\<close>

lemma failed_registration_stops_service:
  assumes "ioRegisterHandler ty h (io s) = Some (r, st)" and "r \<noteq> IO_OK" and "wk s = Asleep"
    and "io_step\<^sup>*\<^sup>* (s\<lparr>io := st\<rparr>) s'"
  shows "served s' = served s \<and> ioRemoveRequests t (io s') = None \<and>
    ioGetPendingRequestCount (io s') = None \<and> ioRegisterHandler t k (io s') = None"
proof -
  have "\<not> procSema st"
    using assms(1,2) by (auto simp: ioRegisterHandler_def Let_def split: if_splits option.splits)
  then have start: "wk (s\<lparr>io := st\<rparr>) = Asleep" "\<not> procSema (io (s\<lparr>io := st\<rparr>))"
    using assms(3) by auto
  from assms(4) have "(wk s' = Asleep \<or> wk s' = Finished) \<and> \<not> procSema (io s') \<and> served s' = served (s\<lparr>io := st\<rparr>)"
  proof (induction rule: rtranclp_induct)
    case base
    then show ?case using start by simp
  next
    case (step u v)
    then show ?case using stuck_step [of u v] by metis
  qed
  then show ?thesis
    by (simp add: ioRemoveRequests_def ioGetPendingRequestCount_def ioRegisterHandler_def)
qed

theorem failed_registration_stops_service_witness:
  "\<exists>st. ioRegisterHandler 1 (Some ()) (io demo_queued) = Some (IO_ERR_DUPLICIT_HANDLER, st) \<and>
     ioGetPendingRequestCount st = None"
proof -
  obtain st where r: "ioRegisterHandler 1 (Some ()) (io demo_queued) = Some (IO_ERR_DUPLICIT_HANDLER, st)"
    by (simp add: demo_io_defs IO_ERR_DUPLICIT_HANDLER_def Let_def)
  have "IO_ERR_DUPLICIT_HANDLER \<noteq> IO_OK" "wk demo_queued = Asleep"
    by (simp_all add: IO_ERR_DUPLICIT_HANDLER_def IO_OK_def demo_queued_def demo_io_def io_start_def)
  from failed_registration_stops_service [OF r this rtranclp.rtrancl_refl, of 0 None] r
  show ?thesis by auto
qed

text \<open>
  once I/O is blocked, the queue has run empty and no call of \<^verbatim>\<open>ioPutRequest\<close> is under way, nothing
  is queued until I/O is unblocked.
\<close>

lemma blocked_queue_stays_empty:
  assumes "io_step s s'" and "isIOBlocked (io s)" and "isIOBlocked (io s')" and "callers s = []"
    and "\<not> ioHasPendingRequests (io s)" and "\<forall>a. wk s \<noteq> Serving a"
  shows "callers s' = [] \<and> \<not> ioHasPendingRequests (io s') \<and> (\<forall>a. wk s' \<noteq> Serving a)"
  using assms
proof cases
  case (put_begin ty d)
  then show ?thesis using assms by (simp add: put_check_def IO_OK_def IO_ERR_IO_BLOCKED_def)
next
  case (remove ty n st)
  have "gReqList (io s) = None" using assms(5) by (simp add: ioHasPendingRequests_def)
  then have "st = io s" using remove
    by (simp add: ioRemoveRequests_def remove_loop_None split: if_splits)
  then show ?thesis using assms remove by simp
next
  case (register ty h r st)
  then show ?thesis using assms register_frame [of ty h "io s" r st] by (simp add: ioHasPendingRequests_def)
next
  case (block b)
  then show ?thesis using assms by (simp add: ioHasPendingRequests_def)
next
  case finish
  then show ?thesis using assms by (simp add: ioHasPendingRequests_def)
next
  case (wake w st)
  then show ?thesis using assms by (auto simp: worker_wake_def ioHasPendingRequests_def split: if_splits)
next
  case (loop w st)
  then show ?thesis using assms by (auto simp: worker_loop_def ioHasPendingRequests_def)
qed (use assms in auto)

theorem blocked_queue_stays_empty_witness:
  "\<not> ioHasPendingRequests (io ((io_start ())\<lparr>io := ioEnd (ioBlockOps True (io (io_start ())))\<rparr>))"
proof -
  let ?s = "(io_start ())\<lparr>io := ioBlockOps True (io (io_start ()))\<rparr>"
  have "io_step ?s (?s\<lparr>io := ioEnd (io ?s)\<rparr>)" by (rule io_step.finish)
  moreover have "isIOBlocked (io ?s)" "isIOBlocked (io (?s\<lparr>io := ioEnd (io ?s)\<rparr>))" "callers ?s = []"
    "\<not> ioHasPendingRequests (io ?s)" "\<forall>a. wk ?s \<noteq> Serving a"
    by (simp_all add: demo_io_defs ioHasPendingRequests_def ioEnd_def)
  ultimately have "\<not> ioHasPendingRequests (io (?s\<lparr>io := ioEnd (io ?s)\<rparr>))"
    using blocked_queue_stays_empty by blast
  then show ?thesis by simp
qed

end
