(* ===== verification/Texcache.thy ===== *)
theory Texcache
  imports Ioman_Props
begin

text \<open>
  The texture cache of the user interface (\<^verbatim>\<open>src/texcache.c\<close>): slots for cover art that are filled by
  requests to the I/O manager and reused by least recent use. The requests are blocks of memory of their
  own, \<open>art\<close>, whose addresses the slots and the queue hold; addresses that \<^verbatim>\<open>malloc\<close> returns are
  arguments, \<open>None\<close> is a use of a freed block.
\<close>

definition IO_CACHE_LOAD_ART :: int where "IO_CACHE_LOAD_ART = 3"

section \<open>State\<close>

text \<open>\<open>texture\<close> is \<open>None\<close> while \<^verbatim>\<open>texture.Mem\<close> is null; \<open>qr\<close> is the request under way.\<close>

record 't cache_entry =
  texture :: "'t option"
  qr :: "nat option"
  lastUsed :: int
  UID :: int

record 't image_cache =
  userId :: int
  cprefix :: "string option"
  isPrefixRelative :: bool
  csuffix :: string
  nextUID :: int
  content :: "'t cache_entry list"

record load_image_request =
  req_entry :: nat
  req_has_list :: bool
  req_cacheUID :: int
  req_value :: string

record ('h, 't) texsys =
  cache :: "'t image_cache"
  art :: "nat \<Rightarrow> load_image_request option"
  ioq :: "('h, nat) ioman"

text \<open>
  The image source of the item list: \<^verbatim>\<open>itemGetArchivedImage\<close> and \<^verbatim>\<open>itemGetImage\<close>, each the return value
  and the texture it leaves behind, by prefix, value and suffix (and, for the second, whether the prefix is
  relative).
\<close>

record 't art_source =
  itemGetArchivedImage :: "string option \<Rightarrow> string \<Rightarrow> string \<Rightarrow> int \<times> 't option"
  itemGetImage :: "string option \<Rightarrow> bool \<Rightarrow> string \<Rightarrow> string \<Rightarrow> int \<times> 't option"

section \<open>Operations\<close>

definition cacheClearItem :: "'t cache_entry" where
  "cacheClearItem = \<lparr>texture = None, qr = None, lastUsed = -1, UID = 0\<rparr>"

definition cacheInitCache :: "int \<Rightarrow> string option \<Rightarrow> bool \<Rightarrow> string \<Rightarrow> nat \<Rightarrow> 't image_cache" where
  "cacheInitCache uid pre rel suf count =
     \<lparr>userId = uid, cprefix = pre, isPrefixRelative = rel, csuffix = suf, nextUID = 1,
      content = replicate count cacheClearItem\<rparr>"

text \<open>\<^verbatim>\<open>cacheLoadImage\<close>, the handler of the I/O manager; the request is freed only on the last line.\<close>

definition cacheLoadImage :: "'t art_source \<Rightarrow> int \<Rightarrow> nat \<Rightarrow> ('h, 't) texsys \<Rightarrow> ('h, 't) texsys option" where
  "cacheLoadImage src guiFrameId d st =
     do { req \<leftarrow> art st d;
          let c = cache st;
          let i = req_entry req;
          if \<not> i < length (content c) then None
          else if \<not> req_has_list req then Some st
          else if req_cacheUID req \<noteq> UID (content c ! i) then Some st
          else
            (let (r1, t1) = itemGetArchivedImage src (cprefix c) (req_value req) (csuffix c);
                 (r, t) = (if r1 \<ge> 0 then (r1, t1)
                           else itemGetImage src (cprefix c) (isPrefixRelative c) (req_value req) (csuffix c));
                 e = (content c ! i)\<lparr>texture := t, lastUsed := (if r \<ge> 0 then guiFrameId else 0), qr := None\<rparr>
             in Some (st\<lparr>cache := c\<lparr>content := (content c)[i := e]\<rparr>, art := (art st)(d := None)\<rparr>)) }"

text \<open>
  The victim: among the slots without a request, the first with the smallest \<^verbatim>\<open>lastUsed\<close>, if that is
  below the current frame.
\<close>

fun find_oldest :: "'t cache_entry list \<Rightarrow> nat \<Rightarrow> int \<Rightarrow> nat option \<Rightarrow> nat option" where
  "find_oldest [] i rtime oldest = oldest"
| "find_oldest (e # es) i rtime oldest =
     (if qr e = None \<and> lastUsed e < rtime then find_oldest es (i + 1) (lastUsed e) (Some i)
      else find_oldest es (i + 1) rtime oldest)"

text \<open>
  \<^verbatim>\<open>cacheGetTexture\<close> with the client's \<open>cacheId\<close> and \<open>uid\<close>; \<open>d\<close> and \<open>a\<close> are the addresses of a
  new request and a new queue node. The result of \<^verbatim>\<open>ioPutRequest\<close> is ignored.
\<close>

definition cacheGetTexture ::
  "int \<Rightarrow> int \<Rightarrow> int \<Rightarrow> nat \<Rightarrow> nat \<Rightarrow> int \<Rightarrow> int \<Rightarrow> string \<Rightarrow> ('h, 't) texsys \<Rightarrow>
     ('t option option \<times> int \<times> int \<times> ('h, 't) texsys) option" where
  "cacheGetTexture guiFrameId guiInactiveFrames delay d a cacheId uid val st =
     (let c = cache st in
      if cacheId = -2 then Some (None, cacheId, uid, st)
      else if cacheId \<noteq> -1 \<and> \<not> (0 \<le> cacheId \<and> nat cacheId < length (content c)) then None
      else if cacheId \<noteq> -1 \<and> UID (content c ! nat cacheId) = uid then
        (let i = nat cacheId; e = content c ! i in
         if qr e \<noteq> None then Some (None, cacheId, uid, st)
         else if lastUsed e = 0 then Some (None, -2, uid, st)
         else Some (Some (texture e), cacheId, uid,
                    st\<lparr>cache := c\<lparr>content := (content c)[i := e\<lparr>lastUsed := guiFrameId\<rparr>]\<rparr>\<rparr>))
      else if guiInactiveFrames < delay then Some (None, -1, uid, st)
      else
        (case find_oldest (content c) 0 guiFrameId None of
           None \<Rightarrow> Some (None, -1, uid, st)
         | Some i \<Rightarrow>
             do { let req = \<lparr>req_entry = i, req_has_list = True, req_cacheUID = nextUID c, req_value = val\<rparr>;
                  let e = cacheClearItem\<lparr>qr := Some d, UID := nextUID c\<rparr>;
                  (r, q) \<leftarrow> ioPutRequest IO_CACHE_LOAD_ART d a (ioq st);
                  Some (None, int i, nextUID c,
                    st\<lparr>cache := c\<lparr>content := (content c)[i := e], nextUID := nextUID c + 1\<rparr>,
                       art := (art st)(d \<mapsto> req), ioq := q\<rparr>) }))"

definition cacheCancelPendingImageLoads :: "('h, 't) texsys \<Rightarrow> ('h, 't) texsys option" where
  "cacheCancelPendingImageLoads st =
     do { (n, q) \<leftarrow> ioRemoveRequests IO_CACHE_LOAD_ART (ioq st); Some (st\<lparr>ioq := q\<rparr>) }"

text \<open>\<^verbatim>\<open>cacheDestroyCache\<close> frees the requests that the slots point to.\<close>

definition cacheDestroyCache :: "('h, 't) texsys \<Rightarrow> ('h, 't) texsys" where
  "cacheDestroyCache st =
     st\<lparr>cache := (cache st)\<lparr>content := []\<rparr>,
        art := (\<lambda>d. if Some d \<in> set (map qr (content (cache st))) then None else art st d)\<rparr>"

text \<open>The worker thread serving the first request of the queue: the handler, then the removal.\<close>

definition serve_art :: "'t art_source \<Rightarrow> int \<Rightarrow> ('h, 't) texsys \<Rightarrow> ('h, 't) texsys option" where
  "serve_art src guiFrameId st =
     do { a \<leftarrow> gReqList (ioq st);
          n \<leftarrow> io_heap (ioq st) a;
          st \<leftarrow> (if ntype n = IO_CACHE_LOAD_ART then cacheLoadImage src guiFrameId (ndata n) st else Some st);
          (w, q) \<leftarrow> worker_pop a (ioq st);
          Some (st\<lparr>ioq := q\<rparr>) }"

end
