(* ===== verification/Texcache_Props.thy ===== *)
theory Texcache_Props
  imports Texcache
begin

text \<open>
  The texture cache with the I/O manager: a client never gets an image of another item, the slot that is
  reused is the least recently used one, and what happens to slots whose requests are cancelled.
\<close>

section \<open>The choice of the victim\<close>


lemma find_oldest_Some:
  assumes "find_oldest es k rt old = Some i"
  shows "old = Some i \<and> (\<forall>e\<in>set es. qr e = None \<longrightarrow> rt \<le> lastUsed e) \<or>
    (\<exists>j<length es. i = k + j \<and> qr (es ! j) = None \<and> lastUsed (es ! j) < rt \<and>
       (\<forall>e\<in>set es. qr e = None \<longrightarrow> lastUsed (es ! j) \<le> lastUsed e))"
  using assms
proof (induction es arbitrary: k rt old)
  case (Cons e es)
  show ?case
  proof (cases "qr e = None \<and> lastUsed e < rt")
    case True
    with Cons.prems have "find_oldest es (k + 1) (lastUsed e) (Some k) = Some i" by simp
    from Cons.IH [OF this] consider "i = k" "\<forall>e'\<in>set es. qr e' = None \<longrightarrow> lastUsed e \<le> lastUsed e'"
      | j where "j < length es" "i = k + 1 + j" "qr (es ! j) = None" "lastUsed (es ! j) < lastUsed e"
          "\<forall>e'\<in>set es. qr e' = None \<longrightarrow> lastUsed (es ! j) \<le> lastUsed e'" by auto
    then show ?thesis
    proof cases
      case 1
      with True show ?thesis by (intro disjI2 exI [of _ 0]) auto
    next
      case 2
      with True show ?thesis by (intro disjI2 exI [of _ "Suc j"]) auto
    qed
  next
    case False
    with Cons.prems have "find_oldest es (k + 1) rt old = Some i" by simp
    from Cons.IH [OF this] consider "old = Some i" "\<forall>e'\<in>set es. qr e' = None \<longrightarrow> rt \<le> lastUsed e'"
      | j where "j < length es" "i = k + 1 + j" "qr (es ! j) = None" "lastUsed (es ! j) < rt"
          "\<forall>e'\<in>set es. qr e' = None \<longrightarrow> lastUsed (es ! j) \<le> lastUsed e'" by auto
    then show ?thesis
    proof cases
      case 1
      with False show ?thesis by auto
    next
      case 2
      with False show ?thesis by (intro disjI2 exI [of _ "Suc j"]) auto
    qed
  qed
qed simp

lemma find_oldest_None:
  "find_oldest es k rt old = None \<Longrightarrow> old = None \<and> (\<forall>e\<in>set es. qr e = None \<longrightarrow> rt \<le> lastUsed e)"
  by (induction es arbitrary: k rt old) (auto split: if_splits)

section \<open>The invariant\<close>

text \<open>The image of an item: what the loader gets for its value.\<close>

definition image_of :: "'t art_source \<Rightarrow> 't image_cache \<Rightarrow> string \<Rightarrow> 't option" where
  "image_of src c v =
     (if fst (itemGetArchivedImage src (cprefix c) v (csuffix c)) \<ge> 0
      then snd (itemGetArchivedImage src (cprefix c) v (csuffix c))
      else snd (itemGetImage src (cprefix c) (isPrefixRelative c) v (csuffix c)))"

text \<open>\<open>val\<close> gives the value for which each UID was handed out.\<close>

definition slot_ok ::
  "'t art_source \<Rightarrow> 't image_cache \<Rightarrow> (nat \<Rightarrow> load_image_request option) \<Rightarrow> (int \<Rightarrow> string) \<Rightarrow> nat \<Rightarrow>
     't cache_entry \<Rightarrow> bool" where
  "slot_ok src c ar val i e \<longleftrightarrow> UID e < nextUID c \<and>
     (case qr e of
        Some d \<Rightarrow> ar d = Some \<lparr>req_entry = i, req_has_list = True, req_cacheUID = UID e, req_value = val (UID e)\<rparr>
      | None \<Rightarrow> lastUsed e \<noteq> 0 \<longrightarrow> UID e \<noteq> 0 \<longrightarrow> texture e = image_of src c (val (UID e)))"

definition art_pending :: "(int \<times> nat) list \<Rightarrow> nat list" where
  "art_pending l = map snd (filter (\<lambda>r. fst r = IO_CACHE_LOAD_ART) l)"

definition tex_ok :: "'t art_source \<Rightarrow> (int \<Rightarrow> string) \<Rightarrow> ('h, 't) texsys \<Rightarrow> bool" where
  "tex_ok src val st \<longleftrightarrow> io_good (ioq st) \<and> 1 \<le> nextUID (cache st) \<and>
     (\<forall>i<length (content (cache st)). slot_ok src (cache st) (art st) val i (content (cache st) ! i)) \<and>
     (\<forall>d r. art st d = Some r \<longrightarrow> req_entry r < length (content (cache st)) \<and>
        qr (content (cache st) ! req_entry r) = Some d) \<and>
     set (art_pending (pending (ioq st))) \<subseteq> dom (art st) \<and> distinct (art_pending (pending (ioq st)))"

lemma art_pending_append [simp]: "art_pending (l @ l') = art_pending l @ art_pending l'"
  by (simp add: art_pending_def)

lemma art_pending_simps [simp]:
  "art_pending [] = []" "art_pending ((IO_CACHE_LOAD_ART, d) # l) = d # art_pending l"
  "ty \<noteq> IO_CACHE_LOAD_ART \<Longrightarrow> art_pending ((ty, d) # l) = art_pending l"
  by (simp_all add: art_pending_def)

lemma art_pending_cancelled [simp]: "art_pending (filter (\<lambda>r. fst r \<noteq> IO_CACHE_LOAD_ART) l) = []"
  by (simp add: art_pending_def)

lemma image_of_cong [simp]:
  "image_of src (c\<lparr>content := x\<rparr>) v = image_of src c v"
  "image_of src (c\<lparr>nextUID := n\<rparr>) v = image_of src c v"
  by (simp_all add: image_of_def)

lemma tex_okD:
  assumes "tex_ok src val st"
  shows "io_good (ioq st)" and "1 \<le> nextUID (cache st)"
    and "\<And>i. i < length (content (cache st)) \<Longrightarrow> slot_ok src (cache st) (art st) val i (content (cache st) ! i)"
    and "\<And>d r. art st d = Some r \<Longrightarrow> req_entry r < length (content (cache st)) \<and>
        qr (content (cache st) ! req_entry r) = Some d"
    and "set (art_pending (pending (ioq st))) \<subseteq> dom (art st)" and "distinct (art_pending (pending (ioq st)))"
  using assms by (auto simp: tex_ok_def)

text \<open>A request names its slot, and the slot's data.\<close>

lemma art_request:
  assumes "tex_ok src val st" and "art st d = Some r"
  obtains i where "i < length (content (cache st))" and "qr (content (cache st) ! i) = Some d"
    and "r = \<lparr>req_entry = i, req_has_list = True, req_cacheUID = UID (content (cache st) ! i),
      req_value = val (UID (content (cache st) ! i))\<rparr>"
proof -
  have i: "req_entry r < length (content (cache st))" "qr (content (cache st) ! req_entry r) = Some d"
    using tex_okD(4) [OF assms] by auto
  from tex_okD(3) [OF assms(1) i(1)] i(2) assms(2)
  have "r = \<lparr>req_entry = req_entry r, req_has_list = True, req_cacheUID = UID (content (cache st) ! req_entry r),
      req_value = val (UID (content (cache st) ! req_entry r))\<rparr>"
    by (simp add: slot_ok_def)
  with i show thesis by (intro that)
qed

text \<open>The slot that waited for request \<open>d\<close> holds its image, or is marked as having none.\<close>

definition slot_loaded :: "'t art_source \<Rightarrow> int \<Rightarrow> nat \<Rightarrow> ('h, 't) texsys \<Rightarrow> ('h, 't) texsys \<Rightarrow> bool" where
  "slot_loaded src f d st st' \<longleftrightarrow>
     (\<exists>r. art st d = Some r \<and> req_entry r < length (content (cache st)) \<and>
        qr (content (cache st) ! req_entry r) = Some d \<and> qr (content (cache st') ! req_entry r) = None \<and>
        texture (content (cache st') ! req_entry r) = image_of src (cache st) (req_value r) \<and>
        lastUsed (content (cache st') ! req_entry r) \<in> {0, f})"

lemma slot_loaded_ioq [simp]: "slot_loaded src f d st (st'\<lparr>ioq := q\<rparr>) = slot_loaded src f d st st'"
  by (simp add: slot_loaded_def)

lemma cacheLoadImage_ok:
  assumes ok: "tex_ok src val st" and d: "d \<in> dom (art st)"
  shows "\<exists>st'. cacheLoadImage src f d st = Some st' \<and> ioq st' = ioq st \<and> dom (art st') = dom (art st) - {d} \<and>
    nextUID (cache st') = nextUID (cache st) \<and> slot_loaded src f d st st' \<and>
    (set (art_pending l) \<subseteq> dom (art st) \<and> distinct (d # art_pending l) \<longrightarrow>
       (\<forall>q. io_good q \<and> pending q = l \<longrightarrow> tex_ok src val (st'\<lparr>ioq := q\<rparr>)))"
proof -
  let ?c = "cache st"
  obtain r where r: "art st d = Some r" using d by blast
  obtain i where i: "i < length (content ?c)" "qr (content ?c ! i) = Some d"
    "r = \<lparr>req_entry = i, req_has_list = True, req_cacheUID = UID (content ?c ! i),
      req_value = val (UID (content ?c ! i))\<rparr>"
    using art_request [OF ok r] .
  obtain r1 t1 where a: "itemGetArchivedImage src (cprefix ?c) (req_value r) (csuffix ?c) = (r1, t1)"
    by (metis surj_pair)
  obtain r2 t2 where g: "itemGetImage src (cprefix ?c) (isPrefixRelative ?c) (req_value r) (csuffix ?c) = (r2, t2)"
    by (metis surj_pair)
  let ?rr = "if r1 \<ge> 0 then r1 else r2" and ?t = "if r1 \<ge> 0 then t1 else t2"
  let ?e = "(content ?c ! i)\<lparr>texture := ?t, lastUsed := (if ?rr \<ge> 0 then f else 0), qr := None\<rparr>"
  let ?st = "st\<lparr>cache := ?c\<lparr>content := (content ?c)[i := ?e]\<rparr>, art := (art st)(d := None)\<rparr>"
  have load: "cacheLoadImage src f d st = Some ?st"
    using r i a g by (simp add: cacheLoadImage_def Let_def)
  have img: "?t = image_of src ?c (val (UID (content ?c ! i)))"
    using a g i(3) by (simp add: image_of_def)
  have uid: "UID (content ?c ! i) < nextUID ?c" using tex_okD(3) [OF ok i(1)] by (simp add: slot_ok_def)
  have slots: "slot_ok src (cache ?st) (art ?st) val j (content (cache ?st) ! j)"
    if j: "j < length (content ?c)" for j
  proof (cases "j = i")
    case True
    then show ?thesis using i uid img by (simp add: slot_ok_def)
  next
    case False
    have "qr (content ?c ! j) \<noteq> Some d"
      using tex_okD(3) [OF ok j] r i(3) False by (auto simp: slot_ok_def)
    with tex_okD(3) [OF ok j] False show ?thesis
      by (auto simp: slot_ok_def split: option.splits)
  qed
  have owner: "req_entry r' < length (content (cache ?st)) \<and> qr (content (cache ?st) ! req_entry r') = Some d'"
    if r': "art ?st d' = Some r'" for d' r'
  proof -
    have "d' \<noteq> d" "art st d' = Some r'" using r' by (auto split: if_splits)
    with tex_okD(4) [OF ok, of d' r'] i(2)
    have "req_entry r' \<noteq> i" "req_entry r' < length (content ?c)" "qr (content ?c ! req_entry r') = Some d'" by auto
    then show ?thesis by simp
  qed
  have "tex_ok src val (?st\<lparr>ioq := q\<rparr>)"
    if "set (art_pending l) \<subseteq> dom (art st)" "distinct (d # art_pending l)" "io_good q" "pending q = l" for q
    using that slots owner tex_okD(2) [OF ok] by (auto simp: tex_ok_def)
  moreover have "slot_loaded src f d st ?st"
    using r i img unfolding slot_loaded_def by (intro exI [of _ r]) simp
  ultimately show ?thesis using load by auto
qed

lemma find_oldest_slot:
  assumes "find_oldest es 0 f None = Some i"
  shows "i < length es \<and> qr (es ! i) = None \<and> lastUsed (es ! i) < f \<and>
    (\<forall>e\<in>set es. qr e = None \<longrightarrow> lastUsed (es ! i) \<le> lastUsed e)"
  using find_oldest_Some [OF assms] by auto

text \<open>A handle is what a client may hold: none, given up, or one whose UID was handed out for its value.\<close>

definition handle_ok :: "(int \<Rightarrow> string) \<Rightarrow> ('h, 't) texsys \<Rightarrow> int \<Rightarrow> int \<Rightarrow> string \<Rightarrow> bool" where
  "handle_ok val st cid uid v \<longleftrightarrow> cid = -1 \<or> cid = -2 \<or>
     0 \<le> cid \<and> nat cid < length (content (cache st)) \<and> 0 < uid \<and> uid < nextUID (cache st) \<and> val uid = v"

lemma slot_ok_val:
  "slot_ok src c ar val i e \<Longrightarrow> nextUID c \<le> u \<Longrightarrow> slot_ok src c ar (val(u := v)) i e"
  by (auto simp: slot_ok_def split: option.splits)

lemma cacheGetTexture_new:
  assumes ok: "tex_ok src val st" and fresh: "art st d = None" "a \<notin> dom (io_heap (ioq st))"
    and i: "find_oldest (content (cache st)) 0 f None = Some i"
    and p: "ioPutRequest IO_CACHE_LOAD_ART d a (ioq st) = Some (r, q)"
    and st': "st' = st\<lparr>cache := (cache st)\<lparr>content := (content (cache st))[i := cacheClearItem\<lparr>qr := Some d, UID := nextUID (cache st)\<rparr>],
         nextUID := nextUID (cache st) + 1\<rparr>,
       art := (art st)(d \<mapsto> \<lparr>req_entry = i, req_has_list = True, req_cacheUID = nextUID (cache st), req_value = v\<rparr>),
       ioq := q\<rparr>"
  shows "tex_ok src (val(nextUID (cache st) := v)) st'"
proof -
  let ?c = "cache st" and ?val = "val(nextUID (cache st) := v)"
  have len: "i < length (content ?c)" and free: "qr (content ?c ! i) = None"
    using find_oldest_slot [OF i] by auto
  have q: "io_good q" "pending q = pending (ioq st) @ [(IO_CACHE_LOAD_ART, d)] \<or> q = ioq st"
    using ioq.put_cases [OF tex_okD(1) [OF ok] fresh(2) p] by auto
  have slots: "slot_ok src (cache st') (art st') ?val j (content (cache st') ! j)"
    if j: "j < length (content ?c)" for j
  proof (cases "j = i")
    case True
    then show ?thesis using len by (simp add: slot_ok_def st' cacheClearItem_def)
  next
    case False
    have "slot_ok src ?c (art st) val j (content ?c ! j)" by (rule tex_okD(3) [OF ok j])
    with False fresh(1) show ?thesis
      by (auto simp: slot_ok_def st' split: option.splits)
  qed
  have owner: "req_entry r' < length (content (cache st')) \<and> qr (content (cache st') ! req_entry r') = Some d'"
    if r': "art st' d' = Some r'" for d' r'
  proof (cases "d' = d")
    case True
    then show ?thesis using r' len by (auto simp: st')
  next
    case False
    then have "art st d' = Some r'" using r' by (simp add: st')
    with tex_okD(4) [OF ok, of d' r'] free
    have "req_entry r' \<noteq> i" "req_entry r' < length (content ?c)" "qr (content ?c ! req_entry r') = Some d'" by auto
    then show ?thesis by (simp add: st')
  qed
  have "set (art_pending (pending q)) \<subseteq> dom (art st')" "distinct (art_pending (pending q))"
    using q(2) tex_okD(5,6) [OF ok] fresh(1) by (auto simp: st')
  then show ?thesis
    using slots owner q(1) tex_okD(2) [OF ok] by (auto simp: tex_ok_def st')
qed

lemma cacheGetTexture_touch:
  assumes ok: "tex_ok src val st" and i: "i < length (content (cache st))" and e: "qr (content (cache st) ! i) = None"
    "lastUsed (content (cache st) ! i) \<noteq> 0"
  shows "tex_ok src val (st\<lparr>cache := (cache st)\<lparr>content := (content (cache st))[i := (content (cache st) ! i)\<lparr>lastUsed := f\<rparr>]\<rparr>\<rparr>)"
proof -
  let ?c = "cache st"
  let ?st = "st\<lparr>cache := ?c\<lparr>content := (content ?c)[i := (content ?c ! i)\<lparr>lastUsed := f\<rparr>]\<rparr>\<rparr>"
  have slots: "slot_ok src (cache ?st) (art ?st) val j (content (cache ?st) ! j)" if "j < length (content ?c)" for j
    using tex_okD(3) [OF ok that] tex_okD(3) [OF ok i] e that
    by (cases "j = i") (auto simp: slot_ok_def split: option.splits)
  have owner: "req_entry r' < length (content (cache ?st)) \<and> qr (content (cache ?st) ! req_entry r') = Some d'"
    if "art ?st d' = Some r'" for d' r'
  proof -
    have "art st d' = Some r'" using that by simp
    with tex_okD(4) [OF ok, of d' r'] e
    have "req_entry r' \<noteq> i" "req_entry r' < length (content ?c)" "qr (content ?c ! req_entry r') = Some d'" by auto
    then show ?thesis by simp
  qed
  show ?thesis using slots owner tex_okD(1,2,5,6) [OF ok] by (auto simp: tex_ok_def)
qed

lemma put_returns:
  assumes "io_good st" and "a \<notin> dom (io_heap st)"
  shows "\<exists>r st'. ioPutRequest ty d a st = Some (r, st')"
  using ioq.put_taken [OF assms(1) _ assms(2), of ty d] ioq.put_refused [of ty st d a]
  by (cases "accepts ty st") auto

text \<open>The ghost map after a call for the value \<open>v\<close>: a UID handed out by it stands for \<open>v\<close>.\<close>

definition note_uid :: "('h, 't) texsys \<Rightarrow> ('h, 't) texsys \<Rightarrow> string \<Rightarrow> (int \<Rightarrow> string) \<Rightarrow> (int \<Rightarrow> string)" where
  "note_uid st st' v val =
     (if nextUID (cache st') = nextUID (cache st) then val else val(nextUID (cache st) := v))"

lemma note_uid_same [simp]: "nextUID (cache st') = nextUID (cache st) \<Longrightarrow> note_uid st st' v val = val"
  by (simp add: note_uid_def)

lemma cacheGetTexture_ok:
  assumes ok: "tex_ok src val st" and h: "handle_ok val st cid uid v"
    and fresh: "art st d = None" "a \<notin> dom (io_heap (ioq st))"
  shows "\<exists>res cid' uid' st'. cacheGetTexture f fi dl d a cid uid v st = Some (res, cid', uid', st') \<and>
    tex_ok src (note_uid st st' v val) st' \<and> handle_ok (note_uid st st' v val) st' cid' uid' v \<and>
    (\<forall>t. res = Some t \<longrightarrow> t = image_of src (cache st) v)"
proof -
  let ?c = "cache st"
  have miss: ?thesis if "cid \<noteq> -2" "cid = -1 \<or> UID (content ?c ! nat cid) \<noteq> uid"
  proof (cases "fi < dl")
    case True
    with that h ok show ?thesis
      by (auto simp: cacheGetTexture_def Let_def handle_ok_def)
  next
    case False
    show ?thesis
    proof (cases "find_oldest (content ?c) 0 f None")
      case None
      with False that h ok show ?thesis
        by (auto simp: cacheGetTexture_def Let_def handle_ok_def)
    next
      case (Some i)
      obtain r q where p: "ioPutRequest IO_CACHE_LOAD_ART d a (ioq st) = Some (r, q)"
        using put_returns [OF tex_okD(1) [OF ok] fresh(2)] by blast
      define st' where "st' = st\<lparr>cache := ?c\<lparr>content := (content ?c)[i := cacheClearItem\<lparr>qr := Some d, UID := nextUID ?c\<rparr>],
         nextUID := nextUID ?c + 1\<rparr>,
       art := (art st)(d \<mapsto> \<lparr>req_entry = i, req_has_list = True, req_cacheUID = nextUID ?c, req_value = v\<rparr>),
       ioq := q\<rparr>"
      have "cacheGetTexture f fi dl d a cid uid v st = Some (None, int i, nextUID ?c, st')"
        using False that h Some p by (auto simp: cacheGetTexture_def Let_def st'_def handle_ok_def)
      moreover have "tex_ok src (val(nextUID ?c := v)) st'"
        by (rule cacheGetTexture_new [OF ok fresh Some p st'_def])
      moreover have "handle_ok (val(nextUID ?c := v)) st' (int i) (nextUID ?c) v"
        using find_oldest_slot [OF Some] tex_okD(2) [OF ok] by (auto simp: handle_ok_def st'_def)
      moreover have "note_uid st st' v val = val(nextUID ?c := v)" by (simp add: note_uid_def st'_def)
      ultimately show ?thesis by simp
    qed
  qed
  show ?thesis
  proof (cases "cid = -2 \<or> cid = -1 \<or> UID (content ?c ! nat cid) \<noteq> uid")
    case True
    with miss ok h show ?thesis
      by (cases "cid = -2") (auto simp: cacheGetTexture_def Let_def)
  next
    case False
    then have i: "0 \<le> cid" "nat cid < length (content ?c)" "0 < uid" "val uid = v" "UID (content ?c ! nat cid) = uid"
      using h by (auto simp: handle_ok_def)
    let ?e = "content ?c ! nat cid"
    consider "qr ?e \<noteq> None" | "qr ?e = None" "lastUsed ?e = 0" | "qr ?e = None" "lastUsed ?e \<noteq> 0" by blast
    then show ?thesis
    proof cases
      case 1
      with False i ok h show ?thesis by (auto simp: cacheGetTexture_def Let_def)
    next
      case 2
      with False i ok h show ?thesis by (auto simp: cacheGetTexture_def Let_def handle_ok_def)
    next
      case 3
      let ?st = "st\<lparr>cache := ?c\<lparr>content := (content ?c)[nat cid := ?e\<lparr>lastUsed := f\<rparr>]\<rparr>\<rparr>"
      have "cacheGetTexture f fi dl d a cid uid v st = Some (Some (texture ?e), cid, uid, ?st)"
        using False i 3 by (auto simp: cacheGetTexture_def Let_def)
      moreover have "tex_ok src val ?st" by (rule cacheGetTexture_touch [OF ok i(2) 3])
      moreover have "handle_ok val ?st cid uid v" using h by (auto simp: handle_ok_def)
      moreover have "texture ?e = image_of src ?c v"
        using tex_okD(3) [OF ok i(2)] 3 i by (simp add: slot_ok_def)
      ultimately show ?thesis by fastforce
    qed
  qed
qed

lemma serve_art_ok:
  assumes ok: "tex_ok src val st" and ne: "ioHasPendingRequests (ioq st)"
  shows "\<exists>st'. serve_art src f st = Some st' \<and> tex_ok src val st' \<and>
    pending (ioq st') = tl (pending (ioq st)) \<and> nextUID (cache st') = nextUID (cache st) \<and>
    (\<forall>d l. pending (ioq st) = (IO_CACHE_LOAD_ART, d) # l \<longrightarrow> art st' d = None \<and> slot_loaded src f d st st')"
proof -
  obtain xs where q: "queue_ok (ioq st) xs" and e: "endSema (ioq st)"
    using tex_okD(1) [OF ok] by (auto simp: io_good_def list_ok_def)
  have "xs \<noteq> []" using queue_ok_empty [OF q] ne by (simp add: ioHasPendingRequests_def)
  then obtain a as where xs: "xs = a # as" by (cases xs) auto
  obtain n where n: "gReqList (ioq st) = Some a" "io_heap (ioq st) a = Some n"
    using queue_okD(1) [OF q] by (auto simp: xs)
  have pend: "pending (ioq st) = (ntype n, ndata n) # contents (io_heap (ioq st)) as"
    by (simp add: pending_contents [OF q] xs n)
  obtain q' where p: "worker_pop a (ioq st) = Some (Looping, q')" "queue_ok q' as"
      "contents (io_heap q') as = contents (io_heap (ioq st)) as" "endSema q' = endSema (ioq st)"
    using worker_pop_ok [OF q [unfolded xs] e] by blast
  let ?l = "contents (io_heap (ioq st)) as"
  have q': "io_good q'" "pending q' = ?l"
    using p e by (auto simp: io_good_def list_ok_def pending_contents [OF p(2)])
  show ?thesis
  proof (cases "ntype n = IO_CACHE_LOAD_ART")
    case True
    have d: "ndata n \<in> dom (art st)" "set (art_pending ?l) \<subseteq> dom (art st)" "distinct (ndata n # art_pending ?l)"
      using tex_okD(5,6) [OF ok] by (auto simp: pend True)
    obtain st1 where st1: "cacheLoadImage src f (ndata n) st = Some st1" "ioq st1 = ioq st"
        "nextUID (cache st1) = nextUID (cache st)" "tex_ok src val (st1\<lparr>ioq := q'\<rparr>)"
        "dom (art st1) = dom (art st) - {ndata n}" "slot_loaded src f (ndata n) st st1"
      using cacheLoadImage_ok [OF ok d(1), of f ?l] d q' by blast
    moreover from this(5) have "art st1 (ndata n) = None" by blast
    ultimately show ?thesis using n p(1) True q' by (simp add: serve_art_def pend)
  next
    case False
    have "tex_ok src val (st\<lparr>ioq := q'\<rparr>)"
      using ok q' False by (auto simp: tex_ok_def pend)
    then show ?thesis using n p(1) False q' by (simp add: serve_art_def pend)
  qed
qed

lemma cancel_ok:
  assumes ok: "tex_ok src val st" and idle: "io_idle (ioq st)"
  shows "\<exists>q. cacheCancelPendingImageLoads st = Some (st\<lparr>ioq := q\<rparr>) \<and> tex_ok src val (st\<lparr>ioq := q\<rparr>) \<and>
    art_pending (pending q) = []"
proof -
  obtain q where "ioRemoveRequests IO_CACHE_LOAD_ART (ioq st) =
      Some (length (filter (\<lambda>r. fst r = IO_CACHE_LOAD_ART) (pending (ioq st))), q)" "io_good q"
      "pending q = filter (\<lambda>r. fst r \<noteq> IO_CACHE_LOAD_ART) (pending (ioq st))"
    using ioq.cancelled [OF tex_okD(1) [OF ok] idle] by blast
  then show ?thesis using ok by (auto simp: cacheCancelPendingImageLoads_def tex_ok_def)
qed

section \<open>Steps\<close>

text \<open>
  The clients' calls, the worker thread serving a request, the cancellation, and requests of other types
  by the rest of the program. The ghost map goes along.
\<close>

inductive tex_step ::
  "'t art_source \<Rightarrow> (int \<Rightarrow> string) \<times> ('h, 't) texsys \<Rightarrow> (int \<Rightarrow> string) \<times> ('h, 't) texsys \<Rightarrow> bool" for src where
  get: "handle_ok val st cid uid v \<Longrightarrow> art st d = None \<Longrightarrow> a \<notin> dom (io_heap (ioq st)) \<Longrightarrow>
    cacheGetTexture f fi dl d a cid uid v st = Some (res, cid', uid', st') \<Longrightarrow>
    tex_step src (val, st) (note_uid st st' v val, st')"
| serve: "serve_art src f st = Some st' \<Longrightarrow> tex_step src (val, st) (val, st')"
| cancel: "io_idle (ioq st) \<Longrightarrow> cacheCancelPendingImageLoads st = Some st' \<Longrightarrow> tex_step src (val, st) (val, st')"
| other: "ty \<noteq> IO_CACHE_LOAD_ART \<Longrightarrow> a \<notin> dom (io_heap (ioq st)) \<Longrightarrow> ioPutRequest ty x a (ioq st) = Some (r, q) \<Longrightarrow>
    tex_step src (val, st) (val, st\<lparr>ioq := q\<rparr>)"

text \<open>A slot whose request is no longer in the queue.\<close>

definition stranded :: "nat \<Rightarrow> nat \<Rightarrow> ('h, 't) texsys \<Rightarrow> bool" where
  "stranded i d st \<longleftrightarrow> i < length (content (cache st)) \<and> qr (content (cache st) ! i) = Some d \<and>
     d \<notin> set (art_pending (pending (ioq st)))"

lemma serve_has_pending: "serve_art src f st = Some st' \<Longrightarrow> ioHasPendingRequests (ioq st)"
  by (cases "gReqList (ioq st)") (auto simp: serve_art_def ioHasPendingRequests_def)

lemma tex_step_ok:
  assumes "tex_step src s s'" and "tex_ok src (fst s) (snd s)"
  shows "tex_ok src (fst s') (snd s')"
  using assms
proof cases
  case (get val st cid uid v d a f fi dl res cid' uid' st')
  with cacheGetTexture_ok [of src val st cid uid v d a f fi dl] assms(2) show ?thesis by auto
next
  case (serve f st st' val)
  with serve_art_ok [of src val st f] serve_has_pending [OF serve(3)] assms(2) show ?thesis by auto
next
  case (cancel st st' val)
  with cancel_ok [of src val st] assms(2) show ?thesis by auto
next
  case (other ty a st x r q val)
  have ok: "tex_ok src val st" using other assms(2) by simp
  have "io_good q" "pending q = pending (ioq st) @ [(ty, x)] \<or> q = ioq st"
    using ioq.put_cases [OF tex_okD(1) [OF ok] other(4,5)] by auto
  with other ok show ?thesis by (auto simp: tex_ok_def)
qed

lemma get_keeps_queued_slot:
  assumes "cacheGetTexture f fi dl e a cid uid v st = Some (res, cid', uid', st')"
    and "i < length (content (cache st))" and "qr (content (cache st) ! i) = Some d"
  shows "content (cache st') ! i = content (cache st) ! i \<and>
    length (content (cache st')) = length (content (cache st)) \<and>
    (ioq st' = ioq st \<or> (\<exists>r. ioPutRequest IO_CACHE_LOAD_ART e a (ioq st) = Some (r, ioq st')))"
proof -
  have "j \<noteq> i" if "find_oldest (content (cache st)) 0 f None = Some j" for j
    using find_oldest_slot [OF that] assms(3) by auto
  then show ?thesis using assms
    by (auto simp: cacheGetTexture_def Let_def bind_eq_Some_conv nth_list_update split: if_splits option.splits)
qed

lemma load_keeps_other_slot:
  assumes "tex_ok src val st" and "cacheLoadImage src f e st = Some st'" and "qr (content (cache st) ! i) = Some d" and "d \<noteq> e"
  shows "content (cache st') ! i = content (cache st) ! i \<and>
    length (content (cache st')) = length (content (cache st)) \<and> ioq st' = ioq st"
proof -
  obtain r where r: "art st e = Some r" using assms(2) by (cases "art st e") (auto simp: cacheLoadImage_def)
  have "req_entry r \<noteq> i" using tex_okD(4) [OF assms(1) r] assms(3,4) by auto
  then show ?thesis using assms(2) r
    by (auto simp: cacheLoadImage_def Let_def split: if_splits prod.splits)
qed

lemma tex_step_stranded:
  assumes "tex_step src s s'" and "tex_ok src (fst s) (snd s)" and "stranded i d (snd s)"
  shows "stranded i d (snd s') \<and> UID (content (cache (snd s')) ! i) = UID (content (cache (snd s)) ! i)"
  using assms
proof cases
  case (get val st cid uid v e a f fi dl res cid' uid' st')
  have s: "i < length (content (cache st))" "qr (content (cache st) ! i) = Some d"
    "d \<notin> set (art_pending (pending (ioq st)))" and ok: "tex_ok src val st"
    using get(1) assms(2,3) by (auto simp: stranded_def)
  have "art st d \<noteq> None" using tex_okD(3) [OF ok s(1)] s(2) by (simp add: slot_ok_def)
  then have "d \<noteq> e" using get by auto
  moreover have k: "content (cache st') ! i = content (cache st) ! i"
      "length (content (cache st')) = length (content (cache st))"
      "ioq st' = ioq st \<or> (\<exists>r. ioPutRequest IO_CACHE_LOAD_ART e a (ioq st) = Some (r, ioq st'))"
    using get_keeps_queued_slot [OF get(6) s(1,2)] by auto
  moreover have "pending (ioq st') = pending (ioq st) \<or> pending (ioq st') = pending (ioq st) @ [(IO_CACHE_LOAD_ART, e)]"
    using k(3) ioq.put_cases [OF tex_okD(1) [OF ok] get(5)] by metis
  ultimately show ?thesis using get s by (auto simp: stranded_def)
next
  case (serve f st st' val)
  have s: "i < length (content (cache st))" "qr (content (cache st) ! i) = Some d"
    "d \<notin> set (art_pending (pending (ioq st)))" and ok: "tex_ok src val st"
    using serve(1) assms(2,3) by (auto simp: stranded_def)
  have ne: "ioHasPendingRequests (ioq st)" by (rule serve_has_pending [OF serve(3)])
  obtain xs where q: "queue_ok (ioq st) xs" using tex_okD(1) [OF ok] by (auto simp: io_good_def list_ok_def)
  obtain a as where xs: "xs = a # as"
    using queue_ok_empty [OF q] ne by (cases xs) (auto simp: ioHasPendingRequests_def)
  obtain n where n: "gReqList (ioq st) = Some a" "io_heap (ioq st) a = Some n"
    using queue_okD(1) [OF q] by (auto simp: xs)
  have pend: "pending (ioq st) = (ntype n, ndata n) # contents (io_heap (ioq st)) as"
    by (simp add: pending_contents [OF q] xs n)
  have "pending (ioq st') = tl (pending (ioq st))"
    using serve_art_ok [OF ok ne, of f] serve(3) by auto
  then have "d \<notin> set (art_pending (pending (ioq st')))"
    using s(3) by (auto simp: pend art_pending_def)
  moreover have "content (cache st') ! i = content (cache st) ! i \<and>
      length (content (cache st')) = length (content (cache st))"
  proof (cases "ntype n = IO_CACHE_LOAD_ART")
    case True
    have "d \<noteq> ndata n" using s(3) by (simp add: pend True)
    moreover obtain st1 where "cacheLoadImage src f (ndata n) st = Some st1" "cache st' = cache st1"
      using serve(3) n True by (auto simp: serve_art_def bind_eq_Some_conv)
    ultimately show ?thesis using load_keeps_other_slot [OF ok _ s(2), of f "ndata n" st1] by simp
  next
    case False
    then show ?thesis using serve(3) n by (auto simp: serve_art_def bind_eq_Some_conv)
  qed
  ultimately show ?thesis using serve s by (auto simp: stranded_def)
next
  case (cancel st st' val)
  then obtain q where "st' = st\<lparr>ioq := q\<rparr>" "art_pending (pending q) = []"
    using cancel_ok [of src val st] assms(2) by auto
  then show ?thesis using cancel assms(3) by (auto simp: stranded_def)
next
  case (other ty a st x r q val)
  have ok: "tex_ok src val st" using other assms(2) by simp
  have "pending q = pending (ioq st) @ [(ty, x)] \<or> q = ioq st"
    using ioq.put_cases [OF tex_okD(1) [OF ok] other(4,5)] by auto
  with other assms(3) show ?thesis by (auto simp: stranded_def)
qed

lemma tex_steps_ok:
  assumes "(tex_step src)\<^sup>*\<^sup>* s s'" and "tex_ok src (fst s) (snd s)"
  shows "tex_ok src (fst s') (snd s')"
  using assms by (induction rule: rtranclp_induct) (auto intro: tex_step_ok)

lemma tex_steps_stranded:
  assumes "(tex_step src)\<^sup>*\<^sup>* s s'" and "tex_ok src (fst s) (snd s)" and "stranded i d (snd s)"
  shows "stranded i d (snd s') \<and> UID (content (cache (snd s')) ! i) = UID (content (cache (snd s)) ! i)"
  using assms
proof (induction rule: rtranclp_induct)
  case (step u v)
  then have "stranded i d (snd u)" "tex_ok src (fst u) (snd u)"
    using tex_steps_ok by blast+
  with tex_step_stranded [OF step(2)] step show ?case by auto
qed simp

section \<open>Properties\<close>

text \<open>A fresh cache: no slot in use, no request under way.\<close>

definition tex_start :: "int \<Rightarrow> string option \<Rightarrow> bool \<Rightarrow> string \<Rightarrow> nat \<Rightarrow> ('h, nat) ioman \<Rightarrow> ('h, 't) texsys" where
  "tex_start u pre rel suf count q = \<lparr>cache = cacheInitCache u pre rel suf count, art = Map.empty, ioq = q\<rparr>"

lemma tex_start_ok:
  "io_good q \<Longrightarrow> art_pending (pending q) = [] \<Longrightarrow> tex_ok src val (tex_start u pre rel suf n q)"
  by (auto simp: tex_ok_def tex_start_def cacheInitCache_def slot_ok_def cacheClearItem_def)

text \<open>
  C13: in every state that the clients, the worker thread and cancellations can reach, a client that asks
  for the image of a value with a handle handed out for that value gets an answer; if it gets a texture,
  that is the image that the source has for this value, never one of another item, whatever slots have
  been reused in between.
\<close>

theorem never_wrong_art:
  assumes q: "io_good q" "art_pending (pending q) = []"
    and run: "(tex_step src)\<^sup>*\<^sup>* (val0, tex_start u pre rel suf n q) (val, st)"
    and h: "handle_ok val st cid uid v" and fresh: "art st d = None" "a \<notin> dom (io_heap (ioq st))"
  shows "\<exists>res cid' uid' st'. cacheGetTexture f fi dl d a cid uid v st = Some (res, cid', uid', st') \<and>
    handle_ok (note_uid st st' v val) st' cid' uid' v \<and> (\<forall>t. res = Some t \<longrightarrow> t = image_of src (cache st) v)"
proof -
  have "tex_ok src val st"
    using tex_steps_ok [OF run] tex_start_ok [OF q, of src val0 u pre rel suf n] by simp
  from cacheGetTexture_ok [OF this h fresh, of f fi dl] show ?thesis by blast
qed


text \<open>
  cancelling the pending loads strands the slots that were waiting: whatever happens afterwards, such
  a slot keeps its dead request, answers its client with no texture, and is never reused.
\<close>

lemma cancelled_slots_are_lost:
  assumes q: "io_good q" "art_pending (pending q) = []"
    and run: "(tex_step src)\<^sup>*\<^sup>* (val0, tex_start u pre rel suf n q) (val, st)"
    and slot: "i < length (content (cache st))" "qr (content (cache st) ! i) = Some d"
    and cancel: "io_idle (ioq st)" "cacheCancelPendingImageLoads st = Some st1"
    and later: "(tex_step src)\<^sup>*\<^sup>* (val, st1) (val2, st2)"
  shows "qr (content (cache st2) ! i) = Some d \<and>
    cacheGetTexture f fi dl e a (int i) (UID (content (cache st) ! i)) v st2 =
      Some (None, int i, UID (content (cache st) ! i), st2)"
proof -
  have ok: "tex_ok src val st"
    using tex_steps_ok [OF run] tex_start_ok [OF q, of src val0 u pre rel suf n] by simp
  obtain q1 where st1: "st1 = st\<lparr>ioq := q1\<rparr>" "tex_ok src val st1" "art_pending (pending q1) = []"
    using cancel_ok [OF ok cancel(1)] cancel(2) by auto
  then have "stranded i d st1" using slot by (auto simp: stranded_def)
  with tex_steps_stranded [OF later, of i d] st1 slot
  have "stranded i d st2" "UID (content (cache st2) ! i) = UID (content (cache st) ! i)" by auto
  then show ?thesis by (auto simp: stranded_def cacheGetTexture_def Let_def)
qed

text \<open>
  destroying a cache frees the requests of its slots but leaves them in the queue: the worker thread
  then works on freed memory.
\<close>

lemma destroyed_cache_request_dangles:
  assumes q: "io_good q" "art_pending (pending q) = []"
    and run: "(tex_step src)\<^sup>*\<^sup>* (val0, tex_start u pre rel suf n q) (val, st)"
    and head: "pending (ioq st) = (IO_CACHE_LOAD_ART, d) # l"
  shows "art (cacheDestroyCache st) d = None \<and> pending (ioq (cacheDestroyCache st)) = pending (ioq st) \<and>
    serve_art src f (cacheDestroyCache st) = None"
proof -
  have ok: "tex_ok src val st"
    using tex_steps_ok [OF run] tex_start_ok [OF q, of src val0 u pre rel suf n] by simp
  obtain r where r: "art st d = Some r" using tex_okD(5) [OF ok] head by auto
  have i: "req_entry r < length (content (cache st))" "qr (content (cache st) ! req_entry r) = Some d"
    using tex_okD(4) [OF ok r] by auto
  then have "content (cache st) ! req_entry r \<in> set (content (cache st))" by simp
  with i(2) have "Some d \<in> set (map qr (content (cache st)))" by (metis image_eqI set_map)
  then have dead: "art (cacheDestroyCache st) d = None" by (simp add: cacheDestroyCache_def)
  obtain xs where xs: "queue_ok (ioq st) xs" using tex_okD(1) [OF ok] by (auto simp: io_good_def list_ok_def)
  obtain a as where xs': "xs = a # as" using head pending_contents [OF xs] by (cases xs) auto
  obtain m where m: "gReqList (ioq st) = Some a" "io_heap (ioq st) a = Some m"
    using queue_okD(1) [OF xs] by (auto simp: xs')
  have "ntype m = IO_CACHE_LOAD_ART" "ndata m = d"
    using head pending_contents [OF xs] m by (auto simp: xs')
  with m dead show ?thesis
    by (simp add: serve_art_def cacheDestroyCache_def cacheLoadImage_def)
qed

text \<open>
  the slot that a new request takes is one without a request of its own, not used in the current
  frame, and the least recently used of these; no other slot changes.
\<close>

lemma victim_least_recently_used:
  assumes "cacheGetTexture f fi dl d a (-1) uid v st = Some (res, cid', uid', st')" and "cid' \<noteq> -1"
  shows "\<exists>i<length (content (cache st)). cid' = int i \<and> qr (content (cache st) ! i) = None \<and>
    lastUsed (content (cache st) ! i) < f \<and>
    (\<forall>e\<in>set (content (cache st)). qr e = None \<longrightarrow> lastUsed (content (cache st) ! i) \<le> lastUsed e) \<and>
    (\<forall>j<length (content (cache st)). j \<noteq> i \<longrightarrow> content (cache st') ! j = content (cache st) ! j)"
proof -
  obtain i where i: "find_oldest (content (cache st)) 0 f None = Some i" "cid' = int i"
      "\<forall>j<length (content (cache st)). j \<noteq> i \<longrightarrow> content (cache st') ! j = content (cache st) ! j"
    using assms by (auto simp: cacheGetTexture_def Let_def bind_eq_Some_conv split: if_splits option.splits)
  then show ?thesis using find_oldest_slot [OF i(1)] by auto
qed

section \<open>A concrete cache\<close>

text \<open>Two slots; the image of a value is the value itself.\<close>

definition demo_q :: "(unit, nat) ioman" where
  "demo_q = \<lparr>io_heap = Map.empty, gReqList = None, gReqEnd = None, gRequestHandlers = [(3, ())],
     procSema = True, endSema = True, gIOTerminate = False, isIOBlocked = False\<rparr>"

definition demo_src :: "string art_source" where
  "demo_src = \<lparr>itemGetArchivedImage = (\<lambda>_ _ _. (-1, None)), itemGetImage = (\<lambda>_ _ v _. (0, Some v))\<rparr>"

definition demo_val :: "int \<Rightarrow> string" where
  "demo_val u = (if u = 1 then ''A'' else [])"

definition demo_t0 :: "(unit, string) texsys" where
  "demo_t0 = tex_start 0 None False ''COV'' 2 demo_q"

definition demo_t1 :: "(unit, string) texsys" where
  "demo_t1 = \<lparr>cache = \<lparr>userId = 0, cprefix = None, isPrefixRelative = False, csuffix = ''COV'', nextUID = 2,
     content = [\<lparr>texture = None, qr = Some 5, lastUsed = -1, UID = 1\<rparr>, cacheClearItem]\<rparr>,
   art = [5 \<mapsto> \<lparr>req_entry = 0, req_has_list = True, req_cacheUID = 1, req_value = ''A''\<rparr>],
   ioq = demo_q\<lparr>gReqList := Some 0, gReqEnd := Some 0, io_heap := [0 \<mapsto> \<lparr>ntype = 3, ndata = 5, nnext = None\<rparr>]\<rparr>\<rparr>"

definition demo_t2 :: "(unit, string) texsys" where
  "demo_t2 = \<lparr>cache = \<lparr>userId = 0, cprefix = None, isPrefixRelative = False, csuffix = ''COV'', nextUID = 2,
     content = [\<lparr>texture = Some ''A'', qr = None, lastUsed = 11, UID = 1\<rparr>, cacheClearItem]\<rparr>,
   art = Map.empty, ioq = demo_q\<rparr>"

lemma demo_q_good: "io_good demo_q" "art_pending (pending demo_q) = []"
proof -
  have "queue_ok demo_q []" by (simp add: demo_q_def queue_ok_def)
  then show "io_good demo_q" "art_pending (pending demo_q) = []"
    by (auto simp: io_good_def list_ok_def pending_contents) (simp add: demo_q_def)
qed

lemma demo_t1_eq: "cacheGetTexture 10 9 8 5 0 (-1) 0 ''A'' demo_t0 = Some (None, 0, 1, demo_t1)"
  by (simp add: demo_t0_def demo_t1_def tex_start_def cacheInitCache_def demo_q_def cacheGetTexture_def
      cacheClearItem_def ioPutRequest_def put_check_def put_enqueue_def ioGetHandler_def IO_OK_def
      IO_CACHE_LOAD_ART_def Let_def eval_nat_numeral)

lemma demo_t2_eq: "serve_art demo_src 11 demo_t1 = Some demo_t2"
  by (simp add: demo_t1_def demo_t2_def serve_art_def cacheLoadImage_def worker_pop_def demo_src_def
      IO_CACHE_LOAD_ART_def demo_q_def fun_eq_iff)

lemma demo_t1_run: "(tex_step demo_src)\<^sup>*\<^sup>* (\<lambda>_. [], demo_t0) (demo_val, demo_t1)"
proof -
  have "handle_ok (\<lambda>_. []) demo_t0 (-1) 0 ''A''" "art demo_t0 5 = None" "0 \<notin> dom (io_heap (ioq demo_t0))"
    by (simp_all add: handle_ok_def demo_t0_def tex_start_def demo_q_def)
  from get [OF this demo_t1_eq, of demo_src]
  have "tex_step demo_src (\<lambda>_. [], demo_t0) (note_uid demo_t0 demo_t1 ''A'' (\<lambda>_. []), demo_t1)" .
  moreover have "note_uid demo_t0 demo_t1 ''A'' (\<lambda>_. []) = demo_val"
    by (auto simp: note_uid_def demo_t0_def demo_t1_def demo_val_def tex_start_def cacheInitCache_def)
  ultimately show ?thesis by auto
qed

lemma demo_t2_run: "(tex_step demo_src)\<^sup>*\<^sup>* (\<lambda>_. [], demo_t0) (demo_val, demo_t2)"
  using demo_t1_run tex_step.serve [OF demo_t2_eq] by (rule rtranclp.rtrancl_into_rtrancl)

lemma demo_t1_pending: "pending (ioq demo_t1) = [(IO_CACHE_LOAD_ART, 5)]"
proof -
  have "queue_ok (ioq demo_t1) [0]" by (simp add: demo_t1_def queue_ok_def)
  then show ?thesis by (simp add: pending_contents IO_CACHE_LOAD_ART_def) (simp add: demo_t1_def)
qed

section \<open>Witnesses\<close>

theorem never_wrong_art_witness:
  "\<exists>res cid' uid' st'. cacheGetTexture 12 0 8 6 0 0 1 ''A'' demo_t2 = Some (res, cid', uid', st') \<and>
     (\<forall>t. res = Some t \<longrightarrow> t = Some ''A'')"
proof -
  have h: "handle_ok demo_val demo_t2 0 1 ''A''" and f: "art demo_t2 6 = None" "0 \<notin> dom (io_heap (ioq demo_t2))"
    by (simp_all add: handle_ok_def demo_val_def demo_t2_def demo_q_def)
  have "image_of demo_src (cache demo_t2) ''A'' = Some ''A''" by (simp add: image_of_def demo_src_def)
  with never_wrong_art [OF demo_q_good demo_t2_run [unfolded demo_t0_def] h f, of 12 0 8] show ?thesis by auto
qed


theorem cancelled_slots_are_lost_witness:
  "\<exists>st1. cacheCancelPendingImageLoads demo_t1 = Some st1 \<and>
     cacheGetTexture 12 0 8 6 0 0 1 ''A'' st1 = Some (None, 0, 1, st1)"
proof -
  have s: "0 < length (content (cache demo_t1))" "qr (content (cache demo_t1) ! 0) = Some 5"
    "UID (content (cache demo_t1) ! 0) = 1" "io_idle (ioq demo_t1)"
    by (simp_all add: demo_t1_def demo_q_def io_idle_def)
  obtain st1 where c: "cacheCancelPendingImageLoads demo_t1 = Some st1"
    using cancel_ok [OF tex_steps_ok [OF demo_t1_run, simplified] s(4)]
      tex_start_ok [OF demo_q_good, of demo_src "\<lambda>_. []" 0 None False "''COV''" 2] by (auto simp: demo_t0_def)
  from cancelled_slots_are_lost [OF demo_q_good demo_t1_run [unfolded demo_t0_def] s(1,2,4) c rtranclp.rtrancl_refl,
      of 12 0 8 6 0 "''A''"] s(3) c show ?thesis by auto
qed

theorem destroyed_cache_request_dangles_witness:
  "serve_art demo_src 11 (cacheDestroyCache demo_t1) = None"
  using destroyed_cache_request_dangles [OF demo_q_good demo_t1_run [unfolded demo_t0_def] demo_t1_pending, of 11]
  by simp

theorem victim_least_recently_used_witness:
  "\<exists>i<2. qr (content (cache demo_t0) ! i) = None \<and> lastUsed (content (cache demo_t0) ! i) < 10"
proof -
  have "length (content (cache demo_t0)) = 2" by (simp add: demo_t0_def tex_start_def cacheInitCache_def)
  with victim_least_recently_used [OF demo_t1_eq]
  have "qr (content (cache demo_t0) ! 0) = None" "lastUsed (content (cache demo_t0) ! 0) < 10" by auto
  then show ?thesis by (intro exI [of _ 0]) simp
qed

end
