(* ===== verification/Cstrings.thy ===== *)
theory Cstrings
  imports Wopl_Prelude
begin

text \<open>
  C strings of the front end: a string is the list of its characters without the terminating zero. Here
  are the standard functions that the configuration code calls on them: bounded copies, searches,
  \<^verbatim>\<open>%d\<close> and \<^verbatim>\<open>%02X\<close> of \<^verbatim>\<open>printf\<close>, \<^verbatim>\<open>%d\<close> of \<^verbatim>\<open>sscanf\<close>, and \<^verbatim>\<open>fromHex\<close> of \<^verbatim>\<open>src/util.c\<close>.
\<close>

section \<open>Copies and searches\<close>

text \<open>The string in a block of memory: up to its first zero.\<close>

abbreviation NUL :: char where "NUL \<equiv> CHR 0x00"

definition cstr_of :: "string \<Rightarrow> string" where
  "cstr_of s = takeWhile (\<lambda>c. c \<noteq> NUL) s"

lemma cstr_of_id: "NUL \<notin> set s \<Longrightarrow> cstr_of s = s"
  by (auto simp: cstr_of_def takeWhile_eq_all_conv)

text \<open>\<^verbatim>\<open>strncpy(dst, src, size - 1); dst[size - 1] = 0\<close>, in \<^verbatim>\<open>copy_str\<close> of two files.\<close>

definition copy_str :: "string \<Rightarrow> nat \<Rightarrow> string" where
  "copy_str src n = take (n - 1) src"

definition strchr_c :: "string \<Rightarrow> char \<Rightarrow> nat option" where
  "strchr_c s c = (if c \<in> set s then Some (length (takeWhile (\<lambda>x. x \<noteq> c) s)) else None)"

definition strrchr_c :: "string \<Rightarrow> char \<Rightarrow> nat option" where
  "strrchr_c s c =
     (if c \<in> set s then Some (length s - 1 - length (takeWhile (\<lambda>x. x \<noteq> c) (rev s))) else None)"

lemma copy_str_id [simp]: "length s < n \<Longrightarrow> copy_str s n = s"
  by (simp add: copy_str_def)

lemma length_copy_str: "0 < n \<Longrightarrow> length (copy_str s n) < n"
  by (auto simp: copy_str_def)

lemma set_copy_str: "set (copy_str s n) \<subseteq> set s"
  by (simp add: copy_str_def set_take_subset)

lemma length_takeWhile_less: "c \<in> set s \<Longrightarrow> length (takeWhile (\<lambda>x. x \<noteq> c) s) < length s"
  by (induction s) auto

lemma strrchr_split:
  assumes "strrchr_c s c = Some n"
  shows "n < length s" and "s ! n = c" and "c \<notin> set (drop (n + 1) s)"
proof -
  let ?t = "length (takeWhile (\<lambda>x. x \<noteq> c) (rev s))"
  have c: "c \<in> set (rev s)" and n: "n = length s - 1 - ?t"
    using assms by (auto simp: strrchr_c_def split: if_splits)
  have t: "?t < length (rev s)"
    using c by (rule length_takeWhile_less)
  then show "n < length s" using n by simp
  have "rev s ! ?t = c" using nth_length_takeWhile [OF t] by simp
  then show "s ! n = c" using t n by (simp add: rev_nth)
  have "drop (n + 1) s = rev (take ?t (rev s))"
    using t n by (simp add: take_rev Suc_diff_Suc)
  also have "\<dots> = rev (takeWhile (\<lambda>x. x \<noteq> c) (rev s))"
    by (simp add: takeWhile_eq_take [symmetric])
  finally show "c \<notin> set (drop (n + 1) s)" by (auto dest: set_takeWhileD)
qed

lemma strchr_split:
  assumes "strchr_c s c = Some n"
  shows "n < length s" and "s ! n = c" and "c \<notin> set (take n s)"
proof -
  have c: "c \<in> set s" and n: "n = length (takeWhile (\<lambda>x. x \<noteq> c) s)"
    using assms by (auto simp: strchr_c_def split: if_splits)
  have t: "n < length s"
    unfolding n using c by (rule length_takeWhile_less)
  then show "n < length s" .
  show "s ! n = c" using nth_length_takeWhile [of "\<lambda>x. x \<noteq> c" s] t n by simp
  have "take n s = takeWhile (\<lambda>x. x \<noteq> c) s" by (simp add: n takeWhile_eq_take [symmetric])
  then show "c \<notin> set (take n s)" by (auto dest: set_takeWhileD)
qed

section \<open>Letters\<close>

definition char_between :: "char \<Rightarrow> char \<Rightarrow> char \<Rightarrow> bool" where
  "char_between a b c \<longleftrightarrow> (of_char a :: nat) \<le> of_char c \<and> (of_char c :: nat) \<le> of_char b"

text \<open>\<^verbatim>\<open>strcasecmp\<close> is 0.\<close>

definition to_lower :: "char \<Rightarrow> char" where
  "to_lower c = (if char_between CHR ''A'' CHR ''Z'' c then char_of (of_char c + 32 :: nat) else c)"

definition same_text :: "string \<Rightarrow> string \<Rightarrow> bool" where
  "same_text a b \<longleftrightarrow> map to_lower a = map to_lower b"

section \<open>Numbers\<close>

definition digit_char :: "nat \<Rightarrow> char" where
  "digit_char d = char_of (48 + d)"

definition is_digit :: "char \<Rightarrow> bool" where
  "is_digit c \<longleftrightarrow> 48 \<le> (of_char c :: nat) \<and> (of_char c :: nat) \<le> 57"

definition digit_val :: "char \<Rightarrow> nat" where
  "digit_val c = of_char c - 48"

fun show_nat :: "nat \<Rightarrow> string" where
  "show_nat n = (if n < 10 then [digit_char n] else show_nat (n div 10) @ [digit_char (n mod 10)])"

declare show_nat.simps [simp del]

definition show_int :: "int \<Rightarrow> string" where
  "show_int i = (if i < 0 then CHR ''-'' # show_nat (nat (- i)) else show_nat (nat i))"

fun scan_digits :: "nat \<Rightarrow> string \<Rightarrow> nat \<times> string" where
  "scan_digits acc [] = (acc, [])"
| "scan_digits acc (c # s) = (if is_digit c then scan_digits (acc * 10 + digit_val c) s else (acc, c # s))"

definition is_space :: "char \<Rightarrow> bool" where
  "is_space c \<longleftrightarrow> c = CHR '' '' \<or> (9 \<le> (of_char c :: nat) \<and> (of_char c :: nat) \<le> 13)"

text \<open>\<^verbatim>\<open>%d\<close>: the number and what follows it, \<open>None\<close> if there is none.\<close>

definition scan_int :: "string \<Rightarrow> (int \<times> string) option" where
  "scan_int s =
     (let s = dropWhile is_space s;
          (neg, s) = (case s of c # t \<Rightarrow> if c = CHR ''-'' then (True, t) else if c = CHR ''+'' then (False, t) else (False, s)
                      | [] \<Rightarrow> (False, []))
      in if s = [] \<or> \<not> is_digit (hd s) then None
         else (case scan_digits 0 s of (n, rest) \<Rightarrow> Some (if neg then - int n else int n, rest)))"

definition atoi :: "string \<Rightarrow> s32" where
  "atoi s = (case scan_int s of None \<Rightarrow> 0 | Some (i, _) \<Rightarrow> of_int i)"

lemma is_digit_char: "d < 10 \<Longrightarrow> is_digit (digit_char d)"
  by (simp add: is_digit_def digit_char_def)

lemma digit_val_char: "d < 10 \<Longrightarrow> digit_val (digit_char d) = d"
  by (simp add: digit_val_def digit_char_def)

lemma show_nat_digits: "\<forall>c\<in>set (show_nat n). is_digit c"
proof (induction n rule: show_nat.induct)
  case (1 n)
  then show ?case by (subst show_nat.simps) (auto simp: is_digit_char)
qed

lemma show_nat_nonempty: "show_nat n \<noteq> []"
  by (subst show_nat.simps) simp

lemma scan_digits_append:
  "\<forall>c\<in>set s. is_digit c \<Longrightarrow> scan_digits acc (s @ t) = scan_digits (fst (scan_digits acc s)) t"
  by (induction s arbitrary: acc) auto

lemma scan_digits_stop: "t = [] \<or> \<not> is_digit (hd t) \<Longrightarrow> scan_digits acc t = (acc, t)"
  by (cases t) auto

lemma fst_scan_digits_show: "fst (scan_digits 0 (show_nat n)) = n"
proof (induction n rule: show_nat.induct)
  case (1 n)
  show ?case
  proof (cases "n < 10")
    case True
    then show ?thesis by (subst show_nat.simps) (simp add: is_digit_char digit_val_char)
  next
    case False
    with 1 show ?thesis
      by (subst show_nat.simps)
        (simp add: scan_digits_append [OF show_nat_digits] is_digit_char digit_val_char)
  qed
qed

lemma scan_digits_show:
  assumes "t = [] \<or> \<not> is_digit (hd t)"
  shows "scan_digits 0 (show_nat n @ t) = (n, t)"
  by (simp add: scan_digits_append [OF show_nat_digits] fst_scan_digits_show scan_digits_stop [OF assms])

lemma not_space_digit: "is_digit c \<Longrightarrow> \<not> is_space c \<and> c \<noteq> CHR ''-'' \<and> c \<noteq> CHR ''+''"
  by (auto simp: is_digit_def is_space_def)

lemma scan_int_show:
  assumes "t = [] \<or> \<not> is_digit (hd t)"
  shows "scan_int (show_int i @ t) = Some (i, t)"
proof -
  obtain c s where s: "show_nat (nat \<bar>i\<bar>) = c # s" using show_nat_nonempty by (meson neq_Nil_conv)
  then have c: "is_digit c" using show_nat_digits [of "nat \<bar>i\<bar>"] by simp
  note sd = scan_digits_show [OF assms, of "nat \<bar>i\<bar>", unfolded s]
  show ?thesis
  proof (cases "i < 0")
    case True
    then have "show_int i @ t = CHR ''-'' # c # s @ t" using s by (simp add: show_int_def)
    then show ?thesis using c sd True by (simp add: scan_int_def is_space_def)
  next
    case False
    then have "show_int i @ t = c # s @ t" using s by (simp add: show_int_def)
    then show ?thesis using c sd False not_space_digit [OF c] by (simp add: scan_int_def)
  qed
qed

section \<open>Hexadecimal digits\<close>

definition fromHex :: "char \<Rightarrow> int" where
  "fromHex c =
     (let d = of_char c :: int in
      if 48 \<le> d \<and> d \<le> 57 then d - 48
      else if 65 \<le> d \<and> d \<le> 70 then d - 65 + 10
      else if 97 \<le> d \<and> d \<le> 102 then d - 97 + 10
      else - 1)"

text \<open>A digit of \<^verbatim>\<open>%X\<close>, and \<^verbatim>\<open>toHex\<close>.\<close>

definition toHex :: "nat \<Rightarrow> char" where
  "toHex d = (let d = d mod 16 in if d < 10 then char_of (48 + d) else char_of (55 + d))"

definition show_hex2 :: "u8 \<Rightarrow> string" where
  "show_hex2 b = [toHex (unat b div 16), toHex (unat b mod 16)]"

lemma fromHex_toHex_table: "list_all (\<lambda>d. fromHex (toHex d) = int d) [0 ..< 16]"
  by code_simp

lemma fromHex_toHex: "d < 16 \<Longrightarrow> fromHex (toHex d) = int d"
  using fromHex_toHex_table unfolding list_all_iff set_upt by (meson atLeastLessThan_iff le0)

end
