(* ===== verification/Config_Values.thy ===== *)
theory Config_Values
  imports Cstrings
begin

text \<open>
  Values of configuration files (\<^verbatim>\<open>src/config_wopl.c\<close>). The files are read and written by
  libconfig: a file read is the lookup of its settings by path, a file to be written is the list of the
  settings that the code adds, in order. Reading and writing themselves are arguments of the operations
  in \<open>Config_Files\<close>.

  A C \<^verbatim>\<open>int\<close> is a 32-bit word, read with \<open>sint\<close>. The log of wrong types is output only.
\<close>

section \<open>Settings\<close>

text \<open>Integers, booleans and strings; any other type (floats, groups, lists) is \<open>COther\<close>.\<close>

datatype cvalue = CInt s32 | CBool bool | CString string | COther

type_synonym config = "string \<Rightarrow> cvalue option"
type_synonym entries = "(string \<times> cvalue) list"

definition cfgGetInt :: "config \<Rightarrow> string \<Rightarrow> s32 option" where
  "cfgGetInt cfg path =
     (case cfg path of
        None \<Rightarrow> None
      | Some v \<Rightarrow> (case v of CInt i \<Rightarrow> Some i | CBool b \<Rightarrow> Some (if b then 1 else 0) | _ \<Rightarrow> None))"

definition cfgGetStr :: "config \<Rightarrow> string \<Rightarrow> string option" where
  "cfgGetStr cfg path =
     (case cfg path of None \<Rightarrow> None | Some v \<Rightarrow> (case v of CString s \<Rightarrow> Some s | _ \<Rightarrow> None))"

definition lookup_int :: "config \<Rightarrow> string \<Rightarrow> s32 \<Rightarrow> s32" where
  "lookup_int cfg path d = (case cfgGetInt cfg path of None \<Rightarrow> d | Some v \<Rightarrow> v)"

definition lookup_bool :: "config \<Rightarrow> string \<Rightarrow> s32 \<Rightarrow> s32" where
  "lookup_bool cfg path d = (if lookup_int cfg path d \<noteq> 0 then 1 else 0)"

text \<open>\<^verbatim>\<open>lookup_str(cfg, path, NULL)\<close>, tested for null by its callers.\<close>

definition lookup_str :: "config \<Rightarrow> string \<Rightarrow> string option" where
  "lookup_str cfg path = cfgGetStr cfg path"

text \<open>A string setting copied into a buffer of \<open>n\<close> bytes if it is present.\<close>

definition load_str :: "config \<Rightarrow> string \<Rightarrow> nat \<Rightarrow> string \<Rightarrow> string" where
  "load_str cfg path n old = (case lookup_str cfg path of None \<Rightarrow> old | Some s \<Rightarrow> copy_str s n)"

text \<open>A group is the prefix of its settings' paths.\<close>

definition add_group :: "string \<Rightarrow> string \<Rightarrow> string" where
  "add_group parent name = parent @ name @ ''.''"

definition set_int :: "string \<Rightarrow> string \<Rightarrow> s32 \<Rightarrow> string \<times> cvalue" where
  "set_int grp name val = (grp @ name, CInt val)"

definition set_bool :: "string \<Rightarrow> string \<Rightarrow> s32 \<Rightarrow> string \<times> cvalue" where
  "set_bool grp name val = (grp @ name, CBool (val \<noteq> 0))"

definition set_str :: "string \<Rightarrow> string \<Rightarrow> string \<Rightarrow> string \<times> cvalue" where
  "set_str grp name val = (grp @ name, CString val)"

section \<open>Colours, addresses, DNAS ids\<close>

type_synonym color = "u8 \<times> u8 \<times> u8"

definition color_to_str :: "color \<Rightarrow> string" where
  "color_to_str c = (case c of (r, g, b) \<Rightarrow> ''#'' @ show_hex2 r @ show_hex2 g @ show_hex2 b)"

text \<open>
  The character at \<open>i\<close> of a string, and the zero behind its end; a pair of digits; the loop over the
  three components, which stops at the first that is not hexadecimal.
\<close>

definition char_at :: "string \<Rightarrow> nat \<Rightarrow> char" where
  "char_at s i = (if i < length s then s ! i else CHR 0x00)"

definition hex_pair :: "string \<Rightarrow> nat \<Rightarrow> u8 option" where
  "hex_pair s i =
     (let hi = fromHex (char_at s i); lo = fromHex (char_at s (i + 1))
      in if hi < 0 \<or> lo < 0 then None else Some (of_int (hi * 16 + lo)))"

definition str_to_color :: "string \<Rightarrow> color" where
  "str_to_color str =
     (if str = [] \<or> hd str \<noteq> CHR ''#'' then (0, 0, 0)
      else
        (case hex_pair str 1 of
           None \<Rightarrow> (0, 0, 0)
         | Some r \<Rightarrow>
             (case hex_pair str 3 of
                None \<Rightarrow> (r, 0, 0)
              | Some g \<Rightarrow> (case hex_pair str 5 of None \<Rightarrow> (r, g, 0) | Some b \<Rightarrow> (r, g, b)))))"

definition load_color :: "config \<Rightarrow> string \<Rightarrow> color \<Rightarrow> color" where
  "load_color cfg path old = (case lookup_str cfg path of None \<Rightarrow> old | Some s \<Rightarrow> str_to_color s)"

definition set_color :: "string \<Rightarrow> string \<Rightarrow> color \<Rightarrow> string \<times> cvalue" where
  "set_color grp name c = set_str grp name (take 7 (color_to_str c))"

type_synonym ip = "s32 list"

text \<open>\<^verbatim>\<open>"%d.%d.%d.%d"\<close>: printed, and scanned with zeros for what does not match.\<close>

definition ip_to_str :: "ip \<Rightarrow> string" where
  "ip_to_str ip =
     show_int (sint (ip ! 0)) @ ''.'' @ show_int (sint (ip ! 1)) @ ''.'' @
     show_int (sint (ip ! 2)) @ ''.'' @ show_int (sint (ip ! 3))"

fun scan_dotted :: "nat \<Rightarrow> string \<Rightarrow> s32 list" where
  "scan_dotted 0 s = []"
| "scan_dotted (Suc n) s =
     (case scan_int s of
        None \<Rightarrow> []
      | Some (i, t) \<Rightarrow>
          of_int i # (if t \<noteq> [] \<and> hd t = CHR ''.'' then scan_dotted n (tl t) else []))"

definition str_to_ip :: "string \<Rightarrow> ip" where
  "str_to_ip str = (let ds = scan_dotted 4 str in ds @ replicate (4 - length ds) 0)"

definition load_ip :: "config \<Rightarrow> string \<Rightarrow> ip \<Rightarrow> ip" where
  "load_ip cfg path old = (case lookup_str cfg path of None \<Rightarrow> old | Some s \<Rightarrow> str_to_ip s)"

definition set_ip :: "string \<Rightarrow> string \<Rightarrow> ip \<Rightarrow> string \<times> cvalue" where
  "set_ip grp name ip = set_str grp name (take 15 (ip_to_str ip))"

text \<open>\<^verbatim>\<open>dnas_to_binary\<close>: pairs of hexadecimal digits into \<open>n\<close> bytes, zeros behind them.\<close>

fun dnas_bytes :: "nat \<Rightarrow> string \<Rightarrow> u8 list" where
  "dnas_bytes (Suc n) (a # b # s) =
     (if fromHex a < 0 \<or> fromHex b < 0 then [] else of_int (fromHex a * 16 + fromHex b) # dnas_bytes n s)"
| "dnas_bytes _ _ = []"

definition dnas_to_binary :: "string option \<Rightarrow> nat \<Rightarrow> u8 list" where
  "dnas_to_binary dnas n =
     (let bs = (case dnas of None \<Rightarrow> [] | Some s \<Rightarrow> dnas_bytes n s) in bs @ replicate (n - length bs) 0)"

section \<open>Round trips of values\<close>

lemma unat_u8_digits: "unat (b :: u8) div 16 < 16" "unat (b :: u8) mod 16 < 16"
proof -
  have "unat b < 2 ^ LENGTH(8)" by (rule unsigned_less)
  then have "unat b < 16 * 16" by simp
  then show "unat b div 16 < 16" by (simp add: less_mult_imp_div_less)
qed simp

lemma show_hex2_pair: "fromHex (toHex (unat (b :: u8) div 16)) * 16 + fromHex (toHex (unat b mod 16)) = int (unat b)"
proof -
  have "int (unat b div 16) * 16 + int (unat b mod 16) = int (unat b div 16 * 16 + unat b mod 16)"
    by (simp only: of_nat_add of_nat_mult of_nat_numeral)
  then show ?thesis by (simp only: fromHex_toHex [OF unat_u8_digits(1)] fromHex_toHex [OF unat_u8_digits(2)] div_mult_mod_eq)
qed

lemma hex_pair_show:
  assumes "s = pre @ show_hex2 b @ post" and "i = length pre"
  shows "hex_pair s i = Some b"
proof -
  have "char_at s i = toHex (unat b div 16)" "char_at s (i + 1) = toHex (unat b mod 16)"
    using assms by (simp_all add: char_at_def show_hex2_def nth_append)
  moreover have "0 \<le> fromHex (toHex (unat b div 16))" "0 \<le> fromHex (toHex (unat b mod 16))"
    by (simp_all add: fromHex_toHex [OF unat_u8_digits(1)] fromHex_toHex [OF unat_u8_digits(2)])
  ultimately show ?thesis by (simp add: hex_pair_def Let_def show_hex2_pair not_less)
qed

lemma color_roundtrip: "str_to_color (take 7 (color_to_str c)) = c"
proof -
  obtain r g b where c: "c = (r, g, b)" by (metis prod_cases3)
  have len: "length (show_hex2 x) = 2" for x by (simp add: show_hex2_def)
  let ?s = "''#'' @ show_hex2 r @ show_hex2 g @ show_hex2 b"
  have "take 7 (color_to_str c) = ?s" using c by (simp add: color_to_str_def len)
  moreover have "hex_pair ?s 1 = Some r" by (rule hex_pair_show [where pre = "''#''"]) simp_all
  moreover have "hex_pair ?s 3 = Some g"
    by (rule hex_pair_show [where pre = "''#'' @ show_hex2 r" and post = "show_hex2 b"]) (simp_all add: len)
  moreover have "hex_pair ?s 5 = Some b"
    by (rule hex_pair_show [where pre = "''#'' @ show_hex2 r @ show_hex2 g" and post = "[]"]) (simp_all add: len)
  ultimately show ?thesis using c by (simp add: str_to_color_def)
qed

definition ip_ok :: "ip \<Rightarrow> bool" where
  "ip_ok ip \<longleftrightarrow> length ip = 4 \<and> (\<forall>x\<in>set ip. 0 \<le>s x \<and> x <s 256)"

lemma show_nat_byte: "n < 256 \<Longrightarrow> length (show_nat n) \<le> 3"
  by (subst show_nat.simps, subst show_nat.simps, subst show_nat.simps) auto

lemma ip_roundtrip:
  assumes "ip_ok ip"
  shows "str_to_ip (take 15 (ip_to_str ip)) = ip"
proof -
  obtain a b c d where ip: "ip = [a, b, c, d]"
    using assms by (auto simp: ip_ok_def numeral_eq_Suc length_Suc_conv)
  have short: "length (show_int (sint x)) \<le> 3" if "x \<in> set ip" for x
  proof -
    have "0 \<le> sint x" "sint x < 256" using assms that by (auto simp: ip_ok_def word_sle_eq word_sless_alt)
    then show ?thesis by (simp add: show_int_def show_nat_byte)
  qed
  have "length (ip_to_str ip) \<le> 15"
    using short [of a] short [of b] short [of c] short [of d] by (simp add: ip_to_str_def ip)
  moreover have "str_to_ip (ip_to_str ip) = ip"
    using scan_int_show [of "[]" "sint d"]
    by (simp add: str_to_ip_def ip_to_str_def ip numeral_eq_Suc scan_int_show is_digit_def Let_def)
  ultimately show ?thesis by simp
qed

end
