(* ===== verification/Config_Settings.thy ===== *)
theory Config_Settings
  imports Config_Values
begin

text \<open>
  The settings files of \<^verbatim>\<open>src/config_wopl.c\<close>: per section the variables, the \<^verbatim>\<open>parse_\<close>
  function that loads them and the entries that the \<^verbatim>\<open>build_\<close> function adds, with the predicate that the
  variables hold what a save can represent (flags are 0 or 1, strings fit their buffers). The build is the default one, with
  \<^verbatim>\<open>GSM\<close>, \<^verbatim>\<open>CHEAT\<close> and \<^verbatim>\<open>PADEMU\<close> and without \<^verbatim>\<open>__DEBUG\<close>.
\<close>

section \<open>What a save can represent\<close>

definition is_bool :: "s32 \<Rightarrow> bool" where
  "is_bool v \<longleftrightarrow> v = 0 \<or> v = 1"

definition no_nul :: "string \<Rightarrow> bool" where
  "no_nul s \<longleftrightarrow> CHR 0x00 \<notin> set s"

definition str_ok :: "nat \<Rightarrow> string \<Rightarrow> bool" where
  "str_ok n s \<longleftrightarrow> length s < n \<and> no_nul s"

definition KEY_CROSS :: s32 where
  "KEY_CROSS = 10"

definition KEY_CIRCLE :: s32 where
  "KEY_CIRCLE = 11"

section \<open>The front end's settings\<close>

record display_cfg =
  gWideScreen :: s32
  gVMode :: s32
  gXOff :: s32
  gYOff :: s32
  gOverscan :: s32
  gScrollSpeed :: s32
  gDefaultBgColor :: color
  gDefaultTextColor :: color
  gDefaultUITextColor :: color
  gDefaultSelTextColor :: color
  gDefaultPlasmaBlendColor :: color

definition parse_display :: "config \<Rightarrow> display_cfg \<Rightarrow> display_cfg" where
  "parse_display cfg r = r\<lparr>
     gWideScreen := lookup_bool cfg ''display.widescreen'' (gWideScreen r),
     gVMode := lookup_int cfg ''display.vmode'' (gVMode r),
     gXOff := lookup_int cfg ''display.x_offset'' (gXOff r),
     gYOff := lookup_int cfg ''display.y_offset'' (gYOff r),
     gOverscan := lookup_int cfg ''display.overscan'' (gOverscan r),
     gScrollSpeed := lookup_int cfg ''display.scroll_speed'' (gScrollSpeed r),
     gDefaultBgColor := load_color cfg ''display.bg_color'' (gDefaultBgColor r),
     gDefaultTextColor := load_color cfg ''display.text_color'' (gDefaultTextColor r),
     gDefaultUITextColor := load_color cfg ''display.ui_text_color'' (gDefaultUITextColor r),
     gDefaultSelTextColor := load_color cfg ''display.sel_text_color'' (gDefaultSelTextColor r),
     gDefaultPlasmaBlendColor := load_color cfg ''display.plasma_blend_color'' (gDefaultPlasmaBlendColor r)\<rparr>"

definition build_display :: "display_cfg \<Rightarrow> entries" where
  "build_display r =
     (let g = add_group [] ''display'' in
      [set_bool g ''widescreen'' (gWideScreen r), set_int g ''vmode'' (gVMode r), set_int g ''x_offset'' (gXOff r),
       set_int g ''y_offset'' (gYOff r), set_int g ''overscan'' (gOverscan r),
       set_int g ''scroll_speed'' (gScrollSpeed r), set_color g ''bg_color'' (gDefaultBgColor r),
       set_color g ''text_color'' (gDefaultTextColor r), set_color g ''ui_text_color'' (gDefaultUITextColor r),
       set_color g ''sel_text_color'' (gDefaultSelTextColor r),
       set_color g ''plasma_blend_color'' (gDefaultPlasmaBlendColor r)])"

definition display_ok :: "display_cfg \<Rightarrow> bool" where
  "display_ok r \<longleftrightarrow>
     is_bool (gWideScreen r)"

record ui_cfg =
  s_theme_name :: string
  s_lang_name :: string
  gParentalLockPassword :: string
  gSelectButton :: s32
  gXSensitivity :: s32
  gYSensitivity :: s32
  gEnableNotifications :: s32
  gDiscEnableArt :: s32

definition parse_ui :: "config \<Rightarrow> ui_cfg \<Rightarrow> ui_cfg" where
  "parse_ui cfg r = r\<lparr>
     s_theme_name := load_str cfg ''ui.theme'' 128 (s_theme_name r),
     s_lang_name := load_str cfg ''ui.language'' 128 (s_lang_name r),
     gParentalLockPassword := load_str cfg ''ui.parental_lock_password'' 256 (gParentalLockPassword r),
     gSelectButton := (if lookup_bool cfg ''ui.swap_button'' 0 \<noteq> 0 then KEY_CROSS else KEY_CIRCLE),
     gXSensitivity := lookup_int cfg ''ui.x_sensitivity'' (gXSensitivity r),
     gYSensitivity := lookup_int cfg ''ui.y_sensitivity'' (gYSensitivity r),
     gEnableNotifications := lookup_bool cfg ''ui.notifications'' (gEnableNotifications r),
     gDiscEnableArt := lookup_bool cfg ''ui.disc_art'' (gDiscEnableArt r)\<rparr>"

definition build_ui :: "string \<Rightarrow> string \<Rightarrow> ui_cfg \<Rightarrow> entries" where
  "build_ui theme lang r =
     (let g = add_group [] ''ui'' in
      [set_str g ''theme'' theme, set_str g ''language'' lang,
       set_str g ''parental_lock_password'' (gParentalLockPassword r),
       set_bool g ''swap_button'' (if gSelectButton r = KEY_CROSS then 1 else 0),
       set_int g ''x_sensitivity'' (gXSensitivity r), set_int g ''y_sensitivity'' (gYSensitivity r),
       set_bool g ''notifications'' (gEnableNotifications r), set_bool g ''disc_art'' (gDiscEnableArt r)])"

definition ui_ok :: "ui_cfg \<Rightarrow> bool" where
  "ui_ok r \<longleftrightarrow>
     str_ok 128 (s_theme_name r) \<and> str_ok 128 (s_lang_name r) \<and> str_ok 256 (gParentalLockPassword r) \<and>
     gSelectButton r \<in> {KEY_CROSS, KEY_CIRCLE} \<and> is_bool (gEnableNotifications r) \<and>
     is_bool (gDiscEnableArt r)"

record audio_cfg =
  gEnableSFX :: s32
  gSFXVolume :: s32
  gEnableBootSND :: s32
  gBootSndVolume :: s32
  gEnableBGM :: s32
  gBGMVolume :: s32
  gDefaultBGMPath :: string

definition parse_audio :: "config \<Rightarrow> audio_cfg \<Rightarrow> audio_cfg" where
  "parse_audio cfg r = r\<lparr>
     gEnableSFX := lookup_bool cfg ''audio.sfx'' (gEnableSFX r),
     gSFXVolume := lookup_int cfg ''audio.sfx_volume'' (gSFXVolume r),
     gEnableBootSND := lookup_bool cfg ''audio.boot_sound'' (gEnableBootSND r),
     gBootSndVolume := lookup_int cfg ''audio.boot_volume'' (gBootSndVolume r),
     gEnableBGM := lookup_bool cfg ''audio.bgm'' (gEnableBGM r),
     gBGMVolume := lookup_int cfg ''audio.bgm_volume'' (gBGMVolume r),
     gDefaultBGMPath := load_str cfg ''audio.bgm_path'' 128 (gDefaultBGMPath r)\<rparr>"

definition build_audio :: "audio_cfg \<Rightarrow> entries" where
  "build_audio r =
     (let g = add_group [] ''audio'' in
      [set_bool g ''sfx'' (gEnableSFX r), set_int g ''sfx_volume'' (gSFXVolume r),
       set_bool g ''boot_sound'' (gEnableBootSND r), set_int g ''boot_volume'' (gBootSndVolume r),
       set_bool g ''bgm'' (gEnableBGM r), set_int g ''bgm_volume'' (gBGMVolume r),
       set_str g ''bgm_path'' (gDefaultBGMPath r)])"

definition audio_ok :: "audio_cfg \<Rightarrow> bool" where
  "audio_ok r \<longleftrightarrow>
     is_bool (gEnableSFX r) \<and> is_bool (gEnableBootSND r) \<and> is_bool (gEnableBGM r) \<and>
     str_ok 128 (gDefaultBGMPath r)"

record startup_cfg =
  gDefaultDevice :: s32
  gAutosort :: s32
  gAutoRefresh :: s32
  gRememberLastPlayed :: s32
  gAutoStartLastPlayed :: s32
  gExitPath :: string
  gBDMStartMode :: s32
  gHDDStartMode :: s32
  gETHStartMode :: s32
  gAPPStartMode :: s32
  gFAVStartMode :: s32
  gMMCEStartMode :: s32

definition parse_startup :: "config \<Rightarrow> startup_cfg \<Rightarrow> startup_cfg" where
  "parse_startup cfg r = r\<lparr>
     gDefaultDevice := lookup_int cfg ''startup.default_device'' (gDefaultDevice r),
     gAutosort := lookup_bool cfg ''startup.auto_sort'' (gAutosort r),
     gAutoRefresh := lookup_bool cfg ''startup.auto_refresh'' (gAutoRefresh r),
     gRememberLastPlayed := lookup_bool cfg ''startup.remember_last'' (gRememberLastPlayed r),
     gAutoStartLastPlayed := lookup_bool cfg ''startup.autostart_last'' (gAutoStartLastPlayed r),
     gExitPath := load_str cfg ''startup.exit_path'' 256 (gExitPath r),
     gBDMStartMode := lookup_int cfg ''startup.bdm_start_mode'' (gBDMStartMode r),
     gHDDStartMode := lookup_int cfg ''startup.hdd_start_mode'' (gHDDStartMode r),
     gETHStartMode := lookup_int cfg ''startup.eth_start_mode'' (gETHStartMode r),
     gAPPStartMode := lookup_int cfg ''startup.app_start_mode'' (gAPPStartMode r),
     gFAVStartMode := lookup_int cfg ''startup.fav_start_mode'' (gFAVStartMode r),
     gMMCEStartMode := lookup_int cfg ''startup.mmce_start_mode'' (gMMCEStartMode r)\<rparr>"

definition build_startup :: "startup_cfg \<Rightarrow> entries" where
  "build_startup r =
     (let g = add_group [] ''startup'' in
      [set_int g ''default_device'' (gDefaultDevice r), set_bool g ''auto_sort'' (gAutosort r),
       set_bool g ''auto_refresh'' (gAutoRefresh r), set_bool g ''remember_last'' (gRememberLastPlayed r),
       set_bool g ''autostart_last'' (gAutoStartLastPlayed r), set_str g ''exit_path'' (gExitPath r),
       set_int g ''bdm_start_mode'' (gBDMStartMode r), set_int g ''hdd_start_mode'' (gHDDStartMode r),
       set_int g ''eth_start_mode'' (gETHStartMode r), set_int g ''app_start_mode'' (gAPPStartMode r),
       set_int g ''fav_start_mode'' (gFAVStartMode r), set_int g ''mmce_start_mode'' (gMMCEStartMode r)])"

definition startup_ok :: "startup_cfg \<Rightarrow> bool" where
  "startup_ok r \<longleftrightarrow>
     is_bool (gAutosort r) \<and> is_bool (gAutoRefresh r) \<and> is_bool (gRememberLastPlayed r) \<and>
     is_bool (gAutoStartLastPlayed r) \<and> str_ok 256 (gExitPath r)"

record devices_cfg =
  gEnableUSB :: s32
  gEnableILK :: s32
  gEnableMX4SIO :: s32
  gEnableBdmHDD :: s32
  bdmCacheSize :: s32
  hddCacheSize :: s32
  smbCacheSize :: s32
  gHDDSpindown :: s32
  gHDDGameListCache :: s32
  gEnableWrite :: s32

definition parse_devices :: "config \<Rightarrow> devices_cfg \<Rightarrow> devices_cfg" where
  "parse_devices cfg r = r\<lparr>
     gEnableUSB := lookup_bool cfg ''devices.usb_enabled'' (gEnableUSB r),
     gEnableILK := lookup_bool cfg ''devices.ilink_enabled'' (gEnableILK r),
     gEnableMX4SIO := lookup_bool cfg ''devices.mx4sio_enabled'' (gEnableMX4SIO r),
     gEnableBdmHDD := lookup_bool cfg ''devices.bdm_hdd_enabled'' (gEnableBdmHDD r),
     bdmCacheSize := lookup_int cfg ''devices.bdm_cache'' (bdmCacheSize r),
     hddCacheSize := lookup_int cfg ''devices.hdd_cache'' (hddCacheSize r),
     smbCacheSize := lookup_int cfg ''devices.smb_cache'' (smbCacheSize r),
     gHDDSpindown := lookup_int cfg ''devices.hdd_spindown'' (gHDDSpindown r),
     gHDDGameListCache := lookup_bool cfg ''devices.hdd_game_list_cache'' (gHDDGameListCache r),
     gEnableWrite := lookup_bool cfg ''devices.enable_write'' (gEnableWrite r)\<rparr>"

definition build_devices :: "devices_cfg \<Rightarrow> entries" where
  "build_devices r =
     (let g = add_group [] ''devices'' in
      [set_bool g ''usb_enabled'' (gEnableUSB r), set_bool g ''ilink_enabled'' (gEnableILK r),
       set_bool g ''mx4sio_enabled'' (gEnableMX4SIO r), set_bool g ''bdm_hdd_enabled'' (gEnableBdmHDD r),
       set_int g ''bdm_cache'' (bdmCacheSize r), set_int g ''hdd_cache'' (hddCacheSize r),
       set_int g ''smb_cache'' (smbCacheSize r), set_int g ''hdd_spindown'' (gHDDSpindown r),
       set_bool g ''hdd_game_list_cache'' (gHDDGameListCache r), set_bool g ''enable_write'' (gEnableWrite r)])"

definition devices_ok :: "devices_cfg \<Rightarrow> bool" where
  "devices_ok r \<longleftrightarrow>
     is_bool (gEnableUSB r) \<and> is_bool (gEnableILK r) \<and> is_bool (gEnableMX4SIO r) \<and>
     is_bool (gEnableBdmHDD r) \<and> is_bool (gHDDGameListCache r) \<and> is_bool (gEnableWrite r)"

record paths_cfg =
  gBDMPrefix :: string
  gETHPrefix :: string
  gMMCEPrefix :: string

definition parse_paths :: "config \<Rightarrow> paths_cfg \<Rightarrow> paths_cfg" where
  "parse_paths cfg r = r\<lparr>
     gBDMPrefix := load_str cfg ''paths.bdm_prefix'' 32 (gBDMPrefix r),
     gETHPrefix := load_str cfg ''paths.eth_prefix'' 32 (gETHPrefix r),
     gMMCEPrefix := load_str cfg ''paths.mmce_prefix'' 32 (gMMCEPrefix r)\<rparr>"

definition build_paths :: "paths_cfg \<Rightarrow> entries" where
  "build_paths r =
     (let g = add_group [] ''paths'' in
      [set_str g ''bdm_prefix'' (gBDMPrefix r), set_str g ''eth_prefix'' (gETHPrefix r),
       set_str g ''mmce_prefix'' (gMMCEPrefix r)])"

definition paths_ok :: "paths_cfg \<Rightarrow> bool" where
  "paths_ok r \<longleftrightarrow>
     str_ok 32 (gBDMPrefix r) \<and> str_ok 32 (gETHPrefix r) \<and> str_ok 32 (gMMCEPrefix r)"

record mmce_cfg =
  gMMCESlot :: s32
  gMMCEIGRSlot :: s32
  gMMCEAckWaitCycles :: s32
  gMMCEUseAlarms :: s32

definition parse_mmce :: "config \<Rightarrow> mmce_cfg \<Rightarrow> mmce_cfg" where
  "parse_mmce cfg r = r\<lparr>
     gMMCESlot := lookup_int cfg ''mmce.slot'' (gMMCESlot r),
     gMMCEIGRSlot := lookup_int cfg ''mmce.igr_slot'' (gMMCEIGRSlot r),
     gMMCEAckWaitCycles := lookup_int cfg ''mmce.mmce_wait_cycles'' (gMMCEAckWaitCycles r),
     gMMCEUseAlarms := lookup_bool cfg ''mmce.use_alarms'' (gMMCEUseAlarms r)\<rparr>"

definition build_mmce :: "mmce_cfg \<Rightarrow> entries" where
  "build_mmce r =
     (let g = add_group [] ''mmce'' in
      [set_int g ''slot'' (gMMCESlot r), set_int g ''igr_slot'' (gMMCEIGRSlot r),
       set_int g ''mmce_wait_cycles'' (gMMCEAckWaitCycles r), set_bool g ''use_alarms'' (gMMCEUseAlarms r)])"

definition mmce_ok :: "mmce_cfg \<Rightarrow> bool" where
  "mmce_ok r \<longleftrightarrow>
     is_bool (gMMCEUseAlarms r)"

record debug_cfg =
  gEnableDebug :: s32
  gBDMDebug :: s32
  gPS2Logo :: s32

definition parse_debug :: "config \<Rightarrow> debug_cfg \<Rightarrow> debug_cfg" where
  "parse_debug cfg r = r\<lparr>
     gEnableDebug := lookup_bool cfg ''debug.enable_debug'' (gEnableDebug r),
     gBDMDebug := lookup_bool cfg ''debug.bdm_debug'' (gBDMDebug r),
     gPS2Logo := lookup_bool cfg ''debug.ps2_logo'' (gPS2Logo r)\<rparr>"

definition build_debug :: "debug_cfg \<Rightarrow> entries" where
  "build_debug r =
     (let g = add_group [] ''debug'' in
      [set_bool g ''enable_debug'' (gEnableDebug r), set_bool g ''bdm_debug'' (gBDMDebug r),
       set_bool g ''ps2_logo'' (gPS2Logo r)])"

definition debug_ok :: "debug_cfg \<Rightarrow> bool" where
  "debug_ok r \<longleftrightarrow>
     is_bool (gEnableDebug r) \<and> is_bool (gBDMDebug r) \<and> is_bool (gPS2Logo r)"

record coverflow_cfg =
  gCoverflowCount :: s32
  gCoverflowCenterScale :: s32
  gCoverflowAnimSpeed :: s32
  gCoverflowDimCovers :: s32

definition parse_coverflow :: "config \<Rightarrow> coverflow_cfg \<Rightarrow> coverflow_cfg" where
  "parse_coverflow cfg r = r\<lparr>
     gCoverflowCount := lookup_int cfg ''coverflow.count'' (gCoverflowCount r),
     gCoverflowCenterScale := lookup_int cfg ''coverflow.center_scale'' (gCoverflowCenterScale r),
     gCoverflowAnimSpeed := lookup_int cfg ''coverflow.anim_speed'' (gCoverflowAnimSpeed r),
     gCoverflowDimCovers := lookup_int cfg ''coverflow.dim_covers'' (gCoverflowDimCovers r)\<rparr>"

definition build_coverflow :: "coverflow_cfg \<Rightarrow> entries" where
  "build_coverflow r =
     (let g = add_group [] ''coverflow'' in
      [set_int g ''count'' (gCoverflowCount r), set_int g ''center_scale'' (gCoverflowCenterScale r),
       set_int g ''anim_speed'' (gCoverflowAnimSpeed r), set_int g ''dim_covers'' (gCoverflowDimCovers r)])"

record frames_cfg =
  gAPPFramesDelay :: s32
  gFAVFramesDelay :: s32
  gBDMFramesDelay :: s32
  gETHFramesDelay :: s32
  gHDDFramesDelay :: s32
  gMMCEFramesDelay :: s32

definition parse_frames_delay :: "config \<Rightarrow> frames_cfg \<Rightarrow> frames_cfg" where
  "parse_frames_delay cfg r = r\<lparr>
     gAPPFramesDelay := lookup_int cfg ''frames_delay.app_frames_delay'' (gAPPFramesDelay r),
     gFAVFramesDelay := lookup_int cfg ''frames_delay.fav_frames_delay'' (gFAVFramesDelay r),
     gBDMFramesDelay := lookup_int cfg ''frames_delay.bdm_frames_delay'' (gBDMFramesDelay r),
     gETHFramesDelay := lookup_int cfg ''frames_delay.eth_frames_delay'' (gETHFramesDelay r),
     gHDDFramesDelay := lookup_int cfg ''frames_delay.hdd_frames_delay'' (gHDDFramesDelay r),
     gMMCEFramesDelay := lookup_int cfg ''frames_delay.mmce_frames_delay'' (gMMCEFramesDelay r)\<rparr>"

definition build_frames_delay :: "frames_cfg \<Rightarrow> entries" where
  "build_frames_delay r =
     (let g = add_group [] ''frames_delay'' in
      [set_int g ''app_frames_delay'' (gAPPFramesDelay r), set_int g ''fav_frames_delay'' (gFAVFramesDelay r),
       set_int g ''bdm_frames_delay'' (gBDMFramesDelay r), set_int g ''eth_frames_delay'' (gETHFramesDelay r),
       set_int g ''hdd_frames_delay'' (gHDDFramesDelay r), set_int g ''mmce_frames_delay'' (gMMCEFramesDelay r)])"

text \<open>All of them; \<open>theme\<close> and \<open>lang\<close> are the names that \<^verbatim>\<open>thmGetValue\<close> and \<^verbatim>\<open>lngGetValue\<close> answer.\<close>

record wopl_cfg =
  c_display :: display_cfg
  c_ui :: ui_cfg
  c_audio :: audio_cfg
  c_startup :: startup_cfg
  c_devices :: devices_cfg
  c_paths :: paths_cfg
  c_mmce :: mmce_cfg
  c_debug :: debug_cfg
  c_coverflow :: coverflow_cfg
  c_frames :: frames_cfg

definition build_opl :: "string \<Rightarrow> string \<Rightarrow> wopl_cfg \<Rightarrow> entries" where
  "build_opl theme lang w =
     build_display (c_display w) @
     build_ui theme lang (c_ui w) @
     build_audio (c_audio w) @
     build_startup (c_startup w) @
     build_devices (c_devices w) @
     build_paths (c_paths w) @
     build_mmce (c_mmce w) @
     build_debug (c_debug w) @
     build_coverflow (c_coverflow w) @
     build_frames_delay (c_frames w)"

definition MENU_MIN_INACTIVE_FRAMES :: s32 where
  "MENU_MIN_INACTIVE_FRAMES = 8"

definition sanitize_delay :: "s32 \<Rightarrow> s32" where
  "sanitize_delay d = (if d <s 0 then MENU_MIN_INACTIVE_FRAMES else d)"

definition sanitize_frame_delays :: "frames_cfg \<Rightarrow> frames_cfg" where
  "sanitize_frame_delays r = r\<lparr>
     gAPPFramesDelay := sanitize_delay (gAPPFramesDelay r),
     gFAVFramesDelay := sanitize_delay (gFAVFramesDelay r),
     gBDMFramesDelay := sanitize_delay (gBDMFramesDelay r),
     gETHFramesDelay := sanitize_delay (gETHFramesDelay r),
     gHDDFramesDelay := sanitize_delay (gHDDFramesDelay r),
     gMMCEFramesDelay := sanitize_delay (gMMCEFramesDelay r)\<rparr>"

definition sanitize_pad_sensitivity :: "ui_cfg \<Rightarrow> ui_cfg" where
  "sanitize_pad_sensitivity r = r\<lparr>
     gXSensitivity := (if gXSensitivity r <s 0 \<or> 2 <s gXSensitivity r then 0 else gXSensitivity r),
     gYSensitivity := (if gYSensitivity r <s 0 \<or> 2 <s gYSensitivity r then 0 else gYSensitivity r)\<rparr>"

definition parse_opl_cfg :: "config \<Rightarrow> wopl_cfg \<Rightarrow> wopl_cfg" where
  "parse_opl_cfg cfg w = \<lparr>
     c_display = parse_display cfg (c_display w),
     c_ui = sanitize_pad_sensitivity (parse_ui cfg (c_ui w)),
     c_audio = parse_audio cfg (c_audio w),
     c_startup = parse_startup cfg (c_startup w),
     c_devices = parse_devices cfg (c_devices w),
     c_paths = parse_paths cfg (c_paths w),
     c_mmce = parse_mmce cfg (c_mmce w),
     c_debug = parse_debug cfg (c_debug w),
     c_coverflow = parse_coverflow cfg (c_coverflow w),
     c_frames = sanitize_frame_delays (parse_frames_delay cfg (c_frames w))\<rparr>"

text \<open>The ids of the theme and the language that the file names; \<open>None\<close> leaves them alone.\<close>

definition parse_ids :: "(string \<Rightarrow> s32) \<Rightarrow> (string \<Rightarrow> s32) \<Rightarrow> config \<Rightarrow> s32 option \<times> s32 option" where
  "parse_ids thmFindGuiID lngFindGuiID cfg =
     (map_option thmFindGuiID (lookup_str cfg ''ui.theme''), map_option lngFindGuiID (lookup_str cfg ''ui.language''))"

definition wopl_ok :: "wopl_cfg \<Rightarrow> bool" where
  "wopl_ok w \<longleftrightarrow>
     display_ok (c_display w) \<and> ui_ok (c_ui w) \<and> audio_ok (c_audio w) \<and> startup_ok (c_startup w) \<and>
     devices_ok (c_devices w) \<and> paths_ok (c_paths w) \<and> mmce_ok (c_mmce w) \<and> debug_ok (c_debug w) \<and>
     sanitize_pad_sensitivity (c_ui w) = c_ui w \<and> sanitize_frame_delays (c_frames w) = c_frames w"

section \<open>The network settings\<close>

record net_cfg =
  gETHOpMode :: s32
  ps2_ip_use_dhcp :: s32
  ps2_ip :: ip
  ps2_netmask :: ip
  ps2_gateway :: ip
  ps2_dns :: ip
  gPCShareAddressIsNetBIOS :: s32
  gPCShareNBAddress :: string
  pc_ip :: ip
  gPCPort :: s32
  gPCShareName :: string
  gPCUserName :: string
  gPCPassword :: string
  gExportName :: string

definition parse_net :: "config \<Rightarrow> net_cfg \<Rightarrow> net_cfg" where
  "parse_net cfg r = r\<lparr>
     gETHOpMode := lookup_int cfg ''eth.link_mode'' (gETHOpMode r),
     ps2_ip_use_dhcp := lookup_bool cfg ''ps2.dhcp'' (ps2_ip_use_dhcp r),
     ps2_ip := load_ip cfg ''ps2.ip'' (ps2_ip r),
     ps2_netmask := load_ip cfg ''ps2.netmask'' (ps2_netmask r),
     ps2_gateway := load_ip cfg ''ps2.gateway'' (ps2_gateway r),
     ps2_dns := load_ip cfg ''ps2.dns'' (ps2_dns r),
     gPCShareAddressIsNetBIOS := lookup_bool cfg ''smb.use_netbios'' (gPCShareAddressIsNetBIOS r),
     gPCShareNBAddress := load_str cfg ''smb.nb_address'' 17 (gPCShareNBAddress r),
     pc_ip := load_ip cfg ''smb.ip'' (pc_ip r),
     gPCPort := lookup_int cfg ''smb.port'' (gPCPort r),
     gPCShareName := load_str cfg ''smb.share'' 32 (gPCShareName r),
     gPCUserName := load_str cfg ''smb.username'' 32 (gPCUserName r),
     gPCPassword := load_str cfg ''smb.password'' 32 (gPCPassword r),
     gExportName := load_str cfg ''nbd.export'' 32 (gExportName r)\<rparr>"

definition build_net :: "net_cfg \<Rightarrow> entries" where
  "build_net r =
     (let g = add_group [] ''eth'' in
       [set_int g ''link_mode'' (gETHOpMode r)]) @
     (let g = add_group [] ''ps2'' in
       [set_bool g ''dhcp'' (ps2_ip_use_dhcp r), set_ip g ''ip'' (ps2_ip r), set_ip g ''netmask'' (ps2_netmask r),
        set_ip g ''gateway'' (ps2_gateway r), set_ip g ''dns'' (ps2_dns r)]) @
     (let g = add_group [] ''smb'' in
       [set_bool g ''use_netbios'' (gPCShareAddressIsNetBIOS r), set_str g ''nb_address'' (gPCShareNBAddress r),
        set_ip g ''ip'' (pc_ip r), set_int g ''port'' (gPCPort r), set_str g ''share'' (gPCShareName r),
        set_str g ''username'' (gPCUserName r), set_str g ''password'' (gPCPassword r)]) @
     (let g = add_group [] ''nbd'' in
       [set_str g ''export'' (gExportName r)])"

definition net_ok :: "net_cfg \<Rightarrow> bool" where
  "net_ok r \<longleftrightarrow>
     is_bool (ps2_ip_use_dhcp r) \<and> ip_ok (ps2_ip r) \<and> ip_ok (ps2_netmask r) \<and>
     ip_ok (ps2_gateway r) \<and> ip_ok (ps2_dns r) \<and> is_bool (gPCShareAddressIsNetBIOS r) \<and>
     str_ok 17 (gPCShareNBAddress r) \<and> ip_ok (pc_ip r) \<and> str_ok 32 (gPCShareName r) \<and>
     str_ok 32 (gPCUserName r) \<and> str_ok 32 (gPCPassword r) \<and> str_ok 32 (gExportName r)"

section \<open>The global game settings\<close>

record global_game_cfg =
  gg_gsm_enable :: s32
  gg_gsm_vmode :: s32
  gg_gsm_xoffset :: s32
  gg_gsm_yoffset :: s32
  gg_gsm_fieldfix :: s32
  gg_cheat_enable :: s32
  gg_cheat_mode :: s32
  gg_cheat_enable_image :: s32
  gg_pademu_enable :: s32
  gg_pademu_settings :: s32
  gg_padmacro_settings :: s32
  gg_osd_enable :: s32
  gg_osd_langid :: s32
  gg_osd_tv_aspect :: s32
  gg_osd_vmode :: s32

definition parse_global_game :: "config \<Rightarrow> global_game_cfg \<Rightarrow> global_game_cfg" where
  "parse_global_game cfg r = r\<lparr>
     gg_gsm_enable := lookup_int cfg ''gsm.enable'' (gg_gsm_enable r),
     gg_gsm_vmode := lookup_int cfg ''gsm.vmode'' (gg_gsm_vmode r),
     gg_gsm_xoffset := lookup_int cfg ''gsm.x_offset'' (gg_gsm_xoffset r),
     gg_gsm_yoffset := lookup_int cfg ''gsm.y_offset'' (gg_gsm_yoffset r),
     gg_gsm_fieldfix := lookup_int cfg ''gsm.field_fix'' (gg_gsm_fieldfix r),
     gg_cheat_enable := lookup_int cfg ''cheat.enable'' (gg_cheat_enable r),
     gg_cheat_mode := lookup_int cfg ''cheat.mode'' (gg_cheat_mode r),
     gg_cheat_enable_image := lookup_int cfg ''cheat.enable_image'' (gg_cheat_enable_image r),
     gg_pademu_enable := lookup_int cfg ''pademu.enable'' (gg_pademu_enable r),
     gg_pademu_settings := lookup_int cfg ''pademu.settings'' (gg_pademu_settings r),
     gg_padmacro_settings := lookup_int cfg ''padmacro.settings'' (gg_padmacro_settings r),
     gg_osd_enable := lookup_int cfg ''osd.enable'' (gg_osd_enable r),
     gg_osd_langid := lookup_int cfg ''osd.lang_id'' (gg_osd_langid r),
     gg_osd_tv_aspect := lookup_int cfg ''osd.tv_aspect'' (gg_osd_tv_aspect r),
     gg_osd_vmode := lookup_int cfg ''osd.vmode'' (gg_osd_vmode r)\<rparr>"

definition build_global_game :: "global_game_cfg \<Rightarrow> entries" where
  "build_global_game r =
     (let g = add_group [] ''gsm'' in
       [set_int g ''enable'' (gg_gsm_enable r), set_int g ''vmode'' (gg_gsm_vmode r),
        set_int g ''x_offset'' (gg_gsm_xoffset r), set_int g ''y_offset'' (gg_gsm_yoffset r),
        set_int g ''field_fix'' (gg_gsm_fieldfix r)]) @
     (let g = add_group [] ''cheat'' in
       [set_int g ''enable'' (gg_cheat_enable r), set_int g ''mode'' (gg_cheat_mode r),
        set_int g ''enable_image'' (gg_cheat_enable_image r)]) @
     (let g = add_group [] ''pademu'' in
       [set_int g ''enable'' (gg_pademu_enable r), set_int g ''settings'' (gg_pademu_settings r)]) @
     (let g = add_group [] ''padmacro'' in
       [set_int g ''settings'' (gg_padmacro_settings r)]) @
     (let g = add_group [] ''osd'' in
       [set_int g ''enable'' (gg_osd_enable r), set_int g ''lang_id'' (gg_osd_langid r),
        set_int g ''tv_aspect'' (gg_osd_tv_aspect r), set_int g ''vmode'' (gg_osd_vmode r)])"

section \<open>The settings of a game\<close>

record per_game_cfg =
  pg_size_mb :: s32
  pg_format :: string
  pg_media :: string
  pg_compat :: s32
  pg_dma :: s32
  pg_core_loader :: s32
  pg_dnas :: string
  pg_alt_startup :: string
  pg_vmc1 :: string
  pg_vmc2 :: string
  pg_gsm_source :: s32
  pg_gsm_enable :: s32
  pg_gsm_vmode :: s32
  pg_gsm_xoffset :: s32
  pg_gsm_yoffset :: s32
  pg_gsm_fieldfix :: s32
  pg_cheat_source :: s32
  pg_cheat_enable :: s32
  pg_cheat_mode :: s32
  pg_cheat_enable_image :: s32
  pg_pademu_source :: s32
  pg_pademu_enable :: s32
  pg_pademu_settings :: s32
  pg_padmacro_source :: s32
  pg_padmacro_settings :: s32
  pg_osd_source :: s32
  pg_osd_enable :: s32
  pg_osd_langid :: s32
  pg_osd_tv_aspect :: s32
  pg_osd_vmode :: s32

definition parse_per_game :: "config \<Rightarrow> per_game_cfg \<Rightarrow> per_game_cfg" where
  "parse_per_game cfg r = r\<lparr>
     pg_compat := lookup_int cfg ''compat'' (pg_compat r),
     pg_dma := lookup_int cfg ''dma'' (pg_dma r),
     pg_core_loader := lookup_int cfg ''core_loader'' (pg_core_loader r),
     pg_dnas := load_str cfg ''dnas'' 32 (pg_dnas r),
     pg_alt_startup := load_str cfg ''alt_startup'' 32 (pg_alt_startup r),
     pg_vmc1 := load_str cfg ''vmc1'' 32 (pg_vmc1 r),
     pg_vmc2 := load_str cfg ''vmc2'' 32 (pg_vmc2 r),
     pg_gsm_source := lookup_int cfg ''gsm.source'' (pg_gsm_source r),
     pg_gsm_enable := lookup_int cfg ''gsm.enable'' (pg_gsm_enable r),
     pg_gsm_vmode := lookup_int cfg ''gsm.vmode'' (pg_gsm_vmode r),
     pg_gsm_xoffset := lookup_int cfg ''gsm.x_offset'' (pg_gsm_xoffset r),
     pg_gsm_yoffset := lookup_int cfg ''gsm.y_offset'' (pg_gsm_yoffset r),
     pg_gsm_fieldfix := lookup_int cfg ''gsm.field_fix'' (pg_gsm_fieldfix r),
     pg_cheat_source := lookup_int cfg ''cheat.source'' (pg_cheat_source r),
     pg_cheat_enable := lookup_int cfg ''cheat.enable'' (pg_cheat_enable r),
     pg_cheat_mode := lookup_int cfg ''cheat.mode'' (pg_cheat_mode r),
     pg_cheat_enable_image := lookup_int cfg ''cheat.enable_image'' (pg_cheat_enable_image r),
     pg_pademu_source := lookup_int cfg ''pademu.source'' (pg_pademu_source r),
     pg_pademu_enable := lookup_int cfg ''pademu.enable'' (pg_pademu_enable r),
     pg_pademu_settings := lookup_int cfg ''pademu.settings'' (pg_pademu_settings r),
     pg_padmacro_source := lookup_int cfg ''padmacro.source'' (pg_padmacro_source r),
     pg_padmacro_settings := lookup_int cfg ''padmacro.settings'' (pg_padmacro_settings r),
     pg_osd_source := lookup_int cfg ''osd.source'' (pg_osd_source r),
     pg_osd_enable := lookup_int cfg ''osd.enable'' (pg_osd_enable r),
     pg_osd_langid := lookup_int cfg ''osd.lang_id'' (pg_osd_langid r),
     pg_osd_tv_aspect := lookup_int cfg ''osd.tv_aspect'' (pg_osd_tv_aspect r),
     pg_osd_vmode := lookup_int cfg ''osd.vmode'' (pg_osd_vmode r)\<rparr>"

definition build_per_game :: "per_game_cfg \<Rightarrow> entries" where
  "build_per_game r =
     [set_int [] ''compat'' (pg_compat r), set_int [] ''dma'' (pg_dma r),
        set_int [] ''core_loader'' (pg_core_loader r), set_str [] ''dnas'' (pg_dnas r),
        set_str [] ''alt_startup'' (pg_alt_startup r), set_str [] ''vmc1'' (pg_vmc1 r),
        set_str [] ''vmc2'' (pg_vmc2 r)] @
     (let g = add_group [] ''gsm'' in
       [set_int g ''source'' (pg_gsm_source r), set_int g ''enable'' (pg_gsm_enable r),
        set_int g ''vmode'' (pg_gsm_vmode r), set_int g ''x_offset'' (pg_gsm_xoffset r),
        set_int g ''y_offset'' (pg_gsm_yoffset r), set_int g ''field_fix'' (pg_gsm_fieldfix r)]) @
     (let g = add_group [] ''cheat'' in
       [set_int g ''source'' (pg_cheat_source r), set_int g ''enable'' (pg_cheat_enable r),
        set_int g ''mode'' (pg_cheat_mode r), set_int g ''enable_image'' (pg_cheat_enable_image r)]) @
     (let g = add_group [] ''pademu'' in
       [set_int g ''source'' (pg_pademu_source r), set_int g ''enable'' (pg_pademu_enable r),
        set_int g ''settings'' (pg_pademu_settings r)]) @
     (let g = add_group [] ''padmacro'' in
       [set_int g ''source'' (pg_padmacro_source r), set_int g ''settings'' (pg_padmacro_settings r)]) @
     (let g = add_group [] ''osd'' in
       [set_int g ''source'' (pg_osd_source r), set_int g ''enable'' (pg_osd_enable r),
        set_int g ''lang_id'' (pg_osd_langid r), set_int g ''tv_aspect'' (pg_osd_tv_aspect r),
        set_int g ''vmode'' (pg_osd_vmode r)])"

definition per_game_ok :: "per_game_cfg \<Rightarrow> bool" where
  "per_game_ok r \<longleftrightarrow>
     str_ok 32 (pg_dnas r) \<and> str_ok 32 (pg_alt_startup r) \<and> str_ok 32 (pg_vmc1 r) \<and>
     str_ok 32 (pg_vmc2 r)"

definition init_per_game_cfg :: per_game_cfg where
  "init_per_game_cfg = \<lparr>
     pg_size_mb = 0, pg_format = [], pg_media = [], pg_compat = 0, pg_dma = 7, pg_core_loader = 0, pg_dnas = [],
     pg_alt_startup = [], pg_vmc1 = [], pg_vmc2 = [], pg_gsm_source = 0, pg_gsm_enable = 0, pg_gsm_vmode = 0,
     pg_gsm_xoffset = 0, pg_gsm_yoffset = 0, pg_gsm_fieldfix = 0, pg_cheat_source = 0, pg_cheat_enable = 0,
     pg_cheat_mode = 0, pg_cheat_enable_image = 0, pg_pademu_source = 0, pg_pademu_enable = 0, pg_pademu_settings = 0,
     pg_padmacro_source = 0, pg_padmacro_settings = 0, pg_osd_source = 0, pg_osd_enable = 0, pg_osd_langid = 0,
     pg_osd_tv_aspect = 0, pg_osd_vmode = 0\<rparr>"

section \<open>The description of a game\<close>

record game_info =
  gi_title :: string
  gi_serial :: string
  gi_description :: string
  gi_developer :: string
  gi_genre :: string
  gi_publisher :: string
  gi_release :: string
  gi_aspect :: string
  gi_parental :: string
  gi_players :: s32
  gi_region :: string
  gi_user_rating :: s32
  gi_version :: string
  gi_package :: string
  gi_source :: string

text \<open>\<^verbatim>\<open>atoi\<close> of the string, or of what follows its last slash if that is not empty.\<close>

definition lookup_info_int :: "config \<Rightarrow> string \<Rightarrow> s32 \<Rightarrow> s32" where
  "lookup_info_int cfg key old =
     (case cfg key of
        None \<Rightarrow> old
      | Some v \<Rightarrow>
          (case v of
             CInt i \<Rightarrow> i
           | CBool b \<Rightarrow> if b then 1 else 0
           | CString s \<Rightarrow>
               atoi (case strrchr_c s CHR ''/'' of None \<Rightarrow> s
                     | Some n \<Rightarrow> if n + 1 < length s then drop (n + 1) s else s)
           | COther \<Rightarrow> old))"

definition parse_game_info :: "config \<Rightarrow> game_info \<Rightarrow> game_info" where
  "parse_game_info cfg r = r\<lparr>
     gi_title := load_str cfg ''Title'' 161 (gi_title r),
     gi_serial := load_str cfg ''Serial'' 16 (gi_serial r),
     gi_description := load_str cfg ''Description'' 256 (gi_description r),
     gi_developer := load_str cfg ''Developer'' 64 (gi_developer r),
     gi_genre := load_str cfg ''Genre'' 64 (gi_genre r),
     gi_publisher := load_str cfg ''Publisher'' 64 (gi_publisher r),
     gi_release := load_str cfg ''Release'' 32 (gi_release r),
     gi_aspect := load_str cfg ''Aspect'' 32 (gi_aspect r),
     gi_parental := load_str cfg ''Parental'' 32 (gi_parental r),
     gi_players := lookup_info_int cfg ''Players'' (gi_players r),
     gi_region := load_str cfg ''Region'' 32 (gi_region r),
     gi_user_rating := lookup_info_int cfg ''UserRating'' (gi_user_rating r),
     gi_version := load_str cfg ''Version'' 32 (gi_version r),
     gi_package := load_str cfg ''Package'' 64 (gi_package r),
     gi_source := load_str cfg ''Source'' 128 (gi_source r)\<rparr>"

definition build_game_info :: "game_info \<Rightarrow> entries" where
  "build_game_info r =
     (if gi_title r \<noteq> [] then [set_str [] ''Title'' (gi_title r)] else []) @
     (if gi_serial r \<noteq> [] then [set_str [] ''Serial'' (gi_serial r)] else []) @
     (if gi_description r \<noteq> [] then [set_str [] ''Description'' (gi_description r)] else []) @
     (if gi_developer r \<noteq> [] then [set_str [] ''Developer'' (gi_developer r)] else []) @
     (if gi_genre r \<noteq> [] then [set_str [] ''Genre'' (gi_genre r)] else []) @
     (if gi_publisher r \<noteq> [] then [set_str [] ''Publisher'' (gi_publisher r)] else []) @
     (if gi_release r \<noteq> [] then [set_str [] ''Release'' (gi_release r)] else []) @
     (if gi_aspect r \<noteq> [] then [set_str [] ''Aspect'' (gi_aspect r)] else []) @
     (if gi_parental r \<noteq> [] then [set_str [] ''Parental'' (gi_parental r)] else []) @
     (if gi_players r \<noteq> 0 then [set_int [] ''Players'' (gi_players r)] else []) @
     (if gi_region r \<noteq> [] then [set_str [] ''Region'' (gi_region r)] else []) @
     (if gi_user_rating r \<noteq> 0 then [set_int [] ''UserRating'' (gi_user_rating r)] else []) @
     (if gi_version r \<noteq> [] then [set_str [] ''Version'' (gi_version r)] else []) @
     (if gi_package r \<noteq> [] then [set_str [] ''Package'' (gi_package r)] else []) @
     (if gi_source r \<noteq> [] then [set_str [] ''Source'' (gi_source r)] else [])"

definition no_game_info :: game_info where
  "no_game_info = \<lparr>
     gi_title = [], gi_serial = [], gi_description = [], gi_developer = [], gi_genre = [], gi_publisher = [],
     gi_release = [], gi_aspect = [], gi_parental = [], gi_players = 0, gi_region = [], gi_user_rating = 0,
     gi_version = [], gi_package = [], gi_source = []\<rparr>"

definition game_info_ok :: "game_info \<Rightarrow> bool" where
  "game_info_ok r \<longleftrightarrow>
     str_ok 161 (gi_title r) \<and> str_ok 16 (gi_serial r) \<and> str_ok 256 (gi_description r) \<and>
     str_ok 64 (gi_developer r) \<and> str_ok 64 (gi_genre r) \<and> str_ok 64 (gi_publisher r) \<and>
     str_ok 32 (gi_release r) \<and> str_ok 32 (gi_aspect r) \<and> str_ok 32 (gi_parental r) \<and>
     str_ok 32 (gi_region r) \<and> str_ok 32 (gi_version r) \<and> str_ok 64 (gi_package r) \<and>
     str_ok 128 (gi_source r)"

end
