(* ===== verification/Pathsupport.thy ===== *)
theory Pathsupport
  imports Cstrings
begin

text \<open>
  Paths on the console's devices (\<^verbatim>\<open>src/pathsupport.c\<close>): a device path is a device name, an optional
  unit number and a colon. A null pointer is \<open>None\<close> where the code tests for one; the working directory
  that \<^verbatim>\<open>getcwd\<close> answers is an argument.
\<close>

section \<open>Device prefixes\<close>

text \<open>The decimal loop on an \<^verbatim>\<open>int\<close>, which wraps.\<close>

fun parse_unit :: "s32 \<Rightarrow> string \<Rightarrow> s32 \<times> string" where
  "parse_unit v [] = (v, [])"
| "parse_unit v (c # s) = (if is_digit c then parse_unit (v * 10 + of_nat (digit_val c)) s else (v, c # s))"

text \<open>The unit number, \<open>-1\<close> without one, and the rest of the path.\<close>

definition pathParseDevicePrefix :: "string option \<Rightarrow> string \<Rightarrow> bool \<Rightarrow> (s32 \<times> string) option" where
  "pathParseDevicePrefix path device requireIndex =
     (case path of
        None \<Rightarrow> None
      | Some path \<Rightarrow>
          if take (length device) path \<noteq> device then None
          else
            (case drop (length device) path of
               [] \<Rightarrow> None
             | c # s \<Rightarrow>
                 if c \<noteq> CHR '':'' \<and> \<not> is_digit c then None
                 else
                   (case (if c \<noteq> CHR '':'' then parse_unit 0 (c # s) else (- 1, c # s)) of
                      (value, suffix) \<Rightarrow>
                        (case suffix of
                           [] \<Rightarrow> None
                         | d # tail \<Rightarrow>
                             if d \<noteq> CHR '':'' then None
                             else if requireIndex \<and> value <s 0 then None
                             else Some (value, tail)))))"

definition pathHasDevicePrefix :: "string option \<Rightarrow> string \<Rightarrow> bool" where
  "pathHasDevicePrefix path device \<longleftrightarrow> pathParseDevicePrefix path device False \<noteq> None"

definition devices :: "string list" where
  "devices = [''mc'', ''usb'', ''mx4sio'', ''ilink'', ''ata'', ''hdd'', ''mmce'']"

definition pathIsDevicePath :: "string option \<Rightarrow> bool" where
  "pathIsDevicePath path \<longleftrightarrow>
     path \<noteq> None \<and> path \<noteq> Some [] \<and> list_ex (pathHasDevicePrefix path) devices"

definition pathIsUsbMassCompatPath :: "string option \<Rightarrow> bool" where
  "pathIsUsbMassCompatPath path \<longleftrightarrow> pathHasDevicePrefix path ''mass''"

section \<open>Directories\<close>

text \<open>A directory in a buffer of \<open>n\<close> bytes, with a slash at its end if there is room.\<close>

definition pathNormaliseDir :: "string \<Rightarrow> nat \<Rightarrow> string" where
  "pathNormaliseDir dir n =
     (if n = 0 then dir
      else
        (let dir = take (n - 1) dir
         in if dir \<noteq> [] \<and> last dir \<noteq> CHR ''/'' \<and> length dir + 1 < n then dir @ ''/'' else dir))"

definition path_get_dirname :: "string option \<Rightarrow> nat \<Rightarrow> bool \<Rightarrow> string option" where
  "path_get_dirname path n allowUsbMassCompat =
     (case path of
        None \<Rightarrow> None
      | Some p \<Rightarrow>
          if p = [] \<or> n = 0 then None
          else if \<not> pathIsDevicePath path \<and> (\<not> allowUsbMassCompat \<or> \<not> pathIsUsbMassCompatPath path) then None
          else
            (case strrchr_c p CHR ''/'' of
               None \<Rightarrow>
                 (case strchr_c p CHR '':'' of
                    None \<Rightarrow> None
                  | Some colon \<Rightarrow>
                      if colon + 1 \<ge> n then None else Some (pathNormaliseDir (take (colon + 1) p) n))
             | Some slash \<Rightarrow> if slash + 1 \<ge> n then None else Some (take (slash + 1) p)))"

definition pathSetLaunchPath :: "string option \<Rightarrow> string" where
  "pathSetLaunchPath path = copy_str (case path of None \<Rightarrow> [] | Some p \<Rightarrow> p) 256"

definition pathGetLaunchPath :: "string \<Rightarrow> string option" where
  "pathGetLaunchPath launchPath = (if launchPath = [] then None else Some launchPath)"

definition pathGetBootDir :: "string \<Rightarrow> string option \<Rightarrow> nat \<Rightarrow> string option" where
  "pathGetBootDir launchPath cwd n =
     (if n = 0 then None
      else
        (case path_get_dirname (Some launchPath) n True of
           Some d \<Rightarrow> Some d
         | None \<Rightarrow>
             (case cwd of
                None \<Rightarrow> None
              | Some pwd \<Rightarrow>
                  if \<not> pathIsDevicePath cwd \<and> \<not> pathIsUsbMassCompatPath cwd then None
                  else Some (pathNormaliseDir (copy_str pwd n) n))))"

definition pathJoin :: "nat \<Rightarrow> string option \<Rightarrow> string \<Rightarrow> string option" where
  "pathJoin n dir name =
     (case dir of
        None \<Rightarrow> None
      | Some dir \<Rightarrow>
          if n = 0 \<or> dir = [] then None
          else if length (dir @ name) \<ge> n then None else Some (dir @ name))"

section \<open>The shape of device paths\<close>

lemma parse_unit_suffix: "parse_unit v s = (v', t) \<Longrightarrow> \<exists>ds. s = ds @ t \<and> (\<forall>c\<in>set ds. is_digit c)"
proof (induction s arbitrary: v)
  case (Cons c s)
  show ?case
  proof (cases "is_digit c")
    case True
    with Cons.prems have "parse_unit (v * 10 + of_nat (digit_val c)) s = (v', t)" by simp
    from Cons.IH [OF this] obtain ds where "s = ds @ t \<and> (\<forall>c\<in>set ds. is_digit c)" by blast
    with True show ?thesis by (intro exI [of _ "c # ds"]) simp
  qed (use Cons.prems in simp)
qed simp

lemma parse_unit_append:
  "(\<forall>c\<in>set ds. is_digit c) \<Longrightarrow> t = [] \<or> \<not> is_digit (hd t) \<Longrightarrow> snd (parse_unit v (ds @ t)) = t"
proof (induction ds arbitrary: v)
  case Nil
  then show ?case by (cases t) auto
qed simp

lemma colon_no_digit: "\<not> is_digit CHR '':''"
  by (simp add: is_digit_def)

text \<open>A path has a device's prefix if digits stand between its name and the colon.\<close>

lemma has_prefix_iff:
  "pathHasDevicePrefix path device \<longleftrightarrow>
     (\<exists>ds tail. path = Some (device @ ds @ CHR '':'' # tail) \<and> (\<forall>c\<in>set ds. is_digit c))"
proof
  assume h: "pathHasDevicePrefix path device"
  then obtain p where p: "path = Some p" "take (length device) p = device"
    by (auto simp: pathHasDevicePrefix_def pathParseDevicePrefix_def split: option.splits if_splits)
  obtain c s where cs: "drop (length device) p = c # s" "c = CHR '':'' \<or> is_digit c"
    using h p by (auto simp: pathHasDevicePrefix_def pathParseDevicePrefix_def split: list.splits if_splits)
  have pd: "p = device @ c # s" using p(2) cs(1) by (metis append_take_drop_id)
  show "\<exists>ds tail. path = Some (device @ ds @ CHR '':'' # tail) \<and> (\<forall>c\<in>set ds. is_digit c)"
  proof (cases "c = CHR '':''")
    case True
    with p(1) pd show ?thesis by (intro exI [of _ "[]"] exI [of _ s]) simp
  next
    case False
    obtain v t where u: "parse_unit 0 (c # s) = (v, t)" by (metis surj_pair)
    then obtain tail where "t = CHR '':'' # tail"
      using h p cs False
      by (auto simp: pathHasDevicePrefix_def pathParseDevicePrefix_def split: list.splits if_splits)
    with parse_unit_suffix [OF u] p(1) pd show ?thesis by auto
  qed
next
  assume "\<exists>ds tail. path = Some (device @ ds @ CHR '':'' # tail) \<and> (\<forall>c\<in>set ds. is_digit c)"
  then obtain ds tail where p: "path = Some (device @ ds @ CHR '':'' # tail)" "\<forall>c\<in>set ds. is_digit c" by blast
  show "pathHasDevicePrefix path device"
  proof (cases ds)
    case Nil
    with p show ?thesis by (simp add: pathHasDevicePrefix_def pathParseDevicePrefix_def)
  next
    case (Cons c cs)
    have "snd (parse_unit 0 (ds @ CHR '':'' # tail)) = CHR '':'' # tail"
      by (rule parse_unit_append [OF p(2)]) (simp add: colon_no_digit)
    then obtain v where "parse_unit 0 (ds @ CHR '':'' # tail) = (v, CHR '':'' # tail)" by (metis prod.collapse)
    with p Cons show ?thesis by (auto simp: pathHasDevicePrefix_def pathParseDevicePrefix_def)
  qed
qed

lemma prefix_no_slash:
  "(\<forall>c\<in>set ds. is_digit c) \<Longrightarrow> device \<in> set (''mass'' # devices) \<Longrightarrow>
     CHR ''/'' \<notin> set (device @ ds @ '':'') \<and> CHR '':'' \<notin> set (device @ ds)"
  by (auto simp: devices_def is_digit_def)

text \<open>
  Cutting a path behind its last slash, or behind the colon, keeps the device: the device's name and
  number contain neither.
\<close>

lemma has_prefix_take:
  assumes "pathHasDevicePrefix (Some p) device" and "device \<in> set (''mass'' # devices)"
    and "n < length p" and "p ! n = CHR ''/'' \<or> p ! n = CHR '':''"
  shows "pathHasDevicePrefix (Some (take (n + 1) p)) device"
proof -
  obtain ds tail where p: "p = device @ ds @ CHR '':'' # tail" "\<forall>c\<in>set ds. is_digit c"
    using assms(1) by (auto simp: has_prefix_iff)
  have ns: "CHR ''/'' \<notin> set (device @ ds)" "CHR '':'' \<notin> set (device @ ds)"
    using prefix_no_slash [OF p(2) assms(2)] by auto
  have "length (device @ ds) \<le> n"
  proof (rule ccontr)
    assume "\<not> length (device @ ds) \<le> n"
    then have lt: "n < length (device @ ds)" by simp
    have "p ! n = (device @ ds) ! n"
      using lt p(1) nth_append [of "device @ ds" "CHR '':'' # tail" n] by simp
    then have "p ! n \<in> set (device @ ds)" using nth_mem [OF lt] by simp
    with assms(4) ns show False by auto
  qed
  then obtain k where "n = length (device @ ds) + k" using le_iff_add by blast
  then have "take (n + 1) p = device @ ds @ CHR '':'' # take k tail" using p(1) by simp
  with p(2) show ?thesis unfolding has_prefix_iff by blast
qed

definition usable_path :: "string \<Rightarrow> bool" where
  "usable_path p \<longleftrightarrow> pathIsDevicePath (Some p) \<or> pathIsUsbMassCompatPath (Some p)"

lemma usable_path_iff: "usable_path p \<longleftrightarrow> (\<exists>d\<in>set (''mass'' # devices). pathHasDevicePrefix (Some p) d)"
proof -
  have "p \<noteq> []" if "pathHasDevicePrefix (Some p) d" for d using that by (auto simp: has_prefix_iff)
  then show ?thesis
    by (auto simp: usable_path_def pathIsDevicePath_def pathIsUsbMassCompatPath_def list_ex_iff)
qed

lemma usable_path_take:
  assumes "usable_path p" and "n < length p" and "p ! n = CHR ''/'' \<or> p ! n = CHR '':''"
  shows "usable_path (take (n + 1) p)"
  using assms has_prefix_take unfolding usable_path_iff by blast

lemma usable_path_append: "usable_path p \<Longrightarrow> usable_path (p @ s)"
  unfolding usable_path_iff has_prefix_iff by fastforce

lemma normalise_usable:
  assumes "usable_path p" and "length p < n"
  shows "usable_path (pathNormaliseDir p n)" and "length (pathNormaliseDir p n) < n"
  using assms usable_path_append [of p "''/''"] by (auto simp: pathNormaliseDir_def Let_def)

lemma normalise_slash:
  assumes "length p + 1 < n" and "p \<noteq> []"
  shows "last (pathNormaliseDir p n) = CHR ''/''"
  using assms by (auto simp: pathNormaliseDir_def Let_def)

lemma last_take_nth: "n < length p \<Longrightarrow> last (take (n + 1) p) = p ! n"
  by (simp add: take_Suc_conv_app_nth)

section \<open>The boot directory\<close>

lemma dirname_usable:
  assumes "path_get_dirname (Some p) n True = Some d"
  shows "usable_path d \<and> length d < n \<and> (last d = CHR ''/'' \<or> length d + 1 = n)"
proof -
  have u: "usable_path p"
    using assms by (auto simp: path_get_dirname_def usable_path_def split: if_splits)
  show ?thesis
  proof (cases "strrchr_c p CHR ''/''")
    case None
    then obtain c where c: "strchr_c p CHR '':'' = Some c" "c + 1 < n" "d = pathNormaliseDir (take (c + 1) p) n"
      using assms by (auto simp: path_get_dirname_def split: option.splits if_splits)
    note sc = strchr_split [OF c(1)]
    have "usable_path (take (c + 1) p)" using usable_path_take [OF u sc(1)] sc(2) by simp
    moreover have "length (take (c + 1) p) = c + 1" using sc(1) by simp
    ultimately show ?thesis
      using c(2,3) normalise_usable [of "take (c + 1) p" n] normalise_slash [of "take (c + 1) p" n]
      by (cases "c + 2 = n") (auto simp: pathNormaliseDir_def Let_def)
  next
    case (Some s)
    then have d: "s + 1 < n" "d = take (s + 1) p"
      using assms by (auto simp: path_get_dirname_def split: option.splits if_splits)
    note sc = strrchr_split [OF Some]
    show ?thesis
      using usable_path_take [OF u sc(1)] sc(1,2) d last_take_nth [OF sc(1)] by auto
  qed
qed



end
