(* ===== verification/Config_Files.thy ===== *)
theory Config_Files
  imports Config_Settings Pathsupport
begin

text \<open>
  Loading and saving the configuration (\<^verbatim>\<open>src/config_wopl.c\<close>): the directory that the files live in, the
  boot file that points to it, and the operations that the user interface and the boot sequence call.
\<close>

section \<open>The world outside\<close>

text \<open>
  \<open>read_file\<close> is \<^verbatim>\<open>config_read_file\<close> (\<open>None\<close>: no file, or a syntax error), \<open>write_file\<close>
  \<^verbatim>\<open>config_write_file\<close>; \<open>stat_file\<close> has the number of the attempt, since a device appears with time.
  The last eight fields stand for the memory-card, mass-storage and theme code and for the loader of the
  former file format.
\<close>

record 'f cfg_env =
  read_file :: "'f \<Rightarrow> string \<Rightarrow> config option"
  write_file :: "'f \<Rightarrow> string \<Rightarrow> entries \<Rightarrow> 'f option"
  rename_file :: "'f \<Rightarrow> string \<Rightarrow> string \<Rightarrow> 'f"
  file_exists :: "'f \<Rightarrow> string \<Rightarrow> bool"
  stat_file :: "'f \<Rightarrow> nat \<Rightarrow> string \<Rightarrow> bool"
  getcwd :: "string option"
  wopl_folder :: string
  sbCheckMC :: "char option"
  sbEnsureMCConfigFolder :: "'f \<Rightarrow> string \<Rightarrow> 'f option"
  bdmResolveUsbMassCompatPath :: "string \<Rightarrow> string option"
  thmValue :: string
  lngValue :: string
  migrate_opl :: "'f \<Rightarrow> string \<Rightarrow> wopl_cfg \<Rightarrow> wopl_cfg option"
  migrate_net :: "'f \<Rightarrow> string \<Rightarrow> net_cfg \<Rightarrow> net_cfg option"
  migrate_game :: "'f \<Rightarrow> string \<Rightarrow> global_game_cfg \<Rightarrow> global_game_cfg option"

text \<open>The variables of the file: \<open>[]\<close> is a directory that is not set.\<close>

record 'f cfg_state =
  fs :: 'f
  config_dir :: string
  boot_dir :: string
  last_played :: string
  wopl :: wopl_cfg
  net :: net_cfg
  gGlobalGameCfg :: global_game_cfg
  lscret :: nat

definition WOPL_FILENAME :: string where "WOPL_FILENAME = ''wopl_settings.cfg''"
definition WOPL_FILENAME_OLD :: string where "WOPL_FILENAME_OLD = ''conf_wopl.cfg''"
definition NET_FILENAME :: string where "NET_FILENAME = ''wopl_network.cfg''"
definition NET_FILENAME_OLD :: string where "NET_FILENAME_OLD = ''conf_network.cfg''"
definition GAME_FILENAME :: string where "GAME_FILENAME = ''wopl_global_game.cfg''"
definition GAME_FILENAME_OLD :: string where "GAME_FILENAME_OLD = ''conf_game.cfg''"
definition LAST_FILENAME :: string where "LAST_FILENAME = ''wopl_last_played.cfg''"
definition BOOT_FILENAME :: string where "BOOT_FILENAME = ''wopl_boot.cfg''"

section \<open>The configuration directory\<close>

definition wait_for_config_root_ready :: "'f cfg_env \<Rightarrow> 'f \<Rightarrow> string \<Rightarrow> bool" where
  "wait_for_config_root_ready env f path = list_ex (\<lambda>i. stat_file env f i path) [0 ..< 10]"

definition normalise_config_root_dir :: "'f cfg_env \<Rightarrow> 'f \<Rightarrow> nat \<Rightarrow> string \<Rightarrow> bool \<Rightarrow> string option" where
  "normalise_config_root_dir env f n dir allowUsbMassCompat =
     (if n = 0 \<or> dir = [] then None
      else if pathIsUsbMassCompatPath (Some dir) then
        (if \<not> allowUsbMassCompat then None else Some (pathNormaliseDir (copy_str dir n) n))
      else
        (let out = pathNormaliseDir (copy_str dir n) n in
         if \<not> pathIsDevicePath (Some out) then None
         else if \<not> wait_for_config_root_ready env f out then None
         else Some out))"

definition load_boot_config_from_dir :: "'f cfg_env \<Rightarrow> string \<Rightarrow> 'f cfg_state \<Rightarrow> bool \<times> 'f cfg_state" where
  "load_boot_config_from_dir env launch_dir s =
     (case normalise_config_root_dir env (fs s) 128 launch_dir True of
        None \<Rightarrow> (False, s)
      | Some boot_root \<Rightarrow>
          (let s = s\<lparr>boot_dir := copy_str boot_root 128\<rparr> in
           case pathJoin 256 (Some boot_root) BOOT_FILENAME of
             None \<Rightarrow> (False, s)
           | Some boot_path \<Rightarrow>
               if \<not> file_exists env (fs s) boot_path then (True, s\<lparr>config_dir := copy_str boot_root 128\<rparr>)
               else
                 (case read_file env (fs s) boot_path of
                    None \<Rightarrow> (False, s)
                  | Some cfg \<Rightarrow>
                      (let chosen =
                         (case cfgGetStr cfg ''boot.config_dir'' of
                            None \<Rightarrow> None
                          | Some v \<Rightarrow>
                              if v = [] \<or> pathIsUsbMassCompatPath (Some v) then None
                              else normalise_config_root_dir env (fs s) 128 v False)
                       in (True, s\<lparr>config_dir := copy_str (case chosen of None \<Rightarrow> boot_root | Some d \<Rightarrow> d) 128\<rparr>)))))"

definition pick_default_config_dir :: "'f cfg_env \<Rightarrow> string \<Rightarrow> 'f cfg_state \<Rightarrow> bool \<times> 'f cfg_state" where
  "pick_default_config_dir env launchPath s =
     (let mc =
        (\<lambda>s. case sbCheckMC env of
               None \<Rightarrow> (False, s)
             | Some slot \<Rightarrow>
                 (let d = copy_str (''mc'' @ [slot] @ '':'' @ wopl_folder env @ ''/'') 128
                  in (True, s\<lparr>config_dir := d, boot_dir := copy_str d 128\<rparr>)))
      in case pathGetBootDir launchPath (getcwd env) 128 of
           None \<Rightarrow> mc s
         | Some dir \<Rightarrow>
             (case load_boot_config_from_dir env dir s of
                (True, s1) \<Rightarrow> (True, s1)
              | (False, s1) \<Rightarrow>
                  (case normalise_config_root_dir env (fs s1) 128 dir True of
                     Some d \<Rightarrow> (True, s1\<lparr>boot_dir := copy_str d 128, config_dir := copy_str d 128\<rparr>)
                   | None \<Rightarrow> mc s1)))"

definition ensure_config_dir :: "'f cfg_env \<Rightarrow> string \<Rightarrow> 'f cfg_state \<Rightarrow> bool \<times> 'f cfg_state" where
  "ensure_config_dir env launchPath s =
     (if config_dir s \<noteq> [] then (True, s) else pick_default_config_dir env launchPath s)"

section \<open>Saving\<close>

definition do_save_at_dir :: "'f cfg_env \<Rightarrow> string \<Rightarrow> string \<Rightarrow> entries \<Rightarrow> 'f cfg_state \<Rightarrow> bool \<times> 'f cfg_state" where
  "do_save_at_dir env dir name es s =
     (case pathJoin 256 (Some dir) name of
        None \<Rightarrow> (False, s)
      | Some path \<Rightarrow>
          (case write_file env (fs s) path es of
             None \<Rightarrow> (False, s)
           | Some f \<Rightarrow> (True, s\<lparr>fs := f, config_dir := copy_str dir 128\<rparr>)))"

definition do_save :: "'f cfg_env \<Rightarrow> string \<Rightarrow> string \<Rightarrow> entries \<Rightarrow> 'f cfg_state \<Rightarrow> bool \<times> 'f cfg_state" where
  "do_save env launchPath name es s =
     (case ensure_config_dir env launchPath s of
        (False, s1) \<Rightarrow> (False, s1)
      | (True, s1) \<Rightarrow> do_save_at_dir env (config_dir s1) name es s1)"

definition build_boot :: "string \<Rightarrow> entries" where
  "build_boot dir = (let g = add_group [] ''boot'' in [set_str g ''config_dir'' dir])"

definition save_boot_config :: "'f cfg_env \<Rightarrow> 'f cfg_state \<Rightarrow> bool \<times> 'f cfg_state" where
  "save_boot_config env s =
     (if boot_dir s = [] \<or> config_dir s = [] then (True, s)
      else if pathIsUsbMassCompatPath (Some (config_dir s)) then (True, s)
      else
        (case (if pathHasDevicePrefix (Some (boot_dir s)) ''mc''
               then sbEnsureMCConfigFolder env (fs s) (boot_dir s) else Some (fs s)) of
           None \<Rightarrow> (False, s)
         | Some f \<Rightarrow>
             (let s = s\<lparr>fs := f\<rparr> in
              case pathJoin 256 (Some (boot_dir s)) BOOT_FILENAME of
                None \<Rightarrow> (False, s)
              | Some path \<Rightarrow>
                  (case write_file env (fs s) path (build_boot (config_dir s)) of
                     None \<Rightarrow> (False, s)
                   | Some f \<Rightarrow> (True, s\<lparr>fs := f\<rparr>)))))"

definition wOPLSave :: "'f cfg_env \<Rightarrow> string \<Rightarrow> 'f cfg_state \<Rightarrow> bool \<times> 'f cfg_state" where
  "wOPLSave env launchPath s =
     do_save env launchPath WOPL_FILENAME (build_opl (thmValue env) (lngValue env) (wopl s)) s"

definition wOPLNetSave :: "'f cfg_env \<Rightarrow> string \<Rightarrow> 'f cfg_state \<Rightarrow> bool \<times> 'f cfg_state" where
  "wOPLNetSave env launchPath s = do_save env launchPath NET_FILENAME (build_net (net s)) s"

definition wOPLGlobalGameSave :: "'f cfg_env \<Rightarrow> string \<Rightarrow> 'f cfg_state \<Rightarrow> bool \<times> 'f cfg_state" where
  "wOPLGlobalGameSave env launchPath s =
     do_save env launchPath GAME_FILENAME (build_global_game (gGlobalGameCfg s)) s"

section \<open>Loading\<close>

text \<open>
  The three loads have one shape: the new file; else the old one, parsed if it has the group \<open>marker\<close>
  already, otherwise by the migration; after which the new file is written and the old one renamed.
\<close>

definition backup_old :: "'f cfg_env \<Rightarrow> string \<Rightarrow> bool \<times> 'f cfg_state \<Rightarrow> 'f cfg_state" where
  "backup_old env old_path r =
     (case r of (saved, s) \<Rightarrow>
        if saved then s\<lparr>fs := rename_file env (fs s) old_path (copy_str (old_path @ ''.bak'') 256)\<rparr> else s)"

definition wOPLLoad :: "'f cfg_env \<Rightarrow> string \<Rightarrow> 'f cfg_state \<Rightarrow> bool \<times> 'f cfg_state" where
  "wOPLLoad env launchPath s =
     (case ensure_config_dir env launchPath s of
        (False, s) \<Rightarrow> (False, s)
      | (True, s) \<Rightarrow>
          (case pathJoin 256 (Some (config_dir s)) WOPL_FILENAME of
             None \<Rightarrow> (False, s)
           | Some path \<Rightarrow>
               (case read_file env (fs s) path of
                  Some cfg \<Rightarrow> (True, s\<lparr>wopl := parse_opl_cfg cfg (wopl s)\<rparr>)
                | None \<Rightarrow>
                    (case pathJoin 256 (Some (config_dir s)) WOPL_FILENAME_OLD of
                       None \<Rightarrow> (False, s)
                     | Some old_path \<Rightarrow>
                         (case (case read_file env (fs s) old_path of
                                  Some cfg \<Rightarrow>
                                    if cfg ''display'' \<noteq> None then Some (parse_opl_cfg cfg (wopl s))
                                    else migrate_opl env (fs s) old_path (wopl s)
                                | None \<Rightarrow> migrate_opl env (fs s) old_path (wopl s)) of
                            None \<Rightarrow> (False, s)
                          | Some w \<Rightarrow>
                              (True, backup_old env old_path (wOPLSave env launchPath (s\<lparr>wopl := w\<rparr>))))))))"

definition wOPLNetLoad :: "'f cfg_env \<Rightarrow> string \<Rightarrow> 'f cfg_state \<Rightarrow> bool \<times> 'f cfg_state" where
  "wOPLNetLoad env launchPath s =
     (case ensure_config_dir env launchPath s of
        (False, s) \<Rightarrow> (False, s)
      | (True, s) \<Rightarrow>
          (case pathJoin 256 (Some (config_dir s)) NET_FILENAME of
             None \<Rightarrow> (False, s)
           | Some path \<Rightarrow>
               (case read_file env (fs s) path of
                  Some cfg \<Rightarrow> (True, s\<lparr>net := parse_net cfg (net s)\<rparr>)
                | None \<Rightarrow>
                    (case pathJoin 256 (Some (config_dir s)) NET_FILENAME_OLD of
                       None \<Rightarrow> (False, s)
                     | Some old_path \<Rightarrow>
                         (case (case read_file env (fs s) old_path of
                                  Some cfg \<Rightarrow>
                                    if cfg ''ps2'' \<noteq> None then Some (parse_net cfg (net s))
                                    else migrate_net env (fs s) old_path (net s)
                                | None \<Rightarrow> migrate_net env (fs s) old_path (net s)) of
                            None \<Rightarrow> (False, s)
                          | Some w \<Rightarrow>
                              (True, backup_old env old_path (wOPLNetSave env launchPath (s\<lparr>net := w\<rparr>))))))))"

definition wOPLGlobalGameLoad :: "'f cfg_env \<Rightarrow> string \<Rightarrow> 'f cfg_state \<Rightarrow> bool \<times> 'f cfg_state" where
  "wOPLGlobalGameLoad env launchPath s =
     (case ensure_config_dir env launchPath s of
        (False, s) \<Rightarrow> (False, s)
      | (True, s) \<Rightarrow>
          (case pathJoin 256 (Some (config_dir s)) GAME_FILENAME of
             None \<Rightarrow> (False, s)
           | Some path \<Rightarrow>
               (case read_file env (fs s) path of
                  Some cfg \<Rightarrow> (True, s\<lparr>gGlobalGameCfg := parse_global_game cfg (gGlobalGameCfg s)\<rparr>)
                | None \<Rightarrow>
                    (case pathJoin 256 (Some (config_dir s)) GAME_FILENAME_OLD of
                       None \<Rightarrow> (False, s)
                     | Some old_path \<Rightarrow>
                         (case migrate_game env (fs s) old_path (gGlobalGameCfg s) of
                            None \<Rightarrow> (False, s)
                          | Some w \<Rightarrow>
                              (True, backup_old env old_path
                                 (wOPLGlobalGameSave env launchPath (s\<lparr>gGlobalGameCfg := w\<rparr>))))))))"

definition wOPLLastLoad :: "'f cfg_env \<Rightarrow> string \<Rightarrow> 'f cfg_state \<Rightarrow> bool \<times> 'f cfg_state" where
  "wOPLLastLoad env launchPath s =
     (case ensure_config_dir env launchPath s of
        (False, s) \<Rightarrow> (False, s)
      | (True, s) \<Rightarrow>
          (case pathJoin 256 (Some (config_dir s)) LAST_FILENAME of
             None \<Rightarrow> (False, s)
           | Some path \<Rightarrow>
               (case read_file env (fs s) path of
                  None \<Rightarrow> (False, s)
                | Some cfg \<Rightarrow> (True, s\<lparr>last_played := load_str cfg ''last_played'' 256 (last_played s)\<rparr>))))"

definition wOPLLastSave :: "'f cfg_env \<Rightarrow> string \<Rightarrow> string option \<Rightarrow> 'f cfg_state \<Rightarrow> bool \<times> 'f cfg_state" where
  "wOPLLastSave env launchPath startup s =
     (case ensure_config_dir env launchPath s of
        (False, s) \<Rightarrow> (False, s)
      | (True, s) \<Rightarrow>
          (case startup of
             None \<Rightarrow> (False, s)
           | Some st \<Rightarrow>
               (case pathJoin 256 (Some (config_dir s)) LAST_FILENAME of
                  None \<Rightarrow> (False, s)
                | Some path \<Rightarrow>
                    (case write_file env (fs s) path [set_str [] ''last_played'' st] of
                       None \<Rightarrow> (False, s)
                     | Some f \<Rightarrow> (True, s\<lparr>fs := f, last_played := copy_str st 256\<rparr>)))))"

definition wOPLLastGet :: "'f cfg_state \<Rightarrow> string option" where
  "wOPLLastGet s = (if last_played s \<noteq> [] then Some (last_played s) else None)"

definition wOPLPerGameLoad :: "'f cfg_env \<Rightarrow> 'f \<Rightarrow> string \<Rightarrow> bool \<times> per_game_cfg" where
  "wOPLPerGameLoad env f path =
     (case read_file env f path of
        None \<Rightarrow> (False, init_per_game_cfg)
      | Some cfg \<Rightarrow> (True, parse_per_game cfg init_per_game_cfg))"

definition wOPLPerGameSave :: "'f cfg_env \<Rightarrow> 'f \<Rightarrow> string \<Rightarrow> per_game_cfg \<Rightarrow> 'f option" where
  "wOPLPerGameSave env f path pg = write_file env f path (build_per_game pg)"

definition wOPLGameInfoLoad :: "'f cfg_env \<Rightarrow> 'f \<Rightarrow> string \<Rightarrow> bool \<times> game_info" where
  "wOPLGameInfoLoad env f path =
     (case read_file env f path of
        None \<Rightarrow> (False, no_game_info)
      | Some cfg \<Rightarrow> (True, parse_game_info cfg no_game_info))"

definition wOPLGameInfoSave :: "'f cfg_env \<Rightarrow> 'f \<Rightarrow> string \<Rightarrow> game_info \<Rightarrow> 'f option" where
  "wOPLGameInfoSave env f path gi = write_file env f path (build_game_info gi)"

section \<open>All files together\<close>

definition MMCE_MODE :: s32 where "MMCE_MODE = 9"
definition APP_MODE :: s32 where "APP_MODE = 7"

text \<open>Of \<^verbatim>\<open>configApply\<close>, what it does to the settings; the rest redraws the user interface.\<close>

definition configApply :: "wopl_cfg \<Rightarrow> wopl_cfg" where
  "configApply w =
     (let d = gDefaultDevice (c_startup w) in
      if d <s 0 \<or> MMCE_MODE <s d then w\<lparr>c_startup := (c_startup w)\<lparr>gDefaultDevice := APP_MODE\<rparr>\<rparr> else w)"

definition resolve_usb_mass_config_path :: "'f cfg_env \<Rightarrow> string \<Rightarrow> string option" where
  "resolve_usb_mass_config_path env dir =
     (if \<not> pathIsUsbMassCompatPath (Some dir) then Some dir
      else
        (case bdmResolveUsbMassCompatPath env dir of
           None \<Rightarrow> None
         | Some r \<Rightarrow>
             (let r = pathNormaliseDir (copy_str r 128) 128 in
              if \<not> pathIsDevicePath (Some r) \<or> pathIsUsbMassCompatPath (Some r) then None
              else Some (copy_str r 128))))"

definition resolve_usb_mass_config_paths :: "'f cfg_env \<Rightarrow> 'f cfg_state \<Rightarrow> bool \<times> 'f cfg_state" where
  "resolve_usb_mass_config_paths env s =
     (case resolve_usb_mass_config_path env (config_dir s) of
        None \<Rightarrow> (False, s)
      | Some d \<Rightarrow>
          (let s = s\<lparr>config_dir := d\<rparr> in
           case resolve_usb_mass_config_path env (boot_dir s) of
             None \<Rightarrow> (False, s)
           | Some d \<Rightarrow> (True, s\<lparr>boot_dir := d\<rparr>)))"

abbreviation (input) CONFIG_OPL :: nat where "CONFIG_OPL \<equiv> 1"
abbreviation (input) CONFIG_NETWORK :: nat where "CONFIG_NETWORK \<equiv> 8"
abbreviation (input) CONFIG_GAME :: nat where "CONFIG_GAME \<equiv> 16"

definition with_type :: "nat \<Rightarrow> nat \<Rightarrow> ('s \<Rightarrow> bool \<times> 's) \<Rightarrow> nat \<times> 's \<Rightarrow> nat \<times> 's" where
  "with_type types t op r =
     (case r of (res, s) \<Rightarrow>
        if types AND t = 0 then (res, s) else (case op s of (ok, s) \<Rightarrow> (if ok then res OR t else res, s)))"

text \<open>\<open>auto_vmode\<close>: triangle and cross are held at boot, which selects the automatic video mode.\<close>

definition loadConfig :: "'f cfg_env \<Rightarrow> string \<Rightarrow> bool \<Rightarrow> nat \<Rightarrow> 'f cfg_state \<Rightarrow> 'f cfg_state" where
  "loadConfig env launchPath auto_vmode types s =
     (let s = snd (ensure_config_dir env launchPath s);
          (r, s) = with_type types CONFIG_OPL (wOPLLoad env launchPath) (0, s);
          s = (if types AND CONFIG_OPL \<noteq> 0 \<and> auto_vmode
               then s\<lparr>wopl := (wopl s)\<lparr>c_display := (c_display (wopl s))\<lparr>gVMode := 0\<rparr>\<rparr>\<rparr> else s);
          (r, s) = with_type types CONFIG_NETWORK (wOPLNetLoad env launchPath) (r, s);
          (r, s) = with_type types CONFIG_GAME (wOPLGlobalGameLoad env launchPath) (r, s);
          s = s\<lparr>wopl := configApply (wopl s)\<rparr>;
          s = snd (resolve_usb_mass_config_paths env s)
      in s\<lparr>lscret := r\<rparr>)"

definition config_type_count :: "nat \<Rightarrow> nat" where
  "config_type_count types =
     (if types AND CONFIG_OPL \<noteq> 0 then 1 else 0) + (if types AND CONFIG_NETWORK \<noteq> 0 then 1 else 0) +
     (if types AND CONFIG_GAME \<noteq> 0 then 1 else 0)"

definition count_save :: "nat \<Rightarrow> nat \<Rightarrow> ('s \<Rightarrow> bool \<times> 's) \<Rightarrow> nat \<times> 's \<Rightarrow> nat \<times> 's" where
  "count_save types t op r =
     (case r of (n, s) \<Rightarrow>
        if types AND t = 0 then (n, s) else (case op s of (ok, s) \<Rightarrow> (if ok then n + 1 else n, s)))"

definition save_files :: "'f cfg_env \<Rightarrow> nat \<Rightarrow> 'f cfg_state \<Rightarrow> nat \<times> 'f cfg_state" where
  "save_files env types s =
     count_save types CONFIG_GAME
       (\<lambda>s. do_save_at_dir env (config_dir s) GAME_FILENAME (build_global_game (gGlobalGameCfg s)) s)
       (count_save types CONFIG_NETWORK
         (\<lambda>s. do_save_at_dir env (config_dir s) NET_FILENAME (build_net (net s)) s)
         (count_save types CONFIG_OPL
           (\<lambda>s. do_save_at_dir env (config_dir s) WOPL_FILENAME
              (build_opl (thmValue env) (lngValue env) (wopl s)) s) (0, s)))"

definition save_all_to_current_dir :: "'f cfg_env \<Rightarrow> string \<Rightarrow> nat \<Rightarrow> 'f cfg_state \<Rightarrow> nat \<times> 'f cfg_state" where
  "save_all_to_current_dir env launchPath types s =
     (case ensure_config_dir env launchPath s of
        (False, s) \<Rightarrow> (0, s)
      | (True, s) \<Rightarrow>
          (case resolve_usb_mass_config_paths env s of
             (False, s) \<Rightarrow> (0, s)
           | (True, s) \<Rightarrow>
               (case (if pathHasDevicePrefix (Some (config_dir s)) ''mc''
                      then sbEnsureMCConfigFolder env (fs s) (config_dir s) else Some (fs s)) of
                  None \<Rightarrow> (0, s)
                | Some f \<Rightarrow>
                    (case save_files env types (s\<lparr>fs := f\<rparr>) of (n, s) \<Rightarrow>
                       if n \<noteq> config_type_count types then (n, s)
                       else (case save_boot_config env s of (ok, s) \<Rightarrow> (if ok then n else 0, s))))))"

text \<open>\<^verbatim>\<open>configSave\<close>: \<open>True\<close> announces that the settings were saved.\<close>

definition configSave :: "'f cfg_env \<Rightarrow> string \<Rightarrow> nat \<Rightarrow> 'f cfg_state \<Rightarrow> bool \<times> 'f cfg_state" where
  "configSave env launchPath types s =
     (case save_all_to_current_dir env launchPath types s of (n, s) \<Rightarrow> (n \<noteq> 0, s\<lparr>lscret := n\<rparr>))"

definition configLoad :: "'f cfg_env \<Rightarrow> string \<Rightarrow> bool \<Rightarrow> nat \<Rightarrow> 'f cfg_state \<Rightarrow> nat \<times> 'f cfg_state" where
  "configLoad env launchPath auto_vmode types s =
     (let s = loadConfig env launchPath auto_vmode types s in (lscret s, s))"

end
