(* ===== verification/Config_Roundtrip.thy ===== *)
theory Config_Roundtrip
  imports Config_Files
begin

text \<open>
  Loading what was saved: every section of the settings files, the network file, the game files with their
  optional entries; and that the entries of a file have distinct paths and proper strings.
\<close>

section \<open>Round trips of the sections\<close>

lemmas set_defs = set_int_def set_bool_def set_str_def set_color_def set_ip_def add_group_def

text \<open>A file that holds the entries.\<close>

definition holds_entries :: "config \<Rightarrow> entries \<Rightarrow> bool" where
  "holds_entries cfg es \<longleftrightarrow> list_all (\<lambda>(k, v). cfg k = Some v) es"

lemma holds_entries_simps [simp]:
  "holds_entries cfg [] \<longleftrightarrow> True"
  "holds_entries cfg ((k, v) # es) \<longleftrightarrow> cfg k = Some v \<and> holds_entries cfg es"
  "holds_entries cfg (es @ es') \<longleftrightarrow> holds_entries cfg es \<and> holds_entries cfg es'"
  by (simp_all add: holds_entries_def)

lemma is_bool_val: "is_bool b \<Longrightarrow> (if b = 0 then 0 else 1) = b" "is_bool b \<Longrightarrow> (if b \<noteq> 0 then 1 else 0) = b"
  by (auto simp: is_bool_def)

lemma get_held:
  "cfg p = Some (CInt i) \<Longrightarrow> lookup_int cfg p d = i"
  "cfg p = Some (CBool b) \<Longrightarrow> lookup_bool cfg p d = (if b then 1 else 0)"
  "cfg p = Some (CString s) \<Longrightarrow> load_str cfg p k old = copy_str s k"
  "cfg p = Some (CString s) \<Longrightarrow> load_color cfg p c = str_to_color s"
  "cfg p = Some (CString s) \<Longrightarrow> load_ip cfg p ip = str_to_ip s"
  by (simp_all add: lookup_int_def lookup_bool_def load_str_def load_color_def load_ip_def lookup_str_def
      cfgGetInt_def cfgGetStr_def)

lemmas section_simps = set_defs get_held is_bool_val color_roundtrip ip_roundtrip str_ok_def

lemma display_roundtrip:
  "holds_entries cfg (build_display r) \<Longrightarrow> display_ok r \<Longrightarrow> parse_display cfg r0 = r"
  by (cases r, cases r0, simp add: parse_display_def build_display_def display_ok_def section_simps split del: if_split)

lemma ui_roundtrip:
  "holds_entries cfg (build_ui theme lang r) \<Longrightarrow> ui_ok r \<Longrightarrow> str_ok 128 theme \<Longrightarrow> str_ok 128 lang \<Longrightarrow>
     parse_ui cfg r0 = r\<lparr>s_theme_name := theme, s_lang_name := lang\<rparr>"
  by (cases r, cases r0) (auto simp: parse_ui_def build_ui_def ui_ok_def section_simps KEY_CROSS_def KEY_CIRCLE_def split del: if_split)

lemma audio_roundtrip:
  "holds_entries cfg (build_audio r) \<Longrightarrow> audio_ok r \<Longrightarrow> parse_audio cfg r0 = r"
  by (cases r, cases r0, simp add: parse_audio_def build_audio_def audio_ok_def section_simps split del: if_split)

lemma startup_roundtrip:
  "holds_entries cfg (build_startup r) \<Longrightarrow> startup_ok r \<Longrightarrow> parse_startup cfg r0 = r"
  by (cases r, cases r0, simp add: parse_startup_def build_startup_def startup_ok_def section_simps split del: if_split)

lemma devices_roundtrip:
  "holds_entries cfg (build_devices r) \<Longrightarrow> devices_ok r \<Longrightarrow> parse_devices cfg r0 = r"
  by (cases r, cases r0, simp add: parse_devices_def build_devices_def devices_ok_def section_simps split del: if_split)

lemma paths_roundtrip:
  "holds_entries cfg (build_paths r) \<Longrightarrow> paths_ok r \<Longrightarrow> parse_paths cfg r0 = r"
  by (cases r, cases r0, simp add: parse_paths_def build_paths_def paths_ok_def section_simps split del: if_split)

lemma mmce_roundtrip:
  "holds_entries cfg (build_mmce r) \<Longrightarrow> mmce_ok r \<Longrightarrow> parse_mmce cfg r0 = r"
  by (cases r, cases r0, simp add: parse_mmce_def build_mmce_def mmce_ok_def section_simps split del: if_split)

lemma debug_roundtrip:
  "holds_entries cfg (build_debug r) \<Longrightarrow> debug_ok r \<Longrightarrow> parse_debug cfg r0 = r"
  by (cases r, cases r0, simp add: parse_debug_def build_debug_def debug_ok_def section_simps split del: if_split)

lemma coverflow_roundtrip:
  "holds_entries cfg (build_coverflow r) \<Longrightarrow> parse_coverflow cfg r0 = r"
  by (cases r, cases r0, simp add: parse_coverflow_def build_coverflow_def section_simps split del: if_split)

lemma frames_roundtrip:
  "holds_entries cfg (build_frames_delay r) \<Longrightarrow> parse_frames_delay cfg r0 = r"
  by (cases r, cases r0, simp add: parse_frames_delay_def build_frames_delay_def section_simps split del: if_split)

lemma sanitize_names:
  "sanitize_pad_sensitivity (r\<lparr>s_theme_name := a, s_lang_name := b\<rparr>) =
     (sanitize_pad_sensitivity r)\<lparr>s_theme_name := a, s_lang_name := b\<rparr>"
  by (simp add: sanitize_pad_sensitivity_def)

lemma opl_roundtrip:
  assumes "holds_entries cfg (build_opl theme lang w)" and "wopl_ok w" and "str_ok 128 theme" and "str_ok 128 lang"
  shows "parse_opl_cfg cfg w0 = w\<lparr>c_ui := (c_ui w)\<lparr>s_theme_name := theme, s_lang_name := lang\<rparr>\<rparr>"
proof -
  let ?u = "(c_ui w)\<lparr>s_theme_name := theme, s_lang_name := lang\<rparr>"
  have "sanitize_pad_sensitivity (c_ui w) = c_ui w" using assms(2) by (simp add: wopl_ok_def)
  then have "sanitize_pad_sensitivity ?u = ?u"
    by (simp add: sanitize_names)
  with assms show ?thesis
    by (cases w) (simp add: parse_opl_cfg_def build_opl_def wopl_ok_def display_roundtrip [of cfg "c_display w"]
        ui_roundtrip [of cfg theme lang "c_ui w"] audio_roundtrip [of cfg "c_audio w"]
        startup_roundtrip [of cfg "c_startup w"] devices_roundtrip [of cfg "c_devices w"]
        paths_roundtrip [of cfg "c_paths w"] mmce_roundtrip [of cfg "c_mmce w"] debug_roundtrip [of cfg "c_debug w"]
        coverflow_roundtrip [of cfg "c_coverflow w"] frames_roundtrip [of cfg "c_frames w"])
qed

lemma net_roundtrip:
  "holds_entries cfg (build_net r) \<Longrightarrow> net_ok r \<Longrightarrow> parse_net cfg r0 = r"
  by (cases r, cases r0, simp add: parse_net_def build_net_def net_ok_def section_simps split del: if_split)

lemma global_game_roundtrip:
  "holds_entries cfg (build_global_game r) \<Longrightarrow> parse_global_game cfg r0 = r"
  by (cases r, cases r0, simp add: parse_global_game_def build_global_game_def section_simps split del: if_split)

lemma per_game_roundtrip:
  "holds_entries cfg (build_per_game r) \<Longrightarrow> per_game_ok r \<Longrightarrow>
     parse_per_game cfg r0 = r\<lparr>pg_size_mb := pg_size_mb r0, pg_format := pg_format r0, pg_media := pg_media r0\<rparr>"
  by (cases r, cases r0, simp add: parse_per_game_def build_per_game_def per_game_ok_def section_simps)

section \<open>What is written\<close>

definition entries_ok :: "entries \<Rightarrow> bool" where
  "entries_ok es \<longleftrightarrow> distinct (map fst es) \<and> list_all (\<lambda>(k, v). \<forall>s. v = CString s \<longrightarrow> no_nul s) es"

text \<open>The documented behaviour of libconfig, and that preparing a memory-card folder keeps the files.\<close>

definition cfg_env_ok :: "'f cfg_env \<Rightarrow> bool" where
  "cfg_env_ok env \<longleftrightarrow>
     (\<forall>f path es f'. entries_ok es \<longrightarrow> write_file env f path es = Some f' \<longrightarrow>
        (\<exists>cfg. read_file env f' path = Some cfg \<and> holds_entries cfg es \<and>
           (\<forall>k. k \<notin> fst ` set es \<longrightarrow> (\<forall>e\<in>set es. take (length k + 1) (fst e) \<noteq> k @ ''.'') \<longrightarrow> cfg k = None)) \<and>
        file_exists env f' path \<and>
        (\<forall>p. p \<noteq> path \<longrightarrow> read_file env f' p = read_file env f p \<and> file_exists env f' p = file_exists env f p) \<and>
        (\<forall>i p. stat_file env f i p \<longrightarrow> stat_file env f' i p)) \<and>
     (\<forall>f dir f'. sbEnsureMCConfigFolder env f dir = Some f' \<longrightarrow>
        (\<forall>p. read_file env f' p = read_file env f p \<and> (file_exists env f p \<longrightarrow> file_exists env f' p)) \<and>
        (\<forall>i p. stat_file env f i p \<longrightarrow> stat_file env f' i p))"

definition file_holds :: "'f cfg_env \<Rightarrow> 'f \<Rightarrow> string \<Rightarrow> entries \<Rightarrow> bool" where
  "file_holds env f path es \<longleftrightarrow>
     file_exists env f path \<and> (\<exists>cfg. read_file env f path = Some cfg \<and> holds_entries cfg es)"

definition stays :: "'f cfg_env \<Rightarrow> 'f \<Rightarrow> 'f \<Rightarrow> bool" where
  "stays env f f' \<longleftrightarrow> (\<forall>i p. stat_file env f i p \<longrightarrow> stat_file env f' i p)"

lemma stays_ready: "stays env f f' \<Longrightarrow> wait_for_config_root_ready env f p \<Longrightarrow> wait_for_config_root_ready env f' p"
  by (auto simp: stays_def wait_for_config_root_ready_def list_ex_iff)

lemma stays_refl [simp]: "stays env f f"
  by (simp add: stays_def)

lemma stays_trans: "stays env f g \<Longrightarrow> stays env g h \<Longrightarrow> stays env f h"
  by (simp add: stays_def)

lemma write_holds:
  assumes "cfg_env_ok env" and "entries_ok es" and "write_file env f path es = Some f'"
  shows "file_holds env f' path es" and "stays env f f'"
    and "p \<noteq> path \<Longrightarrow> file_holds env f p es2 \<Longrightarrow> file_holds env f' p es2"
  using assms unfolding cfg_env_ok_def file_holds_def stays_def by metis+

lemma ensure_holds:
  assumes "cfg_env_ok env" and "sbEnsureMCConfigFolder env f dir = Some f'"
  shows "stays env f f'" and "file_holds env f p es \<Longrightarrow> file_holds env f' p es"
  using assms unfolding cfg_env_ok_def file_holds_def stays_def by metis+

lemma no_nul_show_nat: "no_nul (show_nat n)"
  using show_nat_digits [of n] by (auto simp: no_nul_def is_digit_def)

lemma no_nul_append [simp]: "no_nul (s @ t) \<longleftrightarrow> no_nul s \<and> no_nul t"
  by (auto simp: no_nul_def)

lemma no_nul_take: "no_nul s \<Longrightarrow> no_nul (take n s)"
  by (auto simp: no_nul_def dest: in_set_takeD)

lemma no_nul_ip: "no_nul (take 15 (ip_to_str ip))"
proof -
  have "no_nul (show_int i)" for i
    using no_nul_show_nat [of "nat (- i)"] no_nul_show_nat [of "nat i"] by (auto simp: show_int_def no_nul_def)
  then have "no_nul (ip_to_str ip)" by (simp add: ip_to_str_def no_nul_def)
  then show ?thesis by (rule no_nul_take)
qed

lemma toHex_table: "list_all (\<lambda>d. toHex d \<noteq> CHR 0x00) [0 ..< 16]"
  by code_simp

lemma no_nul_hex: "no_nul (show_hex2 b)"
proof -
  have "toHex d \<noteq> CHR 0x00" if "d < 16" for d
    using toHex_table that unfolding list_all_iff set_upt by (meson atLeastLessThan_iff le0)
  from this [OF unat_u8_digits(1) [of b]] this [OF unat_u8_digits(2) [of b]] show ?thesis
    by (simp add: show_hex2_def no_nul_def eq_commute)
qed

lemma no_nul_color: "no_nul (take 7 (color_to_str c))"
  by (rule no_nul_take, cases c) (use no_nul_hex in \<open>simp add: color_to_str_def, simp add: no_nul_def\<close>)

lemmas entries_simps = set_defs no_nul_color no_nul_ip str_ok_def

definition opl_keys :: "string list" where
  "opl_keys =
    [''display.widescreen'', ''display.vmode'', ''display.x_offset'', ''display.y_offset'', ''display.overscan'',
      ''display.scroll_speed'', ''display.bg_color'', ''display.text_color'', ''display.ui_text_color'',
      ''display.sel_text_color'', ''display.plasma_blend_color'', ''ui.theme'', ''ui.language'',
      ''ui.parental_lock_password'', ''ui.swap_button'', ''ui.x_sensitivity'', ''ui.y_sensitivity'',
      ''ui.notifications'', ''ui.disc_art'', ''audio.sfx'', ''audio.sfx_volume'', ''audio.boot_sound'',
      ''audio.boot_volume'', ''audio.bgm'', ''audio.bgm_volume'', ''audio.bgm_path'', ''startup.default_device'',
      ''startup.auto_sort'', ''startup.auto_refresh'', ''startup.remember_last'', ''startup.autostart_last'',
      ''startup.exit_path'', ''startup.bdm_start_mode'', ''startup.hdd_start_mode'', ''startup.eth_start_mode'',
      ''startup.app_start_mode'', ''startup.fav_start_mode'', ''startup.mmce_start_mode'', ''devices.usb_enabled'',
      ''devices.ilink_enabled'', ''devices.mx4sio_enabled'', ''devices.bdm_hdd_enabled'', ''devices.bdm_cache'',
      ''devices.hdd_cache'', ''devices.smb_cache'', ''devices.hdd_spindown'', ''devices.hdd_game_list_cache'',
      ''devices.enable_write'', ''paths.bdm_prefix'', ''paths.eth_prefix'', ''paths.mmce_prefix'', ''mmce.slot'',
      ''mmce.igr_slot'', ''mmce.mmce_wait_cycles'', ''mmce.use_alarms'', ''debug.enable_debug'', ''debug.bdm_debug'',
      ''debug.ps2_logo'', ''coverflow.count'', ''coverflow.center_scale'', ''coverflow.anim_speed'',
      ''coverflow.dim_covers'', ''frames_delay.app_frames_delay'', ''frames_delay.fav_frames_delay'',
      ''frames_delay.bdm_frames_delay'', ''frames_delay.eth_frames_delay'', ''frames_delay.hdd_frames_delay'',
      ''frames_delay.mmce_frames_delay'']"

lemma distinct_opl_keys: "distinct opl_keys"
  by code_simp

lemma opl_entries_ok:
  assumes "wopl_ok w" and "str_ok 128 theme" and "str_ok 128 lang"
  shows "entries_ok (build_opl theme lang w)"
proof -
  have "map fst (build_opl theme lang w) = opl_keys"
    by (simp add: build_opl_def build_display_def build_ui_def build_audio_def build_startup_def build_devices_def
        build_paths_def build_mmce_def build_debug_def build_coverflow_def build_frames_delay_def set_defs opl_keys_def)
  then have "distinct (map fst (build_opl theme lang w))" by (simp add: distinct_opl_keys)
  with assms show ?thesis
    by (simp add: entries_ok_def wopl_ok_def build_opl_def build_display_def build_ui_def build_audio_def
        build_startup_def build_devices_def build_paths_def build_mmce_def build_debug_def build_coverflow_def
        build_frames_delay_def ui_ok_def audio_ok_def startup_ok_def paths_ok_def entries_simps)
qed

lemma net_entries_ok: "net_ok n \<Longrightarrow> entries_ok (build_net n)"
  by (simp add: entries_ok_def build_net_def net_ok_def entries_simps)

lemma global_game_entries_ok: "entries_ok (build_global_game g)"
  by (simp add: entries_ok_def build_global_game_def set_defs)

lemma boot_entries_ok: "no_nul d \<Longrightarrow> entries_ok (build_boot d)"
  by (simp add: entries_ok_def build_boot_def set_defs)

section \<open>Game files\<close>

definition kept :: "string \<times> cvalue \<Rightarrow> bool" where
  "kept e \<longleftrightarrow> snd e \<noteq> CString [] \<and> snd e \<noteq> CInt 0"

lemma optional_entry:
  "(if s \<noteq> [] then [set_str g n s] else []) = filter kept [set_str g n s]"
  "(if v \<noteq> 0 then [set_int g n v] else []) = filter kept [set_int g n v]"
  by (simp_all add: kept_def set_defs)

text \<open>What a file of optional entries answers for each of the keys.\<close>

lemma optional_lookup:
  assumes "distinct (map fst es)" and "holds_entries cfg (filter kept es)"
    and "\<And>k. k \<notin> fst ` set (filter kept es) \<Longrightarrow> CHR ''.'' \<notin> set k \<Longrightarrow> cfg k = None"
    and "(k, v) \<in> set es" and "CHR ''.'' \<notin> set k"
  shows "cfg k = (if kept (k, v) then Some v else None)"
proof (cases "kept (k, v)")
  case True
  with assms(2,4) show ?thesis by (auto simp: holds_entries_def list_all_iff)
next
  case False
  then have "k \<notin> fst ` set (filter kept es)"
    using assms(1,4) by (auto dest: eq_key_imp_eq_value)
  with assms(3,5) False show ?thesis by simp
qed

definition all_game_info :: "game_info \<Rightarrow> entries" where
  "all_game_info r =
     [set_str [] ''Title'' (gi_title r), set_str [] ''Serial'' (gi_serial r),
      set_str [] ''Description'' (gi_description r), set_str [] ''Developer'' (gi_developer r),
      set_str [] ''Genre'' (gi_genre r), set_str [] ''Publisher'' (gi_publisher r),
      set_str [] ''Release'' (gi_release r), set_str [] ''Aspect'' (gi_aspect r),
      set_str [] ''Parental'' (gi_parental r), set_int [] ''Players'' (gi_players r),
      set_str [] ''Region'' (gi_region r), set_int [] ''UserRating'' (gi_user_rating r),
      set_str [] ''Version'' (gi_version r), set_str [] ''Package'' (gi_package r), set_str [] ''Source'' (gi_source r)]"

lemma build_game_info_kept: "build_game_info r = filter kept (all_game_info r)"
  unfolding build_game_info_def optional_entry filter_append [symmetric] by (simp add: all_game_info_def)

lemma all_game_info_keys: "distinct (map fst (all_game_info r))"
  by (simp add: all_game_info_def set_defs)

lemma game_info_entries_ok: "game_info_ok r \<Longrightarrow> entries_ok (build_game_info r)"
proof -
  assume "game_info_ok r"
  then have "list_all (\<lambda>(k, v). \<forall>s. v = CString s \<longrightarrow> no_nul s) (all_game_info r)"
    by (simp add: all_game_info_def game_info_ok_def entries_simps)
  then show ?thesis
    using all_game_info_keys [of r] unfolding entries_ok_def build_game_info_kept
    by (auto simp: list_all_iff distinct_map_filter)
qed

lemma optional_str:
  "cfg k = (if kept (k, CString s) then Some (CString s) else None) \<Longrightarrow> str_ok n s \<Longrightarrow> load_str cfg k n [] = s"
  by (auto simp: load_str_def lookup_str_def cfgGetStr_def kept_def str_ok_def split: if_splits)

lemma optional_int:
  "cfg k = (if kept (k, CInt i) then Some (CInt i) else None) \<Longrightarrow> lookup_info_int cfg k 0 = i"
  by (auto simp: lookup_info_int_def kept_def split: if_splits)

lemma game_info_roundtrip:
  assumes "holds_entries cfg (build_game_info r)" and "game_info_ok r"
    and "\<And>k. k \<notin> fst ` set (build_game_info r) \<Longrightarrow> CHR ''.'' \<notin> set k \<Longrightarrow> cfg k = None"
  shows "parse_game_info cfg no_game_info = r"
proof -
  have look: "cfg k = (if kept (k, v) then Some v else None)"
    if "(k, v) \<in> set (all_game_info r)" "CHR ''.'' \<notin> set k" for k v
    using optional_lookup [of "all_game_info r" cfg k v] all_game_info_keys assms(1,3) that
    unfolding build_game_info_kept by blast
  have s: "load_str cfg k n [] = s"
    if "(k, CString s) \<in> set (all_game_info r)" "CHR ''.'' \<notin> set k" "str_ok n s" for k s n
    by (rule optional_str [of cfg k s n, OF look [OF that(1,2)] that(3)])
  have i: "lookup_info_int cfg k 0 = v"
    if "(k, CInt v) \<in> set (all_game_info r)" "CHR ''.'' \<notin> set k" for k v
    by (rule optional_int [of cfg k v, OF look [OF that]])
  show ?thesis
    using assms(2)
    by (cases r) (simp add: parse_game_info_def no_game_info_def s i all_game_info_def set_defs game_info_ok_def)
qed

lemma per_game_entries_ok: "per_game_ok r \<Longrightarrow> entries_ok (build_per_game r)"
  by (simp add: entries_ok_def build_per_game_def per_game_ok_def entries_simps)

end
