(* ===== verification/Config_Restart.thy ===== *)
theory Config_Restart
  imports Config_Roundtrip
begin

text \<open>
  The files in their directory: what a save of everything leaves on the device, and how a start finds the
  directory through the boot file and loads the settings again.
\<close>

section \<open>Directories\<close>

text \<open>A configuration directory in its normal form, which is ready.\<close>

definition dir_ok :: "'f cfg_env \<Rightarrow> 'f \<Rightarrow> string \<Rightarrow> bool" where
  "dir_ok env f d \<longleftrightarrow>
     pathIsDevicePath (Some d) \<and> d \<noteq> [] \<and> last d = CHR ''/'' \<and> length d < 128 \<and> no_nul d \<and>
     wait_for_config_root_ready env f d"

lemma device_not_mass: "pathIsDevicePath (Some d) \<Longrightarrow> \<not> pathIsUsbMassCompatPath (Some d)"
  by (auto simp: pathIsDevicePath_def pathIsUsbMassCompatPath_def devices_def has_prefix_iff is_digit_def Cons_eq_append_conv)

lemma normalise_id: "last d = CHR ''/'' \<Longrightarrow> length d < n \<Longrightarrow> pathNormaliseDir d n = d"
  by (auto simp: pathNormaliseDir_def Let_def)

lemma normalise_dir_ok:
  "dir_ok env f d \<Longrightarrow> normalise_config_root_dir env f 128 d allow = Some d"
  by (auto simp: dir_ok_def normalise_config_root_dir_def device_not_mass normalise_id)

lemma resolve_dir_ok: "dir_ok env f d \<Longrightarrow> resolve_usb_mass_config_path env d = Some d"
  by (simp add: resolve_usb_mass_config_path_def device_not_mass dir_ok_def)

lemma dir_ok_stays: "stays env f f' \<Longrightarrow> dir_ok env f d \<Longrightarrow> dir_ok env f' d"
  by (auto simp: dir_ok_def intro: stays_ready)

lemma filenames:
  "length WOPL_FILENAME = 17" "length NET_FILENAME = 16" "length GAME_FILENAME = 20" "length BOOT_FILENAME = 13"
  by (simp_all add: WOPL_FILENAME_def NET_FILENAME_def GAME_FILENAME_def BOOT_FILENAME_def)

lemma pathJoin_ok: "d \<noteq> [] \<Longrightarrow> length d + length name < 256 \<Longrightarrow> pathJoin 256 (Some d) name = Some (d @ name)"
  by (simp add: pathJoin_def)

lemma dir_name_inj:
  assumes "last d = CHR ''/''" and "last e = CHR ''/''" and "d \<noteq> []" and "e \<noteq> []"
    and "CHR ''/'' \<notin> set a" and "CHR ''/'' \<notin> set b" and "d @ a = e @ b"
  shows "a = b"
proof -
  from assms(7) obtain us where "(d = e @ us \<and> us @ a = b) \<or> (d @ us = e \<and> a = us @ b)"
    by (auto simp: append_eq_append_conv2)
  with assms(1-6) show ?thesis
    by (cases us rule: rev_cases) auto
qed

section \<open>Saving everything\<close>

lemma name_no_slash:
  "CHR ''/'' \<notin> set WOPL_FILENAME" "CHR ''/'' \<notin> set NET_FILENAME" "CHR ''/'' \<notin> set GAME_FILENAME"
  "CHR ''/'' \<notin> set BOOT_FILENAME"
  by (simp_all add: WOPL_FILENAME_def NET_FILENAME_def GAME_FILENAME_def BOOT_FILENAME_def)

definition only_fs :: "'f cfg_state \<Rightarrow> 'f cfg_state \<Rightarrow> bool" where
  "only_fs s s' \<longleftrightarrow> config_dir s' = config_dir s \<and> boot_dir s' = boot_dir s \<and> wopl s' = wopl s \<and> net s' = net s \<and>
     gGlobalGameCfg s' = gGlobalGameCfg s"

lemma filename_neq:
  "WOPL_FILENAME \<noteq> NET_FILENAME" "WOPL_FILENAME \<noteq> GAME_FILENAME" "NET_FILENAME \<noteq> GAME_FILENAME"
  "WOPL_FILENAME \<noteq> BOOT_FILENAME" "NET_FILENAME \<noteq> BOOT_FILENAME" "GAME_FILENAME \<noteq> BOOT_FILENAME"
  by (simp_all add: WOPL_FILENAME_def NET_FILENAME_def GAME_FILENAME_def BOOT_FILENAME_def)

lemma save_holds:
  assumes "cfg_env_ok env" and "entries_ok es" and "dir_ok env (fs s) d" and "config_dir s = d"
    and "length name < 100" and "do_save_at_dir env (config_dir s) name es s = (True, s')"
  shows "file_holds env (fs s') (d @ name) es" and "stays env (fs s) (fs s')" and "only_fs s s'"
    and "p \<noteq> d @ name \<Longrightarrow> file_holds env (fs s) p es2 \<Longrightarrow> file_holds env (fs s') p es2"
proof -
  have d: "d \<noteq> []" "length d < 128" using assms(3) by (auto simp: dir_ok_def)
  then have "pathJoin 256 (Some d) name = Some (d @ name)" using assms(5) by (intro pathJoin_ok) auto
  then obtain f where f: "write_file env (fs s) (d @ name) es = Some f" "s' = s\<lparr>fs := f, config_dir := d\<rparr>"
    using assms(4,6) d by (auto simp: do_save_at_dir_def split: option.splits)
  note w = write_holds [OF assms(1,2) f(1)]
  from w f(2) assms(4) show "file_holds env (fs s') (d @ name) es" "stays env (fs s) (fs s')" "only_fs s s'"
    by (simp_all add: only_fs_def)
  show "p \<noteq> d @ name \<Longrightarrow> file_holds env (fs s) p es2 \<Longrightarrow> file_holds env (fs s') p es2"
    using w(3) f(2) by simp
qed

lemma boot_save_holds:
  assumes "cfg_env_ok env" and "dir_ok env (fs s) (config_dir s)" and "dir_ok env (fs s) (boot_dir s)"
    and "save_boot_config env s = (True, s')"
  shows "file_holds env (fs s') (boot_dir s @ BOOT_FILENAME) (build_boot (config_dir s))" and "stays env (fs s) (fs s')"
    and "only_fs s s'"
    and "p \<noteq> boot_dir s @ BOOT_FILENAME \<Longrightarrow> file_holds env (fs s) p es2 \<Longrightarrow> file_holds env (fs s') p es2"
proof -
  let ?f = "if pathHasDevicePrefix (Some (boot_dir s)) ''mc'' then sbEnsureMCConfigFolder env (fs s) (boot_dir s)
    else Some (fs s)"
  have d: "config_dir s \<noteq> []" "boot_dir s \<noteq> []" "length (boot_dir s) < 128" "no_nul (config_dir s)"
      "\<not> pathIsUsbMassCompatPath (Some (config_dir s))"
    using assms(2,3) by (auto simp: dir_ok_def device_not_mass)
  have "pathJoin 256 (Some (boot_dir s)) BOOT_FILENAME = Some (boot_dir s @ BOOT_FILENAME)"
    using d by (intro pathJoin_ok) (auto simp: filenames)
  then obtain f f' where f: "?f = Some f" "write_file env f (boot_dir s @ BOOT_FILENAME) (build_boot (config_dir s)) = Some f'"
      "s' = s\<lparr>fs := f'\<rparr>"
    using assms(4) d by (auto simp: save_boot_config_def Let_def split: option.splits if_splits)
  have e: "stays env (fs s) f" "file_holds env (fs s) p es2 \<Longrightarrow> file_holds env f p es2" for p es2
    using f(1) ensure_holds [OF assms(1)] by (auto split: if_splits)
  note w = write_holds [OF assms(1) boot_entries_ok [OF d(4)] f(2)]
  from w f(3) e(1) show "file_holds env (fs s') (boot_dir s @ BOOT_FILENAME) (build_boot (config_dir s))"
      "stays env (fs s) (fs s')" "only_fs s s'"
    by (simp_all add: stays_trans only_fs_def)
  show "p \<noteq> boot_dir s @ BOOT_FILENAME \<Longrightarrow> file_holds env (fs s) p es2 \<Longrightarrow> file_holds env (fs s') p es2"
    using w(3) e(2) f(3) by simp
qed

lemma count_save_all:
  assumes "n = 1 + (1 + (1 :: nat))"
    and "count_save 25 CONFIG_GAME g (count_save 25 CONFIG_NETWORK h (count_save 25 CONFIG_OPL k (0, s))) = (n, s')"
  shows "\<exists>s1 s2. k s = (True, s1) \<and> h s1 = (True, s2) \<and> g s2 = (True, s')"
  using assms by (auto simp: count_save_def split: prod.splits if_splits)

text \<open>A save of everything that counts three files has written all four, each with its settings.\<close>

lemma save_all_holds:
  assumes env: "cfg_env_ok env" and ok: "wopl_ok (wopl s)" "net_ok (net s)" "str_ok 128 (thmValue env)" "str_ok 128 (lngValue env)"
    and d: "dir_ok env (fs s) (config_dir s)" "dir_ok env (fs s) (boot_dir s)"
    and save: "save_all_to_current_dir env launch 25 s = (3, s')"
  shows "file_holds env (fs s') (config_dir s @ WOPL_FILENAME) (build_opl (thmValue env) (lngValue env) (wopl s)) \<and>
    file_holds env (fs s') (config_dir s @ NET_FILENAME) (build_net (net s)) \<and>
    file_holds env (fs s') (config_dir s @ GAME_FILENAME) (build_global_game (gGlobalGameCfg s)) \<and>
    file_holds env (fs s') (boot_dir s @ BOOT_FILENAME) (build_boot (config_dir s)) \<and> stays env (fs s) (fs s')"
proof -
  let ?op = "\<lambda>s. do_save_at_dir env (config_dir s) WOPL_FILENAME (build_opl (thmValue env) (lngValue env) (wopl s)) s"
  let ?on = "\<lambda>s. do_save_at_dir env (config_dir s) NET_FILENAME (build_net (net s)) s"
  let ?og = "\<lambda>s. do_save_at_dir env (config_dir s) GAME_FILENAME (build_global_game (gGlobalGameCfg s)) s"
  let ?f = "if pathHasDevicePrefix (Some (config_dir s)) ''mc'' then sbEnsureMCConfigFolder env (fs s) (config_dir s)
    else Some (fs s)"
  have ne: "config_dir s \<noteq> []" "boot_dir s \<noteq> []" "last (config_dir s) = CHR ''/''" "last (boot_dir s) = CHR ''/''"
    using d by (auto simp: dir_ok_def)
  have ens: "ensure_config_dir env launch s = (True, s)" using ne by (simp add: ensure_config_dir_def)
  have res: "resolve_usb_mass_config_paths env s = (True, s)"
    using d by (simp add: resolve_usb_mass_config_paths_def resolve_dir_ok)
  obtain f where f: "?f = Some f"
    using save ens res by (auto simp: save_all_to_current_dir_def split: option.splits)
  let ?s = "s\<lparr>fs := f\<rparr>"
  obtain n s3 where c: "save_files env 25 ?s = (n, s3)" by (metis surj_pair)
  obtain ok s4 where b: "save_boot_config env s3 = (ok, s4)" by (metis surj_pair)
  have ct: "config_type_count 25 = 3" by (simp add: config_type_count_def)
  have "save_all_to_current_dir env launch 25 s = (if n \<noteq> 3 then (n, s3) else (if ok then n else 0, s4))"
    unfolding save_all_to_current_dir_def ens res prod.case bool.case f option.case c ct b by simp
  with save have n: "n = 1 + (1 + 1)" "ok" "s4 = s'" by (auto split: if_splits)
  obtain s1 s2 where r: "?op ?s = (True, s1)" "?on s1 = (True, s2)" "?og s2 = (True, s3)"
    using count_save_all [OF n(1) c [unfolded save_files_def]] by blast
  have st0: "stays env (fs s) (fs ?s)" using f ensure_holds(1) [OF env] by (auto split: if_splits)
  note d0 = dir_ok_stays [OF st0 d(1)]
  note w1 = save_holds [OF env opl_entries_ok [OF ok(1,3,4)] d0, of WOPL_FILENAME s1]
  have s1: "only_fs s s1" "stays env f (fs s1)"
      "file_holds env (fs s1) (config_dir s @ WOPL_FILENAME) (build_opl (thmValue env) (lngValue env) (wopl s))"
    using w1(1-3) r(1) by (simp_all add: filenames only_fs_def)
  have d1: "dir_ok env (fs s1) (config_dir s)" using dir_ok_stays [OF s1(2)] d0 by simp
  note w2 = save_holds [OF env net_entries_ok [OF ok(2)] d1, of NET_FILENAME s2]
  have s2: "only_fs s s2" "stays env (fs s1) (fs s2)"
      "file_holds env (fs s2) (config_dir s @ NET_FILENAME) (build_net (net s))"
    using w2(1-3) r(2) s1(1) by (simp_all add: filenames only_fs_def)
  have d2: "dir_ok env (fs s2) (config_dir s)" using dir_ok_stays [OF s2(2) d1] .
  note w3 = save_holds [OF env global_game_entries_ok d2, of GAME_FILENAME "gGlobalGameCfg s" s3]
  have s3: "only_fs s s3" "stays env (fs s2) (fs s3)"
      "file_holds env (fs s3) (config_dir s @ GAME_FILENAME) (build_global_game (gGlobalGameCfg s))"
    using w3(1-3) r(3) s2(1) by (simp_all add: filenames only_fs_def)
  let ?p = "\<lambda>n. config_dir s @ n"
  have kw: "file_holds env (fs s3) (?p WOPL_FILENAME) (build_opl (thmValue env) (lngValue env) (wopl s))"
    using w3(4) [of "?p WOPL_FILENAME"] w2(4) [of "?p WOPL_FILENAME"] s1(1,3) s2(1) r(2,3)
    by (simp add: filenames filename_neq only_fs_def)
  have kn: "file_holds env (fs s3) (?p NET_FILENAME) (build_net (net s))"
    using w3(4) [of "?p NET_FILENAME"] s2(1,3) r(3) by (simp add: filenames filename_neq only_fs_def)
  have b3: "config_dir s3 = config_dir s" "boot_dir s3 = boot_dir s" using s3(1) by (simp_all add: only_fs_def)
  have st: "stays env (fs s) (fs s3)" using st0 s1(2) s2(2) s3(2) by (simp add: stays_def)
  have "dir_ok env (fs s3) (config_dir s3)" "dir_ok env (fs s3) (boot_dir s3)"
    using d dir_ok_stays [OF st] b3 by simp_all
  note w4 = boot_save_holds [OF env this, of s', unfolded b3]
  have bn: "?p n \<noteq> boot_dir s @ BOOT_FILENAME" if "n \<in> {WOPL_FILENAME, NET_FILENAME, GAME_FILENAME}" for n
    using dir_name_inj [OF ne(3,4,1,2), of n BOOT_FILENAME] that name_no_slash filename_neq by auto
  have "save_boot_config env s3 = (True, s')" using b n by simp
  with w4 kw kn s3(3) st bn show ?thesis by (simp add: stays_trans [OF st])
qed

section \<open>Starting again\<close>

lemma boot_finds_dir:
  assumes "dir_ok env (fs s) b" and "dir_ok env (fs s) d" and "pathGetBootDir launch (getcwd env) 128 = Some b"
    and "file_holds env (fs s) (b @ BOOT_FILENAME) (build_boot d)" and "config_dir s = []"
  shows "ensure_config_dir env launch s = (True, s\<lparr>boot_dir := b, config_dir := d\<rparr>)"
proof -
  obtain cfg where cfg: "read_file env (fs s) (b @ BOOT_FILENAME) = Some cfg" "cfg ''boot.config_dir'' = Some (CString d)"
      "file_exists env (fs s) (b @ BOOT_FILENAME)"
    using assms(4) by (auto simp: file_holds_def build_boot_def set_defs)
  have b: "b \<noteq> []" "length b < 128" "d \<noteq> []" "length d < 128" "\<not> pathIsUsbMassCompatPath (Some d)"
    using assms(1,2) by (auto simp: dir_ok_def device_not_mass)
  have j: "pathJoin 256 (Some b) BOOT_FILENAME = Some (b @ BOOT_FILENAME)"
    using b by (intro pathJoin_ok) (auto simp: filenames)
  have "load_boot_config_from_dir env b s = (True, s\<lparr>boot_dir := b, config_dir := d\<rparr>)"
    using b cfg j by (simp add: load_boot_config_from_dir_def normalise_dir_ok [OF assms(1)] normalise_dir_ok [OF assms(2)]
        cfgGetStr_def Let_def)
  with assms(3,5) show ?thesis
    by (simp add: ensure_config_dir_def pick_default_config_dir_def Let_def)
qed

lemma load_files:
  assumes "config_dir s = d" and "d \<noteq> []" and "length d < 128"
    and w: "file_holds env (fs s) (d @ WOPL_FILENAME) (build_opl theme lang w)" "wopl_ok w" "str_ok 128 theme" "str_ok 128 lang"
    and n: "file_holds env (fs s) (d @ NET_FILENAME) (build_net nt)" "net_ok nt"
    and g: "file_holds env (fs s) (d @ GAME_FILENAME) (build_global_game gg)"
  shows "wOPLLoad env launch s = (True, s\<lparr>wopl := w\<lparr>c_ui := (c_ui w)\<lparr>s_theme_name := theme, s_lang_name := lang\<rparr>\<rparr>\<rparr>)"
    and "wOPLNetLoad env launch s = (True, s\<lparr>net := nt\<rparr>)"
    and "wOPLGlobalGameLoad env launch s = (True, s\<lparr>gGlobalGameCfg := gg\<rparr>)"
proof -
  have e: "ensure_config_dir env launch s = (True, s)" using assms(1,2) by (simp add: ensure_config_dir_def)
  have j: "pathJoin 256 (Some d) m = Some (d @ m)" if "length m < 100" for m
    using assms(2,3) that by (intro pathJoin_ok) auto
  show "wOPLLoad env launch s = (True, s\<lparr>wopl := w\<lparr>c_ui := (c_ui w)\<lparr>s_theme_name := theme, s_lang_name := lang\<rparr>\<rparr>\<rparr>)"
    using w(1) opl_roundtrip [OF _ w(2-4)] assms(1) by (auto simp: wOPLLoad_def e j filenames file_holds_def)
  show "wOPLNetLoad env launch s = (True, s\<lparr>net := nt\<rparr>)"
    using n(1) net_roundtrip [OF _ n(2)] assms(1) by (auto simp: wOPLNetLoad_def e j filenames file_holds_def)
  show "wOPLGlobalGameLoad env launch s = (True, s\<lparr>gGlobalGameCfg := gg\<rparr>)"
    using g global_game_roundtrip assms(1) by (auto simp: wOPLGlobalGameLoad_def e j filenames file_holds_def)
qed

end
