(* ===== verification/Config_Props.thy ===== *)
theory Config_Props
  imports Config_Restart
begin

text \<open>
  The properties of the configuration files, with a file system in memory for their witnesses.
\<close>

section \<open>Saving and starting again\<close>

text \<open>
  C3: the configuration survives a restart. After a save of all three settings files that reports them all,
  a start from the same boot directory finds the chosen configuration directory through the boot file and
  loads the same settings: display, user interface, sound, devices, network and game defaults.
\<close>

theorem configuration_survives_restart:
  assumes env: "cfg_env_ok env"
    and ok: "wopl_ok (wopl s)" "net_ok (net s)" "str_ok 128 (thmValue env)" "str_ok 128 (lngValue env)"
    and d: "dir_ok env (fs s) (config_dir s)" "dir_ok env (fs s) (boot_dir s)"
    and save: "save_all_to_current_dir env launch 25 s = (3, s')"
    and boot: "pathGetBootDir launch' (getcwd env) 128 = Some (boot_dir s)" and fresh: "fs t = fs s'" "config_dir t = []"
  shows "\<exists>t'. loadConfig env launch' False 25 t = t' \<and> lscret t' = 25 \<and>
    config_dir t' = config_dir s \<and> boot_dir t' = boot_dir s \<and> net t' = net s \<and> gGlobalGameCfg t' = gGlobalGameCfg s \<and>
    wopl t' = configApply ((wopl s)\<lparr>c_ui := (c_ui (wopl s))\<lparr>s_theme_name := thmValue env, s_lang_name := lngValue env\<rparr>\<rparr>)"
proof -
  note h = save_all_holds [OF env ok d save]
  have st: "stays env (fs s) (fs t)" using h fresh by simp
  note d' = dir_ok_stays [OF st d(1)] dir_ok_stays [OF st d(2)]
  have bd: "file_holds env (fs t) (boot_dir s @ BOOT_FILENAME) (build_boot (config_dir s))" using h fresh by simp
  let ?t = "t\<lparr>boot_dir := boot_dir s, config_dir := config_dir s\<rparr>"
  let ?w = "(wopl s)\<lparr>c_ui := (c_ui (wopl s))\<lparr>s_theme_name := thmValue env, s_lang_name := lngValue env\<rparr>\<rparr>"
  have e: "ensure_config_dir env launch' t = (True, ?t)"
    by (rule boot_finds_dir [OF d'(2,1) boot bd fresh(2)])
  have ne: "config_dir s \<noteq> []" "length (config_dir s) < 128" using d(1) by (auto simp: dir_ok_def)
  have l: "wOPLLoad env launch' u = (True, u\<lparr>wopl := ?w\<rparr>)" "wOPLNetLoad env launch' u = (True, u\<lparr>net := net s\<rparr>)"
      "wOPLGlobalGameLoad env launch' u = (True, u\<lparr>gGlobalGameCfg := gGlobalGameCfg s\<rparr>)"
    if "config_dir u = config_dir s" "fs u = fs t" for u
    using load_files [OF that(1) ne, where env = env] h fresh that(2) ok by auto
  have r: "resolve_usb_mass_config_paths env u = (True, u)"
    if "config_dir u = config_dir s" "boot_dir u = boot_dir s" for u
    using that d by (simp add: resolve_usb_mass_config_paths_def resolve_dir_ok)
  show ?thesis
    by (simp add: loadConfig_def e with_type_def l r)
qed

section \<open>Values in range\<close>


section \<open>A save that fails in part\<close>

text \<open>
  when the settings file cannot be written but the network file can, a save of both still announces
  success, and the settings are not on the device.
\<close>

lemma partial_save_announced:
  assumes "dir_ok env (fs s) (config_dir s)" and "dir_ok env (fs s) (boot_dir s)"
    and "\<not> pathHasDevicePrefix (Some (config_dir s)) ''mc''"
    and "\<And>es. write_file env (fs s) (config_dir s @ WOPL_FILENAME) es = None"
    and "write_file env (fs s) (config_dir s @ NET_FILENAME) (build_net (net s)) = Some f"
  shows "\<exists>s'. configSave env launch 9 s = (True, s') \<and> fs s' = f"
proof -
  have d: "config_dir s \<noteq> []" "length (config_dir s) < 128" using assms(1) by (auto simp: dir_ok_def)
  have j: "pathJoin 256 (Some (config_dir s)) m = Some (config_dir s @ m)" if "length m < 100" for m
    using d that by (intro pathJoin_ok) auto
  have "save_all_to_current_dir env launch 9 s = (1, s\<lparr>fs := f\<rparr>)"
    using d assms(3-5)
    by (simp add: save_all_to_current_dir_def ensure_config_dir_def resolve_usb_mass_config_paths_def
        resolve_dir_ok [OF assms(1)] resolve_dir_ok [OF assms(2)] save_files_def count_save_def config_type_count_def
        do_save_at_dir_def j filenames)
  then show ?thesis by (simp add: configSave_def)
qed

text \<open>
  C28: the settings of a game and its description survive their files: loading what was saved returns it,
  empty fields included, except for size, format and media, which are not stored.
\<close>

theorem game_files_roundtrip:
  assumes "cfg_env_ok env" and "per_game_ok pg" and "game_info_ok gi"
    and "wOPLPerGameSave env f path pg = Some f1" and "wOPLGameInfoSave env g path2 gi = Some g1"
  shows "wOPLPerGameLoad env f1 path = (True, pg\<lparr>pg_size_mb := 0, pg_format := [], pg_media := []\<rparr>) \<and>
    wOPLGameInfoLoad env g1 path2 = (True, gi)"
proof
  show "wOPLPerGameLoad env f1 path = (True, pg\<lparr>pg_size_mb := 0, pg_format := [], pg_media := []\<rparr>)"
    using write_holds(1) [OF assms(1) per_game_entries_ok [OF assms(2)] assms(4) [unfolded wOPLPerGameSave_def]]
      per_game_roundtrip [OF _ assms(2)]
    by (auto simp: wOPLPerGameLoad_def file_holds_def init_per_game_cfg_def)
  have es: "entries_ok (build_game_info gi)" by (rule game_info_entries_ok [OF assms(3)])
  have "write_file env g path2 (build_game_info gi) = Some g1" using assms(5) by (simp add: wOPLGameInfoSave_def)
  with assms(1) es obtain cfg where cfg: "read_file env g1 path2 = Some cfg" "holds_entries cfg (build_game_info gi)"
      "\<forall>k. k \<notin> fst ` set (build_game_info gi) \<longrightarrow>
         (\<forall>e\<in>set (build_game_info gi). take (length k + 1) (fst e) \<noteq> k @ ''.'') \<longrightarrow> cfg k = None"
    unfolding cfg_env_ok_def by blast
  have nodot: "CHR ''.'' \<notin> set (fst e)" if "e \<in> set (build_game_info gi)" for e
  proof -
    from that have "e \<in> set (all_game_info gi)" by (simp add: build_game_info_kept)
    then show ?thesis by (auto simp: all_game_info_def set_defs)
  qed
  have "cfg k = None" if "k \<notin> fst ` set (build_game_info gi)" for k
  proof -
    have "take (length k + 1) (fst e) \<noteq> k @ ''.''" if e: "e \<in> set (build_game_info gi)" for e
    proof
      assume "take (length k + 1) (fst e) = k @ ''.''"
      then have "CHR ''.'' \<in> set (take (length k + 1) (fst e))" by simp
      with nodot [OF e] show False by (auto dest: in_set_takeD)
    qed
    with cfg(3) that show ?thesis by blast
  qed
  with game_info_roundtrip [OF cfg(2) assms(3)] cfg(1) show "wOPLGameInfoLoad env g1 path2 = (True, gi)"
    by (simp add: wOPLGameInfoLoad_def)
qed

section \<open>A file system in memory\<close>

text \<open>Files are association lists of what was written; every directory is ready.\<close>

type_synonym mem_fs = "(string \<times> entries) list"

definition mem_env :: "mem_fs cfg_env" where
  "mem_env = \<lparr>
     read_file = (\<lambda>f p. map_option map_of (map_of f p)),
     write_file = (\<lambda>f p es. Some ((p, es) # f)),
     rename_file = (\<lambda>f p q. f),
     file_exists = (\<lambda>f p. map_of f p \<noteq> None),
     stat_file = (\<lambda>f i p. True),
     getcwd = None, wopl_folder = ''wOPL'', sbCheckMC = None,
     sbEnsureMCConfigFolder = (\<lambda>f d. Some f),
     bdmResolveUsbMassCompatPath = (\<lambda>d. None),
     thmValue = ''<wOPL>'', lngValue = ''English'',
     migrate_opl = (\<lambda>f p w. None), migrate_net = (\<lambda>f p n. None), migrate_game = (\<lambda>f p g. None)\<rparr>"

lemma map_of_holds: "distinct (map fst es) \<Longrightarrow> holds_entries (map_of es) es"
  by (auto simp: holds_entries_def list_all_iff)

lemma mem_env_ok: "cfg_env_ok mem_env"
  by (auto simp: cfg_env_ok_def mem_env_def entries_ok_def map_of_holds map_of_eq_None_iff)

definition demo_wopl :: wopl_cfg where
  "demo_wopl = \<lparr>
     c_display =
    \<lparr>gWideScreen = 1, gVMode = 0, gXOff = 5, gYOff = 0, gOverscan = 0, gScrollSpeed = 0, gDefaultBgColor
      = (0x28, 0xC5, 0xF9), gDefaultTextColor = (0, 0, 0), gDefaultUITextColor = (0, 0, 0), gDefaultSelTextColor
      = (0, 0, 0), gDefaultPlasmaBlendColor = (0, 0, 0)\<rparr>,
     c_ui =
    \<lparr>s_theme_name = [], s_lang_name = [], gParentalLockPassword = [], gSelectButton = KEY_CROSS,
      gXSensitivity = 1, gYSensitivity = 0, gEnableNotifications = 0, gDiscEnableArt = 0\<rparr>,
     c_audio =
    \<lparr>gEnableSFX = 0, gSFXVolume = 0, gEnableBootSND = 0, gBootSndVolume = 0, gEnableBGM = 0, gBGMVolume =
      0, gDefaultBGMPath = ''usb0:/BGM''\<rparr>,
     c_startup =
    \<lparr>gDefaultDevice = 0, gAutosort = 0, gAutoRefresh = 0, gRememberLastPlayed = 0, gAutoStartLastPlayed =
      0, gExitPath = [], gBDMStartMode = 0, gHDDStartMode = 0, gETHStartMode = 0, gAPPStartMode = 0,
      gFAVStartMode = 0, gMMCEStartMode = 0\<rparr>,
     c_devices =
    \<lparr>gEnableUSB = 0, gEnableILK = 0, gEnableMX4SIO = 0, gEnableBdmHDD = 0, bdmCacheSize = 0, hddCacheSize
      = 0, smbCacheSize = 0, gHDDSpindown = 0, gHDDGameListCache = 0, gEnableWrite = 0\<rparr>,
     c_paths =
    \<lparr>gBDMPrefix = [], gETHPrefix = [], gMMCEPrefix = []\<rparr>,
     c_mmce =
    \<lparr>gMMCESlot = 0, gMMCEIGRSlot = 0, gMMCEAckWaitCycles = 0, gMMCEUseAlarms = 0\<rparr>,
     c_debug =
    \<lparr>gEnableDebug = 0, gBDMDebug = 0, gPS2Logo = 0\<rparr>,
     c_coverflow =
    \<lparr>gCoverflowCount = 0, gCoverflowCenterScale = 0, gCoverflowAnimSpeed = 0, gCoverflowDimCovers =
      0\<rparr>,
     c_frames =
    \<lparr>gAPPFramesDelay = 0, gFAVFramesDelay = 0, gBDMFramesDelay = 8, gETHFramesDelay = 0, gHDDFramesDelay
      = 0, gMMCEFramesDelay = 0\<rparr>\<rparr>"

definition demo_net :: net_cfg where
  "demo_net =
    \<lparr>gETHOpMode = 0, ps2_ip_use_dhcp = 0, ps2_ip = [192, 168, 0, 10], ps2_netmask = [192, 168, 0, 10],
      ps2_gateway = [192, 168, 0, 10], ps2_dns = [192, 168, 0, 10], gPCShareAddressIsNetBIOS = 0,
      gPCShareNBAddress = [], pc_ip = [192, 168, 0, 10], gPCPort = 0, gPCShareName = ''PS2SMB'', gPCUserName =
      [], gPCPassword = [], gExportName = []\<rparr>"

definition demo_gg :: global_game_cfg where
  "demo_gg =
    \<lparr>gg_gsm_enable = 0, gg_gsm_vmode = 0, gg_gsm_xoffset = 0, gg_gsm_yoffset = 0, gg_gsm_fieldfix = 0,
      gg_cheat_enable = 0, gg_cheat_mode = 0, gg_cheat_enable_image = 0, gg_pademu_enable = 0,
      gg_pademu_settings = 0, gg_padmacro_settings = 0, gg_osd_enable = 0, gg_osd_langid = 0, gg_osd_tv_aspect =
      0, gg_osd_vmode = 0\<rparr>"

definition demo_pg :: per_game_cfg where
  "demo_pg =
    \<lparr>pg_size_mb = 0, pg_format = [], pg_media = [], pg_compat = 3, pg_dma = 7, pg_core_loader = 0,
      pg_dnas = [], pg_alt_startup = [], pg_vmc1 = ''XEBP_100.24'', pg_vmc2 = [], pg_gsm_source = 0,
      pg_gsm_enable = 0, pg_gsm_vmode = 0, pg_gsm_xoffset = 0, pg_gsm_yoffset = 0, pg_gsm_fieldfix = 0,
      pg_cheat_source = 0, pg_cheat_enable = 0, pg_cheat_mode = 0, pg_cheat_enable_image = 0, pg_pademu_source =
      0, pg_pademu_enable = 0, pg_pademu_settings = 0, pg_padmacro_source = 0, pg_padmacro_settings = 0,
      pg_osd_source = 0, pg_osd_enable = 0, pg_osd_langid = 0, pg_osd_tv_aspect = 0, pg_osd_vmode = 0\<rparr>"

definition demo_gi :: game_info where
  "demo_gi =
    \<lparr>gi_title = ''Title'', gi_serial = [], gi_description = [], gi_developer = [], gi_genre = [],
      gi_publisher = [], gi_release = [], gi_aspect = [], gi_parental = [], gi_players = 2, gi_region = [],
      gi_user_rating = 0, gi_version = [], gi_package = [], gi_source = []\<rparr>"

definition demo_state :: "mem_fs cfg_state" where
  "demo_state = \<lparr>fs = [], config_dir = ''mmce0:/cfg/'', boot_dir = ''usb0:/APPS/'', last_played = [],
     wopl = demo_wopl, net = demo_net, gGlobalGameCfg = demo_gg, lscret = 0\<rparr>"

lemma demo_ok: "wopl_ok demo_wopl" "net_ok demo_net" "per_game_ok demo_pg" "game_info_ok demo_gi"
    "str_ok 128 (thmValue mem_env)" "str_ok 128 (lngValue mem_env)"
  by (simp_all add: demo_wopl_def demo_net_def demo_pg_def demo_gi_def wopl_ok_def display_ok_def ui_ok_def audio_ok_def
      startup_ok_def devices_ok_def paths_ok_def mmce_ok_def debug_ok_def net_ok_def per_game_ok_def game_info_ok_def
      is_bool_def str_ok_def no_nul_def ip_ok_def sanitize_pad_sensitivity_def sanitize_frame_delays_def
      sanitize_delay_def KEY_CROSS_def word_sle_eq word_sless_alt mem_env_def)

lemma mem_dir_ok: "dir_ok mem_env f ''mmce0:/cfg/''" "dir_ok mem_env f ''usb0:/APPS/''"
proof -
  have "pathIsDevicePath (Some ''mmce0:/cfg/'')" "pathIsDevicePath (Some ''usb0:/APPS/'')" by code_simp+
  then show "dir_ok mem_env f ''mmce0:/cfg/''" "dir_ok mem_env f ''usb0:/APPS/''"
    by (simp_all add: dir_ok_def wait_for_config_root_ready_def mem_env_def no_nul_def upt_conv_Cons)
qed

lemma mem_env_simps:
  "write_file mem_env f p es = Some ((p, es) # f)" "read_file mem_env f p = map_option map_of (map_of f p)"
  "getcwd mem_env = None" "thmValue mem_env = ''<wOPL>''" "lngValue mem_env = ''English''"
  by (simp_all add: mem_env_def)

lemma demo_saves: "\<exists>s'. save_all_to_current_dir mem_env [] 25 demo_state = (3, s')"
proof -
  let ?c = "''mmce0:/cfg/''" and ?b = "''usb0:/APPS/''"
  have p: "\<not> pathHasDevicePrefix (Some ?c) ''mc''" "\<not> pathHasDevicePrefix (Some ?b) ''mc''"
      "\<not> pathIsUsbMassCompatPath (Some ?c)"
    by code_simp+
  have e: "ensure_config_dir mem_env [] demo_state = (True, demo_state)"
    by (simp add: ensure_config_dir_def demo_state_def)
  have r: "resolve_usb_mass_config_paths mem_env demo_state = (True, demo_state)"
    by (simp add: resolve_usb_mass_config_paths_def demo_state_def resolve_dir_ok [OF mem_dir_ok(1)]
        resolve_dir_ok [OF mem_dir_ok(2)])
  have d: "config_dir demo_state = ?c" "boot_dir demo_state = ?b" by (simp_all add: demo_state_def)
  have sv: "do_save_at_dir mem_env ?c m es s = (True, s\<lparr>fs := (?c @ m, es) # fs s, config_dir := ?c\<rparr>)"
    if "length m < 100" for m es s
    using that by (simp add: do_save_at_dir_def pathJoin_def mem_env_simps)
  obtain s3 where s3: "save_files mem_env 25 demo_state = (3, s3)" "config_dir s3 = ?c" "boot_dir s3 = ?b"
    by (simp add: save_files_def count_save_def d sv filenames)
  have "\<exists>s'. save_boot_config mem_env s3 = (True, s')"
    using s3 p by (simp add: save_boot_config_def pathJoin_def filenames mem_env_simps Let_def)
  then obtain s' where "save_boot_config mem_env s3 = (True, s')" by blast
  then have "save_all_to_current_dir mem_env [] 25 demo_state = (3, s')"
    using e r p s3 by (simp add: save_all_to_current_dir_def d config_type_count_def)
  then show ?thesis by blast
qed

theorem configuration_survives_restart_witness:
  "\<exists>s' t'. save_all_to_current_dir mem_env [] 25 demo_state = (3, s') \<and>
     loadConfig mem_env ''usb0:/APPS/wopl.elf'' False 25 (demo_state\<lparr>fs := fs s', config_dir := [], boot_dir := []\<rparr>) = t' \<and>
     lscret t' = 25 \<and> config_dir t' = ''mmce0:/cfg/'' \<and> net t' = demo_net"
proof -
  obtain s' where s': "save_all_to_current_dir mem_env [] 25 demo_state = (3, s')" using demo_saves by blast
  have d: "config_dir demo_state = ''mmce0:/cfg/''" "boot_dir demo_state = ''usb0:/APPS/''"
      "wopl demo_state = demo_wopl" "net demo_state = demo_net"
    by (simp_all add: demo_state_def)
  have "pathGetBootDir ''usb0:/APPS/wopl.elf'' None 128 = Some ''usb0:/APPS/''" by code_simp
  then have b: "pathGetBootDir ''usb0:/APPS/wopl.elf'' (getcwd mem_env) 128 = Some (boot_dir demo_state)"
    by (simp add: mem_env_simps d)
  from configuration_survives_restart [OF mem_env_ok demo_ok(1) [folded d] demo_ok(2) [folded d] demo_ok(5,6)
      mem_dir_ok(1) [folded d] mem_dir_ok(2) [folded d] s' b,
      of "demo_state\<lparr>fs := fs s', config_dir := [], boot_dir := []\<rparr>"] s' d
  show ?thesis by auto
qed

text \<open>A device that is full for the settings file only.\<close>

theorem partial_save_announced_witness:
  "\<exists>s'. configSave (mem_env\<lparr>write_file := \<lambda>f p es. if p = ''mmce0:/cfg/wopl_settings.cfg'' then None
       else Some ((p, es) # f)\<rparr>) [] 9 demo_state = (True, s') \<and>
     fs s' = [(''mmce0:/cfg/wopl_network.cfg'', build_net demo_net)]"
proof -
  let ?w = "\<lambda>f p es. if p = ''mmce0:/cfg/wopl_settings.cfg'' then None else Some ((p, es) # f)"
  let ?e = "mem_env\<lparr>write_file := ?w\<rparr>"
  have d: "config_dir demo_state = ''mmce0:/cfg/''" "boot_dir demo_state = ''usb0:/APPS/''" "net demo_state = demo_net"
      "fs demo_state = []"
    by (simp_all add: demo_state_def)
  have ready: "dir_ok ?e f x" if "dir_ok mem_env f x" for f x
    using that by (simp add: dir_ok_def wait_for_config_root_ready_def)
  have p: "\<not> pathHasDevicePrefix (Some (config_dir demo_state)) ''mc''" unfolding d by code_simp
  show ?thesis
    using partial_save_announced [of ?e demo_state "[(''mmce0:/cfg/wopl_network.cfg'', build_net demo_net)]" "[]"]
      ready [OF mem_dir_ok(1)] ready [OF mem_dir_ok(2)] p
    by (simp add: d WOPL_FILENAME_def NET_FILENAME_def)
qed

theorem game_files_roundtrip_witness:
  "wOPLPerGameLoad mem_env [(''pg.cfg'', build_per_game demo_pg)] ''pg.cfg'' = (True, demo_pg) \<and>
   wOPLGameInfoLoad mem_env [(''gi.cfg'', build_game_info demo_gi)] ''gi.cfg'' = (True, demo_gi)"
proof -
  have w: "wOPLPerGameSave mem_env [] ''pg.cfg'' demo_pg = Some [(''pg.cfg'', build_per_game demo_pg)]"
    "wOPLGameInfoSave mem_env [] ''gi.cfg'' demo_gi = Some [(''gi.cfg'', build_game_info demo_gi)]"
    by (simp_all add: wOPLPerGameSave_def wOPLGameInfoSave_def mem_env_simps)
  from game_files_roundtrip [OF mem_env_ok demo_ok(3,4) w] show ?thesis by (simp add: demo_pg_def)
qed

end
