(* ===== verification/Tar.thy ===== *)
theory Tar
  imports Cstrings
begin

text \<open>
  The archive reader of the front end (\<^verbatim>\<open>src/tar.c\<close>): art, configuration, cheat and theme files in one tar
  file per device, indexed once, with a cache of the index beside the archive. A file is the list of its
  characters; the devices are a map from paths to files, with the predicate that a path can be written.

  The four kinds differ in the paths and in the size of an index entry; \<open>None\<close> for an index is the null
  pointer. Failing allocations are not modelled, and the size of a cached table is taken as the exact number:
  a cache that claims so many entries that the 32-bit product wraps is outside of the model.
\<close>

section \<open>Kinds and devices\<close>

datatype tar_kind = TAR_KIND_ART | TAR_KIND_CFG | TAR_KIND_CHT | TAR_KIND_THM

text \<open>\<^verbatim>\<open>sizeof(TarEntryBase)\<close> is 16; the sizes of the entries are rounded up to the alignment of their \<^verbatim>\<open>u64\<close>.\<close>

fun tar_relPath :: "tar_kind \<Rightarrow> string" where
  "tar_relPath TAR_KIND_ART = ''ART/art.tar''"
| "tar_relPath TAR_KIND_CFG = ''CFG/cfg.tar''"
| "tar_relPath TAR_KIND_CHT = ''CHT/cht.tar''"
| "tar_relPath TAR_KIND_THM = ''THM/thm.tar''"

fun tar_cacheName :: "tar_kind \<Rightarrow> string" where
  "tar_cacheName TAR_KIND_ART = ''art_cache.bin''"
| "tar_cacheName TAR_KIND_CFG = ''cfg_cache.bin''"
| "tar_cacheName TAR_KIND_CHT = ''cht_cache.bin''"
| "tar_cacheName TAR_KIND_THM = ''thm_cache.bin''"

fun entrySize :: "tar_kind \<Rightarrow> nat" where
  "entrySize TAR_KIND_ART = 64"
| "entrySize TAR_KIND_CFG = 40"
| "entrySize TAR_KIND_CHT = 40"
| "entrySize TAR_KIND_THM = 144"

definition nameMax :: "tar_kind \<Rightarrow> nat" where
  "nameMax kind = entrySize kind - 16 - 1"

definition gDevices :: "string list" where
  "gDevices = [''mmce0:'', ''mmce1:'', ''usb0:'', ''usb1:'', ''hdd0:'', ''hdd1:'', ''ata0:'', ''ata1:'', ''pfs0:'', ''smb0:'']"

record tar_entry =
  te_offset :: nat
  te_rawSize :: nat
  te_paddedSize :: nat
  te_filename :: string

text \<open>The files, and the state of one kind.\<close>

record tar_sys =
  files :: "string \<Rightarrow> string option"
  writable :: "string \<Rightarrow> bool"
  s_index :: "tar_entry list option"
  s_dev :: "string option"
  s_inactive :: bool

section \<open>Headers\<close>

definition parseOctal :: "string \<Rightarrow> nat" where
  "parseOctal s = foldl (\<lambda>v c. v * 8 + digit_val c) 0
     (takeWhile (char_between CHR ''0'' CHR ''7'') s)"

definition isZeroBlock :: "string \<Rightarrow> bool" where
  "isZeroBlock h \<longleftrightarrow> h = replicate 512 NUL"

definition MAX_FILE_SIZE :: nat where
  "MAX_FILE_SIZE = 4 * 1024 * 1024"

text \<open>The loops that clear zeros and blanks at the end of a field, and blanks at the end of a name.\<close>

definition trim_field :: "string \<Rightarrow> string" where
  "trim_field s = cstr_of (rev (dropWhile (\<lambda>c. c = NUL \<or> c = CHR '' '') (rev s)))"

definition trim_blanks :: "string \<Rightarrow> string" where
  "trim_blanks s = rev (dropWhile (\<lambda>c. c = CHR '' '') (rev s))"

definition header_name :: "string \<Rightarrow> string" where
  "header_name h =
     (let name = trim_field (take 100 h); prefix = trim_field (take 155 (drop 345 h))
      in trim_blanks (if prefix \<noteq> [] then take 255 (prefix @ ''/'' @ name) else name))"

section \<open>The index\<close>

text \<open>The loop over the headers from \<open>pos\<close>; \<open>None\<close> is \<^verbatim>\<open>fail\<close>: the archive ends inside of a header.\<close>

function tar_parse :: "tar_kind \<Rightarrow> string \<Rightarrow> nat \<Rightarrow> tar_entry list \<Rightarrow> tar_entry list option" where
  "tar_parse kind a pos index =
     (let header = take 512 (drop pos a) in
      if header = [] then Some index
      else if length header \<noteq> 512 then None
      else if isZeroBlock header then Some index
      else
        (let rawSize = min (parseOctal (take 12 (drop 124 header))) MAX_FILE_SIZE;
             paddedSize = (rawSize + 511) div 512 * 512
         in if header ! 156 \<noteq> NUL \<and> header ! 156 \<noteq> CHR ''0''
            then tar_parse kind a (pos + 512 + paddedSize) index
            else tar_parse kind a (pos + 512 + paddedSize)
              (index @ [\<lparr>te_offset = pos + 512, te_rawSize = rawSize, te_paddedSize = paddedSize,
                 te_filename = take (nameMax kind - 1) (header_name header)\<rparr>])))"
  by pat_completeness auto
termination
  by (relation "measure (\<lambda>(kind, a, pos, index). length a - pos)") (auto simp: Let_def)

declare tar_parse.simps [simp del]

section \<open>The cache of the index\<close>

definition le_bytes :: "nat \<Rightarrow> nat \<Rightarrow> string" where
  "le_bytes k n = map (\<lambda>i. char_of (n div 256 ^ i mod 256)) [0 ..< k]"

definition le_num :: "string \<Rightarrow> nat" where
  "le_num s = foldr (\<lambda>c n. of_char c + 256 * n) s 0"

text \<open>\<^verbatim>\<open>TarCacheHeader\<close>, 24 bytes with its padding, and an entry, its name padded with zeros.\<close>

definition cache_header :: "nat \<Rightarrow> nat \<Rightarrow> string" where
  "cache_header tarSize entryCount =
     ''ARC'' @ [NUL] @ le_bytes 4 3 @ le_bytes 8 tarSize @ le_bytes 4 entryCount @ replicate 4 NUL"

definition encode_entry :: "tar_kind \<Rightarrow> tar_entry \<Rightarrow> string" where
  "encode_entry kind e =
     le_bytes 8 (te_offset e) @ le_bytes 4 (te_rawSize e) @ le_bytes 4 (te_paddedSize e) @
     te_filename e @ replicate (entrySize kind - 16 - length (te_filename e)) NUL"

definition decode_entry :: "string \<Rightarrow> tar_entry" where
  "decode_entry b =
     \<lparr>te_offset = le_num (take 8 b), te_rawSize = le_num (take 4 (drop 8 b)),
      te_paddedSize = le_num (take 4 (drop 12 b)), te_filename = cstr_of (drop 16 b)\<rparr>"

fun chunks :: "nat \<Rightarrow> nat \<Rightarrow> string \<Rightarrow> string list" where
  "chunks n 0 s = []"
| "chunks n (Suc k) s = take n s # chunks n k (drop n s)"

definition tarReadCache :: "tar_kind \<Rightarrow> string \<Rightarrow> string \<Rightarrow> tar_sys \<Rightarrow> tar_entry list option" where
  "tarReadCache kind cachePath tarPath s =
     (case files s cachePath of
        None \<Rightarrow> None
      | Some buf \<Rightarrow>
          if length buf < 24 then None
          else if take 4 buf \<noteq> ''ARC'' @ [NUL] \<or> le_num (take 4 (drop 4 buf)) \<noteq> 3 then None
          else
            (case files s tarPath of
               None \<Rightarrow> None
             | Some a \<Rightarrow>
                 if length a \<noteq> le_num (take 8 (drop 8 buf)) then None
                 else
                   (let count = le_num (take 4 (drop 16 buf))
                    in if length buf < 24 + count * entrySize kind then None
                       else Some (map decode_entry (chunks (entrySize kind) count (drop 24 buf))))))"

definition tarWriteCache :: "tar_kind \<Rightarrow> string \<Rightarrow> string \<Rightarrow> tar_entry list \<Rightarrow> tar_sys \<Rightarrow> tar_sys" where
  "tarWriteCache kind cachePath tarPath index s =
     (case files s tarPath of
        None \<Rightarrow> s
      | Some a \<Rightarrow>
          if \<not> writable s cachePath then s
          else s\<lparr>files := (files s)(cachePath \<mapsto>
                 cache_header (length a) (length index) @ concat (map (encode_entry kind) index))\<rparr>)"

section \<open>Loading an archive\<close>

text \<open>The directory part of a path, cut to the buffer, and the path of the cache.\<close>

definition dir_part :: "string \<Rightarrow> string" where
  "dir_part path =
     (let d = copy_str path 256
      in case strrchr_c d CHR ''/'' of None \<Rightarrow> d | Some i \<Rightarrow> take (i + 1) d)"

definition cache_path :: "tar_kind \<Rightarrow> string \<Rightarrow> string" where
  "cache_path kind path = copy_str (dir_part path @ tar_cacheName kind) 256"

definition tarParseFile :: "tar_kind \<Rightarrow> string \<Rightarrow> tar_sys \<Rightarrow> bool \<times> tar_sys" where
  "tarParseFile kind path s =
     (case files s path of
        None \<Rightarrow> (False, s)
      | Some a \<Rightarrow>
          (case tarReadCache kind (cache_path kind path) path s of
             Some index \<Rightarrow> (True, s\<lparr>s_index := Some index\<rparr>)
           | None \<Rightarrow>
               (case tar_parse kind a 0 [] of
                  None \<Rightarrow> (False, s\<lparr>s_index := None\<rparr>)
                | Some index \<Rightarrow>
                    (True, tarWriteCache kind (cache_path kind path) path index
                       (s\<lparr>s_index := (if index = [] then None else Some index)\<rparr>)))))"

definition tarCloseInternal :: "tar_sys \<Rightarrow> tar_sys" where
  "tarCloseInternal s = s\<lparr>s_index := None, s_dev := None\<rparr>"

text \<open>\<^verbatim>\<open>mountRoot\<close> is the prefix with a slash.\<close>

definition buildTarPath :: "string \<Rightarrow> tar_kind \<Rightarrow> string option" where
  "buildTarPath dev kind =
     (let p = dev @ ''/'' @ tar_relPath kind in if length p < 256 then Some p else None)"

definition detectDevice :: "string \<Rightarrow> string option" where
  "detectDevice path = find (\<lambda>prefix. same_text (take (length prefix) path) prefix) gDevices"

definition tarLoadFile :: "tar_kind \<Rightarrow> string \<Rightarrow> tar_sys \<Rightarrow> bool \<times> tar_sys" where
  "tarLoadFile kind path s =
     (case tarParseFile kind path s of
        (r, s) \<Rightarrow> (r, if r then s\<lparr>s_dev := detectDevice path\<rparr> else s))"

fun try_devices :: "tar_kind \<Rightarrow> string list \<Rightarrow> tar_sys \<Rightarrow> bool \<times> tar_sys" where
  "try_devices kind [] s = (False, s)"
| "try_devices kind (dev # devs) s =
     (case buildTarPath dev kind of
        None \<Rightarrow> try_devices kind devs s
      | Some p \<Rightarrow>
          if files s p = None then try_devices kind devs s
          else
            (case tarParseFile kind p (s\<lparr>s_dev := Some dev\<rparr>) of
               (True, s) \<Rightarrow> (True, s)
             | (False, s) \<Rightarrow> try_devices kind devs (tarCloseInternal s)))"

definition tarLoadFromAnyDevice :: "tar_kind \<Rightarrow> tar_sys \<Rightarrow> bool \<times> tar_sys" where
  "tarLoadFromAnyDevice kind s =
     (if s_inactive s then (False, s)
      else
        (let present =
           (case s_dev s of
              None \<Rightarrow> False
            | Some dev \<Rightarrow> (case buildTarPath dev kind of None \<Rightarrow> False | Some p \<Rightarrow> files s p \<noteq> None))
         in if s_index s \<noteq> None \<and> s_dev s \<noteq> None \<and> present then (True, s)
            else
              (let s = (if s_index s \<noteq> None \<and> s_dev s \<noteq> None then tarCloseInternal s else s)
               in case try_devices kind gDevices s of
                    (found, s) \<Rightarrow> (found, if found then s else s\<lparr>s_inactive := True\<rparr>))))"

definition tarClose :: "tar_sys \<Rightarrow> tar_sys" where
  "tarClose s = (tarCloseInternal s)\<lparr>s_inactive := False\<rparr>"

definition no_entries :: "tar_sys \<Rightarrow> bool" where
  "no_entries s \<longleftrightarrow> s_index s = None \<or> s_index s = Some []"

definition tarEnsureLoaded :: "tar_kind \<Rightarrow> tar_sys \<Rightarrow> bool \<times> tar_sys" where
  "tarEnsureLoaded kind s =
     (if s_inactive s then (False, s)
      else if no_entries s then tarLoadFromAnyDevice kind s
      else (True, s))"

definition tarInvalidate :: "tar_sys \<Rightarrow> tar_sys" where
  "tarInvalidate s = (tarCloseInternal s)\<lparr>s_inactive := False\<rparr>"

definition tarGetDevicePrefix :: "tar_sys \<Rightarrow> string option" where
  "tarGetDevicePrefix s = s_dev s"

section \<open>Reading members\<close>

definition tarFind :: "tar_kind \<Rightarrow> string \<Rightarrow> tar_sys \<Rightarrow> tar_entry option \<times> tar_sys" where
  "tarFind kind filename s =
     (if s_inactive s then (None, s)
      else
        (case (if no_entries s then tarLoadFromAnyDevice kind s else (True, s)) of
           (False, s) \<Rightarrow> (None, s)
         | (True, s) \<Rightarrow>
             (find (\<lambda>e. same_text (te_filename e) filename) (case s_index s of None \<Rightarrow> [] | Some es \<Rightarrow> es), s)))"

text \<open>
  The bytes of the member and their number, 0 if they cannot be read completely. Without a device the
  code dereferences a null pointer (\<open>None\<close>).
\<close>

definition tarRead :: "tar_kind \<Rightarrow> tar_entry \<Rightarrow> nat \<Rightarrow> tar_sys \<Rightarrow> (nat \<times> string) option" where
  "tarRead kind e dstSize s =
     (if s_inactive s then Some (0, [])
      else if dstSize < te_rawSize e then Some (0, [])
      else
        (case s_dev s of
           None \<Rightarrow> None
         | Some dev \<Rightarrow>
             (case buildTarPath dev kind of
                None \<Rightarrow> Some (0, [])
              | Some p \<Rightarrow>
                  (case files s p of
                     None \<Rightarrow> Some (0, [])
                   | Some a \<Rightarrow>
                       (let bs = take (te_rawSize e) (drop (te_offset e) a)
                        in Some (if length bs < te_rawSize e then 0 else te_rawSize e, bs))))))"

definition tarGet :: "tar_kind \<Rightarrow> string \<Rightarrow> tar_sys \<Rightarrow> (string option \<times> tar_sys) option" where
  "tarGet kind filename s =
     (if s_inactive s then Some (None, s)
      else
        (case tarFind kind filename s of
           (None, s) \<Rightarrow> Some (None, s)
         | (Some e, s) \<Rightarrow>
             (case tarRead kind e (te_rawSize e) s of
                None \<Rightarrow> None
              | Some (n, bs) \<Rightarrow> Some (if n \<noteq> te_rawSize e then None else Some bs, s))))"

text \<open>The directories of the theme archive's top level, each once.\<close>

fun theme_names :: "tar_entry list \<Rightarrow> string list \<Rightarrow> string list" where
  "theme_names [] names = names"
| "theme_names (e # es) names =
     (case strchr_c (te_filename e) CHR ''/'' of
        None \<Rightarrow> theme_names es names
      | Some len \<Rightarrow>
          if len = 0 then theme_names es names
          else if take len (te_filename e) \<in> set names then theme_names es names
          else theme_names es (names @ [take len (te_filename e)]))"

definition tarGetThemeNames :: "tar_sys \<Rightarrow> string list" where
  "tarGetThemeNames s = theme_names (case s_index s of None \<Rightarrow> [] | Some es \<Rightarrow> es) []"

end
