(* ===== verification/Tar_Spec.thy ===== *)
theory Tar_Spec
  imports Tar
begin

text \<open>
  What a tar archive is, as far as the reader looks at it: a sequence of members, each a header with its
  name, size and type and its data padded to blocks, then a block of zeros or the end of the file; and what
  the reader makes of one.
\<close>

section \<open>Members\<close>

record tar_member =
  m_name :: string
  m_prefix :: string
  m_type :: char
  m_data :: string

definition is_file :: "tar_member \<Rightarrow> bool" where
  "is_file m \<longleftrightarrow> m_type m = NUL \<or> m_type m = CHR ''0''"

definition full_name :: "tar_member \<Rightarrow> string" where
  "full_name m = (if m_prefix m \<noteq> [] then m_prefix m @ ''/'' @ m_name m else m_name m)"

definition padded :: "tar_member \<Rightarrow> nat" where
  "padded m = (length (m_data m) + 511) div 512 * 512"

definition pad :: "nat \<Rightarrow> string \<Rightarrow> string" where
  "pad k s = s @ replicate (k - length s) NUL"

text \<open>The digits of a number in a field of \<open>k\<close> octal digits.\<close>

fun octal :: "nat \<Rightarrow> nat \<Rightarrow> string" where
  "octal 0 n = []"
| "octal (Suc k) n = octal k (n div 8) @ [digit_char (n mod 8)]"

definition header_of :: "tar_member \<Rightarrow> string \<Rightarrow> bool" where
  "header_of m h \<longleftrightarrow>
     length h = 512 \<and> take 100 h = pad 100 (m_name m) \<and>
     take 12 (drop 124 h) = octal 11 (length (m_data m)) @ [NUL] \<and> h ! 156 = m_type m \<and>
     take 155 (drop 345 h) = pad 155 (m_prefix m)"

text \<open>A field holds a name without zeros and without a blank at its end.\<close>

definition field_ok :: "nat \<Rightarrow> string \<Rightarrow> bool" where
  "field_ok k s \<longleftrightarrow> length s \<le> k \<and> NUL \<notin> set s \<and> (s \<noteq> [] \<longrightarrow> last s \<noteq> CHR '' '')"

definition member_ok :: "tar_kind \<Rightarrow> tar_member \<Rightarrow> bool" where
  "member_ok kind m \<longleftrightarrow>
     field_ok 100 (m_name m) \<and> field_ok 155 (m_prefix m) \<and> length (m_data m) \<le> MAX_FILE_SIZE \<and>
     (is_file m \<longrightarrow> length (full_name m) < nameMax kind)"

fun archive_holds :: "tar_member list \<Rightarrow> string \<Rightarrow> bool" where
  "archive_holds [] a \<longleftrightarrow> a = [] \<or> take 512 a = replicate 512 NUL"
| "archive_holds (m # ms) a \<longleftrightarrow>
     header_of m (take 512 a) \<and> take (length (m_data m)) (drop 512 a) = m_data m \<and>
     archive_holds ms (drop (512 + padded m) a)"

fun member_entries :: "nat \<Rightarrow> tar_member list \<Rightarrow> tar_entry list" where
  "member_entries pos [] = []"
| "member_entries pos (m # ms) =
     (if is_file m
      then [\<lparr>te_offset = pos + 512, te_rawSize = length (m_data m), te_paddedSize = padded m, te_filename = full_name m\<rparr>]
      else []) @ member_entries (pos + 512 + padded m) ms"

section \<open>Fields\<close>

lemma octal_digits: "\<forall>c\<in>set (octal k n). char_between CHR ''0'' CHR ''7'' c"
  by (induction k arbitrary: n) (auto simp: char_between_def digit_char_def less_Suc_eq_le [symmetric])

lemma length_octal: "length (octal k n) = k"
  by (induction k arbitrary: n) simp_all

lemma octal_value:
  "n < 8 ^ k \<Longrightarrow> foldl (\<lambda>v c. v * 8 + digit_val c) 0 (octal k n) = n"
proof (induction k arbitrary: n)
  case (Suc k)
  then have "n div 8 < 8 ^ k" by (simp add: less_mult_imp_div_less mult.commute)
  with Suc.IH have "foldl (\<lambda>v c. v * 8 + digit_val c) 0 (octal k (n div 8)) = n div 8" by blast
  moreover have "n mod 8 < 10" by (rule less_trans [of _ 8]) simp_all
  then have "digit_val (digit_char (n mod 8)) = n mod 8" by (rule digit_val_char)
  ultimately show ?case by simp
qed simp

lemma parseOctal_field:
  assumes "n < 8 ^ k"
  shows "parseOctal (octal k n @ [NUL]) = n"
proof -
  have "takeWhile (char_between CHR ''0'' CHR ''7'') (octal k n @ [NUL]) = octal k n"
    using octal_digits [of k n] by (simp add: char_between_def takeWhile_append)
  then show ?thesis by (simp add: parseOctal_def octal_value [OF assms])
qed

lemma trim_blanks_id: "(s \<noteq> [] \<longrightarrow> last s \<noteq> CHR '' '') \<Longrightarrow> trim_blanks s = s"
  by (cases s rule: rev_cases) (auto simp: trim_blanks_def)

lemma trim_field_pad:
  assumes "field_ok k s"
  shows "trim_field (pad k s) = s"
proof -
  have "dropWhile (\<lambda>c. c = NUL \<or> c = CHR '' '') (rev s) = rev s"
    using assms by (cases s rule: rev_cases) (auto simp: field_ok_def)
  then have "dropWhile (\<lambda>c. c = NUL \<or> c = CHR '' '') (replicate j NUL @ rev s) = rev s" for j
    by (induction j) simp_all
  then show ?thesis
    using assms by (simp add: trim_field_def pad_def field_ok_def cstr_of_id)
qed

lemma header_name_of:
  assumes "header_of m h" and "member_ok kind m" and "length (full_name m) \<le> 255"
  shows "header_name h = full_name m"
proof -
  have f: "trim_field (take 100 h) = m_name m" "trim_field (take 155 (drop 345 h)) = m_prefix m"
    using assms(1,2) by (simp_all add: header_of_def member_ok_def trim_field_pad)
  have "trim_blanks (full_name m) = full_name m"
    using assms(2) by (intro trim_blanks_id) (auto simp: member_ok_def full_name_def field_ok_def last_append)
  with f assms(3) show ?thesis by (auto simp: header_name_def full_name_def Let_def)
qed

section \<open>The index of an archive\<close>

lemma header_size:
  assumes "header_of m h" and "length (m_data m) \<le> MAX_FILE_SIZE"
  shows "min (parseOctal (take 12 (drop 124 h))) MAX_FILE_SIZE = length (m_data m)" and "\<not> isZeroBlock h"
proof -
  have "length (m_data m) < 8 ^ 11" using assms(2) by (simp add: MAX_FILE_SIZE_def)
  then show "min (parseOctal (take 12 (drop 124 h))) MAX_FILE_SIZE = length (m_data m)"
    using assms by (simp add: header_of_def parseOctal_field)
  have z: "take 12 (drop 124 (replicate 512 NUL)) = replicate 12 NUL" by simp
  show "\<not> isZeroBlock h"
  proof
    assume "isZeroBlock h"
    then have "octal 11 (length (m_data m)) @ [NUL] = replicate 12 NUL"
      using assms(1) z by (simp only: header_of_def isZeroBlock_def)
    then have "hd (octal 11 (length (m_data m)) @ [NUL]) = NUL" by simp
    moreover have "octal 11 n \<noteq> []" for n using length_octal [of 11 n] by force
    ultimately have "NUL \<in> set (octal 11 (length (m_data m)))"
      by (metis hd_append2 hd_in_set)
    then show False using octal_digits [of 11 "length (m_data m)"] by (auto simp: char_between_def)
  qed
qed

lemma nameMax_le: "nameMax kind \<le> 255"
  by (cases kind) (simp_all add: nameMax_def)

lemma tar_parse_archive:
  "archive_holds ms (drop pos a) \<Longrightarrow> list_all (member_ok kind) ms \<Longrightarrow>
   tar_parse kind a pos index = Some (index @ member_entries pos ms)"
proof (induction ms arbitrary: pos index)
  case Nil
  then consider "drop pos a = []" | "take 512 (drop pos a) = replicate 512 NUL" by auto
  then show ?case
  proof cases
    case 2
    have "tar_parse kind a pos index = Some index" if h: "take 512 (drop pos a) = h" "h = replicate 512 NUL" for h
    proof -
      have "h \<noteq> []" "length h = 512" "isZeroBlock h" using h(2) by (simp_all add: isZeroBlock_def)
      then show ?thesis by (subst tar_parse.simps) (simp add: h(1) Let_def)
    qed
    with 2 show ?thesis by simp
  qed (subst tar_parse.simps, simp)
next
  case (Cons m ms)
  let ?h = "take 512 (drop pos a)"
  have h: "header_of m ?h" and ok: "member_ok kind m" and oks: "list_all (member_ok kind) ms"
    and rest: "archive_holds ms (drop (pos + 512 + padded m) a)"
    using Cons.prems by (simp_all add: add_ac)
  have len: "length ?h = 512" and t: "?h ! 156 = m_type m" using h by (simp_all add: header_of_def)
  have small: "length (m_data m) \<le> MAX_FILE_SIZE" using ok by (simp add: member_ok_def)
  note size = header_size [OF h small]
  have name: "take (nameMax kind - 1) (header_name ?h) = full_name m" if "is_file m"
  proof -
    have "length (full_name m) < nameMax kind" using ok that by (simp add: member_ok_def)
    then show ?thesis using header_name_of [OF h ok] nameMax_le [of kind] by simp
  qed
  have ne: "?h \<noteq> []" using len by force
  show ?case
    by (subst tar_parse.simps)
      (use len ne size name t Cons.IH [OF rest oks] in
        \<open>auto simp: Let_def padded_def [symmetric] is_file_def\<close>)
qed

definition first_member :: "string \<Rightarrow> tar_member list \<Rightarrow> tar_member option" where
  "first_member f ms = find (\<lambda>m. is_file m \<and> same_text (full_name m) f) ms"

text \<open>The entry of a member, and that its data stand where it says.\<close>

definition entry_of :: "string \<Rightarrow> tar_member \<Rightarrow> tar_entry \<Rightarrow> bool" where
  "entry_of a m e \<longleftrightarrow>
     te_rawSize e = length (m_data m) \<and> te_paddedSize e = padded m \<and> te_filename e = full_name m \<and>
     take (te_rawSize e) (drop (te_offset e) a) = m_data m"

lemma find_entry:
  assumes "archive_holds ms (drop pos a)"
  shows "rel_option (entry_of a) (first_member f ms)
     (find (\<lambda>e. same_text (te_filename e) f) (member_entries pos ms))"
  using assms
proof (induction ms arbitrary: pos)
  case (Cons m ms)
  have "archive_holds ms (drop (pos + 512 + padded m) a)"
    and "take (length (m_data m)) (drop (pos + 512) a) = m_data m"
    using Cons.prems by (simp_all add: add_ac)
  with Cons.IH [of "pos + 512 + padded m"] show ?case
    by (auto simp: first_member_def entry_of_def)
qed (simp add: first_member_def)

end
