(* ===== verification/Tar_Props.thy ===== *)
theory Tar_Props
  imports Tar_Spec
begin

text \<open>
  The archive reader against its specification: the file it returns, the cache of the index, and what it
  does when the archive has changed.
\<close>

section \<open>The cache of the index\<close>

lemma length_le_bytes [simp]: "length (le_bytes k n) = k"
  by (simp add: le_bytes_def)

lemma le_bytes_Suc: "le_bytes (Suc k) n = char_of (n mod 256) # le_bytes k (n div 256)"
  unfolding le_bytes_def upt_conv_Cons [OF zero_less_Suc] map_Suc_upt [symmetric]
  by (simp add: div_mult2_eq)

lemma le_num_bytes: "n < 256 ^ k \<Longrightarrow> le_num (le_bytes k n) = n"
proof (induction k arbitrary: n)
  case 0
  then show ?case by (simp add: le_num_def le_bytes_def)
next
  case (Suc k)
  then have "n div 256 < 256 ^ k" by (simp add: less_mult_imp_div_less mult.commute)
  from Suc.IH [OF this] show ?case by (simp add: le_bytes_Suc le_num_def)
qed

text \<open>What fits in the fields of a cached entry.\<close>

definition entry_ok :: "tar_kind \<Rightarrow> tar_entry \<Rightarrow> bool" where
  "entry_ok kind e \<longleftrightarrow>
     te_offset e < 256 ^ 8 \<and> te_rawSize e < 256 ^ 4 \<and> te_paddedSize e < 256 ^ 4 \<and>
     NUL \<notin> set (te_filename e) \<and> length (te_filename e) \<le> nameMax kind"

lemma entrySize_gt: "16 < entrySize kind"
  by (cases kind) simp_all

lemma length_encode_entry: "entry_ok kind e \<Longrightarrow> length (encode_entry kind e) = entrySize kind"
  using entrySize_gt [of kind] by (auto simp: encode_entry_def entry_ok_def nameMax_def)

lemma decode_encode_entry:
  assumes "entry_ok kind e"
  shows "decode_entry (encode_entry kind e) = e"
proof -
  have "cstr_of (te_filename e @ replicate (entrySize kind - 16 - length (te_filename e)) NUL) = te_filename e"
    using assms by (auto simp: entry_ok_def cstr_of_def takeWhile_append takeWhile_eq_all_conv)
  then show ?thesis
    using assms by (simp add: decode_entry_def encode_entry_def entry_ok_def le_num_bytes)
qed

lemma chunks_concat:
  "list_all (\<lambda>x. length (f x) = n) xs \<Longrightarrow> chunks n (length xs) (concat (map f xs)) = map f xs"
  by (induction xs) auto

lemma length_concat_map:
  "list_all (\<lambda>x. length (f x) = n) xs \<Longrightarrow> length (concat (map f xs)) = length xs * n"
  by (induction xs) auto

lemma length_cache_header: "length (cache_header n k) = 24"
  by (simp add: cache_header_def)

lemma cache_header_fields:
  assumes "n < 256 ^ 8" and "k < 256 ^ 4"
  shows "take 4 (cache_header n k @ t) = ''ARC'' @ [NUL]"
    and "le_num (take 4 (drop 4 (cache_header n k @ t))) = 3"
    and "le_num (take 8 (drop 8 (cache_header n k @ t))) = n"
    and "le_num (take 4 (drop 16 (cache_header n k @ t))) = k"
proof -
  have three: "le_num (le_bytes 4 3) = 3" by (rule le_num_bytes) simp
  show "take 4 (cache_header n k @ t) = ''ARC'' @ [NUL]" by (simp add: cache_header_def)
  show "le_num (take 4 (drop 4 (cache_header n k @ t))) = 3" using three by (simp add: cache_header_def)
  show "le_num (take 8 (drop 8 (cache_header n k @ t))) = n"
    using le_num_bytes [OF assms(1)] by (simp add: cache_header_def)
  show "le_num (take 4 (drop 16 (cache_header n k @ t))) = k"
    using le_num_bytes [OF assms(2)] by (simp add: cache_header_def)
qed

text \<open>
  The cache written after an archive has been indexed gives back the same index (the entries, their
  offsets, sizes and names) when it is read, for as long as the archive has the same length: for the archive
  itself this is the round trip of the cache, and for another archive of that length it is the old index.
\<close>

lemma tar_cache_roundtrip:
  assumes "files s p = Some a" and "length a < 256 ^ 8" and small: "24 + length index * entrySize kind < 2 ^ 31" and "c \<noteq> p"
    and "list_all (entry_ok kind) index" and "writable s c" and "length b = length a"
  shows "tarReadCache kind c p ((tarWriteCache kind c p index s)\<lparr>files := (files (tarWriteCache kind c p index s))(p \<mapsto> b)\<rparr>)
    = Some index"
proof -
  have l: "list_all (\<lambda>e. length (encode_entry kind e) = entrySize kind) index"
    using assms(5) by (simp add: list_all_iff length_encode_entry)
  have d: "map decode_entry (map (encode_entry kind) index) = index"
    using assms(5) by (simp add: list_all_iff map_idI decode_encode_entry)
  have "length index * 1 \<le> length index * entrySize kind"
    using entrySize_gt [of kind] by (intro mult_le_mono2) simp
  also have "\<dots> < 2 ^ 31" using small by simp
  finally have "length index < 256 ^ 4" by simp
  note f = cache_header_fields [OF assms(2) this, of "concat (map (encode_entry kind) index)"]
  show ?thesis
    using assms(1,4,6,7) d f
    by (simp add: tarWriteCache_def tarReadCache_def length_cache_header length_concat_map [OF l] chunks_concat [OF l])
qed

section \<open>The paths\<close>

lemma all_kinds: "list_all P [TAR_KIND_ART, TAR_KIND_CFG, TAR_KIND_CHT, TAR_KIND_THM] \<Longrightarrow> P kind"
  by (cases kind) simp_all

lemma buildTarPath_devices: "list_all (\<lambda>dev. buildTarPath dev kind = Some (dev @ ''/'' @ tar_relPath kind)) gDevices"
  by (rule all_kinds [of "\<lambda>kind. list_all (\<lambda>dev. buildTarPath dev kind = Some (dev @ ''/'' @ tar_relPath kind)) gDevices"])
    code_simp

lemma cache_path_differs:
  "list_all (\<lambda>dev. cache_path kind (dev @ ''/'' @ tar_relPath kind) \<noteq> dev @ ''/'' @ tar_relPath kind) gDevices"
  by (rule all_kinds [of "\<lambda>kind. list_all (\<lambda>dev. cache_path kind (dev @ ''/'' @ tar_relPath kind) \<noteq>
      dev @ ''/'' @ tar_relPath kind) gDevices"]) code_simp

section \<open>Finding the archive\<close>

lemma try_devices_first:
  assumes "find (\<lambda>dev. files s (dev @ ''/'' @ tar_relPath kind) \<noteq> None) devs = Some dev"
    and "list_all (\<lambda>dev. buildTarPath dev kind = Some (dev @ ''/'' @ tar_relPath kind)) devs"
    and "tarParseFile kind (dev @ ''/'' @ tar_relPath kind) (s\<lparr>s_dev := Some dev\<rparr>) = (True, s')"
  shows "try_devices kind devs s = (True, s')"
  using assms by (induction devs) (auto split: if_splits)

lemma tarFind_loads:
  assumes "\<not> s_inactive s" and "s_index s = None"
  shows "tarFind kind f s =
     (case tarLoadFromAnyDevice kind s of
        (False, s) \<Rightarrow> (None, s)
      | (True, s) \<Rightarrow>
          (find (\<lambda>e. same_text (te_filename e) f) (case s_index s of None \<Rightarrow> [] | Some es \<Rightarrow> es), s))"
  using assms by (simp add: tarFind_def no_entries_def)

text \<open>The state after the archive has been indexed: the device, the entries, and the archive still there.\<close>

definition indexed :: "tar_kind \<Rightarrow> string \<Rightarrow> string \<Rightarrow> tar_entry list \<Rightarrow> tar_sys \<Rightarrow> bool" where
  "indexed kind dev a es s \<longleftrightarrow>
     s_dev s = Some dev \<and> (case s_index s of None \<Rightarrow> [] | Some es \<Rightarrow> es) = es \<and> \<not> s_inactive s \<and>
     files s (dev @ ''/'' @ tar_relPath kind) = Some a"

lemma load_indexes:
  assumes dev: "find (\<lambda>dev. files s (dev @ ''/'' @ tar_relPath kind) \<noteq> None) gDevices = Some dev"
    and s: "\<not> s_inactive s" "s_index s = None"
    and a: "files s (dev @ ''/'' @ tar_relPath kind) = Some a"
    and cache: "tarReadCache kind (cache_path kind (dev @ ''/'' @ tar_relPath kind)) (dev @ ''/'' @ tar_relPath kind) s = None"
    and arch: "archive_holds ms a" "list_all (member_ok kind) ms"
  shows "\<exists>s'. tarLoadFromAnyDevice kind s = (True, s') \<and> indexed kind dev a (member_entries 0 ms) s'"
proof -
  let ?p = "dev @ ''/'' @ tar_relPath kind"
  have "dev \<in> set gDevices" using dev by (auto simp: find_Some_iff in_set_conv_nth)
  then have ne: "cache_path kind ?p \<noteq> ?p"
    using cache_path_differs [of kind] by (simp add: list_all_iff)
  have "tarReadCache kind c p (s\<lparr>s_dev := Some dev\<rparr>) = tarReadCache kind c p s" for c p
    by (simp add: tarReadCache_def cong: option.case_cong if_cong)
  then have "tarParseFile kind ?p (s\<lparr>s_dev := Some dev\<rparr>) =
     (True, tarWriteCache kind (cache_path kind ?p) ?p (member_entries 0 ms)
        (s\<lparr>s_dev := Some dev, s_index := (if member_entries 0 ms = [] then None else Some (member_entries 0 ms))\<rparr>))"
    using a cache tar_parse_archive [of ms 0 a kind "[]"] arch by (simp add: tarParseFile_def)
  from try_devices_first [OF dev buildTarPath_devices this] show ?thesis
    using s a ne by (auto simp: tarLoadFromAnyDevice_def Let_def indexed_def tarWriteCache_def)
qed

lemma tarRead_entry:
  assumes "indexed kind dev a es s" and "dev \<in> set gDevices" and "entry_of a m e"
  shows "tarRead kind e (te_rawSize e) s = Some (te_rawSize e, m_data m)"
proof -
  have "buildTarPath dev kind = Some (dev @ ''/'' @ tar_relPath kind)"
    using buildTarPath_devices [of kind] assms(2) by (simp add: list_all_iff)
  moreover have "take (te_rawSize e) (drop (te_offset e) a) = m_data m" "length (m_data m) = te_rawSize e"
    using assms(3) unfolding entry_of_def by (blast, simp)
  ultimately show ?thesis using assms(1) by (simp add: tarRead_def indexed_def del: length_take)
qed

text \<open>
  C16: Asking the archive reader for a file, when no archive is loaded and no valid cache lies beside it,
  takes the archive of the first device in the table that has one, and returns the data of its first file
  member whose name (prefix and name joined) equals the wanted one up to the case of letters, and nothing if
  there is no such member; a lookup does not dereference the null device.
\<close>

theorem tar_get_member:
  assumes "find (\<lambda>dev. files s (dev @ ''/'' @ tar_relPath kind) \<noteq> None) gDevices = Some dev"
    and "\<not> s_inactive s" and "s_index s = None"
    and "files s (dev @ ''/'' @ tar_relPath kind) = Some a"
    and "tarReadCache kind (cache_path kind (dev @ ''/'' @ tar_relPath kind)) (dev @ ''/'' @ tar_relPath kind) s = None"
    and "archive_holds ms a" and "list_all (member_ok kind) ms"
  shows "\<exists>s'. tarGet kind f s = Some (map_option m_data (first_member f ms), s')"
proof -
  obtain s' where load: "tarLoadFromAnyDevice kind s = (True, s')"
    and ix: "indexed kind dev a (member_entries 0 ms) s'"
    using load_indexes [OF assms] by blast
  have dev: "dev \<in> set gDevices" using assms(1) by (auto simp: find_Some_iff in_set_conv_nth)
  let ?r = "find (\<lambda>e. same_text (te_filename e) f) (member_entries 0 ms)"
  have "tarFind kind f s = (?r, s')"
    using ix by (simp add: tarFind_loads [OF assms(2,3)] load indexed_def)
  moreover have "rel_option (entry_of a) (first_member f ms) ?r"
    using find_entry [of ms 0 a f] assms(6) by simp
  ultimately show ?thesis
    using assms(2) tarRead_entry [OF ix dev]
    by (cases "first_member f ms"; cases ?r) (auto simp: tarGet_def)
qed

section \<open>An archive on a device\<close>

definition make_header :: "tar_member \<Rightarrow> string" where
  "make_header m =
     pad 100 (m_name m) @ replicate 24 NUL @ octal 11 (length (m_data m)) @ [NUL] @ replicate 20 NUL @ [m_type m] @
     replicate 188 NUL @ pad 155 (m_prefix m) @ replicate 12 NUL"

definition demo_members :: "tar_member list" where
  "demo_members =
     [\<lparr>m_name = ''covers'', m_prefix = [], m_type = CHR ''5'', m_data = []\<rparr>,
      \<lparr>m_name = ''Game.png'', m_prefix = ''covers'', m_type = CHR ''0'', m_data = ''picture''\<rparr>]"

definition demo_archive :: string where
  "demo_archive = concat (map (\<lambda>m. make_header m @ pad (padded m) (m_data m)) demo_members) @ replicate 1024 NUL"

definition demo_sys :: tar_sys where
  "demo_sys = \<lparr>files = [''usb0:/ART/art.tar'' \<mapsto> demo_archive], writable = (\<lambda>p. p = ''usb0:/ART/art_cache.bin''),
     s_index = None, s_dev = None, s_inactive = False\<rparr>"

lemma length_pad: "length s \<le> k \<Longrightarrow> length (pad k s) = k"
  by (simp add: pad_def)

lemma header_of_make:
  assumes "length (m_name m) \<le> 100" and "length (m_prefix m) \<le> 155"
  shows "header_of m (make_header m)"
  using assms by (simp add: header_of_def make_header_def length_pad length_octal nth_append)

lemma archive_holds_make:
  "list_all (\<lambda>m. length (m_name m) \<le> 100 \<and> length (m_prefix m) \<le> 155) ms \<Longrightarrow>
   archive_holds ms (concat (map (\<lambda>m. make_header m @ pad (padded m) (m_data m)) ms) @ replicate 1024 NUL)"
proof (induction ms)
  case (Cons m ms)
  then have h: "header_of m (make_header m)" by (simp add: header_of_make)
  then have l: "length (make_header m) = 512" by (simp add: header_of_def)
  have fits: "length (m_data m) \<le> padded m" unfolding padded_def by linarith
  then have "length (pad (padded m) (m_data m)) = padded m"
    and "take (length (m_data m)) (pad (padded m) (m_data m)) = m_data m"
    by (simp_all add: pad_def)
  with Cons h l fits show ?case by simp
qed simp

lemma demo_archive_holds: "archive_holds demo_members demo_archive"
  unfolding demo_archive_def by (rule archive_holds_make) (simp add: demo_members_def)

lemma demo_members_ok: "list_all (member_ok TAR_KIND_ART) demo_members"
  by (simp add: demo_members_def member_ok_def field_ok_def is_file_def full_name_def MAX_FILE_SIZE_def nameMax_def)

lemma tar_get_member_witness:
  "\<exists>s'. tarGet TAR_KIND_ART ''COVERS/game.PNG'' demo_sys = Some (Some ''picture'', s')"
proof -
  have f: "map_option m_data (first_member ''COVERS/game.PNG'' demo_members) = Some ''picture''" by code_simp
  show ?thesis
    using tar_get_member [of demo_sys TAR_KIND_ART "''usb0:''" demo_archive demo_members "''COVERS/game.PNG''"]
      demo_archive_holds demo_members_ok f
    by (simp add: demo_sys_def gDevices_def tarReadCache_def cache_path_def dir_part_def strrchr_c_def copy_str_def)
qed

definition demo_entry :: tar_entry where
  "demo_entry = \<lparr>te_offset = 1024, te_rawSize = 7, te_paddedSize = 512, te_filename = ''covers/Game.png''\<rparr>"

lemma tar_cache_roundtrip_witness:
  "tarReadCache TAR_KIND_ART ''c'' ''p'' ((tarWriteCache TAR_KIND_ART ''c'' ''p'' [demo_entry]
      \<lparr>files = [''p'' \<mapsto> ''xy''], writable = (\<lambda>_. True), s_index = None, s_dev = None, s_inactive = False\<rparr>)
     \<lparr>files := (files (tarWriteCache TAR_KIND_ART ''c'' ''p'' [demo_entry]
      \<lparr>files = [''p'' \<mapsto> ''xy''], writable = (\<lambda>_. True), s_index = None, s_dev = None, s_inactive = False\<rparr>))(''p'' \<mapsto> ''zz'')\<rparr>)
    = Some [demo_entry]"
  by (rule tar_cache_roundtrip [where a = "''xy''"]) (simp_all add: demo_entry_def entry_ok_def nameMax_def)

end
