(* ===== verification/Filebuf.thy ===== *)
theory Filebuf
  imports Cstrings
begin

text \<open>
  The buffered text files of the front end (\<^verbatim>\<open>src/supportbase.c\<close>): a reader that returns one line at a time
  without its end and without comment lines, and a writer. The memory of the buffer is the list of its
  characters, a pointer into it is an index, and an access outside of it (or through the null pointer) is
  \<open>None\<close>. An open file is what is left to be read, or what has been written; a read of a file returns as
  much as is asked for and there, and allocations succeed.
\<close>

abbreviation LF :: char where "LF \<equiv> CHR 0x0A"
abbreviation CR :: char where "CR \<equiv> CHR 0x0D"

datatype file_mode = O_RDONLY | O_WRONLY

record file_buffer =
  fd :: "string option"
  fb_mode :: file_mode
  buffer :: string
  fb_size :: nat
  available :: nat
  lastPtr :: "nat option"

section \<open>Opening\<close>

definition has_bom :: "string \<Rightarrow> bool" where
  "has_bom f \<longleftrightarrow> take 3 f = [CHR 0xEF, CHR 0xBB, CHR 0xBF]"

definition sbOpenFileBuffer :: "string option \<Rightarrow> file_mode \<Rightarrow> nat \<Rightarrow> file_buffer option" where
  "sbOpenFileBuffer file mode n =
     map_option (\<lambda>f.
       \<lparr>fd = Some (if mode = O_RDONLY \<and> has_bom f then drop 3 f else f), fb_mode = mode,
        buffer = replicate n NUL, fb_size = n, available = 0,
        lastPtr = (if mode = O_RDONLY then None else Some 0)\<rparr>) file"

definition sbOpenFileBufferBuffer :: "string \<Rightarrow> file_buffer" where
  "sbOpenFileBufferBuffer data =
     \<lparr>fd = None, fb_mode = O_RDONLY, buffer = data @ [NUL], fb_size = length data, available = length data,
      lastPtr = Some 0\<rparr>"

section \<open>Reading\<close>

text \<open>\<^verbatim>\<open>strchr(buffer + p, LF)\<close>: the search stops at a zero, and leaves the buffer if there is neither.\<close>

definition find_lf :: "string \<Rightarrow> nat \<Rightarrow> nat option option" where
  "find_lf buf p =
     (let skip = takeWhile (\<lambda>c. c \<noteq> LF \<and> c \<noteq> NUL) (drop p buf); q = p + length skip
      in if q < length buf then Some (if buf ! q = LF then Some q else None) else None)"

text \<open>The buffer is completed from the file, up to its last character.\<close>

definition refill :: "file_buffer \<Rightarrow> nat \<Rightarrow> (file_buffer \<times> nat \<times> nat option) option" where
  "refill fb lineSize =
     (case fd fb of
        None \<Rightarrow> Some (fb, lineSize, None)
      | Some f \<Rightarrow>
          if fb_size fb < lineSize + 1 then None
          else
            (let got = take (fb_size fb - lineSize - 1) f in
             do {
               buf \<leftarrow> mem_write (buffer fb) lineSize (got @ [NUL]);
               posLF \<leftarrow> find_lf buf lineSize;
               Some (fb\<lparr>buffer := buf,
                        fd := (if fb_size fb \<noteq> lineSize + length got + 1 then None else Some (drop (length got) f))\<rparr>,
                     lineSize + length got, posLF)
             }))"

text \<open>
  What is left in the buffer, with the place of its first line feed; without one, what is left is moved to
  the start of the buffer and completed.
\<close>

definition locate_line :: "file_buffer \<Rightarrow> nat \<Rightarrow> (file_buffer \<times> nat \<times> nat option) option" where
  "locate_line fb lineSize = do {
     (lineSize, posLF) \<leftarrow>
       (case lastPtr fb of
          None \<Rightarrow> Some (lineSize, None)
        | Some p \<Rightarrow> do { posLF \<leftarrow> find_lf (buffer fb) p; Some (available fb - p, posLF) });
     if posLF \<noteq> None then Some (fb, lineSize, posLF)
     else do {
       buf \<leftarrow>
         (if lineSize = 0 then Some (buffer fb)
          else do { p \<leftarrow> lastPtr fb; rest \<leftarrow> mem_read (buffer fb) p lineSize; mem_write (buffer fb) 0 rest });
       (fb, lineSize, posLF) \<leftarrow> refill (fb\<lparr>buffer := buf\<rparr>) lineSize;
       Some (fb\<lparr>lastPtr := Some 0, available := lineSize\<rparr>, lineSize, posLF)
     }
   }"

text \<open>The line is ended by a zero, in front of a carriage return.\<close>

definition end_line :: "file_buffer \<Rightarrow> nat \<Rightarrow> nat option \<Rightarrow> (file_buffer \<times> nat) option" where
  "end_line fb lineSize posLF = do {
     p \<leftarrow> lastPtr fb;
     let lineSize = (case posLF of None \<Rightarrow> lineSize | Some q \<Rightarrow> q - p);
     let lineSize = (if lineSize \<noteq> 0 \<and> buffer fb ! (p + lineSize - 1) = CR then lineSize - 1 else lineSize);
     buf \<leftarrow> mem_write (buffer fb) (p + lineSize) [NUL];
     Some (fb\<lparr>buffer := buf\<rparr>, lineSize)
   }"

text \<open>The line that the call returns, \<open>None\<close> at the end. Comments are skipped.\<close>

partial_function (option) read_loop :: "file_buffer \<Rightarrow> nat \<Rightarrow> (string option \<times> file_buffer) option" where
  "read_loop fb lineSize = do {
     (fb, lineSize, posLF) \<leftarrow> locate_line fb lineSize;
     (fb, lineSize) \<leftarrow> end_line fb lineSize posLF;
     p \<leftarrow> lastPtr fb;
     let line = drop p (buffer fb);
     let after = fb\<lparr>lastPtr := map_option Suc posLF\<rparr>;
     if lineSize = 0 \<and> available fb = 0 \<and> fd fb = None then Some (None, fb)
     else if hd line = CHR ''#'' then read_loop after lineSize
     else Some (Some (cstr_of line), after)
   }"

definition sbReadFileBuffer :: "file_buffer \<Rightarrow> (string option \<times> file_buffer) option" where
  "sbReadFileBuffer fb = read_loop fb 0"

section \<open>Writing\<close>

definition sbWriteFileBuffer :: "file_buffer \<Rightarrow> string \<Rightarrow> file_buffer option" where
  "sbWriteFileBuffer fb inBuf =
     (let n = length inBuf;
          fb = (if available fb \<noteq> 0 \<and> available fb + n > fb_size fb
                then fb\<lparr>fd := map_option (\<lambda>f. f @ take (available fb) (buffer fb)) (fd fb), lastPtr := Some 0,
                        available := 0\<rparr>
                else fb)
      in if n > fb_size fb then Some (fb\<lparr>fd := map_option (\<lambda>f. f @ inBuf) (fd fb)\<rparr>)
         else do {
           p \<leftarrow> lastPtr fb;
           buf \<leftarrow> mem_write (buffer fb) p inBuf;
           Some (fb\<lparr>buffer := buf, lastPtr := Some (p + n), available := available fb + n\<rparr>)
         })"

text \<open>Closing writes what is left; the contents of the file.\<close>

definition sbCloseFileBuffer :: "file_buffer \<Rightarrow> string option" where
  "sbCloseFileBuffer fb =
     map_option (\<lambda>f. if fb_mode fb \<noteq> O_RDONLY \<and> available fb \<noteq> 0 then f @ take (available fb) (buffer fb) else f) (fd fb)"

section \<open>The loops of the callers\<close>

text \<open>All lines, with a bound on their number, and a sequence of writes.\<close>

fun read_lines :: "nat \<Rightarrow> file_buffer \<Rightarrow> string list option" where
  "read_lines 0 fb = None"
| "read_lines (Suc n) fb = do {
     (line, fb) \<leftarrow> sbReadFileBuffer fb;
     (case line of None \<Rightarrow> Some [] | Some l \<Rightarrow> do { ls \<leftarrow> read_lines n fb; Some (l # ls) })
   }"

fun write_all :: "string list \<Rightarrow> file_buffer \<Rightarrow> file_buffer option" where
  "write_all [] fb = Some fb"
| "write_all (s # ss) fb = do { fb \<leftarrow> sbWriteFileBuffer fb s; write_all ss fb }"

end
