(* ===== verification/Mcfolder.thy ===== *)
theory Mcfolder
  imports Filebuf
begin

text \<open>
  Opening files of the front end (\<^verbatim>\<open>sbOpenFile\<close> of \<^verbatim>\<open>src/supportbase.c\<close>): a path on ''mc?:'' goes to the
  memory card that has the program's folder, and a file created on a card gets its folder created. The
  file system is what the code sees of it: the files, the directories that can be opened, and the paths on
  which creation is refused; \<open>config_name\<close> is the build's \<^verbatim>\<open>WOPL_CONFIG_NAME\<close>.
\<close>

section \<open>The file system\<close>

record fstore =
  file_at :: "string \<Rightarrow> string option"
  dir_at :: "string \<Rightarrow> bool"
  refused :: "string \<Rightarrow> bool"
  mcID :: "char option"
  config_name :: string

text \<open>A directory is named with or without a slash at its end.\<close>

definition dir_key :: "string \<Rightarrow> string" where
  "dir_key p = (if p \<noteq> [] \<and> last p = CHR ''/'' then butlast p else p)"

definition opendir :: "fstore \<Rightarrow> string \<Rightarrow> bool" where
  "opendir st p \<longleftrightarrow> dir_at st (dir_key p)"

definition mkdir :: "string \<Rightarrow> fstore \<Rightarrow> bool \<times> fstore" where
  "mkdir p st =
     (if dir_at st (dir_key p) \<or> refused st (dir_key p) then (False, st)
      else (True, st\<lparr>dir_at := (dir_at st)(dir_key p := True)\<rparr>))"

text \<open>\<^verbatim>\<open>open\<close> for reading, and with \<^verbatim>\<open>O_WRONLY | O_CREAT | O_TRUNC\<close>: the contents the descriptor starts from.\<close>

definition open_file :: "string \<Rightarrow> file_mode \<Rightarrow> fstore \<Rightarrow> string option \<times> fstore" where
  "open_file p mode st =
     (if mode = O_RDONLY then (file_at st p, st)
      else if refused st p then (None, st)
      else (Some [], st\<lparr>file_at := (file_at st)(p \<mapsto> [])\<rparr>))"

section \<open>The memory cards\<close>

definition mc_path :: "char \<Rightarrow> string \<Rightarrow> string" where
  "mc_path slot p = ''mc'' @ [slot] @ '':'' @ p"

definition sbCheckMC :: "fstore \<Rightarrow> char option \<times> fstore" where
  "sbCheckMC st =
     (if mcID st = None then
        (let mc0_is_ps2card = opendir st (mc_path CHR ''0'' ''/'');
             mc1_is_ps2card = opendir st (mc_path CHR ''1'' ''/'');
             mc0_has_folder = opendir st (mc_path CHR ''0'' (config_name st @ ''/''));
             mc1_has_folder = opendir st (mc_path CHR ''1'' (config_name st @ ''/''));
             found = (if mc0_has_folder then Some CHR ''0''
                      else if mc1_has_folder then Some CHR ''1''
                      else if mc0_is_ps2card then Some CHR ''0''
                      else if mc1_is_ps2card then Some CHR ''1''
                      else None)
         in (found, st\<lparr>mcID := found\<rparr>))
      else (mcID st, st))"

definition sbGetmcID :: "fstore \<Rightarrow> char option" where
  "sbGetmcID st = mcID st"

definition is_mc_config_path :: "string \<Rightarrow> char option" where
  "is_mc_config_path dir =
     (if take 2 dir \<noteq> ''mc'' \<or> length dir < 4 then None
      else if dir ! 2 \<noteq> CHR ''0'' \<and> dir ! 2 \<noteq> CHR ''1'' then None
      else if dir ! 3 \<noteq> CHR '':'' then None
      else Some (dir ! 2))"

definition mc_slot_is_usable :: "char \<Rightarrow> fstore \<Rightarrow> bool" where
  "mc_slot_is_usable slot st \<longleftrightarrow> opendir st (mc_path slot ''/'')"

definition normalise_mc_config_dir :: "nat \<Rightarrow> string \<Rightarrow> string option" where
  "normalise_mc_config_dir out_size dir =
     (if out_size \<le> length dir then None
      else if dir = [] then None
      else if last dir \<noteq> CHR ''/'' then (if out_size \<le> length dir + 1 then None else Some (dir @ ''/''))
      else Some dir)"

definition ensure_dir_exists :: "string \<Rightarrow> fstore \<Rightarrow> bool \<times> fstore" where
  "ensure_dir_exists dir st =
     (if opendir st dir then (True, st)
      else (case mkdir dir st of (ok, st) \<Rightarrow> (ok \<or> opendir st dir, st)))"

text \<open>The path to open, with the question mark replaced in place; \<open>None\<close> for the result 0.\<close>

definition checkFile :: "string \<Rightarrow> file_mode \<Rightarrow> fstore \<Rightarrow> bool \<times> string \<times> fstore" where
  "checkFile path mode st =
     (if take 2 path \<noteq> ''mc'' then (True, path, st)
      else
        (case (if 2 < length path \<and> path ! 2 = CHR ''?'' then
                 (case sbCheckMC st of (None, st) \<Rightarrow> (False, path, st) | (Some c, st) \<Rightarrow> (True, path[2 := c], st))
               else (True, path, st)) of
           (False, path, st) \<Rightarrow> (False, path, st)
         | (True, path, st) \<Rightarrow>
             if mode = O_RDONLY then (True, path, st)
             else
               (case strrchr_c path CHR ''/'' of
                  None \<Rightarrow> (True, path, st)
                | Some pos \<Rightarrow>
                    if opendir st (take pos path) then (True, path, st)
                    else (case mkdir (take pos path) st of (ok, st) \<Rightarrow> (ok, path, st)))))"

definition sbOpenFile :: "string \<Rightarrow> file_mode \<Rightarrow> fstore \<Rightarrow> string option \<times> string \<times> fstore" where
  "sbOpenFile path mode st =
     (case checkFile path mode st of
        (False, path, st) \<Rightarrow> (None, path, st)
      | (True, path, st) \<Rightarrow> (case open_file path mode st of (f, st) \<Rightarrow> (f, path, st)))"

definition sbFileExists :: "string \<Rightarrow> fstore \<Rightarrow> bool" where
  "sbFileExists path st \<longleftrightarrow> file_at st path \<noteq> None"

definition write_file_if_missing :: "string \<Rightarrow> string \<Rightarrow> fstore \<Rightarrow> fstore" where
  "write_file_if_missing path data st =
     (if file_at st path \<noteq> None then st
      else
        (case sbOpenFile path O_WRONLY st of
           (None, _, st) \<Rightarrow> st
         | (Some _, path, st) \<Rightarrow> st\<lparr>file_at := (file_at st)(path \<mapsto> data)\<rparr>))"

text \<open>The icons of the folder are arguments: the list, copy and delete icon and \<^verbatim>\<open>icon.sys\<close>.\<close>

definition sbEnsureMCConfigFolder :: "string \<times> string \<times> string \<times> string \<Rightarrow> string \<Rightarrow> fstore \<Rightarrow> bool \<times> fstore" where
  "sbEnsureMCConfigFolder icons dir st =
     (case icons of (icon_icn, icon_cpy_icn, icon_del_icn, icon_sys) \<Rightarrow>
        (case is_mc_config_path dir of
           None \<Rightarrow> (False, st)
         | Some slot \<Rightarrow>
             if \<not> mc_slot_is_usable slot st then (False, st)
             else
               (case normalise_mc_config_dir 128 dir of
                  None \<Rightarrow> (False, st)
                | Some folder \<Rightarrow>
                    (case ensure_dir_exists folder st of
                       (False, st) \<Rightarrow> (False, st)
                     | (True, st) \<Rightarrow>
                         (True,
                          write_file_if_missing (copy_str (folder @ ''icon.sys'') 128) icon_sys
                          (write_file_if_missing (copy_str (folder @ ''del.icn'') 128) icon_del_icn
                          (write_file_if_missing (copy_str (folder @ ''copy.icn'') 128) icon_cpy_icn
                          (write_file_if_missing (copy_str (folder @ ''list.icn'') 128) icon_icn
                             (st\<lparr>mcID := Some slot\<rparr>)))))))))"

section \<open>Names of image files\<close>

text \<open>The names are of four characters at least: the code looks at the four before the end of any name.\<close>

datatype iso_format = NOT_ISO | GAME_FORMAT_OLD_ISO | GAME_FORMAT_ISO

definition isValidIsoName :: "string \<Rightarrow> (iso_format \<times> nat) option" where
  "isValidIsoName name =
     (let n = length name in
      if n < 4 then None
      else
        (let ext = drop (n - 4) name
         in if same_text ext ''.iso'' \<or> same_text ext ''.zso'' then
              (if 17 \<le> n \<and> name ! 4 = CHR ''_'' \<and> name ! 8 = CHR ''.'' \<and> name ! 11 = CHR ''.''
               then Some (GAME_FORMAT_OLD_ISO, n - 16)
               else if 5 \<le> n then Some (GAME_FORMAT_ISO, n - 4)
               else Some (NOT_ISO, 0))
            else Some (NOT_ISO, 0)))"

end
