(* ===== verification/Filebuf_Lines.thy ===== *)
theory Filebuf_Lines
  imports Filebuf
begin

text \<open>
  The lines of a text, and the buffered reader and writer against them: the reader returns the lines of what
  is left to be read, the writer appends.
\<close>

section \<open>The lines of a text\<close>

definition first_line :: "string \<Rightarrow> string" where
  "first_line s = takeWhile (\<lambda>c. c \<noteq> LF) s"

function text_lines :: "string \<Rightarrow> string list" where
  "text_lines s = (if s = [] then [] else first_line s # text_lines (drop (length (first_line s) + 1) s))"
  by pat_completeness auto
termination by (relation "measure length") auto

declare text_lines.simps [simp del]

definition chomp :: "string \<Rightarrow> string" where
  "chomp l = (if l \<noteq> [] \<and> last l = CR then butlast l else l)"

definition is_comment :: "string \<Rightarrow> bool" where
  "is_comment l \<longleftrightarrow> (case l of [] \<Rightarrow> False | c # _ \<Rightarrow> c = CHR ''#'')"

definition visible_lines :: "string \<Rightarrow> string list" where
  "visible_lines s = filter (\<lambda>l. \<not> is_comment l) (map chomp (text_lines s))"

text \<open>A text that the reader handles: no zeros, and a comment in the last line ends with a line feed.\<close>

definition ends_comments :: "string \<Rightarrow> bool" where
  "ends_comments s \<longleftrightarrow> s = [] \<or> last s = LF \<or> \<not> is_comment (chomp (last (text_lines s)))"

lemma text_lines_Nil [simp]: "text_lines [] = []"
  by (simp add: text_lines.simps)

lemma text_lines_Cons:
  "s \<noteq> [] \<Longrightarrow> text_lines s = first_line s # text_lines (drop (length (first_line s) + 1) s)"
  by (subst text_lines.simps) simp

lemma first_line_append: "LF \<notin> set l \<Longrightarrow> first_line (l @ LF # s) = l"
  by (auto simp: first_line_def takeWhile_tail takeWhile_append)

lemma text_lines_append: "LF \<notin> set l \<Longrightarrow> text_lines (l @ LF # s) = l # text_lines s"
  by (simp add: text_lines_Cons first_line_append)

lemma first_line_split: "LF \<in> set s \<Longrightarrow> s = first_line s @ LF # drop (length (first_line s) + 1) s"
  by (induction s) (auto simp: first_line_def)

lemma first_line_all: "LF \<notin> set s \<Longrightarrow> first_line s = s"
  by (induction s) (auto simp: first_line_def)

lemma set_first_line: "set (first_line s) \<subseteq> set s" "LF \<notin> set (first_line s)"
  by (auto simp: first_line_def dest: set_takeWhileD)

lemma length_first_line: "LF \<in> set s \<Longrightarrow> length (first_line s) < length s"
  by (induction s) (auto simp: first_line_def)

section \<open>The state of a reader\<close>

definition unread_file :: "file_buffer \<Rightarrow> string" where
  "unread_file fb = (case fd fb of None \<Rightarrow> [] | Some f \<Rightarrow> f)"

text \<open>What is left to be read, in the buffer behind \<open>lastPtr\<close> and in the file.\<close>

definition reader_at :: "file_buffer \<Rightarrow> string \<Rightarrow> bool" where
  "reader_at fb r \<longleftrightarrow>
     buffer fb \<noteq> [] \<and> (fd fb \<noteq> None \<longrightarrow> length (buffer fb) = fb_size fb \<and> 2 \<le> fb_size fb) \<and>
     (case lastPtr fb of
        None \<Rightarrow> r = unread_file fb
      | Some p \<Rightarrow>
          p \<le> available fb \<and> available fb < length (buffer fb) \<and> buffer fb ! available fb = NUL \<and>
          r = take (available fb - p) (drop p (buffer fb)) @ unread_file fb)"

text \<open>The first line feed of a piece of the buffer that ends with a zero.\<close>

lemma find_lf_piece:
  assumes "drop p buf = s @ NUL # t" and "NUL \<notin> set s"
  shows "find_lf buf p = Some (if LF \<in> set s then Some (p + length (first_line s)) else None)"
proof -
  have tw: "takeWhile (\<lambda>c. c \<noteq> LF \<and> c \<noteq> NUL) (s @ NUL # t) = first_line s"
    using assms(2) unfolding first_line_def by (induction s) auto
  have len: "length (first_line s) \<le> length s" by (simp add: first_line_def length_takeWhile_le)
  have "length buf - p = length s + 1 + length t" using arg_cong [OF assms(1), of length] by simp
  then have p: "p + length (first_line s) < length buf" using len by linarith
  then have "buf ! (p + length (first_line s)) = (s @ NUL # t) ! length (first_line s)"
    using assms(1) by (metis add_leD1 less_or_eq_imp_le nth_drop)
  moreover have "(s @ NUL # t) ! length (first_line s) = (if LF \<in> set s then LF else NUL)"
    using first_line_split [of s] first_line_all [of s] length_first_line [of s]
    by (metis append.assoc append_Cons nth_append_length)
  ultimately show ?thesis using p by (simp add: find_lf_def assms(1) tw Let_def)
qed

lemma reader_piece:
  assumes "p \<le> n" and "n < length buf" and "buf ! n = NUL"
  shows "drop p buf = take (n - p) (drop p buf) @ NUL # drop (Suc n) buf"
  using assms id_take_nth_drop [of "n - p" "drop p buf"] by simp

lemma mem_write_single: "k < length buf \<Longrightarrow> mem_write buf k [x] = Some (buf[k := x])"
  by (simp add: mem_write_def upd_conv_take_nth_drop)

section \<open>One line\<close>

text \<open>
  A piece of the buffer, as the whole of what is left in the buffer; it ends with a zero, or has just been
  moved and holds no line feed.
\<close>

definition piece_at :: "file_buffer \<Rightarrow> nat \<Rightarrow> string \<Rightarrow> bool" where
  "piece_at fb p s \<longleftrightarrow>
     lastPtr fb = Some p \<and> available fb = p + length s \<and> (\<exists>t. drop p (buffer fb) = s @ NUL # t)"

definition got_at :: "file_buffer \<Rightarrow> nat \<Rightarrow> string \<Rightarrow> bool" where
  "got_at fb p s \<longleftrightarrow>
     lastPtr fb = Some p \<and> available fb = p + length s \<and>
     (\<exists>x t. drop p (buffer fb) = s @ x # t \<and> (LF \<in> set s \<longrightarrow> x = NUL))"

lemma reader_at_piece:
  assumes "reader_at fb r" and "lastPtr fb = Some p"
  obtains s where "piece_at fb p s" and "r = s @ unread_file fb"
proof
  let ?s = "take (available fb - p) (drop p (buffer fb))"
  show "r = ?s @ unread_file fb" using assms by (simp add: reader_at_def)
  show "piece_at fb p ?s"
    unfolding piece_at_def using assms reader_piece [of p "available fb" "buffer fb"]
    by (auto simp: reader_at_def)
qed

lemma piece_reader_at:
  assumes "piece_at fb p s" and "buffer fb \<noteq> []" and "fd fb \<noteq> None \<longrightarrow> length (buffer fb) = fb_size fb \<and> 2 \<le> fb_size fb"
  shows "reader_at fb (s @ unread_file fb)"
proof -
  obtain t where t: "drop p (buffer fb) = s @ NUL # t" and p: "lastPtr fb = Some p" "available fb = p + length s"
    using assms(1) by (auto simp: piece_at_def)
  have "length (buffer fb) - p = length s + 1 + length t" using arg_cong [OF t, of length] by simp
  then have "p + length s < length (buffer fb)" by linarith
  moreover from this have "buffer fb ! (p + length s) = drop p (buffer fb) ! length s" by simp
  ultimately show ?thesis using assms(2,3) p t by (simp add: reader_at_def)
qed

definition line_pos :: "nat \<Rightarrow> string \<Rightarrow> nat option" where
  "line_pos p s = (if LF \<in> set s then Some (p + length (first_line s)) else None)"

lemma find_lf_at: "piece_at fb p s \<Longrightarrow> NUL \<notin> set s \<Longrightarrow> find_lf (buffer fb) p = Some (line_pos p s)"
  by (auto simp: piece_at_def line_pos_def find_lf_piece)

text \<open>The buffer completed from the file, with \<open>s\<close> without a line feed at its start.\<close>

lemma refill_ok:
  assumes fd: "fd fb \<noteq> None \<longrightarrow> length (buffer fb) = fb_size fb \<and> 2 \<le> fb_size fb \<and>
      length (first_line (s @ unread_file fb)) + 2 \<le> fb_size fb"
    and s: "take (length s) (buffer fb) = s" "LF \<notin> set s" "length s < length (buffer fb)"
    and nul: "NUL \<notin> set (s @ unread_file fb)"
  shows "\<exists>fb' s'. refill fb (length s) = Some (fb', length s', line_pos 0 s') \<and>
     got_at (fb'\<lparr>lastPtr := Some 0, available := length s'\<rparr>) 0 s' \<and> fb_size fb' = fb_size fb \<and>
     length (buffer fb') = length (buffer fb) \<and>
     s @ unread_file fb = s' @ unread_file fb' \<and> (fd fb' \<noteq> None \<longrightarrow> fd fb \<noteq> None \<and> LF \<in> set s')"
proof (cases "fd fb")
  case None
  have "\<exists>x t. buffer fb = s @ x # t"
    using id_take_nth_drop [OF s(3)] s(1) by metis
  then show ?thesis
    using None s(2) by (intro exI [of _ fb] exI [of _ s]) (simp add: refill_def got_at_def line_pos_def)
next
  case (Some f)
  define n where "n = fb_size fb - length s - 1"
  define got where "got = take n f"
  define more where "more = drop n f"
  have f: "f = got @ more" by (simp add: got_def more_def)
  have b: "length (buffer fb) = fb_size fb" "2 \<le> fb_size fb" "length (first_line (s @ f)) + 2 \<le> fb_size fb"
    using fd Some by (simp_all add: unread_file_def)
  have "length s \<le> length (first_line (s @ f))" using s(2) by (auto simp: first_line_def takeWhile_append)
  then have room: "length s + 2 \<le> fb_size fb" using b(3) by linarith
  have part: "more = []" if "fb_size fb \<noteq> length s + length got + 1"
    using that room by (auto simp: got_def more_def n_def)
  have fits: "length s + length got + 1 \<le> fb_size fb" using room by (auto simp: got_def n_def)
  define buf where "buf = s @ got @ NUL # drop (length s + length got + 1) (buffer fb)"
  have w: "mem_write (buffer fb) (length s) (got @ [NUL]) = Some buf"
    using fits b(1) s(1) by (simp add: mem_write_def buf_def)
  have nul': "NUL \<notin> set got" using nul Some f by (simp add: unread_file_def)
  have "drop (length s) buf = got @ NUL # drop (length s + length got + 1) (buffer fb)"
    by (simp add: buf_def)
  from find_lf_piece [OF this nul'] have lf: "find_lf buf (length s) = Some (line_pos 0 (s @ got))"
    using s(2) by (auto simp: line_pos_def first_line_def takeWhile_append)
  define fb' where "fb' = fb\<lparr>buffer := buf,
    fd := (if fb_size fb \<noteq> length s + length got + 1 then None else Some more)\<rparr>"
  have "drop (length got) f = more" using f by simp
  moreover have "take (fb_size fb - length s - 1) f = got" by (simp add: got_def n_def)
  ultimately have r: "refill fb (length s) = Some (fb', length (s @ got), line_pos 0 (s @ got))"
    using Some room w lf by (simp add: refill_def fb'_def)
  have len: "length buf = length (buffer fb)" using w by (rule mem_write_length)
  have full: "LF \<in> set (s @ got)" if "fb_size fb = length s + length got + 1"
  proof (rule ccontr)
    assume "LF \<notin> set (s @ got)"
    then have "first_line ((s @ got) @ more) = (s @ got) @ first_line more"
      by (auto simp: first_line_def takeWhile_append)
    then show False using that b(3) f by simp
  qed
  have "unread_file fb' = more" using part by (simp add: unread_file_def fb'_def)
  moreover have "got_at (fb'\<lparr>lastPtr := Some 0, available := length (s @ got)\<rparr>) 0 (s @ got)"
    by (simp add: got_at_def fb'_def buf_def)
  moreover have "fd fb' \<noteq> None \<longrightarrow> LF \<in> set (s @ got)" using full by (simp add: fb'_def)
  ultimately show ?thesis
    using r Some f len
    by (intro exI [of _ fb'] exI [of _ "s @ got"]) (simp add: fb'_def unread_file_def)
qed

definition fits_buffer :: "file_buffer \<Rightarrow> string \<Rightarrow> bool" where
  "fits_buffer fb r \<longleftrightarrow> fd fb \<noteq> None \<longrightarrow> length (first_line r) + 2 \<le> fb_size fb"

definition open_ok :: "file_buffer \<Rightarrow> bool" where
  "open_ok fb \<longleftrightarrow> fd fb \<noteq> None \<longrightarrow> length (buffer fb) = fb_size fb \<and> 2 \<le> fb_size fb"

lemma refill_at:
  assumes "open_ok fb" and "fits_buffer fb (s @ unread_file fb)" and "take (length s) (buffer fb) = s"
    and "LF \<notin> set s" and "length s < length (buffer fb)" and "NUL \<notin> set (s @ unread_file fb)"
  obtains fb' s' where "refill fb (length s) = Some (fb', length s', line_pos 0 s')"
    and "got_at (fb'\<lparr>lastPtr := Some 0, available := length s'\<rparr>) 0 s'" and "fb_size fb' = fb_size fb"
    and "open_ok fb'" and "s @ unread_file fb = s' @ unread_file fb'"
    and "fd fb' \<noteq> None \<longrightarrow> fd fb \<noteq> None \<and> LF \<in> set s'"
proof -
  have "\<exists>fb' s'. refill fb (length s) = Some (fb', length s', line_pos 0 s') \<and>
     got_at (fb'\<lparr>lastPtr := Some 0, available := length s'\<rparr>) 0 s' \<and> fb_size fb' = fb_size fb \<and>
     length (buffer fb') = length (buffer fb) \<and>
     s @ unread_file fb = s' @ unread_file fb' \<and> (fd fb' \<noteq> None \<longrightarrow> fd fb \<noteq> None \<and> LF \<in> set s')"
    using assms by (intro refill_ok) (simp_all add: open_ok_def fits_buffer_def)
  then show ?thesis using assms(1) that by (auto simp: open_ok_def)
qed

lemma unread_buffer [simp]: "unread_file (fb\<lparr>buffer := b\<rparr>) = unread_file fb"
  "unread_file (fb\<lparr>lastPtr := q, available := k\<rparr>) = unread_file fb"
  "unread_file (fb\<lparr>lastPtr := q\<rparr>) = unread_file fb"
  by (simp_all add: unread_file_def)

text \<open>The place of the next line, whatever has to be moved and read for it.\<close>

lemma got_at_step: "got_at (fb\<lparr>lastPtr := Some 0, available := length s\<rparr>) 0 s \<Longrightarrow> buffer fb \<noteq> []"
  by (auto simp: got_at_def)

lemma locate_refill:
  assumes "(case lastPtr fb of None \<Rightarrow> Some (n, None)
        | Some p \<Rightarrow> do { posLF \<leftarrow> find_lf (buffer fb) p; Some (available fb - p, posLF) }) = Some (length s, None)"
    and "(if length s = 0 then Some (buffer fb)
          else do { p \<leftarrow> lastPtr fb; rest \<leftarrow> mem_read (buffer fb) p (length s); mem_write (buffer fb) 0 rest }) = Some buf"
    and "refill (fb\<lparr>buffer := buf\<rparr>) (length s) = Some (fb', k, q)"
  shows "locate_line fb n = Some (fb'\<lparr>lastPtr := Some 0, available := k\<rparr>, k, q)"
  unfolding locate_line_def using assms by simp

text \<open>The place of the next line, whatever has to be moved and read for it.\<close>

lemma locate_line_ok:
  assumes at: "reader_at fb r" and nul: "NUL \<notin> set r" and n: "lastPtr fb = None \<longrightarrow> n = 0"
    and fits: "fits_buffer fb r"
  obtains fb' p s where "locate_line fb n = Some (fb', length s, line_pos p s)" and "got_at fb' p s"
    and "open_ok fb'" and "fb_size fb' = fb_size fb" and "r = s @ unread_file fb'"
    and "fd fb' \<noteq> None \<longrightarrow> fd fb \<noteq> None \<and> LF \<in> set s" and "LF \<notin> set s \<longrightarrow> p = 0"
proof -
  have ok: "open_ok fb" and ne: "buffer fb \<noteq> []" using at by (simp_all add: reader_at_def open_ok_def)
  show ?thesis
  proof (cases "\<exists>p s. piece_at fb p s \<and> r = s @ unread_file fb \<and> LF \<in> set s")
    case True
    then obtain p s where s: "piece_at fb p s" and r: "r = s @ unread_file fb" and l: "LF \<in> set s" by blast
    have "find_lf (buffer fb) p = Some (line_pos p s)" using find_lf_at [OF s] nul r by simp
    then have "locate_line fb n = Some (fb, length s, line_pos p s)"
      using s l by (simp add: locate_line_def line_pos_def piece_at_def)
    moreover have "got_at fb p s" using s by (auto simp: piece_at_def got_at_def)
    ultimately show ?thesis using that r ok l by blast
  next
    case False
    have "\<exists>s buf. (case lastPtr fb of None \<Rightarrow> Some (n, None)
        | Some p \<Rightarrow> do { posLF \<leftarrow> find_lf (buffer fb) p; Some (available fb - p, posLF) }) = Some (length s, None) \<and>
       (if length s = 0 then Some (buffer fb)
          else do { p \<leftarrow> lastPtr fb; rest \<leftarrow> mem_read (buffer fb) p (length s); mem_write (buffer fb) 0 rest }) = Some buf \<and>
       take (length s) buf = s \<and> length s < length buf \<and> length buf = length (buffer fb) \<and> LF \<notin> set s \<and>
       r = s @ unread_file fb"
    proof (cases "lastPtr fb")
      case None
      then show ?thesis
        using n ne at by (intro exI [of _ "[]"] exI [of _ "buffer fb"]) (simp add: reader_at_def)
    next
      case (Some p)
      obtain s where s: "piece_at fb p s" and r: "r = s @ unread_file fb" using at Some by (rule reader_at_piece)
      have l: "LF \<notin> set s" using False s r by blast
      obtain t where t: "drop p (buffer fb) = s @ NUL # t" using s by (auto simp: piece_at_def)
      have len: "length (buffer fb) - p = length s + 1 + length t" using arg_cong [OF t, of length] by simp
      have "mem_read (buffer fb) p (length s) = Some s" using t len by (simp add: mem_read_def)
      moreover have "mem_write (buffer fb) 0 s = Some (s @ drop (length s) (buffer fb))"
        using len by (simp add: mem_write_def)
      moreover have "find_lf (buffer fb) p = Some None" "available fb - p = length s"
        using find_lf_at [OF s] nul r l s by (simp_all add: line_pos_def piece_at_def)
      moreover have "length s < length (buffer fb)" using len by linarith
      ultimately show ?thesis
        using Some r l
        by (intro exI [of _ s] exI [of _ "s @ drop (length s) (buffer fb)"]) simp
    qed
    then obtain s buf where first: "(case lastPtr fb of None \<Rightarrow> Some (n, None)
        | Some p \<Rightarrow> do { posLF \<leftarrow> find_lf (buffer fb) p; Some (available fb - p, posLF) }) = Some (length s, None)"
      and moved: "(if length s = 0 then Some (buffer fb)
          else do { p \<leftarrow> lastPtr fb; rest \<leftarrow> mem_read (buffer fb) p (length s); mem_write (buffer fb) 0 rest }) = Some buf"
      and buf: "take (length s) buf = s" "length s < length buf" "length buf = length (buffer fb)" "LF \<notin> set s"
      and r: "r = s @ unread_file fb"
      by blast
    let ?fb = "fb\<lparr>buffer := buf\<rparr>"
    have pre: "open_ok ?fb" "fits_buffer ?fb (s @ unread_file ?fb)" "take (length s) (buffer ?fb) = s"
      "LF \<notin> set s" "length s < length (buffer ?fb)" "NUL \<notin> set (s @ unread_file ?fb)"
      using ok fits nul r buf by (simp_all add: open_ok_def fits_buffer_def)
    show ?thesis
    proof (rule refill_at [OF pre])
      fix fb' s'
      assume rf: "refill ?fb (length s) = Some (fb', length s', line_pos 0 s')"
        and g: "got_at (fb'\<lparr>lastPtr := Some 0, available := length s'\<rparr>) 0 s'" "fb_size fb' = fb_size ?fb"
          "open_ok fb'" "s @ unread_file ?fb = s' @ unread_file fb'"
          "fd fb' \<noteq> None \<longrightarrow> fd ?fb \<noteq> None \<and> LF \<in> set s'"
      show thesis
        by (rule that [OF locate_refill [OF first moved rf] g(1)]) (use g r in \<open>simp_all add: open_ok_def\<close>)
    qed
  qed
qed

text \<open>The line is ended; what follows it in the buffer stays.\<close>

lemma chomp_take: "take (length (chomp l)) l = chomp l" "length (chomp l) \<le> length l"
  by (auto simp: chomp_def butlast_conv_take)

lemma end_line_ok:
  assumes s: "got_at fb p s" and l: "l = first_line s"
  obtains buf where "end_line fb (length s) (line_pos p s) = Some (fb\<lparr>buffer := buf\<rparr>, length (chomp l))"
    and "length buf = length (buffer fb)" and "\<exists>t. drop p buf = chomp l @ NUL # t"
    and "drop (p + length l + 1) buf = drop (p + length l + 1) (buffer fb)"
proof -
  obtain x t where t: "drop p (buffer fb) = s @ x # t" and p: "lastPtr fb = Some p"
    using s by (auto simp: got_at_def)
  have len: "length (buffer fb) - p = length s + 1 + length t" using arg_cong [OF t, of length] by simp
  have ll: "length l \<le> length s" by (simp add: l first_line_def length_takeWhile_le)
  have tl: "take (length l) s = l" by (simp add: l first_line_def takeWhile_eq_take [symmetric])
  let ?k = "length (chomp l)" and ?b = "buffer fb"
  have k: "?k \<le> length l" by (rule chomp_take)
  have n: "(case line_pos p s of None \<Rightarrow> length s | Some q \<Rightarrow> q - p) = length l"
    using first_line_all [of s] by (auto simp: line_pos_def l)
  have last: "?b ! (p + length l - 1) = last l" if "l \<noteq> []"
  proof -
    have "?b ! (p + length l - 1) = drop p ?b ! (length l - 1)" using that len by (simp add: Suc_leI)
    moreover have "length l - 1 < length s" using that ll by (cases l) auto
    then have "drop p ?b ! (length l - 1) = s ! (length l - 1)" using t by (simp add: nth_append)
    moreover have "s ! (length l - 1) = take (length l) s ! (length l - 1)" using that by simp
    ultimately show ?thesis using that tl by (simp add: last_conv_nth)
  qed
  have e: "(if length l \<noteq> 0 \<and> ?b ! (p + length l - 1) = CR then length l - 1 else length l) = ?k"
    using last by (auto simp: chomp_def)
  have inb: "p + ?k < length ?b" using k ll len by linarith
  have "drop p (?b[p + ?k := NUL]) = (s @ x # t)[?k := NUL]" using t by (simp add: drop_update_swap)
  also have "\<dots> = take ?k (s @ x # t) @ NUL # drop (Suc ?k) (s @ x # t)"
    using k ll by (intro upd_conv_take_nth_drop) simp
  also have "take ?k (s @ x # t) = chomp l" using k ll tl chomp_take(1) [of l]
    by (metis append_Nil2 diff_is_0_eq le_trans min.absorb1 take_0 take_append take_take)
  finally have "\<exists>t. drop p (?b[p + ?k := NUL]) = chomp l @ NUL # t" by blast
  moreover have "end_line fb (length s) (line_pos p s) = Some (fb\<lparr>buffer := ?b[p + ?k := NUL]\<rparr>, ?k)"
    by (simp only: end_line_def Let_def p Option.bind_lunit n e mem_write_single [OF inb])
  moreover have "drop (p + length l + 1) (?b[p + ?k := NUL]) = drop (p + length l + 1) ?b"
    using k by (simp add: drop_update_cancel)
  ultimately show ?thesis using that by simp
qed

section \<open>Reading a text\<close>

text \<open>One turn of the loop: the line is returned or skipped, and the reader stands behind it.\<close>

lemma read_turn:
  assumes at: "reader_at fb r" and nul: "NUL \<notin> set r" and n: "lastPtr fb = None \<longrightarrow> n = 0"
    and fits: "fits_buffer fb r" and r: "r \<noteq> []"
    and com: "is_comment (chomp (first_line r)) \<Longrightarrow> LF \<in> set r"
  obtains fb' k where "reader_at fb' (drop (length (first_line r) + 1) r)" and "fb_size fb' = fb_size fb"
    and "fd fb' \<noteq> None \<longrightarrow> fd fb \<noteq> None"
    and "read_loop fb n =
       (if is_comment (chomp (first_line r)) then read_loop fb' k else Some (Some (chomp (first_line r)), fb'))"
    and "is_comment (chomp (first_line r)) \<longrightarrow> lastPtr fb' \<noteq> None"
proof -
  obtain fb1 p s where loc: "locate_line fb n = Some (fb1, length s, line_pos p s)" and got: "got_at fb1 p s"
    and ok: "open_ok fb1" and sz: "fb_size fb1 = fb_size fb" and rs: "r = s @ unread_file fb1"
    and open1: "fd fb1 \<noteq> None \<longrightarrow> fd fb \<noteq> None \<and> LF \<in> set s"
    using at nul n fits by (rule locate_line_ok)
  define l where "l = first_line s"
  have un: "unread_file fb1 = []" if "LF \<notin> set s" using open1 that by (auto simp: unread_file_def)
  have l: "first_line r = l"
    using un by (cases "LF \<in> set s") (auto simp: rs l_def first_line_def takeWhile_append)
  obtain buf where e: "end_line fb1 (length s) (line_pos p s) = Some (fb1\<lparr>buffer := buf\<rparr>, length (chomp l))"
    and len: "length buf = length (buffer fb1)" and line: "\<exists>t. drop p buf = chomp l @ NUL # t"
    and stay: "drop (p + length l + 1) buf = drop (p + length l + 1) (buffer fb1)"
    using got l_def by (rule end_line_ok)
  let ?fb2 = "fb1\<lparr>buffer := buf\<rparr>"
  let ?after = "?fb2\<lparr>lastPtr := map_option Suc (line_pos p s)\<rparr>"
  have p: "lastPtr fb1 = Some p" "available fb1 = p + length s" using got by (simp_all add: got_at_def)
  have "NUL \<notin> set (chomp l)"
    using nul set_first_line(1) [of s] by (auto simp: rs l_def chomp_def dest: in_set_butlastD)
  then have out: "cstr_of (drop p buf) = chomp l" and hd: "hd (drop p buf) = CHR ''#'' \<longleftrightarrow> is_comment (chomp l)"
    using line by (auto simp: cstr_of_def takeWhile_append is_comment_def split: list.split)
  have more: "s \<noteq> []" using r rs un by auto
  have turn: "read_loop fb n = (if is_comment (chomp l) then read_loop ?after (length (chomp l))
      else Some (Some (chomp l), ?after))"
    by (subst read_loop.simps) (use p more in \<open>simp add: loc e out hd Let_def\<close>)
  have at': "reader_at ?after (drop (length l + 1) r)"
  proof (cases "LF \<in> set s")
    case True
    let ?s = "drop (length l + 1) s"
    obtain t where t: "drop p (buffer fb1) = s @ NUL # t" using got True by (auto simp: got_at_def)
    have "length l < length s" using length_first_line [OF True] by (simp add: l_def)
    moreover from this have "drop (length l + 1) (drop p (buffer fb1)) = ?s @ NUL # t" using t by simp
    ultimately have "piece_at ?after (p + length l + 1) ?s"
      using True p stay by (auto simp: piece_at_def line_pos_def l_def add.commute)
    moreover have "buf \<noteq> []" using line by auto
    ultimately have "reader_at ?after (?s @ unread_file ?after)"
      using ok len by (intro piece_reader_at) (simp_all add: open_ok_def)
    then show ?thesis using \<open>length l < length s\<close> by (simp add: rs)
  next
    case False
    then have "fd fb1 = None" using open1 by blast
    moreover have "buf \<noteq> []" using line by auto
    ultimately show ?thesis using False first_line_all [of s]
      by (simp add: reader_at_def line_pos_def rs l_def unread_file_def)
  qed
  show ?thesis
  proof (rule that [of ?after "length (chomp l)"])
    show "reader_at ?after (drop (length (first_line r) + 1) r)" using at' by (simp only: l)
    show "is_comment (chomp (first_line r)) \<longrightarrow> lastPtr ?after \<noteq> None"
      using com un by (auto simp: line_pos_def rs)
  qed (use sz open1 turn l in simp_all)
qed

text \<open>The end of the text.\<close>

lemma read_end:
  assumes at: "reader_at fb []" and n: "lastPtr fb = None \<longrightarrow> n = 0"
  shows "\<exists>fb'. read_loop fb n = Some (None, fb')"
proof -
  have fits: "fits_buffer fb []" using at by (auto simp: fits_buffer_def first_line_def reader_at_def)
  obtain fb1 p s where loc: "locate_line fb n = Some (fb1, length s, line_pos p s)" and got: "got_at fb1 p s"
    and rs: "[] = s @ unread_file fb1" and open1: "fd fb1 \<noteq> None \<longrightarrow> fd fb \<noteq> None \<and> LF \<in> set s"
    and p0: "LF \<notin> set s \<longrightarrow> p = 0"
    using locate_line_ok [OF at _ n fits] by (metis empty_iff list.set(1))
  have s: "s = []" using rs by simp
  then have fd: "fd fb1 = None" using open1 by auto
  obtain buf where e: "end_line fb1 (length s) (line_pos p s) = Some (fb1\<lparr>buffer := buf\<rparr>, length (chomp (first_line s)))"
    using got refl by (rule end_line_ok)
  have "lastPtr fb1 = Some p" "available fb1 = p" using got s by (simp_all add: got_at_def)
  moreover have "p = 0" using p0 s by simp
  ultimately show ?thesis
    by (subst read_loop.simps) (use fd s loc e in \<open>simp add: Let_def chomp_def first_line_def\<close>)
qed

lemma first_line_in_lines: "r \<noteq> [] \<Longrightarrow> first_line r \<in> set (text_lines r)"
  by (simp add: text_lines_Cons)

text \<open>
  All the lines: each fits the buffer with its line feed and one more character (for a file; a text that is
  in memory has no bound).
\<close>

lemma ends_comments_drop:
  assumes "ends_comments r" and "LF \<in> set r"
  shows "ends_comments (drop (length (first_line r) + 1) r)"
proof -
  let ?r = "drop (length (first_line r) + 1) r"
  have r: "r = first_line r @ LF # ?r" using assms(2) by (rule first_line_split)
  show ?thesis
  proof (cases "?r = []")
    case False
    then have "last ?r = last r" using r by (metis last_append last_ConsR list.distinct(1))
    moreover have ne: "r \<noteq> []" using assms(2) by auto
    moreover have "text_lines ?r \<noteq> []" using first_line_in_lines [OF False] by auto
    then have "last (text_lines r) = last (text_lines ?r)"
      by (subst text_lines_Cons [OF ne]) simp
    ultimately show ?thesis using assms(1) by (simp add: ends_comments_def)
  qed (simp add: ends_comments_def)
qed

lemma ends_comments_single:
  assumes "ends_comments r" and "is_comment (chomp (first_line r))"
  shows "LF \<in> set r"
proof (rule ccontr)
  assume l: "LF \<notin> set r"
  then have f: "first_line r = r" by (rule first_line_all)
  have "r \<noteq> []" using assms(2) by (auto simp: is_comment_def chomp_def first_line_def)
  moreover from this have "text_lines r = [r]" using f by (simp add: text_lines_Cons)
  moreover from \<open>r \<noteq> []\<close> have "last r \<noteq> LF" using l by (metis last_in_set)
  ultimately show False using assms f by (simp add: ends_comments_def)
qed

lemma visible_lines_Cons:
  "r \<noteq> [] \<Longrightarrow> visible_lines r =
     (if is_comment (chomp (first_line r)) then [] else [chomp (first_line r)]) @
     visible_lines (drop (length (first_line r) + 1) r)"
  by (simp add: visible_lines_def text_lines_Cons)

lemma next_line:
  assumes "reader_at fb r" and "NUL \<notin> set r" and "ends_comments r" and "lastPtr fb = None \<longrightarrow> n = 0"
    and "fd fb \<noteq> None \<longrightarrow> list_all (\<lambda>l. length l + 2 \<le> fb_size fb) (text_lines r)"
  shows "case visible_lines r of
      [] \<Rightarrow> \<exists>fb'. read_loop fb n = Some (None, fb')
    | l # ls \<Rightarrow> \<exists>fb' r'. read_loop fb n = Some (Some l, fb') \<and> reader_at fb' r' \<and> visible_lines r' = ls \<and>
        NUL \<notin> set r' \<and> ends_comments r' \<and> 
        (fd fb' \<noteq> None \<longrightarrow> list_all (\<lambda>l. length l + 2 \<le> fb_size fb') (text_lines r'))"
  using assms
proof (induction "length r" arbitrary: fb r n rule: less_induct)
  case less
  show ?case
  proof (cases "r = []")
    case True
    then show ?thesis using read_end [of fb n] less.prems by (simp add: visible_lines_def)
  next
    case False
    let ?r = "drop (length (first_line r) + 1) r"
    have fits: "fits_buffer fb r"
      using less.prems(5) first_line_in_lines [OF False] by (auto simp: fits_buffer_def list_all_iff)
    have com: "is_comment (chomp (first_line r)) \<Longrightarrow> LF \<in> set r"
      using less.prems(3) by (rule ends_comments_single)
    have nul: "NUL \<notin> set ?r" using less.prems(2) by (auto dest: in_set_dropD)
    have ends: "ends_comments ?r"
    proof (cases "LF \<in> set r")
      case True
      then show ?thesis using less.prems(3) by (intro ends_comments_drop)
    qed (simp add: first_line_all ends_comments_def)
    obtain fb' k where at': "reader_at fb' ?r" and sz: "fb_size fb' = fb_size fb"
      and fd: "fd fb' \<noteq> None \<longrightarrow> fd fb \<noteq> None"
      and turn: "read_loop fb n =
         (if is_comment (chomp (first_line r)) then read_loop fb' k else Some (Some (chomp (first_line r)), fb'))"
      and ptr: "is_comment (chomp (first_line r)) \<longrightarrow> lastPtr fb' \<noteq> None"
      using less.prems(1,2,4) fits False com by (rule read_turn)
    have lines: "fd fb' \<noteq> None \<longrightarrow> list_all (\<lambda>l. length l + 2 \<le> fb_size fb') (text_lines ?r)"
      using less.prems(5) fd False by (simp add: sz text_lines_Cons)
    show ?thesis
    proof (cases "is_comment (chomp (first_line r))")
      case True
      have len: "length ?r < length r" using False by simp
      have k: "lastPtr fb' = None \<longrightarrow> k = 0" using ptr True by auto
      have "visible_lines r = visible_lines ?r" using False True by (simp add: visible_lines_Cons)
      moreover have "read_loop fb n = read_loop fb' k" using turn True by simp
      ultimately show ?thesis using less.hyps [OF len at' nul ends k lines] by (simp only:)
    next
      case no: False
      then show ?thesis
        using at' nul ends lines turn False by (auto simp: visible_lines_Cons)
    qed
  qed
qed

lemma read_lines_ok:
  assumes "reader_at fb r" and "NUL \<notin> set r" and "ends_comments r"
    and "fd fb \<noteq> None \<longrightarrow> list_all (\<lambda>l. length l + 2 \<le> fb_size fb) (text_lines r)"
    and "length (visible_lines r) < k"
  shows "read_lines k fb = Some (visible_lines r)"
  using assms
proof (induction k arbitrary: fb r)
  case (Suc k)
  have "lastPtr fb = None \<longrightarrow> (0::nat) = 0" by simp
  note line = next_line [OF Suc.prems(1-3) this Suc.prems(4)]
  show ?case
  proof (cases "visible_lines r")
    case Nil
    then show ?thesis using line by (auto simp: sbReadFileBuffer_def)
  next
    case (Cons l ls)
    then obtain fb' r' where "read_loop fb 0 = Some (Some l, fb')" and at': "reader_at fb' r'"
      and ls: "visible_lines r' = ls" and ok: "NUL \<notin> set r'" "ends_comments r'"
        "fd fb' \<noteq> None \<longrightarrow> list_all (\<lambda>l. length l + 2 \<le> fb_size fb') (text_lines r')"
      using line by auto
    moreover have "read_lines k fb' = Some (visible_lines r')"
      using Suc.prems(5) Cons ls by (intro Suc.IH [OF at' ok]) simp
    ultimately show ?thesis using Cons by (simp add: sbReadFileBuffer_def)
  qed
qed simp

section \<open>Writing\<close>

definition writer_at :: "file_buffer \<Rightarrow> string \<Rightarrow> bool" where
  "writer_at fb w \<longleftrightarrow>
     fb_mode fb = O_WRONLY \<and> lastPtr fb = Some (available fb) \<and> available fb \<le> fb_size fb \<and>
     length (buffer fb) = fb_size fb \<and> (\<exists>f. fd fb = Some f \<and> w = f @ take (available fb) (buffer fb))"

lemma write_ok:
  assumes "writer_at fb w"
  shows "\<exists>fb'. sbWriteFileBuffer fb s = Some fb' \<and> writer_at fb' (w @ s)"
proof -
  let ?fb = "if available fb \<noteq> 0 \<and> available fb + length s > fb_size fb
    then fb\<lparr>fd := map_option (\<lambda>f. f @ take (available fb) (buffer fb)) (fd fb), lastPtr := Some 0, available := 0\<rparr>
    else fb"
  have w: "writer_at ?fb w" using assms by (auto simp: writer_at_def)
  have fits: "length s \<le> fb_size ?fb \<Longrightarrow> available ?fb + length s \<le> fb_size ?fb" by auto
  show ?thesis
  proof (cases "length s > fb_size ?fb")
    case True
    then have "available ?fb = 0" using assms by (auto simp: writer_at_def)
    with w True show ?thesis unfolding sbWriteFileBuffer_def Let_def by (auto simp: writer_at_def)
  next
    case False
    then show ?thesis using w fits unfolding sbWriteFileBuffer_def Let_def
      by (auto simp: writer_at_def mem_write_def)
  qed
qed

lemma write_all_ok: "writer_at fb w \<Longrightarrow> \<exists>fb'. write_all ss fb = Some fb' \<and> writer_at fb' (w @ concat ss)"
proof (induction ss arbitrary: fb w)
  case (Cons s ss)
  then show ?case using write_ok [OF Cons.prems, of s] by fastforce
qed simp

lemma close_ok: "writer_at fb w \<Longrightarrow> sbCloseFileBuffer fb = Some w"
  by (auto simp: writer_at_def sbCloseFileBuffer_def)

lemma written_file:
  "do { fb \<leftarrow> sbOpenFileBuffer (Some []) O_WRONLY n; fb \<leftarrow> write_all ss fb; sbCloseFileBuffer fb } = Some (concat ss)"
proof -
  obtain fb where fb: "sbOpenFileBuffer (Some []) O_WRONLY n = Some fb" and "writer_at fb []"
    by (simp add: sbOpenFileBuffer_def writer_at_def)
  then obtain fb' where "write_all ss fb = Some fb'" and "writer_at fb' (concat ss)"
    using write_all_ok [of fb "[]" ss] by auto
  then show ?thesis using fb by (simp add: close_ok)
qed

section \<open>Opening a file and reading it\<close>

definition text_of :: "string \<Rightarrow> string" where
  "text_of f = (if has_bom f then drop 3 f else f)"

text \<open>
  C18: A file opened with a buffer of \<open>n\<close> bytes and read line by line gives exactly the lines of its text
  behind a byte-order mark, in order, each without its line end, without the comment lines, and then the end;
  for every text without zeros of which no line needs more than \<open>n - 2\<close> bytes and whose last line, if it
  has no line feed, is no comment. No access leaves the buffer.
\<close>

theorem file_lines_read:
  assumes "NUL \<notin> set (text_of f)" and "list_all (\<lambda>l. length l + 2 \<le> n) (text_lines (text_of f))" and "2 \<le> n"
    and "ends_comments (text_of f)"
  shows "do { fb \<leftarrow> sbOpenFileBuffer (Some f) O_RDONLY n; read_lines (length (visible_lines (text_of f)) + 1) fb } =
     Some (visible_lines (text_of f))"
proof -
  obtain fb where fb: "sbOpenFileBuffer (Some f) O_RDONLY n = Some fb" and "reader_at fb (text_of f)" "fb_size fb = n"
    using assms(3) by (auto simp: sbOpenFileBuffer_def reader_at_def unread_file_def text_of_def)
  then have "read_lines (length (visible_lines (text_of f)) + 1) fb = Some (visible_lines (text_of f))"
    using assms by (intro read_lines_ok) simp_all
  with fb show ?thesis by simp
qed

lemma file_lines_read_witness:
  "do { fb \<leftarrow> sbOpenFileBuffer (Some (''ab'' @ [CR, LF] @ ''#c'' @ [LF, LF] @ ''xyz'')) O_RDONLY 8; read_lines 4 fb } =
     Some [''ab'', [], ''xyz'']"
proof -
  let ?f = "''ab'' @ [CR, LF] @ ''#c'' @ [LF, LF] @ ''xyz''"
  have t: "text_of ?f = ?f" by code_simp
  have v: "visible_lines ?f = [''ab'', [], ''xyz'']" by code_simp
  have "list_all (\<lambda>l. length l + 2 \<le> 8) (text_lines ?f)" "ends_comments ?f" by code_simp+
  moreover have "length [''ab'', [], ''xyz''] + 1 = 4" by simp
  ultimately show ?thesis using file_lines_read [of ?f 8, unfolded t v] by (simp add: eval_nat_numeral del: read_lines.simps)
qed

lemma memory_lines_read:
  assumes "NUL \<notin> set t" and "ends_comments t"
  shows "read_lines (length (visible_lines t) + 1) (sbOpenFileBufferBuffer t) = Some (visible_lines t)"
proof -
  have "reader_at (sbOpenFileBufferBuffer t) t"
    by (simp add: sbOpenFileBufferBuffer_def reader_at_def unread_file_def nth_append)
  then show ?thesis
    using assms by (intro read_lines_ok) (simp_all add: sbOpenFileBufferBuffer_def)
qed

text \<open>A comment without a line feed in the last line: the next turn moves the line from the null pointer.\<close>

lemma comment_at_end_undefined: "read_lines n (sbOpenFileBufferBuffer ''#x'') = None"
proof (cases n)
  case (Suc m)
  have "read_loop (sbOpenFileBufferBuffer ''#x'') 0 = None"
    by (subst read_loop.simps) (subst read_loop.simps, code_simp)
  then show ?thesis by (simp add: Suc sbReadFileBuffer_def)
qed simp

end
