(* ===== verification/Legacy_Config.thy ===== *)
theory Legacy_Config
  imports Mcfolder Filebuf_Lines
begin

text \<open>
  The old key=value configuration files (\<^verbatim>\<open>src/config_migration.c\<close>), still read for migration: sets of
  keys and values, their operations, the line parser and the writer. The linked list of a set, with its tail
  pointer, is the list of its items in order. An access outside of a buffer is \<open>None\<close>.
\<close>

section \<open>Sets of keys and values\<close>

definition CONFIG_KEY_NAME_LEN :: nat where "CONFIG_KEY_NAME_LEN = 32"
definition CONFIG_KEY_VALUE_LEN :: nat where "CONFIG_KEY_VALUE_LEN = 256"

type_synonym config_kv = "string \<times> string"

record config_set =
  cs_type :: u32
  items :: "config_kv list"
  cs_filename :: "string option"
  modified :: bool
  uid :: u32

definition configKeyValidate :: "string \<Rightarrow> bool" where
  "configKeyValidate key \<longleftrightarrow> key \<noteq> [] \<and> CHR ''='' \<notin> set key"

definition allocConfigItem :: "string \<Rightarrow> string \<Rightarrow> config_kv" where
  "allocConfigItem key val = (copy_str key CONFIG_KEY_NAME_LEN, copy_str val CONFIG_KEY_VALUE_LEN)"

definition addConfigValue :: "string \<Rightarrow> string \<Rightarrow> config_set \<Rightarrow> config_set" where
  "addConfigValue key val cs = cs\<lparr>items := items cs @ [allocConfigItem key val]\<rparr>"

definition getConfigItemForName :: "config_set \<Rightarrow> string \<Rightarrow> string option" where
  "getConfigItemForName cs name = map_of (items cs) name"

definition is_hash :: "string \<Rightarrow> bool" where
  "is_hash key \<longleftrightarrow> (case key of [] \<Rightarrow> False | c # _ \<Rightarrow> c = CHR ''#'')"

text \<open>The value of the first item with the key is replaced.\<close>

fun set_first :: "string \<Rightarrow> string \<Rightarrow> config_kv list \<Rightarrow> config_kv list" where
  "set_first key val [] = []"
| "set_first key val ((k, v) # kvs) = (if k = key then (k, val) # kvs else (k, v) # set_first key val kvs)"

definition configSetStr :: "config_set \<Rightarrow> string \<Rightarrow> string \<Rightarrow> bool \<times> config_set" where
  "configSetStr cs key val =
     (if \<not> configKeyValidate key then (False, cs)
      else
        (True,
         (case getConfigItemForName cs key of
            Some old \<Rightarrow>
              if old \<noteq> val then
                cs\<lparr>items := set_first key (copy_str val CONFIG_KEY_VALUE_LEN) (items cs),
                   modified := (if \<not> is_hash key then True else modified cs)\<rparr>
              else cs
          | None \<Rightarrow>
              (addConfigValue key val cs)\<lparr>modified := (if \<not> is_hash key then True else modified cs)\<rparr>)))"

definition configGetStr :: "config_set \<Rightarrow> string \<Rightarrow> string option" where
  "configGetStr cs key = (if \<not> configKeyValidate key then None else getConfigItemForName cs key)"

text \<open>Whether the key is there, and what is in the buffer of \<open>n\<close> bytes afterwards.\<close>

definition configGetStrCopy :: "config_set \<Rightarrow> string \<Rightarrow> nat \<Rightarrow> bool \<times> string" where
  "configGetStrCopy cs key n =
     (case configGetStr cs key of Some v \<Rightarrow> (True, copy_str v n) | None \<Rightarrow> (False, []))"

definition configSetInt :: "config_set \<Rightarrow> string \<Rightarrow> s32 \<Rightarrow> bool \<times> config_set" where
  "configSetInt cs key v = configSetStr cs key (show_int (sint v))"

definition configGetInt :: "config_set \<Rightarrow> string \<Rightarrow> s32 option" where
  "configGetInt cs key = map_option atoi (configGetStr cs key)"

text \<open>\<^verbatim>\<open>strToColor\<close>: the loop writes \<^verbatim>\<open>color[n]\<close> for every digit, also behind the three bytes.\<close>

fun color_digits :: "string \<Rightarrow> nat \<Rightarrow> nat \<Rightarrow> u8 list \<Rightarrow> u8 list option" where
  "color_digits [] cnt n color = Some color"
| "color_digits (c # s) cnt n color =
     (if fromHex c < 0 then Some color
      else if length color \<le> n then None
      else (let color = color[n := color ! n * 16 + word_of_int (fromHex c)]
            in if cnt = 1 then color_digits s 0 (n + 1) color else color_digits s (cnt + 1) n color))"

definition strToColor :: "string \<Rightarrow> u8 list option" where
  "strToColor s = (case s of c # t \<Rightarrow> if c = CHR ''#'' then color_digits t 0 0 [0, 0, 0] else Some [0, 0, 0] | [] \<Rightarrow> Some [0, 0, 0])"

definition configSetColor :: "config_set \<Rightarrow> string \<Rightarrow> u8 list \<Rightarrow> bool \<times> config_set" where
  "configSetColor cs key color =
     configSetStr cs key (CHR ''#'' # show_hex2 (color ! 0) @ show_hex2 (color ! 1) @ show_hex2 (color ! 2))"

text \<open>The color in the buffer afterwards, if it was \<open>old\<close>.\<close>

definition configGetColor :: "config_set \<Rightarrow> string \<Rightarrow> u8 list \<Rightarrow> u8 list option" where
  "configGetColor cs key old = (case configGetStr cs key of None \<Rightarrow> Some old | Some v \<Rightarrow> strToColor v)"

definition configRemoveKey :: "config_set \<Rightarrow> string \<Rightarrow> bool \<times> config_set" where
  "configRemoveKey cs key =
     (if \<not> configKeyValidate key then (False, cs)
      else
        (True,
         cs\<lparr>items := filter (\<lambda>(k, v). k \<noteq> key) (items cs),
            modified := (if \<not> is_hash key \<and> getConfigItemForName cs key \<noteq> None then True else modified cs)\<rparr>))"

definition vmc_key :: "s32 \<Rightarrow> string" where
  "vmc_key slot = copy_str (''$VMC_'' @ show_int (sint slot)) CONFIG_KEY_NAME_LEN"

definition configGetVMC :: "config_set \<Rightarrow> nat \<Rightarrow> s32 \<Rightarrow> string" where
  "configGetVMC cs n slot = snd (configGetStrCopy cs (vmc_key slot) n)"

definition configRemoveVMC :: "config_set \<Rightarrow> s32 \<Rightarrow> config_set" where
  "configRemoveVMC cs slot = snd (configRemoveKey cs (vmc_key slot))"

definition configSetVMC :: "config_set \<Rightarrow> string \<Rightarrow> s32 \<Rightarrow> config_set" where
  "configSetVMC cs vmc slot =
     (if vmc = [] then configRemoveVMC cs slot else snd (configSetStr cs (vmc_key slot) vmc))"

definition configClear :: "config_set \<Rightarrow> config_set" where
  "configClear cs = cs\<lparr>items := [], modified := True\<rparr>"

text \<open>The new set and the counter of identifiers.\<close>

definition configAlloc :: "u32 \<Rightarrow> string option \<Rightarrow> u32 \<Rightarrow> config_set \<times> u32" where
  "configAlloc type fileName currentUID =
     (\<lparr>cs_type = type, items = [], cs_filename = fileName, modified = False, uid = currentUID + 1\<rparr>, currentUID + 1)"

definition configMove :: "config_set \<Rightarrow> string \<Rightarrow> config_set" where
  "configMove cs fileName = cs\<lparr>cs_filename := Some fileName\<rparr>"

section \<open>Reading\<close>

definition isWS :: "char \<Rightarrow> bool" where
  "isWS c \<longleftrightarrow> c = CHR '' '' \<or> c = CHR 0x09"

text \<open>The key and the value as they are copied, at most as many characters as their buffers have.\<close>

definition splitAssignment :: "string \<Rightarrow> (string \<times> string) option" where
  "splitAssignment line =
     (let line = dropWhile isWS line in
      case strchr_c line CHR ''='' of
        None \<Rightarrow> None
      | Some eqpos \<Rightarrow>
          Some (take (min CONFIG_KEY_NAME_LEN eqpos) line, take CONFIG_KEY_VALUE_LEN (drop (eqpos + 1) line)))"

text \<open>The new prefix, its length not bounded.\<close>

definition parsePrefix :: "string \<Rightarrow> string option" where
  "parsePrefix line =
     (case strchr_c line CHR '':'' of
        None \<Rightarrow> None
      | Some colpos \<Rightarrow> if colpos = 0 then None else Some (take colpos line))"

text \<open>
  One line, with the prefix. A key, a value or a prefix that fills its buffer has no terminating zero, or is
  written behind the buffer.
\<close>

definition config_line :: "string \<Rightarrow> string \<times> config_set \<Rightarrow> (string \<times> config_set) option" where
  "config_line line pcs =
     (case pcs of (prefix, cs) \<Rightarrow>
        (case splitAssignment line of
           Some (key, val) \<Rightarrow>
             if CONFIG_KEY_NAME_LEN \<le> length key \<or> CONFIG_KEY_VALUE_LEN \<le> length val then None
             else
               (let prefix = (if line = [] \<or> \<not> isWS (hd line) then [] else prefix);
                    key = (if prefix \<noteq> [] then copy_str (prefix @ ''_'' @ key) CONFIG_KEY_NAME_LEN else key)
                in Some (prefix, snd (configSetStr cs key val)))
         | None \<Rightarrow>
             (case parsePrefix line of
                Some prefix \<Rightarrow> if CONFIG_KEY_NAME_LEN \<le> length prefix then None else Some (prefix, cs)
              | None \<Rightarrow> Some (prefix, cs))))"

partial_function (option) config_lines :: "file_buffer \<Rightarrow> string \<times> config_set \<Rightarrow> config_set option" where
  "config_lines fb pcs = do {
     (line, fb) \<leftarrow> sbReadFileBuffer fb;
     (case line of
        None \<Rightarrow> Some (snd pcs)
      | Some line \<Rightarrow> do { pcs \<leftarrow> config_line line pcs; config_lines fb pcs })
   }"

definition configReadFileBuffer :: "file_buffer \<Rightarrow> config_set \<Rightarrow> config_set option" where
  "configReadFileBuffer fb cs = do { cs \<leftarrow> config_lines fb ([], cs); Some (cs\<lparr>modified := False\<rparr>) }"

definition configReadBuffer :: "config_set \<Rightarrow> string \<Rightarrow> config_set option" where
  "configReadBuffer cs data = configReadFileBuffer (sbOpenFileBufferBuffer data) cs"

definition configRead :: "config_set \<Rightarrow> fstore \<Rightarrow> (bool \<times> config_set \<times> fstore) option" where
  "configRead cs st = do {
     name \<leftarrow> cs_filename cs;
     let (f, path, st) = sbOpenFile name O_RDONLY st;
     let cs = cs\<lparr>cs_filename := Some path\<rparr>;
     (case sbOpenFileBuffer f O_RDONLY 4096 of
        None \<Rightarrow> Some (False, cs\<lparr>modified := False\<rparr>, st)
      | Some fb \<Rightarrow> do { cs \<leftarrow> configReadFileBuffer fb cs; Some (True, cs, st) })
   }"

section \<open>Writing\<close>

definition kv_line :: "config_kv \<Rightarrow> string" where
  "kv_line kv = copy_str (fst kv @ ''='' @ snd kv @ [CR, LF]) 512"

definition kv_written :: "config_kv \<Rightarrow> bool" where
  "kv_written kv \<longleftrightarrow> fst kv \<noteq> [] \<and> \<not> is_hash (fst kv)"

definition configWrite :: "config_set \<Rightarrow> fstore \<Rightarrow> (bool \<times> config_set \<times> fstore) option" where
  "configWrite cs st =
     (if \<not> modified cs then Some (True, cs, st)
      else do {
        name \<leftarrow> cs_filename cs;
        let (f, path, st) = sbOpenFile name O_WRONLY st;
        let cs = cs\<lparr>cs_filename := Some path\<rparr>;
        (case sbOpenFileBuffer f O_WRONLY 4096 of
           None \<Rightarrow> Some (False, cs, st)
         | Some fb \<Rightarrow> do {
             fb \<leftarrow> write_all (map kv_line (filter kv_written (items cs))) fb;
             out \<leftarrow> sbCloseFileBuffer fb;
             Some (True, cs\<lparr>modified := False\<rparr>, st\<lparr>file_at := (file_at st)(path \<mapsto> out)\<rparr>)
           })
      })"

section \<open>The five sets of the program\<close>

text \<open>The network settings of \<^verbatim>\<open>src/opl.c\<close> that the old address file sets.\<close>

record legacy =
  configFiles :: "config_set list"
  currentUID :: u32
  legacyNetConfigPath :: string
  cfgDevice :: string
  store :: fstore

definition configFilenames :: "string list" where
  "configFilenames = [''conf_wopl.cfg'', ''conf_last.cfg'', ''conf_apps.cfg'', ''conf_network.cfg'', ''conf_game.cfg'']"

definition CONFIG_NETWORK :: u32 where "CONFIG_NETWORK = 8"
definition CONFIG_INDEX_NETWORK :: nat where "CONFIG_INDEX_NETWORK = 3"

definition configGetByType :: "u32 \<Rightarrow> legacy \<Rightarrow> config_set option" where
  "configGetByType type s = find (\<lambda>cs. cs_type cs = type) (configFiles s)"

definition configPrepareNotifications :: "string \<Rightarrow> legacy \<Rightarrow> legacy" where
  "configPrepareNotifications prefix s = s\<lparr>cfgDevice := copy_str prefix 128\<rparr>"

definition set_prefix :: "string \<Rightarrow> string option \<Rightarrow> legacy \<Rightarrow> string \<times> legacy" where
  "set_prefix gBaseMCDir prefix s =
     (case prefix of
        Some p \<Rightarrow> (p, s\<lparr>legacyNetConfigPath := copy_str (p @ ''/IPCONFIG.DAT'') 256\<rparr>)
      | None \<Rightarrow> (gBaseMCDir, s))"

definition set_path :: "string \<Rightarrow> nat \<Rightarrow> string" where
  "set_path prefix i = copy_str (prefix @ ''/'' @ configFilenames ! i) 256"

fun alloc_sets :: "string \<Rightarrow> nat list \<Rightarrow> u32 \<Rightarrow> config_set list \<times> u32" where
  "alloc_sets prefix [] n = ([], n)"
| "alloc_sets prefix (i # is) n =
     (case configAlloc (push_bit i 1) (Some (set_path prefix i)) n of
        (cs, n) \<Rightarrow> (case alloc_sets prefix is n of (css, n) \<Rightarrow> (cs # css, n)))"

definition configInit :: "string \<Rightarrow> string option \<Rightarrow> legacy \<Rightarrow> legacy" where
  "configInit gBaseMCDir prefix s =
     (case set_prefix gBaseMCDir prefix s of
        (prefix, s) \<Rightarrow>
          (case alloc_sets prefix [0 ..< 5] (currentUID s) of
             (css, n) \<Rightarrow> configPrepareNotifications prefix (s\<lparr>configFiles := css, currentUID := n\<rparr>)))"

definition configSetMove :: "string \<Rightarrow> string option \<Rightarrow> legacy \<Rightarrow> legacy" where
  "configSetMove gBaseMCDir prefix s =
     (case set_prefix gBaseMCDir prefix s of
        (prefix, s) \<Rightarrow>
          configPrepareNotifications prefix
            (s\<lparr>configFiles := map (\<lambda>i. configMove (configFiles s ! i) (set_path prefix i)) [0 ..< 5]\<rparr>))"

definition configEnd :: "legacy \<Rightarrow> legacy" where
  "configEnd s = s\<lparr>configFiles := map (\<lambda>cs. (configClear cs)\<lparr>cs_filename := None\<rparr>) (configFiles s)\<rparr>"

definition configGetDir :: "legacy \<Rightarrow> string" where
  "configGetDir s =
     (if take 2 (cfgDevice s) = ''mc'' then
        copy_str (''mc'' @ (case sbGetmcID (store s) of None \<Rightarrow> ''1'' | Some c \<Rightarrow> if odd (of_char c :: nat) then ''1'' else ''0'') @
          '':'' @ config_name (store s) @ ''/'') 256
      else copy_str (cfgDevice s) 256)"

text \<open>The sets whose type is wanted are read, the number of those written is counted.\<close>

fun read_sets :: "u32 \<Rightarrow> config_set list \<Rightarrow> fstore \<Rightarrow> (u32 \<times> config_set list \<times> fstore) option" where
  "read_sets types [] st = Some (0, [], st)"
| "read_sets types (cs # css) st = do {
     (r, cs, st) \<leftarrow>
       (if cs_type cs AND types = 0 then Some (0, cs, st)
        else do { (ok, cs, st) \<leftarrow> configRead (configClear cs) st; Some (if ok then cs_type cs else 0, cs, st) });
     (r', css, st) \<leftarrow> read_sets types css st;
     Some (r OR r', cs # css, st)
   }"

fun write_sets :: "u32 \<Rightarrow> config_set list \<Rightarrow> fstore \<Rightarrow> (nat \<times> config_set list \<times> fstore) option" where
  "write_sets types [] st = Some (0, [], st)"
| "write_sets types (cs # css) st = do {
     (r, cs, st) \<leftarrow>
       (if cs_type cs AND types = 0 then Some (0, cs, st)
        else do { (ok, cs, st) \<leftarrow> configWrite cs st; Some (if ok then 1 else 0, cs, st) });
     (r', css, st) \<leftarrow> write_sets types css st;
     Some (r + r', cs # css, st)
   }"

definition configWriteMulti :: "u32 \<Rightarrow> legacy \<Rightarrow> (nat \<times> legacy) option" where
  "configWriteMulti types s = do {
     (r, css, st) \<leftarrow> write_sets types (configFiles s) (store s);
     Some (r, s\<lparr>configFiles := css, store := st\<rparr>)
   }"

end
