(* ===== verification/Legacy_Props.thy ===== *)
theory Legacy_Props
  imports Legacy_Config
begin

text \<open>
  What is written by the old configuration files' writer is read back by their reader, through the buffered
  files, whatever the sizes of the lines are with respect to the buffer.
\<close>

section \<open>Reading a file line by line\<close>

fun fold_lines :: "string list \<Rightarrow> string \<times> config_set \<Rightarrow> config_set option" where
  "fold_lines [] pcs = Some (snd pcs)"
| "fold_lines (l # ls) pcs = do { pcs \<leftarrow> config_line l pcs; fold_lines ls pcs }"

lemma config_lines_fold:
  assumes "reader_at fb r" and "NUL \<notin> set r" and "ends_comments r"
    and "fd fb \<noteq> None \<longrightarrow> list_all (\<lambda>l. length l + 2 \<le> fb_size fb) (text_lines r)"
  shows "config_lines fb pcs = fold_lines (visible_lines r) pcs"
  using assms
proof (induction "visible_lines r" arbitrary: fb r pcs)
  case Nil
  have "lastPtr fb = None \<longrightarrow> (0::nat) = 0" by simp
  from next_line [OF Nil(2-4) this Nil(5)] Nil(1) show ?case
    by (subst config_lines.simps) (auto simp: sbReadFileBuffer_def)
next
  case (Cons l ls)
  have "lastPtr fb = None \<longrightarrow> (0::nat) = 0" by simp
  from next_line [OF Cons.prems(1-3) this Cons.prems(4)] Cons.hyps(2)
  obtain fb' r' where line: "read_loop fb 0 = Some (Some l, fb')" and at': "reader_at fb' r'"
    and ls: "visible_lines r' = ls" and ok: "NUL \<notin> set r'" "ends_comments r'"
      "fd fb' \<noteq> None \<longrightarrow> list_all (\<lambda>l. length l + 2 \<le> fb_size fb') (text_lines r')"
    unfolding Cons.hyps(2) [symmetric] by force
  have "config_lines fb' = fold_lines ls"
    using Cons.hyps(1) [OF ls [symmetric] at' ok] ls by (intro ext) simp
  then show ?case
    unfolding Cons.hyps(2) [symmetric]
    by (subst config_lines.simps) (simp add: sbReadFileBuffer_def line)
qed

section \<open>The lines of a set\<close>

definition kv_ok :: "config_kv \<Rightarrow> bool" where
  "kv_ok kv \<longleftrightarrow>
     (case kv of (k, v) \<Rightarrow>
        configKeyValidate k \<and> \<not> isWS (hd k) \<and> set k \<inter> {LF, NUL} = {} \<and> set v \<inter> {LF, NUL} = {} \<and>
        \<not> has_bom k \<and> length k < CONFIG_KEY_NAME_LEN \<and> length v < CONFIG_KEY_VALUE_LEN)"

definition kv_text :: "config_kv \<Rightarrow> string" where
  "kv_text kv = fst kv @ ''='' @ snd kv"

lemma kv_line_text: "kv_ok kv \<Longrightarrow> kv_line kv = (kv_text kv @ [CR]) @ [LF]"
  by (auto simp: kv_line_def kv_text_def kv_ok_def CONFIG_KEY_NAME_LEN_def CONFIG_KEY_VALUE_LEN_def)

lemma kv_text_clean: "kv_ok kv \<Longrightarrow> LF \<notin> set (kv_text kv @ [CR])"
  by (auto simp: kv_text_def kv_ok_def)

lemma kv_visible: "kv_ok kv \<Longrightarrow> kv_written kv \<Longrightarrow> \<not> is_comment (kv_text kv)"
  by (auto simp: kv_written_def is_comment_def kv_text_def is_hash_def split: list.splits)

lemma kv_lines:
  assumes "list_all kv_ok kvs"
  shows "text_lines (concat (map kv_line kvs)) = map (\<lambda>kv. kv_text kv @ [CR]) kvs"
  using assms
  by (induction kvs) (simp_all add: kv_line_text text_lines_append [OF kv_text_clean, simplified])

lemma kv_visible_lines:
  assumes "list_all kv_ok kvs" and "list_all kv_written kvs"
  shows "visible_lines (concat (map kv_line kvs)) = map kv_text kvs"
proof -
  have "map chomp (map (\<lambda>kv. kv_text kv @ [CR]) kvs) = map kv_text kvs"
    by (simp add: chomp_def)
  moreover have "filter (\<lambda>l. \<not> is_comment l) (map kv_text kvs) = map kv_text kvs"
    using assms by (auto simp: list_all_iff filter_id_conv kv_visible)
  ultimately show ?thesis unfolding visible_lines_def kv_lines [OF assms(1)] by (simp only:)
qed

lemma kv_file_ok:
  assumes "list_all kv_ok kvs"
  defines "t \<equiv> concat (map kv_line kvs)"
  shows "NUL \<notin> set t" and "ends_comments t" and "list_all (\<lambda>l. length l + 2 \<le> 4096) (text_lines t)"
    and "text_of t = t"
proof -
  show "NUL \<notin> set t"
    using assms by (auto simp: list_all_iff kv_line_text kv_text_def kv_ok_def)
  show "ends_comments t"
    unfolding t_def using assms(1)
    by (cases kvs rule: rev_cases) (auto simp: ends_comments_def kv_line_text)
  show "list_all (\<lambda>l. length l + 2 \<le> 4096) (text_lines t)"
    using assms
    by (auto simp: kv_lines list_all_iff kv_text_def kv_ok_def CONFIG_KEY_NAME_LEN_def CONFIG_KEY_VALUE_LEN_def)
  show "text_of t = t"
  proof (cases kvs)
    case (Cons kv rest)
    then have "kv_ok kv" using assms(1) by simp
    then show ?thesis using Cons unfolding t_def
      by (cases kv; cases "fst kv"; cases "tl (fst kv)"; cases "tl (tl (fst kv))")
        (auto simp: text_of_def has_bom_def kv_line_text kv_text_def kv_ok_def configKeyValidate_def)
  qed (simp add: t_def text_of_def has_bom_def)
qed

lemma config_line_kv:
  assumes "kv_ok (k, v)" and "k \<notin> set (map fst (items cs))"
  shows "config_line (kv_text (k, v)) ([], cs) = Some ([], cs\<lparr>items := items cs @ [(k, v)],
     modified := (if \<not> is_hash k then True else modified cs)\<rparr>)"
proof -
  have k: "k \<noteq> []" "CHR ''='' \<notin> set k" "\<not> isWS (hd k)" "length k < 32" "length v < 256"
    using assms(1) by (auto simp: kv_ok_def configKeyValidate_def CONFIG_KEY_NAME_LEN_def CONFIG_KEY_VALUE_LEN_def)
  have "dropWhile isWS (k @ s) = k @ s" for s using k(1,3) by (cases k) auto
  moreover have "strchr_c (k @ ''='' @ v) CHR ''='' = Some (length k)"
    using k(2) by (simp add: strchr_c_def takeWhile_tail takeWhile_append)
  ultimately have "splitAssignment (kv_text (k, v)) = Some (k, v)"
    using k by (simp add: splitAssignment_def kv_text_def CONFIG_KEY_NAME_LEN_def CONFIG_KEY_VALUE_LEN_def)
  moreover have "map_of (items cs) k = None" using assms(2) by (simp add: map_of_eq_None_iff)
  ultimately show ?thesis using k
    by (simp add: config_line_def configSetStr_def getConfigItemForName_def addConfigValue_def allocConfigItem_def
      configKeyValidate_def CONFIG_KEY_NAME_LEN_def CONFIG_KEY_VALUE_LEN_def)
qed

lemma fold_lines_kvs:
  assumes "list_all kv_ok kvs" and "distinct (map fst kvs)" and "set (map fst kvs) \<inter> set (map fst (items cs)) = {}"
  shows "\<exists>cs'. fold_lines (map kv_text kvs) ([], cs) = Some cs' \<and> items cs' = items cs @ kvs"
  using assms
proof (induction kvs arbitrary: cs)
  case (Cons kv kvs)
  obtain k v where kv: "kv = (k, v)" by force
  let ?cs = "cs\<lparr>items := items cs @ [(k, v)], modified := (if \<not> is_hash k then True else modified cs)\<rparr>"
  have "\<exists>cs'. fold_lines (map kv_text kvs) ([], ?cs) = Some cs' \<and> items cs' = items ?cs @ kvs"
    using Cons.prems kv by (intro Cons.IH) auto
  moreover have "config_line (kv_text kv) ([], cs) = Some ([], ?cs)"
    unfolding kv using Cons.prems kv by (intro config_line_kv) auto
  ultimately show ?case using kv by auto
qed simp

section \<open>Writing a set and reading it again\<close>

text \<open>A path that \<open>sbOpenFile\<close> has opened is opened for reading as it is.\<close>

lemma checkFile_again:
  assumes "checkFile name mode st = (True, path, st1)" and "mcID st1 \<noteq> Some CHR ''?''"
  shows "checkFile path O_RDONLY st' = (True, path, st')"
proof (cases "take 2 name = ''mc'' \<and> 2 < length name \<and> name ! 2 = CHR ''?''")
  case True
  then obtain c st2 where c: "sbCheckMC st = (Some c, st2)"
    and path: "path = name[2 := c]" and st: "mcID st1 = mcID st2"
    using assms(1)
    by (auto simp: checkFile_def mkdir_def Let_def split: prod.splits option.splits if_splits)
  have "mcID st2 = Some c" using c by (auto simp: sbCheckMC_def Let_def split: if_splits)
  then show ?thesis using assms(2) st True path by (simp add: checkFile_def)
next
  case False
  then have "path = name"
    using assms(1) by (auto simp: checkFile_def split: option.splits prod.splits if_splits)
  then show ?thesis using False by (auto simp: checkFile_def)
qed

lemma opened_again:
  assumes "sbOpenFile name O_WRONLY st = (Some f, path, st1)" and "mcID st1 \<noteq> Some CHR ''?''"
  shows "sbOpenFile path O_RDONLY st' = (file_at st' path, path, st')" and "f = []"
proof -
  obtain st2 where c: "checkFile name O_WRONLY st = (True, path, st2)" and o: "open_file path O_WRONLY st2 = (Some f, st1)"
    using assms(1) by (auto simp: sbOpenFile_def split: prod.splits bool.splits)
  from o have "mcID st1 = mcID st2" "f = []" by (auto simp: open_file_def split: if_splits)
  then show "f = []" and "sbOpenFile path O_RDONLY st' = (file_at st' path, path, st')"
    using checkFile_again [OF c, of st'] assms(2) by (simp_all add: sbOpenFile_def open_file_def)
qed

lemma configRead_file:
  assumes path: "sbOpenFile path O_RDONLY st = (Some (concat (map kv_line kvs)), path, st)"
    and kvs: "list_all kv_ok kvs" "list_all kv_written kvs" "distinct (map fst kvs)"
    and cs: "cs_filename cs = Some path" "items cs = []"
  shows "\<exists>cs'. configRead cs st = Some (True, cs', st) \<and> items cs' = kvs \<and> \<not> modified cs'"
proof -
  let ?t = "concat (map kv_line kvs)"
  let ?cs = "cs\<lparr>cs_filename := Some path\<rparr>"
  note t = kv_file_ok [OF kvs(1)]
  obtain fb where fb: "sbOpenFileBuffer (Some ?t) O_RDONLY 4096 = Some fb" and at: "reader_at fb (text_of ?t)"
    and sz: "fb_size fb = 4096"
    by (auto simp: sbOpenFileBuffer_def reader_at_def unread_file_def text_of_def)
  have "config_lines fb ([], ?cs) = fold_lines (visible_lines ?t) ([], ?cs)"
    using at t sz by (intro config_lines_fold) simp_all
  moreover obtain cs' where "fold_lines (map kv_text kvs) ([], ?cs) = Some cs'" and "items cs' = kvs"
    using fold_lines_kvs [OF kvs(1,3), of ?cs] cs by auto
  ultimately have "configReadFileBuffer fb ?cs = Some (cs'\<lparr>modified := False\<rparr>)"
    using kvs by (simp add: configReadFileBuffer_def kv_visible_lines)
  then show ?thesis
    using path cs fb \<open>items cs' = kvs\<close> by (simp add: configRead_def)
qed

lemma written_read_back:
  assumes "modified cs" and "cs_filename cs = Some name"
    and "sbOpenFile name O_WRONLY st = (Some f, path, st1)" and "mcID st1 \<noteq> Some CHR ''?''"
    and "list_all kv_ok (filter kv_written (items cs))" and "distinct (map fst (items cs))"
  shows "\<exists>cs' st' cs''. configWrite cs st = Some (True, cs', st') \<and>
     configRead (fst (configAlloc type (Some path) n)) st' = Some (True, cs'', st') \<and>
     items cs'' = filter kv_written (items cs) \<and> \<not> modified cs''"
proof -
  let ?kvs = "filter kv_written (items cs)"
  let ?t = "concat (map kv_line ?kvs)" and ?cs = "fst (configAlloc type (Some path) n)"
  note again = opened_again [OF assms(3,4)]
  let ?st = "st1\<lparr>file_at := (file_at st1)(path \<mapsto> ?t)\<rparr>"
  obtain fb where fb: "sbOpenFileBuffer (Some []) O_WRONLY 4096 = Some fb" and "writer_at fb []"
    by (simp add: sbOpenFileBuffer_def writer_at_def)
  then obtain fb' where "write_all (map kv_line ?kvs) fb = Some fb'" and "writer_at fb' ?t"
    using write_all_ok [of fb "[]" "map kv_line ?kvs"] by auto
  then have "configWrite cs st = Some (True, cs\<lparr>cs_filename := Some path, modified := False\<rparr>, ?st)"
    using assms(1-3) again(2) fb by (simp add: configWrite_def close_ok)
  moreover have "sbOpenFile path O_RDONLY ?st = (Some ?t, path, ?st)" using again(1) [of ?st] by simp
  then have "\<exists>cs''. configRead ?cs ?st = Some (True, cs'', ?st) \<and> items cs'' = ?kvs \<and> \<not> modified cs''"
    using assms(5,6)
    by (intro configRead_file) (simp_all add: configAlloc_def list_all_iff distinct_map_filter)
  ultimately show ?thesis by blast
qed

text \<open>
  C29: A set of keys and values written to its file (\<^verbatim>\<open>configWrite\<close>) is read back by \<^verbatim>\<open>configRead\<close> with the same
  items in the same order, but for the keys that start with a hash sign, which are not written; for keys and
  values that fit their buffers and hold no line feed, on any device, the memory card that ''mc?:'' stands for
  included. No access leaves the buffers of the file or of the parser.
\<close>

theorem legacy_config_roundtrip:
  assumes "modified cs" and "cs_filename cs = Some name"
    and "sbOpenFile name O_WRONLY st = (Some f, path, st1)" and "mcID st1 \<noteq> Some CHR ''?''"
    and "list_all kv_ok (filter kv_written (items cs))" and "distinct (map fst (items cs))"
  shows "\<exists>cs' st' cs''. configWrite cs st = Some (True, cs', st') \<and>
     configRead (fst (configAlloc type (Some path) n)) st' = Some (True, cs'', st') \<and>
     items cs'' = filter kv_written (items cs) \<and> \<not> modified cs''"
  using assms by (rule written_read_back)

definition demo_set :: config_set where
  "demo_set = \<lparr>cs_type = 8, items = [(''smb_port'', ''445''), (''#Name'', ''x''), (''smb_share'', '' my=share#'')],
     cs_filename = Some ''mc?:wOPL/conf_network.cfg'', modified = True, uid = 1\<rparr>"

definition demo_store :: fstore where
  "demo_store = \<lparr>file_at = (\<lambda>_. None), dir_at = (\<lambda>p. p = ''mc1:''), refused = (\<lambda>_. False), mcID = None,
     config_name = ''wOPL''\<rparr>"

lemma demo_store_opens:
  "\<exists>st1. sbOpenFile ''mc?:wOPL/conf_network.cfg'' O_WRONLY demo_store = (Some [], ''mc1:wOPL/conf_network.cfg'', st1) \<and>
     mcID st1 = Some CHR ''1''"
  by (simp add: demo_store_def sbOpenFile_def checkFile_def sbCheckMC_def opendir_def dir_key_def mc_path_def mkdir_def
      strrchr_c_def open_file_def Let_def numeral_2_eq_2)

lemma demo_set_ok:
  shows "modified demo_set" and "list_all kv_ok (filter kv_written (items demo_set))"
    and "distinct (map fst (items demo_set))" and "cs_filename demo_set = Some ''mc?:wOPL/conf_network.cfg''"
  by (simp_all add: demo_set_def kv_written_def is_hash_def kv_ok_def configKeyValidate_def isWS_def has_bom_def
      CONFIG_KEY_NAME_LEN_def CONFIG_KEY_VALUE_LEN_def)

lemma legacy_config_roundtrip_witness:
  "\<exists>cs' st' cs''. configWrite demo_set demo_store = Some (True, cs', st') \<and>
     configRead (fst (configAlloc 8 (Some ''mc1:wOPL/conf_network.cfg'') 2)) st' = Some (True, cs'', st') \<and>
     items cs'' = [(''smb_port'', ''445''), (''smb_share'', '' my=share#'')] \<and> \<not> modified cs''"
proof -
  obtain st1 where o: "sbOpenFile ''mc?:wOPL/conf_network.cfg'' O_WRONLY demo_store =
      (Some [], ''mc1:wOPL/conf_network.cfg'', st1)" and id: "mcID st1 = Some CHR ''1''"
    using demo_store_opens by blast
  have kvs: "filter kv_written (items demo_set) = [(''smb_port'', ''445''), (''smb_share'', '' my=share#'')]"
    by (simp add: demo_set_def kv_written_def is_hash_def)
  show ?thesis
    using legacy_config_roundtrip [OF demo_set_ok(1,4) o _ demo_set_ok(2,3), of 8 2] id unfolding kvs by simp
qed

end
