(* ===== verification/Legacy_Migrate.thy ===== *)
theory Legacy_Migrate
  imports Legacy_Props Config_Settings
begin

text \<open>
  The migration of the old configuration files (\<^verbatim>\<open>src/config_migration.c\<close>): the settings read from a set of
  keys and values, and the replacement of a file by a new version with a backup, whatever operations on the
  file system fail and wherever the power goes off.
\<close>

section \<open>Replacing a file\<close>

text \<open>
  The files, which of the coming operations succeed, and the states that have been passed: an operation that
  fails leaves the files as they are, but for a write, which leaves a part of its text.
\<close>

record 'c disk =
  files_of :: "string \<Rightarrow> 'c option"
  succeeds :: "bool list"
  passed :: "(string \<Rightarrow> 'c option) list"

definition disk_op :: "((string \<Rightarrow> 'c option) \<Rightarrow> bool) \<Rightarrow> ((string \<Rightarrow> 'c option) \<Rightarrow> (string \<Rightarrow> 'c option)) \<Rightarrow>
    ((string \<Rightarrow> 'c option) \<Rightarrow> (string \<Rightarrow> 'c option)) \<Rightarrow> 'c disk \<Rightarrow> bool \<times> 'c disk" where
  "disk_op possible effect failed d =
     (let ok = (possible (files_of d) \<and> (succeeds d = [] \<or> hd (succeeds d)));
          fs' = (if ok then effect (files_of d) else failed (files_of d))
      in (ok, d\<lparr>files_of := fs', succeeds := tl (succeeds d), passed := passed d @ [fs']\<rparr>))"

definition unlink :: "string \<Rightarrow> 'c disk \<Rightarrow> bool \<times> 'c disk" where
  "unlink p = disk_op (\<lambda>fs. fs p \<noteq> None) (\<lambda>fs. fs(p := None)) id"

definition rename :: "string \<Rightarrow> string \<Rightarrow> 'c disk \<Rightarrow> bool \<times> 'c disk" where
  "rename p q = disk_op (\<lambda>fs. fs p \<noteq> None) (\<lambda>fs. fs(q := fs p, p := None)) id"

definition config_write_file :: "'c \<Rightarrow> 'c option \<Rightarrow> string \<Rightarrow> 'c disk \<Rightarrow> bool \<times> 'c disk" where
  "config_write_file cfg part p = disk_op (\<lambda>_. True) (\<lambda>fs. fs(p \<mapsto> cfg)) (\<lambda>fs. fs(p := part))"

definition cfgFileExists :: "string \<Rightarrow> 'c disk \<Rightarrow> bool" where
  "cfgFileExists p d \<longleftrightarrow> files_of d p \<noteq> None"

definition tmp_path :: "string \<Rightarrow> string" where
  "tmp_path p = copy_str (p @ ''.tmp'') 256"

definition bak_path :: "string \<Rightarrow> string" where
  "bak_path p = copy_str (p @ ''.bak'') 256"

definition cfgWriteLibconfig :: "'c \<Rightarrow> 'c option \<Rightarrow> string \<Rightarrow> bool \<Rightarrow> 'c disk \<Rightarrow> bool \<times> 'c disk" where
  "cfgWriteLibconfig cfg part path keepBackup d =
     (let tmp = tmp_path path; bak = bak_path path; hadOriginal = cfgFileExists path d in
      case unlink tmp d of (_, d) \<Rightarrow>
        (case config_write_file cfg part tmp d of
           (False, d) \<Rightarrow> (case unlink tmp d of (_, d) \<Rightarrow> (False, d))
         | (True, d) \<Rightarrow>
             (case (if hadOriginal then (case unlink bak d of (_, d) \<Rightarrow> rename path bak d) else (True, d)) of
                (False, d) \<Rightarrow> (case unlink tmp d of (_, d) \<Rightarrow> (False, d))
              | (True, d) \<Rightarrow>
                  (case rename tmp path d of
                     (False, d) \<Rightarrow>
                       (case (if hadOriginal then rename bak path d else (True, d)) of (_, d) \<Rightarrow>
                          (case unlink tmp d of (_, d) \<Rightarrow> (False, d)))
                   | (True, d) \<Rightarrow>
                       if hadOriginal \<and> \<not> keepBackup then (case unlink bak d of (_, d) \<Rightarrow> (True, d)) else (True, d)))))"

section \<open>Reading the old settings\<close>

text \<open>\<^verbatim>\<open>configGetInt(cfg, key, &g)\<close>, \<^verbatim>\<open>configGetColor\<close> and \<^verbatim>\<open>configGetStrCopy\<close> into a variable.\<close>

definition get_int :: "config_set \<Rightarrow> string \<Rightarrow> s32 \<Rightarrow> s32" where
  "get_int cs key old = (case configGetInt cs key of None \<Rightarrow> old | Some v \<Rightarrow> v)"

definition get_color :: "config_set \<Rightarrow> string \<Rightarrow> color \<Rightarrow> color option" where
  "get_color cs key old =
     (case old of (r, g, b) \<Rightarrow>
        map_option (\<lambda>c. (c ! 0, c ! 1, c ! 2)) (configGetColor cs key [r, g, b]))"

definition get_str :: "config_set \<Rightarrow> string \<Rightarrow> nat \<Rightarrow> string" where
  "get_str cs key n = snd (configGetStrCopy cs key n)"

text \<open>\<^verbatim>\<open>sscanf\<close> of four numbers: what does not match stays.\<close>

definition get_ip :: "config_set \<Rightarrow> string \<Rightarrow> ip \<Rightarrow> ip" where
  "get_ip cs key old =
     (case configGetStr cs key of
        None \<Rightarrow> old
      | Some s \<Rightarrow> (let ds = scan_dotted 4 s in ds @ drop (length ds) old))"

definition legacy_display :: "config_set \<Rightarrow> display_cfg \<Rightarrow> display_cfg option" where
  "legacy_display cs r = do {
     bgcolor \<leftarrow> get_color cs ''bg_color'' (gDefaultBgColor r);
     textcolor \<leftarrow> get_color cs ''text_color'' (gDefaultTextColor r);
     uitextcolor \<leftarrow> get_color cs ''ui_text_color'' (gDefaultUITextColor r);
     seltextcolor \<leftarrow> get_color cs ''sel_text_color'' (gDefaultSelTextColor r);
     plasmablendcolor \<leftarrow> get_color cs ''plasma_blend_color'' (gDefaultPlasmaBlendColor r);
     Some (r\<lparr>
       gDefaultBgColor := bgcolor,
       gDefaultTextColor := textcolor,
       gDefaultUITextColor := uitextcolor,
       gDefaultSelTextColor := seltextcolor,
       gDefaultPlasmaBlendColor := plasmablendcolor,
       gScrollSpeed := get_int cs ''scrolling'' (gScrollSpeed r),
       gWideScreen := get_int cs ''wide_screen'' (gWideScreen r),
       gVMode := get_int cs ''vmode'' (gVMode r),
       gXOff := get_int cs ''xoff'' (gXOff r),
       gYOff := get_int cs ''yoff'' (gYOff r),
       gOverscan := get_int cs ''overscan'' (gOverscan r)\<rparr>)
   }"

definition legacy_ui :: "config_set \<Rightarrow> ui_cfg \<Rightarrow> ui_cfg" where
  "legacy_ui cs r = r\<lparr>
     gSelectButton := (case configGetInt cs ''swap_select_btn'' of None \<Rightarrow> gSelectButton r
       | Some v \<Rightarrow> if v = 0 then KEY_CIRCLE else KEY_CROSS),
     gEnableNotifications := get_int cs ''enable_notifications'' (gEnableNotifications r),
     gDiscEnableArt := get_int cs ''enable_discart'' (gDiscEnableArt r),
     gXSensitivity := get_int cs ''x_sensitivity'' (gXSensitivity r),
     gYSensitivity := get_int cs ''y_sensitivity'' (gYSensitivity r),
     gParentalLockPassword := get_str cs ''parental_lock_password'' 256\<rparr>"

definition legacy_devices :: "config_set \<Rightarrow> devices_cfg \<Rightarrow> devices_cfg" where
  "legacy_devices cs r = r\<lparr>
     bdmCacheSize := get_int cs ''bdm_cache'' (bdmCacheSize r),
     hddCacheSize := get_int cs ''hdd_cache'' (hddCacheSize r),
     smbCacheSize := get_int cs ''smb_cache'' (smbCacheSize r),
     gHDDGameListCache := get_int cs ''hdd_game_list_cache'' (gHDDGameListCache r),
     gEnableWrite := get_int cs ''enable_delete_rename'' (gEnableWrite r),
     gHDDSpindown := get_int cs ''hdd_spindown'' (gHDDSpindown r),
     gEnableUSB := get_int cs ''enable_usb'' (gEnableUSB r),
     gEnableILK := get_int cs ''enable_ilink'' (gEnableILK r),
     gEnableMX4SIO := get_int cs ''enable_mx4sio'' (gEnableMX4SIO r),
     gEnableBdmHDD := get_int cs ''enable_bdm_hdd'' (gEnableBdmHDD r)\<rparr>"

definition legacy_debug :: "config_set \<Rightarrow> debug_cfg \<Rightarrow> debug_cfg" where
  "legacy_debug cs r = r\<lparr>
     gEnableDebug := get_int cs ''disable_debug'' (gEnableDebug r),
     gBDMDebug := get_int cs ''bdm_debug'' (gBDMDebug r),
     gPS2Logo := get_int cs ''ps2logo'' (gPS2Logo r)\<rparr>"

definition legacy_startup :: "config_set \<Rightarrow> startup_cfg \<Rightarrow> startup_cfg" where
  "legacy_startup cs r = r\<lparr>
     gExitPath := get_str cs ''exit_path'' 256,
     gAutosort := get_int cs ''autosort'' (gAutosort r),
     gAutoRefresh := get_int cs ''autorefresh'' (gAutoRefresh r),
     gDefaultDevice := get_int cs ''default_device'' (gDefaultDevice r),
     gRememberLastPlayed := get_int cs ''remember_last'' (gRememberLastPlayed r),
     gAutoStartLastPlayed := get_int cs ''autostart_last'' (gAutoStartLastPlayed r),
     gBDMStartMode := get_int cs ''usb_mode'' (gBDMStartMode r),
     gHDDStartMode := get_int cs ''hdd_mode'' (gHDDStartMode r),
     gETHStartMode := get_int cs ''eth_mode'' (gETHStartMode r),
     gAPPStartMode := get_int cs ''app_mode'' (gAPPStartMode r),
     gFAVStartMode := get_int cs ''fav_mode'' (gFAVStartMode r),
     gMMCEStartMode := get_int cs ''mmce_mode'' (gMMCEStartMode r)\<rparr>"

definition legacy_paths :: "config_set \<Rightarrow> paths_cfg \<Rightarrow> paths_cfg" where
  "legacy_paths cs r = r\<lparr>
     gMMCEPrefix := get_str cs ''mmce_prefix'' 32,
     gBDMPrefix := get_str cs ''usb_prefix'' 32,
     gETHPrefix := get_str cs ''eth_prefix'' 32\<rparr>"

definition legacy_mmce :: "config_set \<Rightarrow> mmce_cfg \<Rightarrow> mmce_cfg" where
  "legacy_mmce cs r = r\<lparr>
     gMMCESlot := get_int cs ''mmce_slot'' (gMMCESlot r),
     gMMCEIGRSlot := get_int cs ''mmceigr_slot'' (gMMCEIGRSlot r),
     gMMCEAckWaitCycles := get_int cs ''mmce_wait_cylces'' (gMMCEAckWaitCycles r),
     gMMCEUseAlarms := get_int cs ''mmce_use_alarms'' (gMMCEUseAlarms r)\<rparr>"

definition legacy_audio :: "config_set \<Rightarrow> audio_cfg \<Rightarrow> audio_cfg" where
  "legacy_audio cs r = r\<lparr>
     gEnableSFX := get_int cs ''enable_sfx'' (gEnableSFX r),
     gEnableBootSND := get_int cs ''enable_boot_snd'' (gEnableBootSND r),
     gEnableBGM := get_int cs ''enable_bgm'' (gEnableBGM r),
     gSFXVolume := get_int cs ''sfx_volume'' (gSFXVolume r),
     gBootSndVolume := get_int cs ''boot_snd_volume'' (gBootSndVolume r),
     gBGMVolume := get_int cs ''bgm_volume'' (gBGMVolume r),
     gDefaultBGMPath := get_str cs ''default_bgm_path'' 128\<rparr>"

definition legacy_coverflow :: "config_set \<Rightarrow> coverflow_cfg \<Rightarrow> coverflow_cfg" where
  "legacy_coverflow cs r = r\<lparr>
     gCoverflowCount :=
       (let n = get_int cs ''coverflow_count'' (gCoverflowCount r) in if n \<noteq> 3 \<and> n \<noteq> 5 then 3 else n),
     gCoverflowCenterScale := get_int cs ''coverflow_scale'' (gCoverflowCenterScale r),
     gCoverflowAnimSpeed := get_int cs ''coverflow_anim'' (gCoverflowAnimSpeed r),
     gCoverflowDimCovers := get_int cs ''coverflow_dim'' (gCoverflowDimCovers r)\<rparr>"

definition legacy_frames :: "config_set \<Rightarrow> frames_cfg \<Rightarrow> frames_cfg" where
  "legacy_frames cs r = r\<lparr>
     gFAVFramesDelay := get_int cs ''fav_frames_delay'' (gFAVFramesDelay r),
     gBDMFramesDelay := get_int cs ''usb_frames_delay'' (gBDMFramesDelay r),
     gMMCEFramesDelay := get_int cs ''usb_frames_delay'' (gMMCEFramesDelay r),
     gAPPFramesDelay := get_int cs ''app_frames_delay'' (gAPPFramesDelay r),
     gETHFramesDelay := get_int cs ''eth_frames_delay'' (gETHFramesDelay r),
     gHDDFramesDelay := get_int cs ''hdd_frames_delay'' (gHDDFramesDelay r)\<rparr>"

text \<open>
  All of them, with the ids of the theme and the language that the file names; a color of more than six digits
  is written behind its variable.
\<close>

definition legacy_opl :: "(string \<Rightarrow> s32) \<Rightarrow> (string \<Rightarrow> s32) \<Rightarrow> config_set \<Rightarrow> wopl_cfg \<Rightarrow>
    (wopl_cfg \<times> s32 option \<times> s32 option) option" where
  "legacy_opl thmFindGuiID lngFindGuiID cs w = do {
     display \<leftarrow> legacy_display cs (c_display w);
     Some (\<lparr>c_display = display, c_ui = legacy_ui cs (c_ui w), c_audio = legacy_audio cs (c_audio w),
       c_startup = legacy_startup cs (c_startup w), c_devices = legacy_devices cs (c_devices w),
       c_paths = legacy_paths cs (c_paths w), c_mmce = legacy_mmce cs (c_mmce w),
       c_debug = legacy_debug cs (c_debug w), c_coverflow = legacy_coverflow cs (c_coverflow w),
       c_frames = legacy_frames cs (c_frames w)\<rparr>,
       map_option thmFindGuiID (configGetStr cs ''theme''), map_option lngFindGuiID (configGetStr cs ''language_text''))
   }"

definition legacy_net :: "config_set \<Rightarrow> net_cfg \<Rightarrow> net_cfg" where
  "legacy_net cs r = r\<lparr>
     gETHOpMode := get_int cs ''eth_linkmode'' (gETHOpMode r),
     ps2_ip_use_dhcp := get_int cs ''ps2_ip_use_dhcp'' (ps2_ip_use_dhcp r),
     gPCShareAddressIsNetBIOS := get_int cs ''smb_share_use_nbns'' (gPCShareAddressIsNetBIOS r),
     gPCShareNBAddress := get_str cs ''smb_share_nb_addr'' 17,
     gPCPort := get_int cs ''smb_port'' (gPCPort r),
     gPCShareName := get_str cs ''smb_share'' 32,
     gPCUserName := get_str cs ''smb_user'' 32,
     gPCPassword := get_str cs ''smb_pass'' 32,
     gExportName := get_str cs ''nbd_default_export'' 32,
     pc_ip := get_ip cs ''smb_ip'' (pc_ip r),
     ps2_ip := get_ip cs ''ps2_ip_addr'' (ps2_ip r),
     ps2_netmask := get_ip cs ''ps2_netmask'' (ps2_netmask r),
     ps2_gateway := get_ip cs ''ps2_gateway'' (ps2_gateway r),
     ps2_dns := get_ip cs ''ps2_dns'' (ps2_dns r)\<rparr>"

definition legacy_global_game :: "config_set \<Rightarrow> global_game_cfg \<Rightarrow> global_game_cfg" where
  "legacy_global_game cs r = r\<lparr>
     gg_gsm_enable := get_int cs ''$EnableGSM'' (gg_gsm_enable r),
     gg_gsm_vmode := get_int cs ''$GSMVMode'' (gg_gsm_vmode r),
     gg_gsm_xoffset := get_int cs ''$GSMXOffset'' (gg_gsm_xoffset r),
     gg_gsm_yoffset := get_int cs ''$GSMYOffset'' (gg_gsm_yoffset r),
     gg_gsm_fieldfix := get_int cs ''$GSMFIELDFix'' (gg_gsm_fieldfix r),
     gg_cheat_enable := get_int cs ''$EnableCheat'' (gg_cheat_enable r),
     gg_cheat_mode := get_int cs ''$CheatMode'' (gg_cheat_mode r),
     gg_cheat_enable_image := get_int cs ''$EnableImage'' (gg_cheat_enable_image r),
     gg_pademu_enable := get_int cs ''$EnablePadEmu'' (gg_pademu_enable r),
     gg_pademu_settings := get_int cs ''$PadEmuSettings'' (gg_pademu_settings r),
     gg_padmacro_settings := get_int cs ''$PadMacroSettings'' (gg_padmacro_settings r),
     gg_osd_enable := get_int cs ''$OSDSettingsEnable'' (gg_osd_enable r),
     gg_osd_langid := get_int cs ''$CustomLanguageValue'' (gg_osd_langid r),
     gg_osd_tv_aspect := get_int cs ''$OSDAspectRatio'' (gg_osd_tv_aspect r),
     gg_osd_vmode := get_int cs ''$OSDVideoMode'' (gg_osd_vmode r)\<rparr>"

section \<open>Migrating a file\<close>

text \<open>The set of a file, \<open>None\<close> inside if there is no file; outside for an access outside of a buffer.\<close>

definition read_legacy :: "string \<Rightarrow> fstore \<Rightarrow> (config_set option \<times> fstore) option" where
  "read_legacy path st =
     (case configRead (fst (configAlloc 0 (Some path) 0)) st of
        None \<Rightarrow> None
      | Some (ok, cs, st) \<Rightarrow> Some (if ok then Some cs else None, st))"

definition cfgMigrateLegacyOPL :: "(string \<Rightarrow> s32) \<Rightarrow> (string \<Rightarrow> s32) \<Rightarrow> string \<Rightarrow> wopl_cfg \<Rightarrow> fstore \<Rightarrow>
    ((wopl_cfg \<times> s32 option \<times> s32 option) option \<times> fstore) option" where
  "cfgMigrateLegacyOPL thmFindGuiID lngFindGuiID path w st = do {
     (cs, st) \<leftarrow> read_legacy path st;
     (case cs of
        None \<Rightarrow> Some (None, st)
      | Some cs \<Rightarrow> do { r \<leftarrow> legacy_opl thmFindGuiID lngFindGuiID cs w; Some (Some r, st) })
   }"

definition cfgMigrateLegacyNet :: "string \<Rightarrow> net_cfg \<Rightarrow> fstore \<Rightarrow> (net_cfg option \<times> fstore) option" where
  "cfgMigrateLegacyNet path r st = do {
     (cs, st) \<leftarrow> read_legacy path st; Some (map_option (\<lambda>cs. legacy_net cs r) cs, st) }"

definition cfgMigrateLegacyGlobalGame :: "string \<Rightarrow> global_game_cfg \<Rightarrow> fstore \<Rightarrow> (global_game_cfg option \<times> fstore) option" where
  "cfgMigrateLegacyGlobalGame path r st = do {
     (cs, st) \<leftarrow> read_legacy path st; Some (map_option (\<lambda>cs. legacy_global_game cs r) cs, st) }"

text \<open>The title file of an application: the settings of the new file, none if no field is there.\<close>

definition app_title_fields :: "string list" where
  "app_title_fields =
     [''title'', ''boot'', ''argv1'', ''Title'', ''Description'', ''Developer'', ''Version'', ''Release'', ''Package'', ''Source'']"

definition legacy_app_title :: "config_set \<Rightarrow> entries" where
  "legacy_app_title cs =
     List.map_filter (\<lambda>f. map_option (\<lambda>v. (f, CString v)) (configGetStr cs f)) app_title_fields"

section \<open>The settings of a game\<close>

text \<open>Whether a setting of the game is there, and the settings.\<close>

definition game_int_keys :: "string list" where
  "game_int_keys =
     [''$Compatibility'', ''$DMA'', ''$CoreLoader'', ''$GSMSource'', ''$EnableGSM'', ''$GSMVMode'',
      ''$GSMXOffset'', ''$GSMYOffset'', ''$GSMFIELDFix'', ''$CheatsSource'', ''$EnableCheat'',
      ''$CheatMode'', ''$EnableImage'', ''$PADEMUSource'', ''$EnablePadEmu'', ''$PadEmuSettings'',
      ''$PadMacroSource'', ''$PadMacroSettings'', ''$CustomLanguageSource'', ''$OSDSettingsEnable'',
      ''$CustomLanguageValue'', ''$OSDAspectRatio'', ''$OSDVideoMode'']"

definition legacy_per_game :: "config_set \<Rightarrow> per_game_cfg \<Rightarrow> bool \<times> per_game_cfg" where
  "legacy_per_game cs r =
     (let vmc1 = configGetVMC cs 32 0; vmc2 = configGetVMC cs 32 1
      in (list_ex (\<lambda>k. configGetInt cs k \<noteq> None) game_int_keys \<or>
            fst (configGetStrCopy cs ''$DNAS'' 32) \<or> fst (configGetStrCopy cs ''$AltStartup'' 32) \<or> vmc1 \<noteq> [] \<or> vmc2 \<noteq> [],
          r\<lparr>
       pg_compat := get_int cs ''$Compatibility'' (pg_compat r),
       pg_dma := get_int cs ''$DMA'' (pg_dma r),
       pg_core_loader := get_int cs ''$CoreLoader'' (pg_core_loader r),
       pg_dnas := get_str cs ''$DNAS'' 32,
       pg_alt_startup := get_str cs ''$AltStartup'' 32,
       pg_vmc1 := vmc1,
       pg_vmc2 := vmc2,
       pg_gsm_source := get_int cs ''$GSMSource'' (pg_gsm_source r),
       pg_gsm_enable := get_int cs ''$EnableGSM'' (pg_gsm_enable r),
       pg_gsm_vmode := get_int cs ''$GSMVMode'' (pg_gsm_vmode r),
       pg_gsm_xoffset := get_int cs ''$GSMXOffset'' (pg_gsm_xoffset r),
       pg_gsm_yoffset := get_int cs ''$GSMYOffset'' (pg_gsm_yoffset r),
       pg_gsm_fieldfix := get_int cs ''$GSMFIELDFix'' (pg_gsm_fieldfix r),
       pg_cheat_source := get_int cs ''$CheatsSource'' (pg_cheat_source r),
       pg_cheat_enable := get_int cs ''$EnableCheat'' (pg_cheat_enable r),
       pg_cheat_mode := get_int cs ''$CheatMode'' (pg_cheat_mode r),
       pg_cheat_enable_image := get_int cs ''$EnableImage'' (pg_cheat_enable_image r),
       pg_pademu_source := get_int cs ''$PADEMUSource'' (pg_pademu_source r),
       pg_pademu_enable := get_int cs ''$EnablePadEmu'' (pg_pademu_enable r),
       pg_pademu_settings := get_int cs ''$PadEmuSettings'' (pg_pademu_settings r),
       pg_padmacro_source := get_int cs ''$PadMacroSource'' (pg_padmacro_source r),
       pg_padmacro_settings := get_int cs ''$PadMacroSettings'' (pg_padmacro_settings r),
       pg_osd_source := get_int cs ''$CustomLanguageSource'' (pg_osd_source r),
       pg_osd_enable := get_int cs ''$OSDSettingsEnable'' (pg_osd_enable r),
       pg_osd_langid := get_int cs ''$CustomLanguageValue'' (pg_osd_langid r),
       pg_osd_tv_aspect := get_int cs ''$OSDAspectRatio'' (pg_osd_tv_aspect r),
       pg_osd_vmode := get_int cs ''$OSDVideoMode'' (pg_osd_vmode r)\<rparr>))"

definition first_str :: "config_set \<Rightarrow> string list \<Rightarrow> string option" where
  "first_str cs keys =
     (case List.map_filter (configGetStr cs) keys of [] \<Rightarrow> None | v # _ \<Rightarrow> Some v)"

definition info_str :: "config_set \<Rightarrow> string list \<Rightarrow> nat \<Rightarrow> string \<Rightarrow> string" where
  "info_str cs keys n old = (case first_str cs keys of None \<Rightarrow> old | Some v \<Rightarrow> copy_str v n)"

text \<open>What follows the last slash, if it is not empty.\<close>

definition after_slash :: "string \<Rightarrow> string" where
  "after_slash s =
     (case strrchr_c s CHR ''/'' of None \<Rightarrow> s | Some n \<Rightarrow> if n + 1 < length s then drop (n + 1) s else s)"

definition info_number :: "config_set \<Rightarrow> string \<Rightarrow> s32 \<Rightarrow> s32" where
  "info_number cs key old =
     (case configGetInt cs key of
        Some v \<Rightarrow> v
      | None \<Rightarrow> (case configGetStr cs key of Some s \<Rightarrow> atoi (after_slash s) | None \<Rightarrow> old))"

definition game_info_keys :: "string list" where
  "game_info_keys = [''#Name'', ''Title'', ''Description'', ''Developer'', ''Genre'', ''Release'', ''Aspect'', ''Parental'',
     ''Players'', ''Vmode'', ''Region'', ''Rating'']"

definition legacy_game_info :: "config_set \<Rightarrow> game_info \<Rightarrow> bool \<times> game_info" where
  "legacy_game_info cs r =
     (first_str cs game_info_keys \<noteq> None,
      r\<lparr>
       gi_title := info_str cs [''#Name'', ''Title''] 161 (gi_title r),
       gi_description := info_str cs [''Description''] 256 (gi_description r),
       gi_developer := info_str cs [''Developer''] 64 (gi_developer r),
       gi_genre := info_str cs [''Genre''] 64 (gi_genre r),
       gi_release := info_str cs [''Release''] 32 (gi_release r),
       gi_aspect := info_str cs [''Aspect''] 32 (gi_aspect r),
       gi_parental := info_str cs [''Parental''] 32 (gi_parental r),
       gi_players := info_number cs ''Players'' (gi_players r),
       gi_region := (case first_str cs [''Vmode'', ''Region''] of None \<Rightarrow> gi_region r
         | Some v \<Rightarrow> copy_str (''Region/'' @ after_slash v) 32),
       gi_user_rating := info_number cs ''Rating'' (gi_user_rating r)\<rparr>)"

text \<open>The two flags, the settings and the description; neither if there is no file.\<close>

definition cfgMigrateLegacyPerGame :: "string \<Rightarrow> per_game_cfg \<Rightarrow> game_info \<Rightarrow> fstore \<Rightarrow>
    ((bool \<times> bool \<times> per_game_cfg \<times> game_info) \<times> fstore) option" where
  "cfgMigrateLegacyPerGame path pgcfg gi st = do {
     (cs, st) \<leftarrow> read_legacy path st;
     Some (case cs of
         None \<Rightarrow> (False, False, pgcfg, gi)
       | Some cs \<Rightarrow>
           (case legacy_per_game cs pgcfg of (pg, pgcfg) \<Rightarrow>
              (case legacy_game_info cs gi of (info, gi) \<Rightarrow> (pg, info, pgcfg, gi))), st)
   }"

end
