(* ===== verification/Legacy_Migrate_Props.thy ===== *)
theory Legacy_Migrate_Props
  imports Legacy_Migrate
begin

text \<open>
  The migration: the file that is being replaced is never lost, the settings that come out of an old file, and
  a branch of the description's numbers that is never taken.
\<close>

section \<open>The replaced file is never lost\<close>

lemma paths_differ:
  assumes "length path + 4 < 256"
  shows "tmp_path path \<noteq> path" and "bak_path path \<noteq> path" and "tmp_path path \<noteq> bak_path path"
  using assms by (simp_all add: tmp_path_def bak_path_def)

text \<open>What every state that has been passed satisfies, and the phases of the replacement.\<close>

definition kept :: "string \<Rightarrow> 'c \<Rightarrow> 'c \<Rightarrow> (string \<Rightarrow> 'c option) \<Rightarrow> bool" where
  "kept path old cfg fs \<longleftrightarrow> fs path = Some old \<or> fs (bak_path path) = Some old \<or> fs path = Some cfg"

datatype phase = Original | Written | Moved | Replaced

fun at_phase :: "phase \<Rightarrow> string \<Rightarrow> 'c \<Rightarrow> 'c \<Rightarrow> (string \<Rightarrow> 'c option) \<Rightarrow> bool" where
  "at_phase Original path old cfg fs \<longleftrightarrow> fs path = Some old"
| "at_phase Written path old cfg fs \<longleftrightarrow> fs path = Some old \<and> fs (tmp_path path) = Some cfg"
| "at_phase Moved path old cfg fs \<longleftrightarrow> fs (bak_path path) = Some old \<and> fs (tmp_path path) = Some cfg"
| "at_phase Replaced path old cfg fs \<longleftrightarrow> fs path = Some cfg"

definition in_phase :: "phase \<Rightarrow> string \<Rightarrow> 'c \<Rightarrow> 'c \<Rightarrow> 'c disk \<Rightarrow> bool" where
  "in_phase ph path old cfg d \<longleftrightarrow> at_phase ph path old cfg (files_of d) \<and> list_all (kept path old cfg) (passed d)"

lemma phase_kept: "at_phase ph path old cfg fs \<Longrightarrow> kept path old cfg fs"
  by (cases ph) (auto simp: kept_def)

lemma disk_op_cases:
  assumes "disk_op poss effect failed d = (ok, d')"
  shows "files_of d' = (if ok then effect (files_of d) else failed (files_of d)) \<and>
    passed d' = passed d @ [files_of d'] \<and> (ok \<longrightarrow> poss (files_of d))"
  using assms by (auto simp: disk_op_def Let_def)

lemma list_all_Cons_Nil: "list_all P [x] \<longleftrightarrow> P x"
  by simp

lemma disk_op_phase:
  assumes "disk_op poss effect failed d = (ok, d')" and "in_phase ph path old cfg d"
    and "ok \<Longrightarrow> poss (files_of d) \<Longrightarrow> at_phase ph path old cfg (files_of d) \<Longrightarrow> at_phase ph' path old cfg (effect (files_of d))"
    and "\<not> ok \<Longrightarrow> at_phase ph path old cfg (files_of d) \<Longrightarrow> at_phase ph' path old cfg (failed (files_of d))"
  shows "in_phase ph' path old cfg d'"
proof -
  note step = disk_op_cases [OF assms(1)]
  have "at_phase ph path old cfg (files_of d)" using assms(2) by (simp add: in_phase_def)
  then have "at_phase ph' path old cfg (files_of d')" using step assms(3,4) by (cases ok) simp_all
  moreover from this have "kept path old cfg (files_of d')" by (rule phase_kept)
  ultimately show ?thesis using step assms(2) unfolding in_phase_def by (simp only: list_all_append list_all_Cons_Nil simp_thms)
qed

lemma unlink_tmp:
  assumes "unlink (tmp_path path) d = (ok, d')" and "length path + 4 < 256" and "in_phase ph path old cfg d"
    and "ph = Original \<or> ph = Replaced"
  shows "in_phase ph path old cfg d'"
  by (rule disk_op_phase [OF assms(1) [unfolded unlink_def] assms(3)])
    (use assms(4) paths_differ [OF assms(2)] in auto)

lemma unlink_bak:
  assumes "unlink (bak_path path) d = (ok, d')" and "length path + 4 < 256" and "in_phase ph path old cfg d"
    and "ph \<noteq> Moved"
  shows "in_phase ph path old cfg d'"
  by (rule disk_op_phase [OF assms(1) [unfolded unlink_def] assms(3)])
    (use assms(4) paths_differ [OF assms(2)] in \<open>cases ph; auto\<close>)+

lemma write_tmp:
  assumes "config_write_file cfg part (tmp_path path) d = (ok, d')" and "length path + 4 < 256"
    and "in_phase Original path old cfg d"
  shows "in_phase (if ok then Written else Original) path old cfg d'"
  by (rule disk_op_phase [OF assms(1) [unfolded config_write_file_def] assms(3)])
    (use paths_differ [OF assms(2)] in auto)

lemma rename_path_bak:
  assumes "rename path (bak_path path) d = (ok, d')" and "length path + 4 < 256" and "in_phase Written path old cfg d"
  shows "in_phase (if ok then Moved else Written) path old cfg d'"
  by (rule disk_op_phase [OF assms(1) [unfolded rename_def] assms(3)])
    (use paths_differ [OF assms(2)] in auto)

lemma rename_tmp_path:
  assumes "rename (tmp_path path) path d = (ok, d')" and "length path + 4 < 256" and "in_phase Moved path old cfg d"
  shows "in_phase (if ok then Replaced else Moved) path old cfg d'"
  by (rule disk_op_phase [OF assms(1) [unfolded rename_def] assms(3)])
    (use paths_differ [OF assms(2)] in auto)

lemma rename_bak_path:
  assumes "rename (bak_path path) path d = (ok, d')" and "length path + 4 < 256" and "in_phase Moved path old cfg d"
  shows "in_phase (if ok then Original else Moved) path old cfg d'"
  by (rule disk_op_phase [OF assms(1) [unfolded rename_def] assms(3)])
    (use paths_differ [OF assms(2)] in auto)

lemma written_original: "in_phase Written path old cfg d \<Longrightarrow> in_phase Original path old cfg d"
  by (simp add: in_phase_def)

text \<open>The last step of a failed replacement, from the backup or from the restored file.\<close>

definition lost_nothing :: "string \<Rightarrow> 'c \<Rightarrow> 'c \<Rightarrow> bool \<times> 'c disk \<Rightarrow> bool" where
  "lost_nothing path old cfg r \<longleftrightarrow>
     (case r of (ok, d) \<Rightarrow>
        list_all (kept path old cfg) (passed d) \<and>
        (if ok then files_of d path = Some cfg
         else files_of d path = Some old \<or> files_of d (bak_path path) = Some old))"

lemma unlink_tmp_moved:
  assumes "unlink (tmp_path path) d = (ok, d')" and "length path + 4 < 256" and "in_phase Moved path old cfg d"
  shows "lost_nothing path old cfg (False, d')"
proof -
  note step = disk_op_cases [OF assms(1) [unfolded unlink_def]]
  have "files_of d' (bak_path path) = Some old"
    using step assms(3) paths_differ [OF assms(2)] by (auto simp: in_phase_def)
  then show ?thesis using step assms(3) by (simp add: lost_nothing_def in_phase_def kept_def)
qed

lemma phase_result:
  "in_phase Original path old cfg d \<Longrightarrow> lost_nothing path old cfg (False, d)"
  "in_phase Replaced path old cfg d \<Longrightarrow> lost_nothing path old cfg (True, d)"
  by (simp_all add: lost_nothing_def in_phase_def)

lemma write_keeps_old:
  assumes d: "files_of d path = Some old" "passed d = []" and short: "length path + 4 < 256"
  shows "lost_nothing path old cfg (cfgWriteLibconfig cfg part path keepBackup d)"
proof -
  have had: "cfgFileExists path d" using d by (simp add: cfgFileExists_def)
  obtain r1 d1 where u: "unlink (tmp_path path) d = (r1, d1)" by force
  have "in_phase Original path old cfg d" using d by (simp add: in_phase_def)
  then have p1: "in_phase Original path old cfg d1" using unlink_tmp [OF u short] by simp
  obtain w d2 where wr: "config_write_file cfg part (tmp_path path) d1 = (w, d2)" by force
  note p2 = write_tmp [OF wr short p1]
  obtain r3 d3 where ub: "unlink (bak_path path) d2 = (r3, d3)" by force
  obtain m d4 where mv: "rename path (bak_path path) d3 = (m, d4)" by force
  obtain k d5 where rp: "rename (tmp_path path) path d4 = (k, d5)" by force
  obtain rb d6 where bk: "rename (bak_path path) path d5 = (rb, d6)" by force
  have p4: "in_phase (if m then Moved else Written) path old cfg d4" if w
    using that p2 unlink_bak [OF ub short, of Written] rename_path_bak [OF mv short] by simp
  have p5: "in_phase (if k then Replaced else Moved) path old cfg d5" if w m
    using that p4 rename_tmp_path [OF rp short] by simp
  have p6: "in_phase (if rb then Original else Moved) path old cfg d6" if w m "\<not> k"
    using that p5 rename_bak_path [OF bk short] by simp
  have fail: "lost_nothing path old cfg (case unlink (tmp_path path) d' of (_, d) \<Rightarrow> (False, d))"
    if "in_phase Original path old cfg d' \<or> in_phase Moved path old cfg d'" for d'
  proof -
    obtain r d'' where u: "unlink (tmp_path path) d' = (r, d'')" by force
    show ?thesis
      using that unlink_tmp [OF u short, of Original old cfg] unlink_tmp_moved [OF u short, of old cfg]
        phase_result(1) [of path old cfg d''] by (auto simp: u)
  qed
  have done_: "lost_nothing path old cfg (case unlink (bak_path path) d5 of (_, d) \<Rightarrow> (True, d))" if w m k
  proof -
    obtain r d'' where u: "unlink (bak_path path) d5 = (r, d'')" by force
    show ?thesis
      using that p5 unlink_bak [OF u short, of Replaced old cfg] phase_result(2) [of path old cfg d''] by (simp add: u)
  qed
  note run = cfgWriteLibconfig_def Let_def had u wr ub mv rp bk prod.case bool.case if_True simp_thms
  consider "\<not> w" | "w" "\<not> m" | "w" "m" "\<not> k" | "w" "m" "k" by blast
  then show ?thesis
  proof cases
    case 1
    then have "in_phase Original path old cfg d2" using p2 by simp
    with 1 show ?thesis using fail [of d2] by (simp add: run)
  next
    case 2
    then have "in_phase Original path old cfg d4" using p4 written_original by simp
    with 2 show ?thesis using fail [of d4] by (simp add: run)
  next
    case 3
    then have "in_phase Original path old cfg d6 \<or> in_phase Moved path old cfg d6"
      using p6 by (cases rb) simp_all
    with 3 show ?thesis using fail [of d6] by (simp add: run)
  next
    case 4
    then have "lost_nothing path old cfg (True, d5)" using p5 phase_result(2) by simp
    with 4 show ?thesis using done_ by (simp add: run)
  qed
qed

text \<open>
  C14: While a configuration file is being replaced by a new version, whichever of the operations on the file
  system fail and wherever the power goes off, the old contents stand under their own name or under that of the
  backup, or the new contents stand under the name; if the replacement reports success the new contents are
  there, and if it reports failure the old ones are, under the name or as the backup. (For paths that leave room
  for the four characters of the suffix in the buffers.)
\<close>

theorem config_replaced_safely:
  assumes "files_of d path = Some old" and "passed d = []" and "length path + 4 < 256"
  shows "case cfgWriteLibconfig cfg part path keepBackup d of (ok, d') \<Rightarrow>
    list_all (\<lambda>fs. fs path = Some old \<or> fs (bak_path path) = Some old \<or> fs path = Some cfg) (passed d') \<and>
    (if ok then files_of d' path = Some cfg
     else files_of d' path = Some old \<or> files_of d' (bak_path path) = Some old)"
  using write_keeps_old [OF assms, of cfg part keepBackup] unfolding lost_nothing_def kept_def .

lemma config_replaced_safely_witness:
  "case cfgWriteLibconfig ''new'' (Some ''n'') ''f'' False
      \<lparr>files_of = [''f'' \<mapsto> ''old''], succeeds = [False, True, False, True, False, True], passed = []\<rparr> of (ok, d') \<Rightarrow>
    list_all (\<lambda>fs. fs ''f'' = Some ''old'' \<or> fs (bak_path ''f'') = Some ''old'' \<or> fs ''f'' = Some ''new'') (passed d') \<and>
    (if ok then files_of d' ''f'' = Some ''new''
     else files_of d' ''f'' = Some ''old'' \<or> files_of d' (bak_path ''f'') = Some ''old'')"
  by (rule config_replaced_safely) simp_all

section \<open>Old settings\<close>

lemma getConfigItem_written:
  assumes "distinct (map fst (items cs))" and "items cs' = filter kv_written (items cs)" and "\<not> is_hash key" and "key \<noteq> []"
  shows "configGetStr cs' key = configGetStr cs key"
proof -
  have "map_of (filter kv_written kvs) key = map_of kvs key" for kvs
    using assms(3,4) by (induction kvs) (auto simp: kv_written_def)
  then show ?thesis using assms(2) by (simp add: configGetStr_def getConfigItemForName_def)
qed

text \<open>The settings depend on the values of keys that are written only.\<close>

definition same_values :: "config_set \<Rightarrow> config_set \<Rightarrow> bool" where
  "same_values cs' cs \<longleftrightarrow> (\<forall>key. \<not> is_hash key \<longrightarrow> key \<noteq> [] \<longrightarrow> configGetStr cs' key = configGetStr cs key)"

lemma get_same:
  assumes "same_values cs' cs" and "\<not> is_hash key" and "key \<noteq> []"
  shows "get_int cs' key = get_int cs key" and "get_str cs' key = get_str cs key"
    and "get_color cs' key = get_color cs key" and "get_ip cs' key = get_ip cs key"
    and "configGetInt cs' key = configGetInt cs key" and "configGetStr cs' key = configGetStr cs key"
proof -
  have g: "configGetStr cs' key = configGetStr cs key" using assms by (simp add: same_values_def)
  show "get_int cs' key = get_int cs key" "get_str cs' key = get_str cs key"
    "get_color cs' key = get_color cs key" "get_ip cs' key = get_ip cs key" "configGetInt cs' key = configGetInt cs key"
    "configGetStr cs' key = configGetStr cs key"
    by (simp_all add: fun_eq_iff get_int_def configGetInt_def get_str_def configGetStrCopy_def get_color_def
      configGetColor_def get_ip_def g)
qed

lemma legacy_net_same:
  assumes "same_values cs' cs"
  shows "legacy_net cs' = legacy_net cs"
  by (simp add: fun_eq_iff legacy_net_def get_same [OF assms] is_hash_def)

lemma legacy_global_game_same:
  assumes "same_values cs' cs"
  shows "legacy_global_game cs' = legacy_global_game cs"
  by (simp add: fun_eq_iff legacy_global_game_def get_same [OF assms] is_hash_def)

lemma legacy_opl_same:
  assumes "same_values cs' cs"
  shows "legacy_opl T L cs' = legacy_opl T L cs"
  by (simp add: fun_eq_iff legacy_opl_def legacy_display_def legacy_ui_def legacy_audio_def legacy_startup_def
      legacy_devices_def legacy_paths_def legacy_mmce_def legacy_debug_def legacy_coverflow_def legacy_frames_def
      get_same [OF assms] is_hash_def cong: option.case_cong)



lemma number_after_slash_ignored:
  "configGetStr cs key = Some s \<Longrightarrow> info_number cs key old = atoi s"
  by (simp add: info_number_def configGetInt_def)

end
