(* ===== verification/Menu_Lists.thy ===== *)
theory Menu_Lists
  imports Cstrings
begin

text \<open>
  The doubly linked lists of menu entries (\<^verbatim>\<open>src/menusys.c\<close>). The heap maps the addresses of allocated nodes
  to nodes; following a pointer to an address that is not allocated is \<open>None\<close>. The caches of an entry, sounds
  and animations are drawing state and left out.
\<close>

section \<open>Nodes\<close>

record submenu_item =
  icon_id :: int
  label :: string
  text_id :: int
  item_id :: int
  owner :: nat
  favourited :: bool

record submenu_list =
  item :: submenu_item
  prev :: "nat option"
  next_node :: "nat option"

type_synonym heap = "nat \<Rightarrow> submenu_list option"

definition set_next :: "nat \<Rightarrow> nat option \<Rightarrow> heap \<Rightarrow> heap option" where
  "set_next a q h = do { n \<leftarrow> h a; Some (h(a \<mapsto> n\<lparr>next_node := q\<rparr>)) }"

definition set_prev :: "nat \<Rightarrow> nat option \<Rightarrow> heap \<Rightarrow> heap option" where
  "set_prev a q h = do { n \<leftarrow> h a; Some (h(a \<mapsto> n\<lparr>prev := q\<rparr>)) }"

text \<open>The text of an entry: that of its id in the language's table, if it has one.\<close>

definition submenuItemGetText :: "(nat \<Rightarrow> string) \<Rightarrow> submenu_item \<Rightarrow> string" where
  "submenuItemGetText lang it = (if 0 \<le> text_id it then lang (nat (text_id it)) else label it)"

section \<open>Entries\<close>

text \<open>\<open>new\<close> is the address that \<^verbatim>\<open>malloc\<close> returns.\<close>

definition submenuAllocItem :: "nat \<Rightarrow> int \<Rightarrow> string \<Rightarrow> int \<Rightarrow> int \<Rightarrow> nat \<Rightarrow> heap \<Rightarrow> heap" where
  "submenuAllocItem new icon txt idn tid own h =
     h(new \<mapsto> \<lparr>item = \<lparr>icon_id = icon, label = txt, text_id = tid, item_id = idn, owner = own, favourited = False\<rparr>,
               prev = None, next_node = None\<rparr>)"

text \<open>The walk to the last node; on a cycle it does not end.\<close>

partial_function (option) last_node :: "heap \<Rightarrow> nat \<Rightarrow> nat option" where
  "last_node h a = do { n \<leftarrow> h a; (case next_node n of None \<Rightarrow> Some a | Some b \<Rightarrow> last_node h b) }"

text \<open>The head of the list, the new node and the heap.\<close>

definition submenuAppendItem :: "nat option \<Rightarrow> nat \<Rightarrow> int \<Rightarrow> string \<Rightarrow> int \<Rightarrow> int \<Rightarrow> nat \<Rightarrow> heap \<Rightarrow> (nat option \<times> heap) option" where
  "submenuAppendItem submenu new icon txt idn tid own h =
     (case submenu of
        None \<Rightarrow> Some (Some new, submenuAllocItem new icon txt idn tid own h)
      | Some a \<Rightarrow> do {
          cur \<leftarrow> last_node h a;
          h \<leftarrow> set_next cur (Some new) (submenuAllocItem new icon txt idn tid own h);
          h \<leftarrow> set_prev new (Some cur) h;
          Some (submenu, h)
        })"

partial_function (option) submenuFindItemByIdAndText :: "heap \<Rightarrow> nat option \<Rightarrow> int \<Rightarrow> string \<Rightarrow> nat option option" where
  "submenuFindItemByIdAndText h cur idn txt =
     (case cur of
        None \<Rightarrow> Some None
      | Some a \<Rightarrow> do {
          n \<leftarrow> h a;
          if item_id (item n) = idn \<and> label (item n) = txt then Some (Some a)
          else submenuFindItemByIdAndText h (next_node n) idn txt
        })"

text \<open>The removal corrects the pointers to the next node only.\<close>

partial_function (option) remove_items :: "int \<Rightarrow> nat option \<Rightarrow> nat option \<Rightarrow> nat option \<Rightarrow> heap \<Rightarrow> (nat option \<times> heap) option" where
  "remove_items idn submenu prv cur h =
     (case cur of
        None \<Rightarrow> Some (submenu, h)
      | Some a \<Rightarrow> do {
          n \<leftarrow> h a;
          if item_id (item n) = idn then do {
            h \<leftarrow> (case prv of None \<Rightarrow> Some h | Some p \<Rightarrow> set_next p (next_node n) h);
            remove_items idn (if submenu = Some a then next_node n else submenu) prv (next_node n) (h(a := None))
          }
          else remove_items idn submenu (Some a) (next_node n) h
        })"

definition submenuRemoveItem :: "nat option \<Rightarrow> int \<Rightarrow> heap \<Rightarrow> (nat option \<times> heap) option" where
  "submenuRemoveItem submenu idn h = remove_items idn submenu None submenu h"

partial_function (option) submenuDestroy :: "nat option \<Rightarrow> heap \<Rightarrow> (nat option \<times> heap) option" where
  "submenuDestroy cur h =
     (case cur of
        None \<Rightarrow> Some (None, h)
      | Some a \<Rightarrow> do { n \<leftarrow> h a; submenuDestroy (next_node n) (h(a := None)) })"

section \<open>Sorting\<close>

fun strcasecmp :: "string \<Rightarrow> string \<Rightarrow> int" where
  "strcasecmp [] [] = 0"
| "strcasecmp [] (d # t) = - 1"
| "strcasecmp (c # s) [] = 1"
| "strcasecmp (c # s) (d # t) =
     (if to_lower c = to_lower d then strcasecmp s t else of_char (to_lower c) - of_char (to_lower d))"

definition swap :: "nat \<Rightarrow> nat \<Rightarrow> heap \<Rightarrow> heap option" where
  "swap a b h = do {
     na \<leftarrow> h a;
     nb \<leftarrow> h b;
     let pa = prev na;
     let nx = next_node nb;
     h \<leftarrow> set_next a nx h;
     h \<leftarrow> set_prev b pa h;
     h \<leftarrow> set_next b (Some a) h;
     h \<leftarrow> set_prev a (Some b) h;
     h \<leftarrow> (case pa of None \<Rightarrow> Some h | Some p \<Rightarrow> set_next p (Some b) h);
     (case nx of None \<Rightarrow> Some h | Some n \<Rightarrow> set_prev n (Some a) h)
   }"

definition item_gt :: "(nat \<Rightarrow> string) \<Rightarrow> submenu_item \<Rightarrow> submenu_item \<Rightarrow> bool" where
  "item_gt lang x y \<longleftrightarrow> strcasecmp (submenuItemGetText lang x) (submenuItemGetText lang y) > 0"

text \<open>One pass from \<open>tip\<close>: the heap, the head, and whether no nodes have been swapped.\<close>

partial_function (option) sort_pass :: "(nat \<Rightarrow> string) \<Rightarrow> nat \<Rightarrow> nat \<Rightarrow> bool \<Rightarrow> heap \<Rightarrow> (heap \<times> nat \<times> bool) option" where
  "sort_pass lang head tip srt h = do {
     t \<leftarrow> h tip;
     (case next_node t of
        None \<Rightarrow> Some (h, head, srt)
      | Some nxt \<Rightarrow> do {
          n \<leftarrow> h nxt;
          if item_gt lang (item t) (item n)
          then do { h \<leftarrow> swap tip nxt h; sort_pass lang (if tip = head then nxt else head) tip False h }
          else sort_pass lang head nxt srt h
        })
   }"

partial_function (option) sort_loop :: "(nat \<Rightarrow> string) \<Rightarrow> nat \<Rightarrow> heap \<Rightarrow> (heap \<times> nat) option" where
  "sort_loop lang head h = do {
     (h, head, srt) \<leftarrow> sort_pass lang head head True h;
     if srt then Some (h, head) else sort_loop lang head h
   }"

definition submenuSort :: "(nat \<Rightarrow> string) \<Rightarrow> nat option \<Rightarrow> heap \<Rightarrow> (nat option \<times> heap) option" where
  "submenuSort lang submenu h =
     (case submenu of
        None \<Rightarrow> Some (None, h)
      | Some a \<Rightarrow> do {
          n \<leftarrow> h a;
          if next_node n = None then Some (submenu, h)
          else do { (h, head) \<leftarrow> sort_loop lang a h; Some (Some head, h) }
        })"

section \<open>Moving through a menu\<close>

text \<open>\<open>d\<close> is the number of entries that the theme displays on a page.\<close>

record menu_item =
  submenu :: "nat option"
  current :: "nat option"
  pagestart :: "nat option"

definition menuFirstPage :: "menu_item \<Rightarrow> menu_item" where
  "menuFirstPage m = (if current m = None then m else m\<lparr>current := submenu m, pagestart := submenu m\<rparr>)"

text \<open>\<^verbatim>\<open>while (--itms && cur->prev) cur = cur->prev\<close> and its mirror image, for a counter that starts above 0.\<close>

fun go_back :: "heap \<Rightarrow> nat \<Rightarrow> nat \<Rightarrow> nat option" where
  "go_back h 0 a = Some a"
| "go_back h (Suc k) a = do { n \<leftarrow> h a; (case prev n of None \<Rightarrow> Some a | Some p \<Rightarrow> go_back h k p) }"

fun go_on :: "heap \<Rightarrow> nat \<Rightarrow> nat \<Rightarrow> nat option" where
  "go_on h 0 a = Some a"
| "go_on h (Suc k) a = do { n \<leftarrow> h a; (case next_node n of None \<Rightarrow> Some a | Some b \<Rightarrow> go_on h k b) }"

definition menuLastPage :: "nat \<Rightarrow> heap \<Rightarrow> menu_item \<Rightarrow> menu_item option" where
  "menuLastPage d h m =
     (case current m of
        None \<Rightarrow> Some m
      | Some a \<Rightarrow> do {
          cur \<leftarrow> last_node h a;
          start \<leftarrow> go_back h (d - 1) cur;
          Some (m\<lparr>current := Some cur, pagestart := Some start\<rparr>)
        })"

text \<open>Whether one of the next \<open>k\<close> nodes is \<open>target\<close>.\<close>

fun on_page :: "heap \<Rightarrow> nat \<Rightarrow> nat option \<Rightarrow> nat \<Rightarrow> bool option" where
  "on_page h 0 cur target = Some False"
| "on_page h (Suc k) cur target =
     (case cur of
        None \<Rightarrow> Some False
      | Some a \<Rightarrow> if a = target then Some True else do { n \<leftarrow> h a; on_page h k (next_node n) target })"

definition menuNextV :: "nat \<Rightarrow> heap \<Rightarrow> menu_item \<Rightarrow> menu_item option" where
  "menuNextV d h m =
     (case current m of
        None \<Rightarrow> Some (menuFirstPage m)
      | Some a \<Rightarrow> do {
          n \<leftarrow> h a;
          (case next_node n of
             None \<Rightarrow> Some (menuFirstPage m)
           | Some b \<Rightarrow> do {
               there \<leftarrow> on_page h d (pagestart m) b;
               Some (m\<lparr>current := Some b, pagestart := (if there then pagestart m else Some b)\<rparr>)
             })
        })"

definition menuPrevV :: "nat \<Rightarrow> heap \<Rightarrow> menu_item \<Rightarrow> menu_item option" where
  "menuPrevV d h m =
     (case current m of
        None \<Rightarrow> menuLastPage d h m
      | Some a \<Rightarrow> do {
          n \<leftarrow> h a;
          (case prev n of
             None \<Rightarrow> menuLastPage d h m
           | Some b \<Rightarrow>
               if pagestart m = Some a
               then do { start \<leftarrow> go_back h d a; Some (m\<lparr>current := Some b, pagestart := Some start\<rparr>) }
               else Some (m\<lparr>current := Some b\<rparr>))
        })"

definition menuNextPage :: "nat \<Rightarrow> heap \<Rightarrow> menu_item \<Rightarrow> menu_item option" where
  "menuNextPage d h m =
     (case pagestart m of
        None \<Rightarrow> Some (menuFirstPage m)
      | Some a \<Rightarrow> do {
          n \<leftarrow> h a;
          if next_node n = None then Some (menuFirstPage m)
          else do { b \<leftarrow> go_on h d a; Some (m\<lparr>current := Some b, pagestart := Some b\<rparr>) }
        })"

definition menuPrevPage :: "nat \<Rightarrow> heap \<Rightarrow> menu_item \<Rightarrow> menu_item option" where
  "menuPrevPage d h m =
     (case pagestart m of
        None \<Rightarrow> menuLastPage d h m
      | Some a \<Rightarrow> do {
          n \<leftarrow> h a;
          if prev n = None then menuLastPage d h m
          else do { b \<leftarrow> go_back h d a; Some (m\<lparr>current := Some b, pagestart := Some b\<rparr>) }
        })"

datatype move = NextV | PrevV | NextPage | PrevPage | FirstPage | LastPage

fun menu_move :: "nat \<Rightarrow> heap \<Rightarrow> move \<Rightarrow> menu_item \<Rightarrow> menu_item option" where
  "menu_move d h NextV m = menuNextV d h m"
| "menu_move d h PrevV m = menuPrevV d h m"
| "menu_move d h NextPage m = menuNextPage d h m"
| "menu_move d h PrevPage m = menuPrevPage d h m"
| "menu_move d h FirstPage m = Some (menuFirstPage m)"
| "menu_move d h LastPage m = menuLastPage d h m"

section \<open>The row of menus\<close>

text \<open>
  The menus left and right of the selected one, invisible ones skipped; the first visible one. The row is only
  ever appended to: a menu is its place in it.
\<close>

definition menuNextH :: "bool list \<Rightarrow> nat \<Rightarrow> nat" where
  "menuNextH visible selected =
     (case List.find (\<lambda>i. visible ! i) [selected + 1 ..< length visible] of None \<Rightarrow> selected | Some i \<Rightarrow> i)"

definition menuPrevH :: "bool list \<Rightarrow> nat \<Rightarrow> nat" where
  "menuPrevH visible selected =
     (case List.find (\<lambda>i. visible ! i) (rev [0 ..< selected]) of None \<Rightarrow> selected | Some i \<Rightarrow> i)"

definition refreshMenuPosition :: "bool list \<Rightarrow> nat" where
  "refreshMenuPosition visible =
     (case List.find (\<lambda>i. visible ! i) [0 ..< length visible] of None \<Rightarrow> 0 | Some i \<Rightarrow> i)"

end
