(* ===== verification/Menu_Spec.thy ===== *)
theory Menu_Spec
  imports Menu_Lists "HOL-Library.Multiset"
begin

text \<open>
  What the linked lists stand for: the sequence of their nodes' addresses. The operations on the heap against
  those on sequences: appending, swapping neighbours, one pass of the sort, the walks.
\<close>

section \<open>Chains\<close>

text \<open>The nodes \<open>xs\<close> linked both ways, between the node \<open>p\<close> before and \<open>q\<close> behind.\<close>

definition first_of :: "nat list \<Rightarrow> nat option \<Rightarrow> nat option" where
  "first_of xs q = (case xs of [] \<Rightarrow> q | x # _ \<Rightarrow> Some x)"

definition last_of :: "nat option \<Rightarrow> nat list \<Rightarrow> nat option" where
  "last_of p xs = (if xs = [] then p else Some (last xs))"

fun chain :: "heap \<Rightarrow> nat option \<Rightarrow> nat list \<Rightarrow> nat option \<Rightarrow> bool" where
  "chain h p [] q \<longleftrightarrow> True"
| "chain h p (x # xs) q \<longleftrightarrow>
     (\<exists>n. h x = Some n \<and> prev n = p \<and> next_node n = first_of xs q) \<and> chain h (Some x) xs q"

lemma first_of_simps [simp]: "first_of [] q = q" "first_of (x # xs) q = Some x"
  by (simp_all add: first_of_def)

lemma last_of_simps [simp]: "last_of p [] = p" "last_of p (xs @ [x]) = Some x" "last_of p (x # xs) = last_of (Some x) xs"
  by (simp_all add: last_of_def)

lemma first_of_append [simp]: "first_of (xs @ ys) q = first_of xs (first_of ys q)"
  by (cases xs) simp_all

lemma ends_notin:
  assumes "x \<notin> set xs"
  shows "last_of None xs \<noteq> Some x" and "first_of xs None \<noteq> Some x"
  using assms by (auto simp: last_of_def first_of_def split: list.splits)

lemma chain_append [simp]:
  "chain h p (xs @ ys) q \<longleftrightarrow> chain h p xs (first_of ys q) \<and> chain h (last_of p xs) ys q"
  by (induction xs arbitrary: p) auto

lemma chain_frame: "(\<And>x. x \<in> set xs \<Longrightarrow> h' x = h x) \<Longrightarrow> chain h' p xs q \<longleftrightarrow> chain h p xs q"
  by (induction xs arbitrary: p) auto

lemma chain_upd [simp]: "a \<notin> set xs \<Longrightarrow> chain (h(a := n)) p xs q \<longleftrightarrow> chain h p xs q"
  by (rule chain_frame) auto

lemma chain_alloc: "chain h p xs q \<Longrightarrow> x \<in> set xs \<Longrightarrow> h x \<noteq> None"
  by (induction xs arbitrary: p) auto

text \<open>The whole list, and its items in order.\<close>

definition menu_list :: "heap \<Rightarrow> nat list \<Rightarrow> bool" where
  "menu_list h xs \<longleftrightarrow> distinct xs \<and> chain h None xs None"

definition item_at :: "heap \<Rightarrow> nat \<Rightarrow> submenu_item" where
  "item_at h a = item (the (h a))"

lemma chain_node:
  assumes "chain h None xs None" and "i < length xs"
  shows "\<exists>n. h (xs ! i) = Some n \<and> prev n = (if i = 0 then None else Some (xs ! (i - 1))) \<and>
    next_node n = (if i + 1 < length xs then Some (xs ! (i + 1)) else None)"
proof -
  have xs: "xs = take i xs @ xs ! i # drop (Suc i) xs" using assms(2) by (rule id_take_nth_drop)
  have "chain h (last_of None (take i xs)) (xs ! i # drop (Suc i) xs) None"
    using assms(1) xs by (metis chain_append)
  moreover have "last_of None (take i xs) = (if i = 0 then None else Some (xs ! (i - 1)))"
    using assms(2) by (auto simp: last_of_def last_conv_nth min_def)
  moreover have "first_of (drop (Suc i) xs) None = (if i + 1 < length xs then Some (xs ! (i + 1)) else None)"
    by (cases "Suc i < length xs") (simp_all add: Cons_nth_drop_Suc [symmetric])
  ultimately show ?thesis by auto
qed

section \<open>Appending\<close>

lemma last_node_chain:
  "chain h p (xs @ [x]) None \<Longrightarrow> last_node h (hd (xs @ [x])) = Some x"
proof (induction xs arbitrary: p)
  case Nil
  then show ?case by (subst last_node.simps) auto
next
  case (Cons y ys)
  then have "last_node h (hd (ys @ [x])) = Some x" by auto
  with Cons.prems show ?case by (subst last_node.simps) (cases ys; auto)
qed

lemma append_item:
  assumes "menu_list h xs" and "h new = None"
  shows "\<exists>h'. submenuAppendItem (first_of xs None) new icon txt i tid own h = Some (first_of (xs @ [new]) None, h') \<and>
    menu_list h' (xs @ [new]) \<and> item_at h' new =
      \<lparr>icon_id = icon, label = txt, text_id = tid, item_id = i, owner = own, favourited = False\<rparr> \<and>
    (\<forall>x\<in>set xs. item_at h' x = item_at h x)"
proof (cases xs rule: rev_cases)
  case Nil
  then show ?thesis by (simp add: submenuAppendItem_def submenuAllocItem_def menu_list_def item_at_def)
next
  case (snoc ys y)
  have c: "chain h None (ys @ [y]) None" and d: "distinct (ys @ [y])" using assms(1) snoc by (simp_all add: menu_list_def)
  have new: "new \<notin> set (ys @ [y])" using chain_alloc [OF c] assms(2) by blast
  obtain n where n: "h y = Some n" "prev n = last_of None ys" "next_node n = None" using c by auto
  have w: "last_node h (hd (ys @ [y])) = Some y" using c by (rule last_node_chain)
  have f: "first_of xs None = Some (hd (ys @ [y]))" using snoc by (cases ys) simp_all
  define h1 where "h1 = submenuAllocItem new icon txt i tid own h"
  have "y \<noteq> new" using new by auto
  then have y: "h1 y = Some n" using n by (simp add: h1_def submenuAllocItem_def)
  define h2 where "h2 = h1(y \<mapsto> n\<lparr>next_node := Some new\<rparr>)"
  obtain m where m: "h1 new = Some m" "item m = \<lparr>icon_id = icon, label = txt, text_id = tid, item_id = i, owner = own, favourited = False\<rparr>"
      "next_node m = None"
    by (simp add: h1_def submenuAllocItem_def)
  define h3 where "h3 = h2(new \<mapsto> m\<lparr>prev := Some y\<rparr>)"
  have same: "h3 x = h x" if "x \<in> set ys" for x
    using that d new by (auto simp: h3_def h2_def h1_def submenuAllocItem_def)
  have r: "submenuAppendItem (first_of xs None) new icon txt i tid own h = Some (first_of xs None, h3)"
    using w y m \<open>y \<noteq> new\<close> unfolding f
    by (simp add: submenuAppendItem_def set_next_def set_prev_def h3_def h2_def flip: h1_def)
  have "chain h3 None ys (Some y)" using c same chain_frame by (metis chain_append first_of_simps(2))
  then have "menu_list h3 (xs @ [new])"
    using d new n m \<open>y \<noteq> new\<close> snoc by (auto simp: menu_list_def h3_def h2_def)
  moreover have "item_at h3 new = item m" "\<forall>x\<in>set xs. item_at h3 x = item_at h x"
    using same snoc n \<open>y \<noteq> new\<close> by (auto simp: item_at_def h3_def h2_def)
  moreover have "first_of xs None = first_of (xs @ [new]) None" using snoc by simp
  ultimately show ?thesis using r m(2) by metis
qed

section \<open>Swapping neighbours\<close>

lemma swap_neighbours:
  assumes "menu_list h (us @ a # b # vs)"
  shows "\<exists>h'. swap a b h = Some h' \<and> menu_list h' (us @ b # a # vs) \<and> (\<forall>x. map_option item (h' x) = map_option item (h x))"
proof -
  have d: "distinct (us @ a # b # vs)" and c: "chain h None us (Some a)"
    using assms by (simp_all add: menu_list_def)
  obtain na where na: "h a = Some na" "prev na = last_of None us" "next_node na = Some b"
    using assms by (auto simp: menu_list_def)
  obtain nb where nb: "h b = Some nb" "prev nb = Some a" "next_node nb = first_of vs None"
    using assms by (auto simp: menu_list_def)
  have cv: "chain h (Some b) vs None" using assms by (auto simp: menu_list_def)
  define h1 where "h1 = h(a \<mapsto> na\<lparr>next_node := first_of vs None, prev := Some b\<rparr>,
      b \<mapsto> nb\<lparr>prev := last_of None us, next_node := Some a\<rparr>)"
  have ab: "a \<noteq> b" using d by auto
  obtain h2 where h2: "(case last_of None us of None \<Rightarrow> Some h1 | Some p \<Rightarrow> set_next p (Some b) h1) = Some h2"
    and c2: "chain h2 None us (Some b)" and f2: "\<And>x. last_of None us \<noteq> Some x \<Longrightarrow> h2 x = h1 x"
    and i2: "\<And>x. map_option item (h2 x) = map_option item (h1 x)"
  proof (cases us rule: rev_cases)
    case Nil
    then show ?thesis using that [of h1] by simp
  next
    case (snoc us' p)
    then obtain np where np: "h p = Some np" "prev np = last_of None us'" using c by auto
    have "p \<noteq> a" "p \<noteq> b" "p \<notin> set us'" "a \<notin> set us'" "b \<notin> set us'" using d snoc by auto
    then show ?thesis
      using that [of "h1(p \<mapsto> np\<lparr>next_node := Some b\<rparr>)"] snoc np c
      by (auto simp: set_next_def h1_def)
  qed
  obtain h3 where h3: "(case first_of vs None of None \<Rightarrow> Some h2 | Some n \<Rightarrow> set_prev n (Some a) h2) = Some h3"
    and c3: "chain h3 (Some a) vs None" and f3: "\<And>x. first_of vs None \<noteq> Some x \<Longrightarrow> h3 x = h2 x"
    and i3: "\<And>x. map_option item (h3 x) = map_option item (h2 x)"
  proof (cases vs)
    case Nil
    then show ?thesis using that [of h2] by simp
  next
    case (Cons v vs')
    have v: "v \<noteq> a" "v \<noteq> b" "v \<notin> set us" "v \<notin> set vs'" using d Cons by auto
    then have "last_of None us \<noteq> Some v" by (auto simp: last_of_def)
    with v have hv: "h2 v = h v" using f2 by (simp add: h1_def)
    have same: "h2 x = h x" if "x \<in> set vs'" for x
    proof -
      have "x \<noteq> a" "x \<noteq> b" "x \<notin> set us" using d Cons that by auto
      moreover from this have "last_of None us \<noteq> Some x" by (cases us rule: rev_cases) auto
      ultimately show ?thesis using f2 [of x] by (simp add: h1_def)
    qed
    obtain nv where nv: "h v = Some nv" "next_node nv = first_of vs' None" using cv Cons by auto
    have "chain h (Some v) vs' None" using cv Cons by auto
    then have "chain h2 (Some v) vs' None" using same chain_frame by metis
    then show ?thesis
      using that [of "h2(v \<mapsto> nv\<lparr>prev := Some a\<rparr>)"] Cons nv v hv
      by (auto simp: set_prev_def)
  qed
  define hA where "hA = h(a \<mapsto> na\<lparr>next_node := first_of vs None\<rparr>)"
  define hB where "hB = hA(b \<mapsto> nb\<lparr>prev := last_of None us\<rparr>)"
  define hC where "hC = hB(b \<mapsto> nb\<lparr>prev := last_of None us, next_node := Some a\<rparr>)"
  have "set_next a (first_of vs None) h = Some hA" using na by (simp add: set_next_def hA_def)
  moreover have "set_prev b (last_of None us) hA = Some hB" using nb ab by (simp add: set_prev_def hB_def hA_def)
  moreover have "set_next b (Some a) hB = Some hC" by (simp add: set_next_def hC_def hB_def)
  moreover have "set_prev a (Some b) hC = Some h1"
    using ab by (auto simp: set_prev_def hC_def hB_def hA_def h1_def fun_eq_iff)
  ultimately have sw: "swap a b h = Some h3"
    using h2 h3 unfolding swap_def by (simp add: na nb Let_def)
  have na3: "h3 a = h1 a" "h3 b = h1 b"
    using d f2 f3 ends_notin [of a us] ends_notin [of b us] ends_notin [of a vs] ends_notin [of b vs] by auto
  have "chain h3 None us (Some b)"
  proof -
    have "h3 x = h2 x" if "x \<in> set us" for x
      using d that by (intro f3) (auto simp: first_of_def split: list.splits)
    then show ?thesis using c2 chain_frame by metis
  qed
  then have "menu_list h3 (us @ b # a # vs)"
    using d c3 na3 ab by (auto simp: menu_list_def h1_def)
  moreover have "map_option item (h3 x) = map_option item (h x)" for x
    using na nb by (simp add: i2 i3 h1_def)
  ultimately show ?thesis using sw by blast
qed

section \<open>The sort on sequences\<close>

text \<open>
  One pass of the sort with the order \<open>gt\<close>, and whether it swaps; a total preorder is what a comparison
  of texts has to be.
\<close>

fun pass :: "('a \<Rightarrow> 'a \<Rightarrow> bool) \<Rightarrow> 'a \<Rightarrow> 'a list \<Rightarrow> 'a list" where
  "pass gt x [] = [x]"
| "pass gt x (y # ys) = (if gt x y then y # pass gt x ys else x # pass gt y ys)"

fun quiet :: "('a \<Rightarrow> 'a \<Rightarrow> bool) \<Rightarrow> 'a \<Rightarrow> 'a list \<Rightarrow> bool" where
  "quiet gt x [] \<longleftrightarrow> True"
| "quiet gt x (y # ys) \<longleftrightarrow> \<not> gt x y \<and> quiet gt y ys"

fun inversions :: "('a \<Rightarrow> 'a \<Rightarrow> bool) \<Rightarrow> 'a list \<Rightarrow> nat" where
  "inversions gt [] = 0"
| "inversions gt (x # xs) = length (filter (gt x) xs) + inversions gt xs"

locale text_order =
  fixes gt :: "'a \<Rightarrow> 'a \<Rightarrow> bool"
  assumes asym: "gt x y \<Longrightarrow> \<not> gt y x"
    and trans: "\<not> gt x y \<Longrightarrow> \<not> gt y z \<Longrightarrow> \<not> gt x z"
begin

lemma mset_pass: "mset (pass gt x ys) = mset (x # ys)"
  by (induction ys arbitrary: x) auto

lemma filter_pass: "length (filter P (pass gt x ys)) = length (filter P (x # ys))"
  using mset_pass [of x ys] by (metis mset_filter size_mset)

lemma pass_inversions:
  "inversions gt (pass gt x ys) \<le> inversions gt (x # ys) \<and>
   (\<not> quiet gt x ys \<longrightarrow> inversions gt (pass gt x ys) < inversions gt (x # ys))"
proof (induction ys arbitrary: x)
  case (Cons y ys)
  show ?case
  proof (cases "gt x y")
    case True
    then show ?thesis using Cons.IH [of x] asym [OF True] by (auto simp: filter_pass)
  next
    case False
    then show ?thesis using Cons.IH [of y] by (auto simp: filter_pass)
  qed
qed simp

lemma quiet_pass: "quiet gt x ys \<Longrightarrow> pass gt x ys = x # ys"
  by (induction ys arbitrary: x) auto

lemma quiet_sorted: "quiet gt x ys \<Longrightarrow> sorted_wrt (\<lambda>a b. \<not> gt a b) (x # ys)"
proof (induction ys arbitrary: x)
  case (Cons y ys)
  then show ?case using trans [of x y] by auto
qed simp

end

lemma strcasecmp_swap: "strcasecmp t s = - strcasecmp s t"
  by (induction s t rule: strcasecmp.induct) auto

lemma strcasecmp_trans: "strcasecmp s t \<le> 0 \<Longrightarrow> strcasecmp t u \<le> 0 \<Longrightarrow> strcasecmp s u \<le> 0"
proof (induction s t arbitrary: u rule: strcasecmp.induct)
  case (4 c s d t)
  then show ?case by (cases u) (auto split: if_splits)
qed (case_tac u; auto)+

interpretation titles: text_order "\<lambda>x y. item_gt lang (f x) (f y)" for lang f
proof
  fix x y z
  let ?t = "\<lambda>x. submenuItemGetText lang (f x)"
  show "\<not> item_gt lang (f y) (f x)" if "item_gt lang (f x) (f y)"
    using that strcasecmp_swap [of "?t y" "?t x"] by (simp add: item_gt_def)
  show "\<not> item_gt lang (f x) (f z)" if "\<not> item_gt lang (f x) (f y)" "\<not> item_gt lang (f y) (f z)"
    using that strcasecmp_trans [of "?t x" "?t y" "?t z"] by (simp add: item_gt_def)
qed

section \<open>The sort on the heap\<close>

lemma sort_pass_ok:
  assumes "menu_list h (us @ tip # vs)"
  shows "\<exists>h' ws. sort_pass lang (hd (us @ [tip])) tip srt h =
      Some (h', hd (us @ ws), srt \<and> quiet (\<lambda>x y. item_gt lang (item_at h x) (item_at h y)) tip vs) \<and>
    ws = pass (\<lambda>x y. item_gt lang (item_at h x) (item_at h y)) tip vs \<and>
    menu_list h' (us @ ws) \<and> (\<forall>x. map_option item (h' x) = map_option item (h x))"
  using assms
proof (induction vs arbitrary: us tip srt h)
  case Nil
  then obtain n where "h tip = Some n" "next_node n = None" by (auto simp: menu_list_def)
  then show ?case using Nil by (subst sort_pass.simps) simp
next
  case (Cons v vs)
  obtain t where t: "h tip = Some t" "next_node t = Some v" using Cons.prems by (auto simp: menu_list_def)
  obtain n where n: "h v = Some n" using Cons.prems by (auto simp: menu_list_def)
  have at: "item_at h tip = item t" "item_at h v = item n" using t n by (simp_all add: item_at_def)
  let ?gt = "\<lambda>h x y. item_gt lang (item_at h x) (item_at h y)"
  show ?case
  proof (cases "item_gt lang (item t) (item n)")
    case True
    obtain h1 where h1: "swap tip v h = Some h1" and l1: "menu_list h1 ((us @ [v]) @ tip # vs)"
      and it: "\<And>x. map_option item (h1 x) = map_option item (h x)"
      using swap_neighbours [OF Cons.prems] by auto
    have same: "item_at h1 x = item_at h x" for x
      using it [of x] by (cases "h x"; cases "h1 x") (simp_all add: item_at_def)
    have hd: "(if tip = hd (us @ [tip]) then v else hd (us @ [tip])) = hd ((us @ [v]) @ [tip])"
      using Cons.prems by (cases us) (auto simp: menu_list_def)
    let ?ws = "pass (?gt h) tip vs"
    obtain h' where r: "sort_pass lang (hd ((us @ [v]) @ [tip])) tip False h1 = Some (h', hd ((us @ [v]) @ ?ws), False)"
      and l: "menu_list h' ((us @ [v]) @ ?ws)" and i: "\<And>x. map_option item (h' x) = map_option item (h x)"
      using Cons.IH [OF l1, of False] unfolding same it by auto
    have "sort_pass lang (hd (us @ [tip])) tip srt h =
        sort_pass lang (if tip = hd (us @ [tip]) then v else hd (us @ [tip])) tip False h1"
      using True h1 by (subst sort_pass.simps) (simp add: t n)
    also have "\<dots> = Some (h', hd (us @ v # ?ws), False)" unfolding hd r by simp
    finally show ?thesis using l i True by (intro exI [of _ h']) (simp add: at)
  next
    case False
    have l1: "menu_list h ((us @ [tip]) @ v # vs)" using Cons.prems by simp
    have hd: "hd (us @ [tip]) = hd ((us @ [tip]) @ [v])" by (cases us) simp_all
    show ?thesis
      using Cons.IH [OF l1, of srt] False
      by (subst sort_pass.simps) (auto simp: t n at hd)
  qed
qed

lemma sort_loop_ok:
  assumes "menu_list h xs" and "xs \<noteq> []"
  shows "\<exists>h' ys. sort_loop lang (hd xs) h = Some (h', hd ys) \<and> menu_list h' ys \<and> mset ys = mset xs \<and>
    sorted_wrt (\<lambda>x y. \<not> item_gt lang (item_at h x) (item_at h y)) ys \<and> (\<forall>x. item_at h' x = item_at h x)"
  using assms
proof (induction "inversions (\<lambda>x y. item_gt lang (item_at h x) (item_at h y)) xs" arbitrary: h xs rule: less_induct)
  case less
  obtain x vs where xs: "xs = x # vs" using less.prems(2) by (cases xs) simp_all
  let ?gt = "\<lambda>x y. item_gt lang (item_at h x) (item_at h y)"
  let ?ws = "pass ?gt x vs"
  obtain h1 where p: "sort_pass lang x x True h = Some (h1, hd ?ws, quiet ?gt x vs)" and l1: "menu_list h1 ?ws"
    and it: "\<And>y. map_option item (h1 y) = map_option item (h y)"
    using sort_pass_ok [of h "[]" x vs lang True] less.prems(1) xs by auto
  have same: "item_at h1 y = item_at h y" for y
    using it [of y] by (cases "h y"; cases "h1 y") (simp_all add: item_at_def)
  have m: "mset ?ws = mset xs" using titles.mset_pass [of lang "item_at h" x vs] xs by simp
  show ?case
  proof (cases "quiet ?gt x vs")
    case True
    then have "sorted_wrt (\<lambda>a b. \<not> ?gt a b) xs" and w: "?ws = xs"
      using titles.quiet_sorted [of lang "item_at h"] titles.quiet_pass [of lang "item_at h"] xs by simp_all
    moreover have "sort_loop lang (hd xs) h = Some (h1, hd xs)"
      using p True w xs by (subst sort_loop.simps) simp
    ultimately show ?thesis using l1 same by (intro exI [of _ h1] exI [of _ xs]) simp
  next
    case False
    have ne: "?ws \<noteq> []" using m xs by auto
    have "inversions ?gt ?ws < inversions ?gt xs"
      using titles.pass_inversions [of lang "item_at h" x vs] False xs by simp
    then obtain h' ys where "sort_loop lang (hd ?ws) h1 = Some (h', hd ys)" and "menu_list h' ys" and "mset ys = mset ?ws"
      and "sorted_wrt (\<lambda>a b. \<not> ?gt a b) ys" and "\<forall>y. item_at h' y = item_at h y"
      using less.hyps [of h1 ?ws] l1 ne unfolding same by blast
    moreover from this have "sort_loop lang (hd xs) h = Some (h', hd ys)"
      using p False xs by (subst sort_loop.simps) simp
    ultimately show ?thesis using m by (intro exI [of _ h'] exI [of _ ys]) simp
  qed
qed

lemma submenuSort_ok:
  assumes "menu_list h xs"
  shows "\<exists>h' ys. submenuSort lang (first_of xs None) h = Some (first_of ys None, h') \<and> menu_list h' ys \<and> mset ys = mset xs \<and>
    sorted_wrt (\<lambda>x y. \<not> item_gt lang (item_at h x) (item_at h y)) ys \<and> (\<forall>x. item_at h' x = item_at h x)"
proof (cases xs)
  case Nil
  then show ?thesis using assms by (auto simp: submenuSort_def)
next
  case (Cons x vs)
  then obtain n where n: "h x = Some n" "next_node n = first_of vs None" using assms by (auto simp: menu_list_def)
  show ?thesis
  proof (cases vs)
    case Nil
    then show ?thesis using assms Cons n
      by (intro exI [of _ h] exI [of _ xs]) (simp add: submenuSort_def)
  next
    case (Cons v vs')
    obtain h' ys where s: "sort_loop lang (hd xs) h = Some (h', hd ys)" "menu_list h' ys" and m: "mset ys = mset xs"
      and r: "sorted_wrt (\<lambda>x y. \<not> item_gt lang (item_at h x) (item_at h y)) ys" "\<forall>x. item_at h' x = item_at h x"
      using sort_loop_ok [OF assms] \<open>xs = x # vs\<close> by blast
    have "ys \<noteq> []" using m \<open>xs = x # vs\<close> by auto
    then show ?thesis using s m r n \<open>xs = x # vs\<close> Cons
      by (intro exI [of _ h'] exI [of _ ys]) (simp add: submenuSort_def first_of_def split: list.split)
  qed
qed

section \<open>Walks\<close>

lemma go_back_at:
  assumes "menu_list h xs" and "i < length xs"
  shows "go_back h k (xs ! i) = Some (xs ! (i - k))"
  using assms
proof (induction k arbitrary: i)
  case (Suc k)
  then obtain n where n: "h (xs ! i) = Some n" "prev n = (if i = 0 then None else Some (xs ! (i - 1)))"
    using chain_node [of h xs i] by (auto simp: menu_list_def)
  show ?case using n Suc by (cases i) simp_all
qed simp

lemma go_on_at:
  assumes "menu_list h xs" and "i < length xs"
  shows "go_on h k (xs ! i) = Some (xs ! (min (i + k) (length xs - 1)))"
  using assms
proof (induction k arbitrary: i)
  case (Suc k)
  then obtain n where n: "h (xs ! i) = Some n"
    "next_node n = (if i + 1 < length xs then Some (xs ! (i + 1)) else None)"
    using chain_node [of h xs i] by (auto simp: menu_list_def)
  show ?case
  proof (cases "i + 1 < length xs")
    case True
    then show ?thesis using n Suc.IH [of "i + 1"] Suc.prems by simp
  next
    case False
    then have "min (i + Suc k) (length xs - 1) = i" using Suc.prems by simp
    then show ?thesis using n False by simp
  qed
qed simp

lemma last_node_at:
  assumes "menu_list h xs" and "i < length xs"
  shows "last_node h (xs ! i) = Some (xs ! (length xs - 1))"
  using assms
proof (induction "length xs - 1 - i" arbitrary: i)
  case 0
  then have "i = length xs - 1" by simp
  then show ?case using 0 chain_node [of h xs i] by (subst last_node.simps) (auto simp: menu_list_def)
next
  case (Suc k)
  then have "last_node h (xs ! (i + 1)) = Some (xs ! (length xs - 1))" by (intro Suc.hyps(1)) simp_all
  then show ?case using Suc chain_node [of h xs i] by (subst last_node.simps) (auto simp: menu_list_def)
qed

lemma on_page_at:
  assumes "menu_list h xs" and "j < length xs" and "i < length xs"
  shows "on_page h k (Some (xs ! j)) (xs ! i) = Some (j \<le> i \<and> i < j + k)"
  using assms
proof (induction k arbitrary: j)
  case (Suc k)
  have d: "xs ! j = xs ! i \<longleftrightarrow> j = i"
    using Suc.prems by (simp add: menu_list_def nth_eq_iff_index_eq)
  obtain n where n: "h (xs ! j) = Some n" "next_node n = (if j + 1 < length xs then Some (xs ! (j + 1)) else None)"
    using chain_node [of h xs j] Suc.prems by (auto simp: menu_list_def)
  show ?case
  proof (cases "j + 1 < length xs")
    case True
    then show ?thesis using n d Suc.IH [of "j + 1"] Suc.prems by auto
  next
    case False
    then have "\<not> j < i" using Suc.prems by simp
    then show ?thesis using n d False by (cases k) auto
  qed
qed simp

end
