(* ===== verification/Menu_Props.thy ===== *)
theory Menu_Props
  imports Menu_Spec
begin

text \<open>
  The menus: sorting, moving the selection, and what the removal of an entry leaves behind.
\<close>

section \<open>Sorting\<close>

text \<open>
  C30: Sorting a menu ends with a list, linked correctly in both directions, of the same entries in the order of
  their titles in the language of the screen, letters of both cases being equal; no entry changes and no pointer
  to anything else is followed.
\<close>

theorem menu_sorted:
  assumes "menu_list h xs"
  shows "\<exists>h' ys. submenuSort lang (first_of xs None) h = Some (first_of ys None, h') \<and>
    menu_list h' ys \<and> mset ys = mset xs \<and>
    sorted_wrt (\<lambda>x y. strcasecmp (submenuItemGetText lang (item_at h x)) (submenuItemGetText lang (item_at h y)) \<le> 0) ys \<and>
    (\<forall>x. item_at h' x = item_at h x)"
  using submenuSort_ok [OF assms, of lang] by (simp add: item_gt_def not_less)

definition demo_item :: "string \<Rightarrow> submenu_item" where
  "demo_item t = \<lparr>icon_id = 0, label = t, text_id = - 1, item_id = 7, owner = 0, favourited = False\<rparr>"

definition demo_heap :: heap where
  "demo_heap =
     [10 \<mapsto> \<lparr>item = demo_item ''zelda'', prev = None, next_node = Some 30\<rparr>,
      30 \<mapsto> \<lparr>item = demo_item ''Alpha'', prev = Some 10, next_node = Some 20\<rparr>,
      20 \<mapsto> \<lparr>item = demo_item ''beta'', prev = Some 30, next_node = None\<rparr>]"

lemma demo_list: "menu_list demo_heap [10, 30, 20]"
  by (simp add: menu_list_def demo_heap_def)

lemma menu_sorted_witness:
  "\<forall>lang. \<exists>h' ys. submenuSort lang (Some 10) demo_heap = Some (first_of ys None, h') \<and>
    menu_list h' ys \<and> mset ys = mset [10, 30, 20] \<and>
    sorted_wrt (\<lambda>x y. strcasecmp (submenuItemGetText lang (item_at demo_heap x))
      (submenuItemGetText lang (item_at demo_heap y)) \<le> 0) ys \<and>
    (\<forall>x. item_at h' x = item_at demo_heap x)"
  using menu_sorted [OF demo_list] unfolding first_of_simps by blast

section \<open>Moving\<close>

text \<open>The places of the selection and of the start of the page, among \<open>n\<close> entries, \<open>d\<close> on a page.\<close>

fun place_move :: "nat \<Rightarrow> nat \<Rightarrow> move \<Rightarrow> nat \<times> nat \<Rightarrow> nat \<times> nat" where
  "place_move d n NextV (i, j) = (if i + 1 < n then (i + 1, if i + 1 < j + d then j else i + 1) else (0, 0))"
| "place_move d n PrevV (i, j) = (if 0 < i then (i - 1, if j = i then i - d else j) else (n - 1, n - d))"
| "place_move d n NextPage (i, j) = (if j + 1 < n then (min (j + d) (n - 1), min (j + d) (n - 1)) else (0, 0))"
| "place_move d n PrevPage (i, j) = (if 0 < j then (j - d, j - d) else (n - 1, n - d))"
| "place_move d n FirstPage (i, j) = (0, 0)"
| "place_move d n LastPage (i, j) = (n - 1, n - d)"

definition on_display :: "nat \<Rightarrow> nat \<Rightarrow> nat \<times> nat \<Rightarrow> bool" where
  "on_display d n p \<longleftrightarrow> (case p of (i, j) \<Rightarrow> i < n \<and> j \<le> i \<and> i < j + d)"

definition menu_at :: "nat list \<Rightarrow> menu_item \<Rightarrow> nat \<times> nat \<Rightarrow> bool" where
  "menu_at xs m p \<longleftrightarrow>
     (case p of (i, j) \<Rightarrow> submenu m = Some (xs ! 0) \<and> current m = Some (xs ! i) \<and> pagestart m = Some (xs ! j))"

lemma place_move_on_display:
  "0 < d \<Longrightarrow> on_display d n p \<Longrightarrow> on_display d n (place_move d n op p)"
  by (cases p; cases op) (auto simp: on_display_def)

lemma last_page_at:
  assumes "menu_list h xs" and "menu_at xs m (i, j)" and "i < length xs" and "0 < d"
  shows "\<exists>m'. menuLastPage d h m = Some m' \<and> menu_at xs m' (length xs - 1, length xs - d)"
proof -
  have "length xs - 1 - (d - 1) = length xs - d" using assms(4) by simp
  then show ?thesis
    using assms last_node_at [OF assms(1,3)] go_back_at [OF assms(1), of "length xs - 1" "d - 1"]
    by (simp add: menuLastPage_def menu_at_def)
qed

lemma first_page_at: "menu_at xs m (i, j) \<Longrightarrow> menu_at xs (menuFirstPage m) (0, 0)"
  by (simp add: menuFirstPage_def menu_at_def)

lemma menu_move_at:
  assumes l: "menu_list h xs" and m: "menu_at xs m p" and p: "on_display d (length xs) p" and d: "0 < d"
  shows "\<exists>m'. menu_move d h op m = Some m' \<and> menu_at xs m' (place_move d (length xs) op p)"
proof -
  obtain i j where ij: "p = (i, j)" by force
  have i: "i < length xs" "j < length xs" "j \<le> i" "i < j + d" using p ij by (auto simp: on_display_def)
  obtain n where n: "h (xs ! i) = Some n" "prev n = (if i = 0 then None else Some (xs ! (i - 1)))"
      "next_node n = (if i + 1 < length xs then Some (xs ! (i + 1)) else None)"
    using chain_node [of h xs i] l i by (auto simp: menu_list_def)
  obtain nj where nj: "h (xs ! j) = Some nj" "prev nj = (if j = 0 then None else Some (xs ! (j - 1)))"
      "next_node nj = (if j + 1 < length xs then Some (xs ! (j + 1)) else None)"
    using chain_node [of h xs j] l i by (auto simp: menu_list_def)
  have eq: "xs ! j = xs ! i \<longleftrightarrow> j = i" using l i by (simp add: menu_list_def nth_eq_iff_index_eq)
  have m': "current m = Some (xs ! i)" "pagestart m = Some (xs ! j)" "submenu m = Some (xs ! 0)"
    using m ij by (simp_all add: menu_at_def)
  note lastp = last_page_at [OF l m [unfolded ij] i(1) d]
  note firstp = first_page_at [OF m [unfolded ij]]
  show ?thesis
  proof (cases op)
    case NextV
    show ?thesis
    proof (cases "i + 1 < length xs")
      case True
      then have "on_page h d (Some (xs ! j)) (xs ! (i + 1)) = Some (i + 1 < j + d)"
        using on_page_at [OF l i(2), of "i + 1" d] i(3) by simp
      then show ?thesis using NextV True n m' ij by (simp add: menuNextV_def menu_at_def)
    qed (use NextV n m' ij firstp in \<open>simp add: menuNextV_def\<close>)
  next
    case PrevV
    show ?thesis
    proof (cases "i = 0")
      case False
      then show ?thesis using PrevV n m' ij eq go_back_at [OF l i(1), of d] by (simp add: menuPrevV_def menu_at_def)
    qed (use PrevV n m' ij lastp in \<open>simp add: menuPrevV_def\<close>)
  next
    case NextPage
    show ?thesis
    proof (cases "j + 1 < length xs")
      case True
      then show ?thesis using NextPage nj m' ij go_on_at [OF l i(2), of d] by (simp add: menuNextPage_def menu_at_def)
    qed (use NextPage nj m' ij firstp in \<open>simp add: menuNextPage_def\<close>)
  next
    case PrevPage
    show ?thesis
    proof (cases "j = 0")
      case False
      then show ?thesis using PrevPage nj m' ij go_back_at [OF l i(2), of d] by (simp add: menuPrevPage_def menu_at_def)
    qed (use PrevPage nj m' ij lastp in \<open>simp add: menuPrevPage_def\<close>)
  qed (use ij firstp lastp in simp_all)
qed

fun menu_moves :: "nat \<Rightarrow> heap \<Rightarrow> move list \<Rightarrow> menu_item \<Rightarrow> menu_item option" where
  "menu_moves d h [] m = Some m"
| "menu_moves d h (op # ops) m = do { m \<leftarrow> menu_move d h op m; menu_moves d h ops m }"

lemma menu_moves_at:
  assumes "menu_list h xs" and "menu_at xs m p" and "on_display d (length xs) p" and "0 < d"
  shows "\<exists>m' p'. menu_moves d h ops m = Some m' \<and> menu_at xs m' p' \<and> on_display d (length xs) p' \<and>
    p' = fold (place_move d (length xs)) ops p"
  using assms(2,3)
proof (induction ops arbitrary: m p)
  case (Cons op ops)
  obtain m1 where "menu_move d h op m = Some m1" and "menu_at xs m1 (place_move d (length xs) op p)"
    using menu_move_at [OF assms(1) Cons.prems assms(4)] by blast
  then show ?case using Cons.IH [of m1] place_move_on_display [OF assms(4) Cons.prems(2), of op] by simp
qed force

text \<open>
  C31: Whatever sequence of moves the user makes in a menu (up, down, pages, first, last), the selection and
  the start of the page are entries of the list, namely those that the arithmetic of their places says, and the
  selection is among the entries displayed; no move follows a pointer out of the list.
\<close>

theorem selection_stays_displayed:
  assumes "menu_list h (x # xs)" and "0 < d"
    and "submenu m = Some x" and "current m = Some x" and "pagestart m = Some x"
  shows "\<exists>m' i j. menu_moves d h ops m = Some m' \<and>
    (i, j) = fold (place_move d (length (x # xs))) ops (0, 0) \<and>
    current m' = Some ((x # xs) ! i) \<and> pagestart m' = Some ((x # xs) ! j) \<and>
    i < length (x # xs) \<and> j \<le> i \<and> i < j + d"
proof -
  have "menu_at (x # xs) m (0, 0)" using assms(3-5) by (simp add: menu_at_def)
  moreover have "on_display d (length (x # xs)) (0, 0)" using assms(2) by (simp add: on_display_def)
  ultimately obtain m' p' where "menu_moves d h ops m = Some m'" "menu_at (x # xs) m' p'"
    "on_display d (length (x # xs)) p'" "p' = fold (place_move d (length (x # xs))) ops (0, 0)"
    using menu_moves_at [OF assms(1) _ _ assms(2)] by blast
  then show ?thesis
    by (cases p') (auto simp: menu_at_def on_display_def)
qed

lemma selection_stays_displayed_witness:
  "\<exists>m' i j. menu_moves 2 demo_heap [PrevV, PrevV, PrevPage, NextV] \<lparr>submenu = Some 10, current = Some 10, pagestart = Some 10\<rparr> = Some m' \<and>
    (i, j) = fold (place_move 2 3) [PrevV, PrevV, PrevPage, NextV] (0, 0) \<and>
    current m' = Some ([10, 30, 20] ! i) \<and> pagestart m' = Some ([10, 30, 20] ! j) \<and> i < 3 \<and> j \<le> i \<and> i < j + 2"
  using selection_stays_displayed [OF demo_list, of 2 "\<lparr>submenu = Some 10, current = Some 10, pagestart = Some 10\<rparr>"
      "[PrevV, PrevV, PrevPage, NextV]"] by simp

section \<open>Removing\<close>

text \<open>
  The entry behind a removed one still points back to it: the next move up from there follows a pointer to
  freed memory.
\<close>

lemma removal_leaves_pointer:
  assumes "menu_list h [a, b]" and "item_id (item_at h a) = i" and "item_id (item_at h b) \<noteq> i"
  shows "\<exists>h'. submenuRemoveItem (Some a) i h = Some (Some b, h') \<and> h' a = None \<and> prev (the (h' b)) = Some a"
proof -
  obtain na nb where "h a = Some na" "next_node na = Some b" "h b = Some nb" "prev nb = Some a" "next_node nb = None" "a \<noteq> b"
    using assms(1) by (auto simp: menu_list_def)
  then show ?thesis
    using assms(2,3) unfolding submenuRemoveItem_def item_at_def
    by (subst remove_items.simps, subst remove_items.simps, subst remove_items.simps) simp
qed

end

