(* ===== verification/Game_Files.thy ===== *)
theory Game_Files
  imports Cstrings
begin

text \<open>
  The files of installed games (\<^verbatim>\<open>src/supportbase.c\<close>): a game is a disc image in \<^verbatim>\<open>CD\<close> or \<^verbatim>\<open>DVD\<close>, or a
  USBExtreme game, an entry of 64 bytes in \<^verbatim>\<open>ul.cfg\<close> with its image in parts whose names hold a checksum of
  the game's name. Here are the entries, the names of the files, and the operations that delete and rename.
  A drive is a map from paths to the characters of the files; an array of characters is what it starts with,
  and zeros behind. An access outside of an array is \<open>None\<close>.
\<close>

type_synonym drive = "string \<rightharpoonup> string"

text \<open>The first \<open>n\<close> bytes of an array that holds \<open>s\<close>, and zeros behind.\<close>

definition arr :: "nat \<Rightarrow> string \<Rightarrow> string" where
  "arr n s = take n (s @ replicate n NUL)"

definition byte_char :: "u8 \<Rightarrow> char" where
  "byte_char b = char_of (unat b)"

datatype game_format = GAME_FORMAT_USBLD | GAME_FORMAT_OLD_ISO | GAME_FORMAT_ISO

record base_game_info =
  gname :: string
  startup :: string
  extension :: string
  parts :: u8
  media :: u8
  gformat :: game_format
  sizeMB :: u32

abbreviation SCECdPS2CD :: u8 where "SCECdPS2CD \<equiv> 0x12"
abbreviation SCECdPS2DVD :: u8 where "SCECdPS2DVD \<equiv> 0x14"

section \<open>The checksum of a game's name\<close>

text \<open>
  \<^verbatim>\<open>USBA_crc32\<close> of \<^verbatim>\<open>src/system.c\<close>. Its table is filled from the end, so its last value, which the
  register then starts from, is entry 0. \<^verbatim>\<open>char\<close> is signed: a byte from 128 on is an index before the table.
\<close>

fun crc_shift :: "nat \<Rightarrow> u32 \<Rightarrow> u32" where
  "crc_shift 0 crc = crc"
| "crc_shift (Suc k) crc =
     crc_shift k (if bit crc 31 then push_bit 1 crc else push_bit 1 crc XOR 0x04C11DB7)"

definition crctab :: "nat \<Rightarrow> u32" where
  "crctab i = crc_shift 8 (push_bit 24 (of_nat (255 - i)))"

definition crc_char :: "u32 \<Rightarrow> char \<Rightarrow> u32 option" where
  "crc_char crc c =
     (if 128 \<le> (of_char c :: nat) then None
      else Some (crctab (unat (of_char c XOR (drop_bit 24 crc AND 0xFF))) XOR (push_bit 8 crc AND 0xFFFFFF00)))"

text \<open>The terminating zero is included, and the loop ends after 33 characters.\<close>

fun crc_string :: "nat \<Rightarrow> u32 \<Rightarrow> string \<Rightarrow> u32 option" where
  "crc_string n crc [] = crc_char crc NUL"
| "crc_string n crc (c # s) = do { crc \<leftarrow> crc_char crc c; if n = 0 then Some crc else crc_string (n - 1) crc s }"

definition USBA_crc32 :: "string \<Rightarrow> u32 option" where
  "USBA_crc32 s = crc_string 32 (crctab 0) (cstr_of s)"

section \<open>Names of the files\<close>

text \<open>\<^verbatim>\<open>%08X\<close> and \<^verbatim>\<open>%02x\<close>.\<close>

definition show_hex8 :: "u32 \<Rightarrow> string" where
  "show_hex8 w = map (\<lambda>i. toHex (unat (drop_bit (4 * (7 - i)) w AND 0xF))) [0 ..< 8]"

definition hex_lower :: "nat \<Rightarrow> char" where
  "hex_lower d = (if d < 10 then char_of (48 + d) else char_of (87 + d))"

fun show_hex :: "nat \<Rightarrow> string" where
  "show_hex n = (if n < 16 then [hex_lower n] else show_hex (n div 16) @ [hex_lower (n mod 16)])"

declare show_hex.simps [simp del]

definition pad2 :: "string \<Rightarrow> string" where
  "pad2 s = (if length s < 2 then CHR ''0'' # s else s)"

text \<open>\<^verbatim>\<open>snprintf(path, 256, ...)\<close>\<close>

definition snprintf256 :: "string \<Rightarrow> string" where
  "snprintf256 s = take 255 s"

definition media_dir :: "u8 \<Rightarrow> string" where
  "media_dir m = (if m = SCECdPS2CD then ''CD'' else ''DVD'')"

definition sbCreatePath_name :: "base_game_info \<Rightarrow> string \<Rightarrow> string \<Rightarrow> nat \<Rightarrow> string \<Rightarrow> string option" where
  "sbCreatePath_name game prefix sep part name =
     (case gformat game of
        GAME_FORMAT_USBLD \<Rightarrow> do {
          crc \<leftarrow> USBA_crc32 name;
          Some (snprintf256 (prefix @ ''ul.'' @ show_hex8 crc @ ''.'' @ cstr_of (startup game) @ ''.'' @ pad2 (show_hex part)))
        }
      | GAME_FORMAT_ISO \<Rightarrow>
          Some (snprintf256 (prefix @ media_dir (media game) @ sep @ cstr_of name @ cstr_of (extension game)))
      | GAME_FORMAT_OLD_ISO \<Rightarrow>
          Some (snprintf256 (prefix @ media_dir (media game) @ sep @ cstr_of (startup game) @ ''.'' @ cstr_of name @
                             cstr_of (extension game))))"

definition sbCreatePath :: "base_game_info \<Rightarrow> string \<Rightarrow> string \<Rightarrow> nat \<Rightarrow> string option" where
  "sbCreatePath game prefix sep part = sbCreatePath_name game prefix sep part (gname game)"

section \<open>Entries of ul.cfg\<close>

text \<open>\<^verbatim>\<open>USBExtreme_game_entry_t\<close> as it is written.\<close>

definition ul_entry :: "base_game_info \<Rightarrow> string" where
  "ul_entry g =
     arr 32 (gname g) @ ''ul.'' @ arr 12 (startup g) @ [byte_char (parts g), byte_char (media g)] @ replicate 4 NUL @
     [CHR 0x08] @ replicate 10 NUL"

text \<open>A game as \<^verbatim>\<open>sbReadList\<close> copies it from an entry.\<close>

definition game_of_entry :: "string \<Rightarrow> base_game_info" where
  "game_of_entry e =
     \<lparr>gname = take 32 e, startup = take 12 (drop 35 e), extension = [], parts = of_char (e ! 47),
      media = of_char (e ! 48), gformat = GAME_FORMAT_USBLD, sizeMB = 0\<rparr>"

text \<open>
  The loop that reads the entries, into an array with \<open>room\<close> elements left. A read at the end of the file
  leaves the rest of the entry as it was; \<open>prev\<close> is empty as long as nothing has been read.
\<close>

function ul_loop :: "nat \<Rightarrow> string \<Rightarrow> string \<Rightarrow> base_game_info list option" where
  "ul_loop room prev f =
     (if f = [] then Some []
      else if room = 0 then None
      else
        (let e = take 64 f @ drop (length (take 64 f)) prev in
         if length e < 64 then None
         else do { rest \<leftarrow> ul_loop (room - 1) e (drop 64 f); Some (game_of_entry e # rest) }))"
  by auto
termination by (relation "measure (\<lambda>(room, prev, f). length f)") auto

declare ul_loop.simps [simp del]

text \<open>The entries of the games in the list, without that at \<open>excludeID\<close>.\<close>

definition sbRebuildULCfg :: "base_game_info list \<Rightarrow> string \<Rightarrow> nat option \<Rightarrow> drive \<Rightarrow> drive" where
  "sbRebuildULCfg games prefix excludeID d =
     d(snprintf256 (prefix @ ''ul.cfg'') \<mapsto>
       concat (map (\<lambda>(i, g). ul_entry g)
         (filter (\<lambda>(i, g). gformat g = GAME_FORMAT_USBLD \<and> excludeID \<noteq> Some i) (enumerate 0 games))))"

section \<open>Deleting and renaming\<close>

text \<open>\<^verbatim>\<open>unlink\<close> and \<^verbatim>\<open>rename\<close>; a rename of a file that is not there fails, and changes nothing.\<close>

definition remove_file :: "string \<Rightarrow> drive \<Rightarrow> drive" where
  "remove_file p d = d(p := None)"

definition rename_file :: "string \<Rightarrow> string \<Rightarrow> drive \<Rightarrow> drive" where
  "rename_file p q d = (case d p of None \<Rightarrow> d | Some c \<Rightarrow> (d(p := None))(q \<mapsto> c))"

fun delete_parts :: "(nat \<Rightarrow> string option) \<Rightarrow> nat list \<Rightarrow> drive \<Rightarrow> drive option" where
  "delete_parts path [] d = Some d"
| "delete_parts path (i # is) d = do { p \<leftarrow> path i; delete_parts path is (remove_file p d) }"

definition sbDelete :: "base_game_info list \<Rightarrow> string \<Rightarrow> string \<Rightarrow> nat \<Rightarrow> drive \<Rightarrow> drive option" where
  "sbDelete games prefix sep k d =
     (if length games \<le> k then None
      else do {
        let game = games ! k;
        d \<leftarrow> delete_parts (sbCreatePath game prefix sep) [0 ..< unat (parts game)] d;
        Some (if gformat game = GAME_FORMAT_USBLD then sbRebuildULCfg games prefix (Some k) d else d)
      })"

fun rename_parts :: "(nat \<Rightarrow> string option) \<Rightarrow> (nat \<Rightarrow> string option) \<Rightarrow> nat list \<Rightarrow> drive \<Rightarrow> drive option" where
  "rename_parts old new [] d = Some d"
| "rename_parts old new (i # is) d = do { p \<leftarrow> old i; q \<leftarrow> new i; rename_parts old new is (rename_file p q d) }"

text \<open>\<open>newname\<close> is an array of at least 33 characters (\<^verbatim>\<open>menuRenameGame\<close>).\<close>

definition sbRename ::
  "base_game_info list \<Rightarrow> string \<Rightarrow> string \<Rightarrow> nat \<Rightarrow> string \<Rightarrow> drive \<Rightarrow> (base_game_info list \<times> drive) option" where
  "sbRename games prefix sep k newname d =
     (if length games \<le> k then None
      else do {
        let game = games ! k;
        d \<leftarrow> rename_parts (sbCreatePath game prefix sep) (\<lambda>i. sbCreatePath_name game prefix sep i newname)
               [0 ..< unat (parts game)] d;
        if gformat game = GAME_FORMAT_USBLD
        then (let games = games[k := game\<lparr>gname := arr 32 newname\<rparr>] in
              Some (games, sbRebuildULCfg games prefix None d))
        else Some (games, d)
      })"

section \<open>Entries are read as they are written\<close>

lemma length_arr [simp]: "length (arr n s) = n"
  by (simp add: arr_def)

lemma arr_id [simp]: "length s = n \<Longrightarrow> arr n s = s"
  by (simp add: arr_def)

lemma arr_take: "arr n (take n s) = arr n s"
  by (auto simp: arr_def min_def)

lemma cstr_of_replicate [simp]: "cstr_of (replicate n NUL) = []"
  by (induction n) (auto simp: cstr_of_def)

lemma cstr_of_append_NUL: "cstr_of (s @ replicate n NUL) = cstr_of s"
proof -
  have "takeWhile (\<lambda>c. c \<noteq> NUL) (replicate n NUL) = []" by (cases n) auto
  then show ?thesis by (induction s) (auto simp: cstr_of_def)
qed

lemma cstr_of_arr: "NUL \<notin> set s \<Longrightarrow> length s \<le> n \<Longrightarrow> cstr_of (arr n s) = s"
proof -
  assume "NUL \<notin> set s" and "length s \<le> n"
  then have "arr n s = s @ replicate (n - length s) NUL" by (simp add: arr_def)
  then show ?thesis using \<open>NUL \<notin> set s\<close> by (simp add: cstr_of_append_NUL cstr_of_id)
qed

lemma length_ul_entry [simp]: "length (ul_entry g) = 64"
  by (simp add: ul_entry_def)

text \<open>A game as it comes from a file.\<close>

definition ul_game :: "base_game_info \<Rightarrow> bool" where
  "ul_game g \<longleftrightarrow> length (gname g) = 32 \<and> length (startup g) = 12 \<and> extension g = [] \<and>
     gformat g = GAME_FORMAT_USBLD \<and> sizeMB g = 0"

lemma ul_game_of_entry: "length e = 64 \<Longrightarrow> ul_game (game_of_entry e)"
  by (simp add: ul_game_def game_of_entry_def)

lemma of_char_byte [simp]: "of_char (byte_char b) = b"
proof -
  have "(of_char (byte_char b) :: u8) = of_nat (of_char (byte_char b))" by (simp add: of_nat_of_char)
  also have "(of_char (byte_char b) :: nat) = unat b"
  proof -
    have "unat b < 2 ^ LENGTH(8)" by (rule unsigned_less)
    then show ?thesis by (simp add: byte_char_def of_char_of)
  qed
  finally show ?thesis by simp
qed

lemma nth_behind: "length xs = n \<Longrightarrow> (xs @ ys) ! (n + k) = ys ! k"
  by auto

lemma game_of_ul_entry:
  assumes "ul_game g"
  shows "game_of_entry (ul_entry g) = g"
proof -
  define tl where "tl = replicate 4 NUL @ [CHR 0x08] @ replicate 10 NUL"
  have g: "length (gname g) = 32" "length (startup g) = 12" using assms by (simp_all add: ul_game_def)
  have e: "ul_entry g = (gname g @ ''ul.'' @ startup g) @ [byte_char (parts g), byte_char (media g)] @ tl"
    using g by (simp add: ul_entry_def tl_def)
  have "ul_entry g ! 47 = byte_char (parts g)" and "ul_entry g ! 48 = byte_char (media g)"
    unfolding e using g nth_behind [of "gname g @ ''ul.'' @ startup g" 47 _ 0]
      nth_behind [of "gname g @ ''ul.'' @ startup g" 47 _ 1] by simp_all
  moreover have "take 32 (ul_entry g) = gname g" "take 12 (drop 35 (ul_entry g)) = startup g"
    unfolding e using g by simp_all
  ultimately show ?thesis
    using assms by (simp add: game_of_entry_def ul_game_def)
qed

lemma ul_loop_entries:
  assumes "list_all ul_game gs" and "length gs \<le> room" and "length prev \<le> 64"
  shows "ul_loop room prev (concat (map ul_entry gs)) = Some gs"
  using assms
proof (induction gs arbitrary: room prev)
  case Nil
  then show ?case by (simp add: ul_loop.simps)
next
  case (Cons g gs)
  then have r: "room \<noteq> 0" and gs: "list_all ul_game gs" "length gs \<le> room - Suc 0" and g: "ul_game g" by auto
  have "ul_entry g \<noteq> []" using length_ul_entry [of g] by (metis list.size(3) zero_neq_numeral)
  then show ?case
    using r by (subst ul_loop.simps) (simp add: Let_def Cons.IH [OF gs] Cons.prems(3) game_of_ul_entry [OF g])
qed

end
