(* ===== verification/Game_Cnf.thy ===== *)
theory Game_Cnf
  imports Game_Files
begin

text \<open>
  The name of a disc's program (\<^verbatim>\<open>src/ps2cnf.c\<close>, and \<^verbatim>\<open>GetStartupExecName\<close> of \<^verbatim>\<open>src/supportbase.c\<close>): the
  file \<^verbatim>\<open>SYSTEM.CNF\<close> has a line \<^verbatim>\<open>BOOT2 = cdrom0:\SLUS_123.45;1\<close>. A pointer into the text is the rest of the
  text from there; the zero behind the text is its end. An error is the code's negative or \<^verbatim>\<open>errno\<close> value.
\<close>

section \<open>The parser\<close>

text \<open>What \<^verbatim>\<open>CNFGetToken\<close> and \<^verbatim>\<open>CNFGetKey\<close> return: \<open>-1\<close>, a null pointer, or a place in the text.\<close>

datatype 'a token = Unexpected_end | No_match | At 'a

fun match_key :: "string \<Rightarrow> string \<Rightarrow> string token" where
  "match_key [] s = At s"
| "match_key (k # ks) [] = Unexpected_end"
| "match_key (k # ks) (c # s) = (if c = NUL then Unexpected_end else if c \<noteq> k then No_match else match_key ks s)"

definition CNFGetToken :: "string \<Rightarrow> string \<Rightarrow> string token" where
  "CNFGetToken cnf key = match_key key (dropWhile is_space cnf)"

fun CNFAdvanceLine :: "string \<Rightarrow> string option" where
  "CNFAdvanceLine [] = None"
| "CNFAdvanceLine (c # s) = (if c = CHR 0x0A then (if s = [] then None else Some s) else CNFAdvanceLine s)"

definition is_graph :: "char \<Rightarrow> bool" where
  "is_graph c \<longleftrightarrow> 33 \<le> (of_char c :: nat) \<and> (of_char c :: nat) \<le> 126"

abbreviation (input) CNF_PATH_LEN_MAX :: nat where "CNF_PATH_LEN_MAX \<equiv> 64"
abbreviation (input) CNF_LEN_MAX :: nat where "CNF_LEN_MAX \<equiv> 1024"

text \<open>The characters that the loop stores. At a character of no kind it stays until its counter runs out.\<close>

fun copy_key :: "nat \<Rightarrow> string \<Rightarrow> string" where
  "copy_key 0 line = []"
| "copy_key (Suc n) [] = []"
| "copy_key (Suc n) (c # line) =
     (if c = NUL then []
      else if is_graph c then c # copy_key n line
      else if is_space c then []
      else copy_key n (c # line))"

definition CNFGetKey :: "string \<Rightarrow> string token" where
  "CNFGetKey line =
     (let line = dropWhile is_space line in
      if line = [] \<or> hd line = NUL then Unexpected_end else At (copy_key CNF_PATH_LEN_MAX line))"

lemma CNFAdvanceLine_shorter: "CNFAdvanceLine s = Some t \<Longrightarrow> length t < length s"
  by (induction s) (auto split: if_splits)

function find_boot :: "string \<Rightarrow> string token" where
  "find_boot cnf =
     (case CNFGetToken cnf ''BOOT2'' of
        No_match \<Rightarrow> (case CNFAdvanceLine cnf of None \<Rightarrow> Unexpected_end | Some cnf' \<Rightarrow> find_boot cnf')
      | t \<Rightarrow> t)"
  by auto
termination by (relation "measure length") (auto simp: CNFAdvanceLine_shorter)

declare find_boot.simps [simp del]

text \<open>
  What is stored in \<^verbatim>\<open>bootfile\<close>, an array of 64 zeros: 64 characters leave it without an end. Without the
  equals sign, \<^verbatim>\<open>CNFGetKey\<close> is called with the null pointer.
\<close>

definition ps2cnfGetBootFile :: "string option \<Rightarrow> (int + string) option" where
  "ps2cnfGetBootFile file =
     (case file of
        None \<Rightarrow> Some (Inl 2)
      | Some f \<Rightarrow>
          (case find_boot (take (CNF_LEN_MAX - 1) f) of
             At p \<Rightarrow>
               (case CNFGetToken p ''='' of
                  Unexpected_end \<Rightarrow> Some (Inl (- 1))
                | No_match \<Rightarrow> None
                | At q \<Rightarrow> (case CNFGetKey q of At w \<Rightarrow> Some (Inr w) | _ \<Rightarrow> Some (Inl (- 1))))
           | _ \<Rightarrow> Some (Inl (- 1))))"

text \<open>The search for the end of the name in an array without an end leaves it.\<close>

definition GetStartupExecName :: "string option \<Rightarrow> nat \<Rightarrow> (int + string) option" where
  "GetStartupExecName file maxlength = do {
     r \<leftarrow> ps2cnfGetBootFile file;
     (case r of
        Inl e \<Rightarrow> Some (Inl e)
      | Inr w \<Rightarrow>
          (let key = dropWhile (\<lambda>c. c \<noteq> CHR '':'') w in
           if key = [] then (if length w < CNF_PATH_LEN_MAX then Some (Inl (- 1)) else None)
           else
             (let start = dropWhile (\<lambda>c. c = CHR 0x5C) (tl key);
                  name = takeWhile (\<lambda>c. c \<noteq> CHR '';'') start in
              if name = start \<and> \<not> length w < CNF_PATH_LEN_MAX then None
              else if take maxlength name = [] then Some (Inl (- 1))
              else Some (Inr (take maxlength name)))))
   }"

section \<open>What it finds\<close>

lemma match_key_self [simp]: "match_key k (k @ s) = At s" if "NUL \<notin> set k"
  using that by (induction k) auto

lemma match_key_No_match: "match_key k s = No_match \<Longrightarrow> match_key k (s @ t) = No_match"
  by (induction k s rule: match_key.induct) (auto split: if_splits)

lemma copy_key_graph:
  assumes "list_all is_graph w" and "length w < n" and "t = [] \<or> \<not> is_graph (hd t)"
  shows "copy_key n (w @ t) = w"
  using assms
proof (induction w arbitrary: n)
  case Nil
  have "copy_key k t = []" for k
    using Nil.prems(3) by (induction k t rule: copy_key.induct) auto
  then show ?case by simp
next
  case (Cons c w)
  then obtain m where "n = Suc m" by (cases n) auto
  moreover have "c \<noteq> NUL" using Cons.prems(1) by (auto simp: is_graph_def)
  ultimately show ?case using Cons by auto
qed

text \<open>A line in front of that with the name: blank, or it says something else.\<close>

definition other_line :: "string \<Rightarrow> bool" where
  "other_line l \<longleftrightarrow> CHR 0x0A \<notin> set l \<and>
     (list_all is_space l \<or> match_key ''BOOT2'' (dropWhile is_space l @ [CHR 0x0A]) = No_match)"

definition cnf_lines :: "string list \<Rightarrow> string" where
  "cnf_lines ls = concat (map (\<lambda>l. l @ [CHR 0x0A]) ls)"

lemma CNFAdvanceLine_line:
  "CHR 0x0A \<notin> set l \<Longrightarrow> s \<noteq> [] \<Longrightarrow> CNFAdvanceLine (l @ CHR 0x0A # s) = Some s"
  by (induction l) auto

lemma dropWhile_all: "list_all P l \<Longrightarrow> dropWhile P (l @ s) = dropWhile P s"
  by (induction l) auto

lemma space_lf: "is_space (CHR 0x0A)"
  by (simp add: is_space_def)

lemma find_boot_token: "CNFGetToken s ''BOOT2'' = t \<Longrightarrow> t = No_match \<or> find_boot s = t"
  by (subst find_boot.simps) (auto split: token.split)

lemma find_boot_skips:
  assumes "other_line l" and "s \<noteq> []"
  shows "find_boot (l @ CHR 0x0A # s) = find_boot s"
proof -
  have adv: "CNFAdvanceLine (l @ CHR 0x0A # s) = Some s"
    using assms by (auto simp: other_line_def intro: CNFAdvanceLine_line)
  have tok: "CNFGetToken (l @ CHR 0x0A # s) ''BOOT2'' \<in> {No_match, CNFGetToken s ''BOOT2''}"
  proof (cases "list_all is_space l")
    case True
    then have "dropWhile is_space (l @ CHR 0x0A # s) = dropWhile is_space s"
      by (simp add: dropWhile_all space_lf)
    then show ?thesis by (simp add: CNFGetToken_def)
  next
    case False
    then have "dropWhile is_space (l @ CHR 0x0A # s) = (dropWhile is_space l @ [CHR 0x0A]) @ s"
      by (induction l) auto
    moreover have "match_key ''BOOT2'' (dropWhile is_space l @ [CHR 0x0A]) = No_match"
      using False assms(1) by (simp add: other_line_def)
    ultimately show ?thesis by (simp only: CNFGetToken_def match_key_No_match insert_iff simp_thms)
  qed
  show ?thesis
  proof (cases "CNFGetToken (l @ CHR 0x0A # s) ''BOOT2'' = No_match")
    case True
    then show ?thesis by (subst find_boot.simps) (simp add: adv)
  next
    case False
    then have "find_boot (l @ CHR 0x0A # s) = CNFGetToken s ''BOOT2''"
      using tok by (subst find_boot.simps) (auto split: token.split)
    then show ?thesis using find_boot_token [OF refl, of s] False tok by auto
  qed
qed

lemma find_boot_lines:
  assumes "list_all other_line ls" and "s \<noteq> []"
  shows "find_boot (cnf_lines ls @ s) = find_boot s"
  using assms
proof (induction ls)
  case Nil
  then show ?case by (simp add: cnf_lines_def)
next
  case (Cons l ls)
  have "find_boot (l @ CHR 0x0A # cnf_lines ls @ s) = find_boot (cnf_lines ls @ s)"
    using Cons.prems by (intro find_boot_skips) auto
  then show ?case using Cons by (simp add: cnf_lines_def)
qed

text \<open>The path of a program, as it stands in the file.\<close>

definition boot_path :: "string \<Rightarrow> nat \<Rightarrow> string \<Rightarrow> string" where
  "boot_path dev k name = dev @ CHR '':'' # replicate k (CHR 0x5C) @ name @ '';1''"

definition exec_name_ok :: "string \<Rightarrow> bool" where
  "exec_name_ok name \<longleftrightarrow> name \<noteq> [] \<and> list_all is_graph name \<and> CHR '';'' \<notin> set name \<and> hd name \<noteq> CHR 0x5C"

definition names_program :: "string \<Rightarrow> string \<Rightarrow> bool" where
  "names_program f name \<longleftrightarrow>
     (\<exists>ls sp1 sp2 sp3 dev k t.
        take (CNF_LEN_MAX - 1) f =
          cnf_lines ls @ sp1 @ ''BOOT2'' @ sp2 @ ''='' @ sp3 @ boot_path dev k name @ t \<and>
        list_all other_line ls \<and> list_all is_space sp1 \<and> list_all is_space sp2 \<and> list_all is_space sp3 \<and>
        list_all is_graph dev \<and> CHR '':'' \<notin> set dev \<and> exec_name_ok name \<and>
        length (boot_path dev k name) < CNF_PATH_LEN_MAX \<and> (t = [] \<or> \<not> is_graph (hd t)))"

lemma graph_not_space: "is_graph c \<Longrightarrow> \<not> is_space c \<and> c \<noteq> NUL"
  by (auto simp: is_graph_def is_space_def)

lemma dropWhile_not: "\<not> P (hd s) \<Longrightarrow> s \<noteq> [] \<Longrightarrow> dropWhile P s = s"
  by (cases s) auto

lemma takeWhile_stop: "c \<notin> set s \<Longrightarrow> takeWhile (\<lambda>x. x \<noteq> c) (s @ c # t) = s"
  by (induction s) auto

lemma boot_path_graph:
  assumes "list_all is_graph dev" and "exec_name_ok name"
  shows "list_all is_graph (boot_path dev k name)"
  using assms by (auto simp: boot_path_def exec_name_ok_def list_all_iff is_graph_def)

lemma CNFGetKey_path:
  assumes "list_all is_graph w" and "w \<noteq> []" and "length w < CNF_PATH_LEN_MAX"
    and "list_all is_space sp" and "t = [] \<or> \<not> is_graph (hd t)"
  shows "CNFGetKey (sp @ w @ t) = At w"
proof -
  have h: "is_graph (hd w)" using assms(1,2) by (cases w) auto
  then have "dropWhile is_space (sp @ w @ t) = w @ t"
    using assms(2,4) graph_not_space by (simp add: dropWhile_all dropWhile_not)
  then show ?thesis
    using h assms graph_not_space copy_key_graph [OF assms(1,3,5)] by (simp add: CNFGetKey_def)
qed

lemma GetStartupExecName_found:
  assumes "names_program f name" and "length name \<le> n"
  shows "GetStartupExecName (Some f) n = Some (Inr name)"
proof -
  obtain ls sp1 sp2 sp3 dev k t where
    f: "take (CNF_LEN_MAX - 1) f = cnf_lines ls @ sp1 @ ''BOOT2'' @ sp2 @ ''='' @ sp3 @ boot_path dev k name @ t"
    and ok: "list_all other_line ls" "list_all is_space sp1" "list_all is_space sp2" "list_all is_space sp3"
      "list_all is_graph dev" "CHR '':'' \<notin> set dev" "exec_name_ok name"
      "length (boot_path dev k name) < CNF_PATH_LEN_MAX" "t = [] \<or> \<not> is_graph (hd t)"
    using assms(1) unfolding names_program_def by blast
  let ?w = "boot_path dev k name"
  let ?eq = "''='' @ sp3 @ ?w @ t"
  have "CNFGetToken (sp1 @ ''BOOT2'' @ sp2 @ ?eq) ''BOOT2'' = At (sp2 @ ?eq)"
    using match_key_self [of "''BOOT2''" "sp2 @ ?eq"] ok(2)
    by (simp add: CNFGetToken_def dropWhile_all is_space_def)
  then have b: "find_boot (take (CNF_LEN_MAX - 1) f) = At (sp2 @ ?eq)"
    unfolding f using find_boot_lines [OF ok(1), of "sp1 @ ''BOOT2'' @ sp2 @ ?eq"] find_boot_token by fastforce
  have e: "CNFGetToken (sp2 @ ?eq) ''='' = At (sp3 @ ?w @ t)"
    using ok(3) by (simp add: CNFGetToken_def dropWhile_all is_space_def)
  have "?w \<noteq> []" by (simp add: boot_path_def)
  then have "CNFGetKey (sp3 @ ?w @ t) = At ?w"
    using CNFGetKey_path [OF boot_path_graph] ok by blast
  then have p: "ps2cnfGetBootFile (Some f) = Some (Inr ?w)"
    by (simp add: ps2cnfGetBootFile_def b [simplified] e [simplified])
  have "dropWhile (\<lambda>c. c \<noteq> CHR '':'') ?w = CHR '':'' # replicate k (CHR 0x5C) @ name @ '';1''"
    using ok(6) unfolding boot_path_def by (subst dropWhile_append2) auto
  moreover have "dropWhile (\<lambda>c. c = CHR 0x5C) (replicate k (CHR 0x5C) @ name @ '';1'') = name @ '';1''"
    using ok(7) by (subst dropWhile_all) (auto simp: list_all_iff exec_name_ok_def dropWhile_not)
  moreover have "takeWhile (\<lambda>c. c \<noteq> CHR '';'') (name @ '';1'') = name"
    using ok(7) by (simp add: exec_name_ok_def takeWhile_stop)
  moreover have "0 < n" using ok(7) assms(2) by (cases name) (auto simp: exec_name_ok_def)
  ultimately show ?thesis
    using p ok(7,8) assms(2) by (simp add: GetStartupExecName_def exec_name_ok_def)
qed

end
