(* ===== verification/Game_Scan.thy ===== *)
theory Game_Scan
  imports Game_Cnf
begin

text \<open>
  The list of games on a device (\<^verbatim>\<open>sbReadList\<close> and \<^verbatim>\<open>scanForISO\<close> of \<^verbatim>\<open>src/supportbase.c\<close>): the disc images in
  the directories \<^verbatim>\<open>CD\<close> and \<^verbatim>\<open>DVD\<close>, whose program names are cached in a file \<^verbatim>\<open>games.bin\<close> per directory,
  and the entries of \<^verbatim>\<open>ul.cfg\<close>. The linked list of games found is a list, the last one found first;
  allocations succeed.
\<close>

datatype write_result = Written | Not_opened | Write_error

text \<open>
  \<open>listing\<close> is a directory, names with their sizes in bytes, as \<^verbatim>\<open>readdir\<close> and \<^verbatim>\<open>fileXioDread\<close> go through it;
  \<open>games_bin\<close> the structs in a cache file, by its path; \<open>cnf_file\<close> the \<^verbatim>\<open>SYSTEM.CNF\<close> of an image, if it can be
  mounted and has one; \<open>write_to\<close> what comes of writing a file.
\<close>

record game_device =
  files :: drive
  listing :: "string \<rightharpoonup> (string \<times> u64) list"
  games_bin :: "string \<rightharpoonup> base_game_info list"
  cnf_file :: "string \<rightharpoonup> string"
  write_to :: "string \<Rightarrow> write_result"

type_synonym game_list = "(string \<times> base_game_info) list"

abbreviation (input) ISO_GAME_NAME_MAX :: nat where "ISO_GAME_NAME_MAX \<equiv> 160"
abbreviation (input) ISO_GAME_FNAME_MAX :: nat where "ISO_GAME_FNAME_MAX \<equiv> 164"
abbreviation (input) GAME_STARTUP_MAX :: nat where "GAME_STARTUP_MAX \<equiv> 12"

section \<open>Names of images\<close>

text \<open>
  The format and the length of the game's name. For a name of less than four characters the code compares
  from before its start, but then the result does not matter.
\<close>

definition isValidIsoName :: "string \<Rightarrow> (game_format \<times> nat) option" where
  "isValidIsoName name =
     (let size = length name in
      if 5 \<le> size \<and> (same_text (drop (size - 4) name) ''.iso'' \<or> same_text (drop (size - 4) name) ''.zso'')
      then (if 17 \<le> size \<and> name ! 4 = CHR ''_'' \<and> name ! 8 = CHR ''.'' \<and> name ! 11 = CHR ''.''
            then Some (GAME_FORMAT_OLD_ISO, size - 16) else Some (GAME_FORMAT_ISO, size - 4))
      else None)"

section \<open>The cache\<close>

text \<open>\<^verbatim>\<open>sprintf(filename, "%s/games.bin", path)\<close> into 256 characters.\<close>

definition cache_path :: "string \<Rightarrow> string option" where
  "cache_path path = (if length path + 10 < 256 then Some (path @ ''/games.bin'') else None)"

definition loadISOGameListCache :: "string \<Rightarrow> game_device \<Rightarrow> base_game_info list option" where
  "loadISOGameListCache file d =
     (case games_bin d file of None \<Rightarrow> None | Some gs \<Rightarrow> if gs = [] then None else Some gs)"

definition queryISOGameListCache :: "base_game_info list \<Rightarrow> string \<Rightarrow> base_game_info option" where
  "queryISOGameListCache cache filename =
     List.find (\<lambda>g. take ISO_GAME_FNAME_MAX (cstr_of (gname g) @ cstr_of (extension g)) = filename) cache"

definition same_game :: "base_game_info \<Rightarrow> base_game_info \<Rightarrow> bool" where
  "same_game a b \<longleftrightarrow>
     take (ISO_GAME_NAME_MAX + 1) (cstr_of (gname a)) = take (ISO_GAME_NAME_MAX + 1) (cstr_of (gname b)) \<and>
     take 5 (cstr_of (extension a)) = take 5 (cstr_of (extension b))"

text \<open>
  Whether a game has been added. The inner loop runs over \<^verbatim>\<open>j\<close>, but compares entry \<^verbatim>\<open>i\<close> each time.
\<close>

fun game_added :: "base_game_info list \<Rightarrow> nat \<Rightarrow> base_game_info list \<Rightarrow> bool option" where
  "game_added cache i [] = Some False"
| "game_added cache i (g # gs) =
     (if length cache \<le> i then None
      else if same_game (cache ! i) g then game_added cache (i + 1) gs else Some True)"

definition updateISOGameList ::
  "string \<Rightarrow> base_game_info list option \<Rightarrow> base_game_info list \<Rightarrow> game_device \<Rightarrow> game_device option" where
  "updateISOGameList file cache games d = do {
     modified \<leftarrow>
       (case cache of
          Some c \<Rightarrow>
            if games \<noteq> [] then do { m \<leftarrow> game_added c 0 games; Some (m \<or> length games \<noteq> length c) }
            else Some False
        | None \<Rightarrow> Some (games \<noteq> []));
     Some (if \<not> modified then d
           else if games \<noteq> []
           then (case write_to d file of
                   Written \<Rightarrow> d\<lparr>games_bin := (games_bin d)(file \<mapsto> games)\<rparr>
                 | Not_opened \<Rightarrow> d
                 | Write_error \<Rightarrow> d\<lparr>games_bin := (games_bin d)(file := None)\<rparr>)
           else d\<lparr>games_bin := (games_bin d)(file := None)\<rparr>)
   }"

section \<open>Scanning a directory\<close>

definition image_path :: "string \<Rightarrow> string \<Rightarrow> string option" where
  "image_path path name = (if length path + 1 + length name < 256 then Some (path @ ''/'' @ name) else None)"

text \<open>The fields that depend on the format: from the name, from the cache, or from the image.\<close>

definition blank_game :: base_game_info where
  "blank_game = \<lparr>gname = [], startup = [], extension = [], parts = 0, media = 0, gformat = GAME_FORMAT_USBLD, sizeMB = 0\<rparr>"

definition game_fields ::
  "string \<Rightarrow> base_game_info list option \<Rightarrow> game_device \<Rightarrow> string \<Rightarrow> game_format \<Rightarrow> nat \<Rightarrow> base_game_info option option" where
  "game_fields full cache d name fmt n =
     (if fmt = GAME_FORMAT_OLD_ISO
      then Some (Some (blank_game\<lparr>gname := take n (drop GAME_STARTUP_MAX name),
                                  startup := take (GAME_STARTUP_MAX - 1) name,
                                  extension := take 4 (drop (GAME_STARTUP_MAX + n) name)\<rparr>))
      else
        (case Option.bind cache (\<lambda>c. queryISOGameListCache c name) of
           Some g \<Rightarrow> Some (Some g)
         | None \<Rightarrow> do {
             r \<leftarrow> GetStartupExecName (cnf_file d full) (GAME_STARTUP_MAX - 1);
             (case r of
                Inl _ \<Rightarrow> Some None
              | Inr s \<Rightarrow> Some (Some (blank_game\<lparr>gname := take n name, startup := s, extension := take 4 (drop n name)\<rparr>)))
           }))"

definition scan_entry ::
  "string \<Rightarrow> u8 \<Rightarrow> base_game_info list option \<Rightarrow> game_device \<Rightarrow> string \<Rightarrow> base_game_info option option" where
  "scan_entry path ty cache d name =
     (case isValidIsoName name of
        None \<Rightarrow> Some None
      | Some (fmt, n) \<Rightarrow>
          if ISO_GAME_NAME_MAX < n then Some None
          else do {
            full \<leftarrow> image_path path name;
            g \<leftarrow> game_fields full cache d name fmt n;
            Some (map_option (\<lambda>g. g\<lparr>parts := 1, media := ty, gformat := fmt, sizeMB := 0\<rparr>) g)
          })"

fun scan_names ::
  "string \<Rightarrow> u8 \<Rightarrow> base_game_info list option \<Rightarrow> game_device \<Rightarrow> string list \<Rightarrow> game_list \<Rightarrow> nat \<Rightarrow> (game_list \<times> nat) option" where
  "scan_names path ty cache d [] gl count = Some (gl, count)"
| "scan_names path ty cache d (name # names) gl count = do {
     g \<leftarrow> scan_entry path ty cache d name;
     (case g of
        None \<Rightarrow> scan_names path ty cache d names gl count
      | Some g \<Rightarrow> scan_names path ty cache d names ((take 127 name, g) # gl) (count + 1))
   }"

fun set_size :: "string \<Rightarrow> u32 \<Rightarrow> game_list \<Rightarrow> game_list" where
  "set_size name mb [] = []"
| "set_size name mb ((f, g) # gl) =
     (if gformat g = GAME_FORMAT_USBLD
      then (if take (length (cstr_of (startup g))) (drop 12 name) = cstr_of (startup g)
            then (f, g\<lparr>sizeMB := sizeMB g + mb\<rparr>) # gl else (f, g) # set_size name mb gl)
      else if f = name then (f, g\<lparr>sizeMB := mb\<rparr>) # gl else (f, g) # set_size name mb gl)"

definition applyISOSizes :: "(string \<times> u64) list \<Rightarrow> game_list \<Rightarrow> game_list" where
  "applyISOSizes es gl =
     fold (\<lambda>(name, size) gl. if name = [] then gl else set_size name (ucast (drop_bit 20 size)) gl) es gl"

definition scanForISO :: "string \<Rightarrow> u8 \<Rightarrow> game_device \<Rightarrow> game_list \<Rightarrow> (game_list \<times> nat \<times> game_device) option" where
  "scanForISO path ty d gl = do {
     file \<leftarrow> cache_path path;
     let cache = loadISOGameListCache file d;
     let es = (case listing d path of None \<Rightarrow> [] | Some es \<Rightarrow> es);
     (gl, count) \<leftarrow> scan_names path ty cache d (map fst es) gl 0;
     d \<leftarrow> updateISOGameList file cache (map snd (take count gl)) d;
     Some (applyISOSizes es gl, count, d)
   }"

section \<open>The list of all games\<close>

text \<open>The size of \<^verbatim>\<open>ul.cfg\<close>, -1 without one; the games; the device.\<close>

definition sbReadList :: "string \<Rightarrow> game_device \<Rightarrow> (int \<times> base_game_info list \<times> game_device) option" where
  "sbReadList prefix d = do {
     (gl, n1, d) \<leftarrow> scanForISO (snprintf256 (prefix @ ''CD'')) SCECdPS2CD d [];
     (gl, n2, d) \<leftarrow> scanForISO (snprintf256 (prefix @ ''DVD'')) SCECdPS2DVD d gl;
     let count = n1 + n2;
     (case files d (snprintf256 (prefix @ ''ul.cfg'')) of
        None \<Rightarrow> Some (- 1, take count (map snd gl), d)
      | Some f \<Rightarrow> do {
          let count = count + length f div 64;
          ul \<leftarrow> (if 0 < count then ul_loop count [] f else Some []);
          Some (int (length f), ul @ take (count - length ul) (map snd gl), d)
        })
   }"

end
