(* ===== verification/Game_Scan_Props.thy ===== *)
theory Game_Scan_Props
  imports Game_Scan
begin

text \<open>
  The cache of program names does not change the list of games: what a scan finds with a cache that tells
  the truth is what it finds without, and it leaves a cache that tells the truth.
\<close>

section \<open>What a scan finds\<close>

text \<open>
  The games found in a directory, in its order. A game's name and extension make up the name of its image;
  for an image that is named in the old way, the name without the program's name in front.
\<close>

definition found_in ::
  "string \<Rightarrow> u8 \<Rightarrow> base_game_info list option \<Rightarrow> game_device \<Rightarrow> string list \<Rightarrow> game_list \<Rightarrow> bool" where
  "found_in path ty cache d names new \<longleftrightarrow>
     (\<forall>(f, g) \<in> set new. \<exists>name \<in> set names. f = take 127 name \<and> scan_entry path ty cache d name = Some (Some g))"

lemma scan_names_found:
  assumes "scan_names path ty cache d names gl n = Some (gl', n')"
  shows "\<exists>new. gl' = new @ gl \<and> n' = n + length new \<and> found_in path ty cache d names new"
  using assms
proof (induction names arbitrary: gl n)
  case Nil
  then show ?case by (auto simp: found_in_def)
next
  case (Cons name names)
  then obtain g where g: "scan_entry path ty cache d name = Some g"
    by (auto split: bind_splits)
  show ?case
  proof (cases g)
    case None
    with g Cons.prems have "scan_names path ty cache d names gl n = Some (gl', n')" by simp
    then show ?thesis using Cons.IH unfolding found_in_def by fastforce
  next
    case (Some h)
    with g Cons.prems have "scan_names path ty cache d names ((take 127 name, h) # gl) (n + 1) = Some (gl', n')" by simp
    from Cons.IH [OF this] obtain new where
      "gl' = new @ (take 127 name, h) # gl" "n' = n + 1 + length new" "found_in path ty cache d names new"
      by blast
    then show ?thesis
      using g Some by (intro exI [of _ "new @ [(take 127 name, h)]"]) (auto simp: found_in_def)
  qed
qed

lemma scan_names_cong:
  assumes "\<And>name. name \<in> set names \<Longrightarrow> scan_entry path ty cache d name = scan_entry path ty cache' d' name"
  shows "scan_names path ty cache d names gl n = scan_names path ty cache' d' names gl n"
  using assms
proof (induction names arbitrary: gl n)
  case (Cons name names)
  have "scan_entry path ty cache d name = scan_entry path ty cache' d' name" using Cons.prems by simp
  moreover have "scan_names path ty cache d names g k = scan_names path ty cache' d' names g k" for g k
    using Cons by simp
  ultimately show ?case by simp
qed simp

section \<open>A cache that tells the truth\<close>

definition plain_image :: "string \<Rightarrow> nat \<Rightarrow> bool" where
  "plain_image name n \<longleftrightarrow> isValidIsoName name = Some (GAME_FORMAT_ISO, n) \<and> n \<le> ISO_GAME_NAME_MAX"

definition entry_for :: "base_game_info \<Rightarrow> string \<Rightarrow> bool" where
  "entry_for g name \<longleftrightarrow> take ISO_GAME_FNAME_MAX (cstr_of (gname g) @ cstr_of (extension g)) = name"

definition entry_true :: "string \<Rightarrow> game_device \<Rightarrow> base_game_info \<Rightarrow> string \<Rightarrow> nat \<Rightarrow> bool" where
  "entry_true path d g name n \<longleftrightarrow>
     GetStartupExecName (cnf_file d (path @ ''/'' @ name)) (GAME_STARTUP_MAX - 1) = Some (Inr (startup g)) \<and>
     gname g = take n name \<and> extension g = take 4 (drop n name)"

definition cache_true :: "string \<Rightarrow> game_device \<Rightarrow> string set \<Rightarrow> base_game_info list \<Rightarrow> bool" where
  "cache_true path d names c \<longleftrightarrow>
     (\<forall>g \<in> set c. \<forall>name \<in> names. \<forall>n. plain_image name n \<longrightarrow> entry_for g name \<longrightarrow> entry_true path d g name n)"

text \<open>
  Names are strings, and no image named in the old way is called, behind its program's name, as a plain
  image in the same directory.
\<close>

definition names_apart :: "string set \<Rightarrow> bool" where
  "names_apart names \<longleftrightarrow>
     (\<forall>name \<in> names. NUL \<notin> set name \<and>
        (\<forall>n. isValidIsoName name = Some (GAME_FORMAT_OLD_ISO, n) \<longrightarrow> drop GAME_STARTUP_MAX name \<notin> names))"

lemma query_entry: "queryISOGameListCache c name = Some g \<Longrightarrow> g \<in> set c \<and> entry_for g name"
  unfolding queryISOGameListCache_def entry_for_def by (auto simp: find_Some_iff dest: nth_mem)

lemma query_exists: "g \<in> set c \<Longrightarrow> entry_for g name \<Longrightarrow> \<exists>h. queryISOGameListCache c name = Some h"
  unfolding queryISOGameListCache_def entry_for_def
  by (cases "List.find (\<lambda>g. take 164 (cstr_of (gname g) @ cstr_of (extension g)) = name) c") (auto simp: find_None_iff)

text \<open>What the name of an image is made of.\<close>

lemma isValidIsoName_length:
  assumes "isValidIsoName name = Some (fmt, n)"
  shows "fmt = GAME_FORMAT_ISO \<and> length name = n + 4 \<or> fmt = GAME_FORMAT_OLD_ISO \<and> length name = n + 16"
  using assms by (auto simp: isValidIsoName_def Let_def split: if_splits)

lemma kind_of_name:
  obtains "isValidIsoName name = None"
  | n where "isValidIsoName name = Some (GAME_FORMAT_OLD_ISO, n)"
  | n where "isValidIsoName name = Some (GAME_FORMAT_ISO, n)" and "ISO_GAME_NAME_MAX < n"
  | n where "isValidIsoName name = Some (GAME_FORMAT_ISO, n)" and "plain_image name n" and "n \<le> ISO_GAME_NAME_MAX"
  using isValidIsoName_length [of name] by (cases "isValidIsoName name") (auto simp: plain_image_def, fastforce)

lemma scan_entry_cached:
  assumes "cache_true path d names c" and "name \<in> names"
  shows "scan_entry path ty (Some c) d name = scan_entry path ty None d name"
proof (cases rule: kind_of_name [of name])
  case (4 n)
  show ?thesis
  proof (cases "queryISOGameListCache c name")
    case None
    with 4 show ?thesis by (simp add: scan_entry_def game_fields_def)
  next
    case (Some g)
    then have "entry_true path d g name n"
      using assms query_entry [OF Some] 4 by (auto simp: cache_true_def)
    then show ?thesis
      using 4 Some by (auto simp: scan_entry_def game_fields_def entry_true_def image_path_def blank_game_def)
  qed
qed (simp_all add: scan_entry_def game_fields_def)

text \<open>With entries for all plain images, the images are not read.\<close>

lemma scan_entry_from_cache:
  assumes "cache_true path d names c" and "name \<in> names"
    and "\<And>n. plain_image name n \<Longrightarrow> \<exists>g. queryISOGameListCache c name = Some g"
  shows "scan_entry path ty (Some c) (d\<lparr>cnf_file := r, games_bin := b\<rparr>) name = scan_entry path ty None d name"
proof -
  have "scan_entry path ty (Some c) (d\<lparr>cnf_file := r, games_bin := b\<rparr>) name = scan_entry path ty (Some c) d name"
  proof (cases rule: kind_of_name [of name])
    case (4 n)
    with assms(3) [OF 4(2)] show ?thesis by (auto simp: scan_entry_def game_fields_def)
  qed (simp_all add: scan_entry_def game_fields_def)
  then show ?thesis by (simp add: scan_entry_cached [OF assms(1,2)])
qed

lemma entry_of_found:
  assumes e: "scan_entry path ty None d name = Some (Some g)" and nul: "NUL \<notin> set name"
  shows "entry_for g (if gformat g = GAME_FORMAT_OLD_ISO then drop GAME_STARTUP_MAX name else name) \<and>
    (plain_image name n \<longrightarrow> entry_true path d g name n) \<and>
    isValidIsoName name = Some (gformat g, length (gname g))"
proof -
  obtain fmt k h full where v: "isValidIsoName name = Some (fmt, k)" and k: "k \<le> ISO_GAME_NAME_MAX"
    and full: "full = path @ ''/'' @ name" and h: "game_fields full None d name fmt k = Some (Some h)"
    and g: "g = h\<lparr>parts := 1, media := ty, gformat := fmt, sizeMB := 0\<rparr>"
    using e by (auto simp: scan_entry_def image_path_def split: option.splits if_splits bind_splits)
  note len = isValidIsoName_length [OF v]
  have cstr: "cstr_of (take i (drop j name)) = take i (drop j name)" for i j
    using nul by (intro cstr_of_id) (meson in_set_dropD in_set_takeD)
  show ?thesis
  proof (cases "fmt = GAME_FORMAT_OLD_ISO")
    case True
    then have ge: "gname g = take k (drop 12 name)" "extension g = take 4 (drop (12 + k) name)"
      using h g by (auto simp: game_fields_def)
    have "cstr_of (gname g) = gname g" "cstr_of (extension g) = extension g"
      unfolding ge by (rule cstr)+
    moreover from True have "length name = k + 16" using len by simp
    moreover have "take k (drop 12 name) @ take 4 (drop (12 + k) name) = drop 12 name"
      using \<open>length name = k + 16\<close> by (simp add: take_drop_append_take add.commute flip: drop_drop)
    ultimately have "entry_for g (drop 12 name)"
      using k ge by (simp add: entry_for_def)
    then show ?thesis
      using True v g k ge \<open>length name = k + 16\<close> by (simp add: plain_image_def)
  next
    case False
    then have iso: "fmt = GAME_FORMAT_ISO" and ln: "length name = k + 4" using len by auto
    then have s: "GetStartupExecName (cnf_file d full) 11 = Some (Inr (startup g))"
      and gn: "gname g = take k name" "extension g = take 4 (drop k name)"
      using h g by (auto simp: game_fields_def split: bind_splits sum.splits)
    have "take k name @ take 4 (drop k name) = name" using ln by (simp add: take_drop_append_take)
    then show ?thesis
      using iso v g gn s k ln full cstr [of k 0] cstr [of 4 k] by (simp add: entry_for_def entry_true_def plain_image_def)
  qed
qed

lemma found_cache_true:
  assumes "found_in path ty None d names new" and "names_apart (set names)"
  shows "cache_true path d (set names) (map snd new)"
  unfolding cache_true_def
proof (intro ballI allI impI)
  fix g name n
  assume "g \<in> set (map snd new)" and name: "name \<in> set names" and p: "plain_image name n" and e: "entry_for g name"
  then obtain name0 where n0: "name0 \<in> set names" "scan_entry path ty None d name0 = Some (Some g)"
    using assms(1) by (fastforce simp: found_in_def)
  then have nul: "NUL \<notin> set name0" using assms(2) by (simp add: names_apart_def)
  note f = entry_of_found [OF n0(2) nul]
  have "gformat g \<noteq> GAME_FORMAT_OLD_ISO"
  proof
    assume o: "gformat g = GAME_FORMAT_OLD_ISO"
    then have "name = drop GAME_STARTUP_MAX name0" using f [of n] e by (simp add: entry_for_def)
    then show False using o f [of n] n0(1) name assms(2) by (auto simp: names_apart_def)
  qed
  then have "name = name0" using f [of n] e by (simp add: entry_for_def)
  then show "entry_true path d g name n" using f p by simp
qed

section \<open>Updating the cache\<close>

text \<open>The comparison, entry by entry.\<close>

fun added :: "base_game_info list \<Rightarrow> base_game_info list \<Rightarrow> bool option" where
  "added c [] = Some False"
| "added [] (g # gs) = None"
| "added (a # c) (g # gs) = (if same_game a g then added c gs else Some True)"

text \<open>All cached games are found again, in their order, and more behind them.\<close>

definition overtaken :: "base_game_info list \<Rightarrow> base_game_info list \<Rightarrow> bool" where
  "overtaken c games \<longleftrightarrow> length c < length games \<and> list_all2 same_game c (take (length c) games)"

lemma game_added_behind: "game_added (xs @ c) (length xs) gs = added c gs"
proof (induction gs arbitrary: xs c)
  case (Cons g gs)
  show ?case
  proof (cases c)
    case (Cons a c')
    show ?thesis using Cons.IH [of "xs @ [a]" c'] Cons by simp
  qed simp
qed simp

lemma game_added_eq: "game_added c 0 gs = added c gs"
  using game_added_behind [of "[]"] by simp

lemma added_None: "added c gs = None \<longleftrightarrow> overtaken c gs"
  by (induction c gs rule: added.induct) (auto simp: overtaken_def)

lemma added_False: "added c gs = Some False \<and> length gs = length c \<longleftrightarrow> list_all2 same_game c gs"
  by (induction c gs rule: added.induct) (auto simp: list_all2_Cons2)

definition with_cache :: "string \<Rightarrow> base_game_info list \<Rightarrow> game_device \<Rightarrow> game_device" where
  "with_cache file games d =
     (case write_to d file of
        Written \<Rightarrow> d\<lparr>games_bin := (games_bin d)(file \<mapsto> games)\<rparr>
      | Not_opened \<Rightarrow> d
      | Write_error \<Rightarrow> d\<lparr>games_bin := (games_bin d)(file := None)\<rparr>)"

lemma updateISOGameList_cached:
  assumes "\<not> overtaken c games"
  shows "updateISOGameList file (Some c) games d =
    Some (if games = [] \<or> list_all2 same_game c games then d else with_cache file games d)"
proof -
  obtain m where m: "added c games = Some m" using assms added_None by fastforce
  then have "list_all2 same_game c games \<longleftrightarrow> \<not> m \<and> length games = length c"
    using added_False [of c games] by auto
  then show ?thesis
    by (auto simp: updateISOGameList_def game_added_eq m with_cache_def list_all2_lengthD)
qed

lemma updateISOGameList_new:
  "updateISOGameList file None games d = Some (if games = [] then d else with_cache file games d)"
  by (simp add: updateISOGameList_def with_cache_def)

lemma with_cache_same [simp]:
  "cnf_file (with_cache file games d) = cnf_file d" "listing (with_cache file games d) = listing d"
  "files (with_cache file games d) = files d" "write_to (with_cache file games d) = write_to d"
  by (simp_all add: with_cache_def split: write_result.split)

lemma load_with_cache:
  "loadISOGameListCache file (with_cache file games d) = Some c \<Longrightarrow>
     c = games \<or> loadISOGameListCache file d = Some c"
  by (auto simp: with_cache_def loadISOGameListCache_def split: write_result.splits option.splits if_splits)

section \<open>Scans with and without a cache\<close>

text \<open>The cache of a directory, if there is one, tells the truth; the games found do not overtake it.\<close>

definition dir_names :: "string \<Rightarrow> game_device \<Rightarrow> string list" where
  "dir_names path d = (case listing d path of None \<Rightarrow> [] | Some es \<Rightarrow> map fst es)"

definition cache_kept :: "string \<Rightarrow> string \<Rightarrow> game_device \<Rightarrow> bool" where
  "cache_kept path file d \<longleftrightarrow>
     (\<forall>c. loadISOGameListCache file d = Some c \<longrightarrow> cache_true path d (set (dir_names path d)) c)"

definition not_overtaken :: "string \<Rightarrow> game_device \<Rightarrow> base_game_info list \<Rightarrow> bool" where
  "not_overtaken file d games \<longleftrightarrow> (\<forall>c. loadISOGameListCache file d = Some c \<longrightarrow> \<not> overtaken c games)"

lemma scan_names_cached:
  assumes "cache_kept path file d"
  shows "scan_names path ty (loadISOGameListCache file d) d (dir_names path d) gl n =
    scan_names path ty None d (dir_names path d) gl n"
proof (cases "loadISOGameListCache file d")
  case (Some c)
  then have "cache_true path d (set (dir_names path d)) c" using assms by (simp add: cache_kept_def)
  then show ?thesis unfolding Some by (intro scan_names_cong scan_entry_cached)
qed simp

lemma scanForISO_eq:
  "scanForISO path ty d gl = do {
     file \<leftarrow> cache_path path;
     let cache = loadISOGameListCache file d;
     (gl, count) \<leftarrow> scan_names path ty cache d (dir_names path d) gl 0;
     d' \<leftarrow> updateISOGameList file cache (map snd (take count gl)) d;
     Some (applyISOSizes (case listing d path of None \<Rightarrow> [] | Some es \<Rightarrow> es) gl, count, d')
   }"
  by (cases "listing d path") (simp_all add: scanForISO_def dir_names_def Let_def)

lemma found_cache_kept:
  assumes "cache_kept path file d" and "names_apart (set (dir_names path d))"
    and "scan_names path ty None d (dir_names path d) gl 0 = Some (gl', count)"
  shows "cache_true path d (set (dir_names path d)) (map snd (take count gl'))"
proof -
  obtain new where "gl' = new @ gl" "count = length new" "found_in path ty None d (dir_names path d) new"
    using scan_names_found [OF assms(3)] by auto
  then show ?thesis using found_cache_true [OF _ assms(2)] by simp
qed

lemma cache_kept_after:
  assumes "cache_kept path file d" and "cache_true path d (set (dir_names path d)) games"
    and "d' = d \<or> d' = with_cache file games d"
  shows "cache_kept path file d'"
proof -
  have "cnf_file d' = cnf_file d" "listing d' = listing d" using assms(3) by auto
  then have "cache_true path d' = cache_true path d" and "dir_names path d' = dir_names path d"
    by (simp_all add: fun_eq_iff cache_true_def entry_true_def dir_names_def)
  then show ?thesis
    using assms by (auto simp: cache_kept_def dest: load_with_cache)
qed

text \<open>
  C4: the cache of program names changes nothing that is shown. In a directory whose cache, if it has one,
  tells the truth, a scan finds the games that it finds when it reads every image; the cache that it
  leaves tells the truth again, so that this holds for all scans to come. The games must not overtake the cache,
  and no image named in the old way may be called like another.
\<close>

theorem cached_scan_transparent:
  assumes "cache_path path = Some file" and "cache_kept path file d" and "names_apart (set (dir_names path d))"
    and "scan_names path ty None d (dir_names path d) gl 0 = Some (gl', count)"
    and "not_overtaken file d (map snd (take count gl'))"
  shows "\<exists>d'. scanForISO path ty d gl =
      Some (applyISOSizes (case listing d path of None \<Rightarrow> [] | Some es \<Rightarrow> es) gl', count, d') \<and>
    listing d' = listing d \<and> cnf_file d' = cnf_file d \<and> files d' = files d \<and> cache_kept path file d'"
proof -
  let ?games = "map snd (take count gl')"
  have "\<exists>d'. updateISOGameList file (loadISOGameListCache file d) ?games d = Some d' \<and>
    (d' = d \<or> d' = with_cache file ?games d)"
  proof (cases "loadISOGameListCache file d")
    case None
    then show ?thesis by (simp add: updateISOGameList_new)
  next
    case (Some c)
    then have "\<not> overtaken c ?games" using assms(5) by (simp add: not_overtaken_def)
    from updateISOGameList_cached [OF this] Some show ?thesis by auto
  qed
  then obtain d' where "updateISOGameList file (loadISOGameListCache file d) ?games d = Some d'"
    and d': "d' = d \<or> d' = with_cache file ?games d" by blast
  then have "scanForISO path ty d gl =
      Some (applyISOSizes (case listing d path of None \<Rightarrow> [] | Some es \<Rightarrow> es) gl', count, d')"
    using assms(1,4) by (simp add: scanForISO_eq scan_names_cached [OF assms(2)])
  moreover have "cache_kept path file d'"
    using found_cache_kept [OF assms(2,3,4)] cache_kept_after [OF assms(2) _ d'] by blast
  ultimately show ?thesis using d' by fastforce
qed

lemma list_all2_same [simp]: "list_all2 same_game gs gs"
  by (simp add: same_game_def list.rel_refl)

lemma load_written:
  "write_to d file = Written \<Longrightarrow> games \<noteq> [] \<Longrightarrow>
     with_cache file games d = d\<lparr>games_bin := (games_bin d)(file \<mapsto> games)\<rparr> \<and>
     loadISOGameListCache file (d\<lparr>games_bin := (games_bin d)(file \<mapsto> games), cnf_file := r\<rparr>) = Some games"
  by (simp add: with_cache_def loadISOGameListCache_def)

lemma found_is_cached:
  assumes "scan_names path ty None d names gl n = Some (gl', n')" and "name \<in> set names"
    and "scan_entry path ty None d name = Some (Some g)"
  shows "g \<in> snd ` set (take (n' - n) gl')"
  using assms
proof (induction names arbitrary: gl n)
  case (Cons x names)
  then obtain h where h: "scan_entry path ty None d x = Some h" by (auto split: bind_splits)
  define gl1 n1 where "gl1 = (case h of None \<Rightarrow> gl | Some h \<Rightarrow> (take 127 x, h) # gl)"
    and "n1 = (case h of None \<Rightarrow> n | Some _ \<Rightarrow> n + 1)"
  then have s: "scan_names path ty None d names gl1 n1 = Some (gl', n')"
    using Cons.prems(1) h by (cases h) auto
  obtain new where new: "gl' = new @ gl1" "n' = n1 + length new" using scan_names_found [OF s] by blast
  show ?case
  proof (cases "x = name")
    case True
    then have "h = Some g" using h Cons.prems(3) by simp
    then show ?thesis using new by (simp add: gl1_def n1_def)
  next
    case False
    then have "g \<in> snd ` set (take (n' - n1) gl')" using Cons.IH [OF s] Cons.prems by simp
    then show ?thesis using new by (auto simp: n1_def split: option.splits dest: in_set_takeD)
  qed
qed simp

text \<open>
  C19: a second scan does not read the images. When all images in a directory without a cache could be
  mounted, and the cache could be written, the next scan finds the same games whatever the images hold by then.
\<close>

theorem rescan_needs_no_disc:
  assumes "cache_path path = Some file" and "loadISOGameListCache file d = None" and "write_to d file = Written"
    and "names_apart (set (dir_names path d))"
    and "scan_names path ty None d (dir_names path d) gl 0 = Some (gl', count)" and "0 < count"
    and "\<forall>name \<in> set (dir_names path d). \<forall>n. plain_image name n \<longrightarrow>
           (\<exists>g. scan_entry path ty None d name = Some (Some g))"
  shows "\<exists>sized d'. scanForISO path ty d gl = Some (sized, count, d') \<and>
    (\<forall>images. scanForISO path ty (d'\<lparr>cnf_file := images\<rparr>) gl = Some (sized, count, d'\<lparr>cnf_file := images\<rparr>))"
proof -
  let ?games = "map snd (take count gl')" and ?names = "dir_names path d"
  let ?b = "(games_bin d)(file \<mapsto> ?games)"
  have kept: "cache_kept path file d" using assms(2) by (simp add: cache_kept_def)
  have ne: "?games \<noteq> []" using scan_names_found [OF assms(5)] assms(6) by auto
  note true = found_cache_kept [OF kept assms(4,5)]
  have first: "scanForISO path ty d gl =
      Some (applyISOSizes (case listing d path of None \<Rightarrow> [] | Some es \<Rightarrow> es) gl', count, d\<lparr>games_bin := ?b\<rparr>)"
    using assms(1,2,5) ne load_written [OF assms(3) ne] by (simp add: scanForISO_eq updateISOGameList_new)
  have cached: "\<exists>g. queryISOGameListCache ?games name = Some g" if "name \<in> set ?names" "plain_image name n" for name n
  proof -
    obtain g where g: "scan_entry path ty None d name = Some (Some g)" using assms(7) \<open>plain_image name n\<close> \<open>name \<in> set ?names\<close> by blast
    then have "g \<in> set ?games" using found_is_cached [OF assms(5) \<open>name \<in> set ?names\<close>] by auto
    moreover have "NUL \<notin> set name" using \<open>name \<in> set ?names\<close> assms(4) by (simp add: names_apart_def)
    then have "entry_for g name" using entry_of_found [OF g, of n] \<open>plain_image name n\<close> by (auto simp: plain_image_def)
    ultimately show ?thesis by (rule query_exists)
  qed
  have again: "scan_names path ty (Some ?games) (d\<lparr>cnf_file := r, games_bin := ?b\<rparr>) ?names gl 0 = Some (gl', count)" for r
    unfolding assms(5) [symmetric]
    by (intro scan_names_cong scan_entry_from_cache [OF true] cached)
  have swap: "d\<lparr>cnf_file := r, games_bin := ?b\<rparr> = d\<lparr>games_bin := ?b, cnf_file := r\<rparr>" for r by simp
  note again = again [unfolded swap]
  have "scanForISO path ty (d\<lparr>games_bin := ?b, cnf_file := r\<rparr>) gl =
      Some (applyISOSizes (case listing d path of None \<Rightarrow> [] | Some es \<Rightarrow> es) gl', count, d\<lparr>games_bin := ?b, cnf_file := r\<rparr>)" for r
  proof -
    let ?d = "d\<lparr>games_bin := ?b, cnf_file := r\<rparr>"
    have "loadISOGameListCache file ?d = Some ?games" using load_written [OF assms(3) ne] by blast
    moreover have "dir_names path ?d = ?names" by (simp add: dir_names_def)
    moreover have "updateISOGameList file (Some ?games) ?games ?d = Some ?d"
      by (subst updateISOGameList_cached) (simp_all add: overtaken_def)
    ultimately show ?thesis using assms(1) again [of r] by (simp add: scanForISO_eq Let_def)
  qed
  then show ?thesis using first by auto
qed

text \<open>Games that follow all the cached ones are compared with what lies behind the cache.\<close>

lemma grown_directory_reads_behind_cache:
  assumes "cache_path path = Some file" and "cache_kept path file d"
    and "scan_names path ty None d (dir_names path d) gl 0 = Some (gl', count)"
    and "loadISOGameListCache file d = Some c" and "overtaken c (map snd (take count gl'))"
  shows "scanForISO path ty d gl = None"
proof -
  have "map snd (take count gl') \<noteq> []" using assms(5) by (auto simp: overtaken_def)
  moreover have "game_added c 0 (map snd (take count gl')) = None"
    using assms(5) by (simp add: game_added_eq added_None)
  ultimately have "updateISOGameList file (Some c) (map snd (take count gl')) d = None"
    by (simp add: updateISOGameList_def)
  then show ?thesis
    using assms(1,3) scan_names_cached [OF assms(2), of ty gl 0] assms(4) by (simp add: scanForISO_eq)
qed

text \<open>The cache file of a directory stays when its last game goes.\<close>

lemma emptied_directory_keeps_cache:
  assumes "loadISOGameListCache file d = Some c"
  shows "updateISOGameList file (loadISOGameListCache file d) [] d = Some d"
  using assms by (simp add: updateISOGameList_def)

section \<open>Examples\<close>

text \<open>Two images, one of them named in the old way.\<close>

definition demo_cnf :: string where
  "demo_cnf = ''BOOT2 = cdrom0:'' @ [CHR 0x5C] @ ''SLES_500.10;1'' @ [CHR 0x0A]"

definition demo_games :: "string list \<Rightarrow> game_device" where
  "demo_games names =
     \<lparr>files = Map.empty, listing = [''CD'' \<mapsto> map (\<lambda>n. (n, 0x500000)) names], games_bin = Map.empty,
      cnf_file = (\<lambda>p. Some demo_cnf), write_to = (\<lambda>p. Written)\<rparr>"

definition demo_game :: base_game_info where
  "demo_game = \<lparr>gname = ''Foo'', startup = ''SLES_500.10'', extension = ''.iso'', parts = 1, media = SCECdPS2CD,
     gformat = GAME_FORMAT_ISO, sizeMB = 0\<rparr>"

lemma demo_scan:
  "scan_names ''CD'' SCECdPS2CD None (demo_games [''Foo.iso'']) (dir_names ''CD'' (demo_games [''Foo.iso''])) [] 0 =
     Some ([(''Foo.iso'', demo_game)], 1)"
  by code_simp

lemma demo_apart: "names_apart {''Foo.iso''}"
  by (simp add: names_apart_def isValidIsoName_def)

lemma demo_dir [simp]: "dir_names ''CD'' (demo_games names) = names"
  by (simp add: dir_names_def demo_games_def comp_def)

lemma demo_no_cache: "loadISOGameListCache file (demo_games names) = None"
  by (simp add: loadISOGameListCache_def demo_games_def)

theorem cached_scan_transparent_witness:
  "\<exists>d'. scanForISO ''CD'' SCECdPS2CD (demo_games [''Foo.iso'']) [] =
      Some (applyISOSizes [(''Foo.iso'', 0x500000)] [(''Foo.iso'', demo_game)], 1, d') \<and>
    cache_kept ''CD'' ''CD/games.bin'' d'"
proof -
  have "cache_path ''CD'' = Some ''CD/games.bin''" by (simp add: cache_path_def)
  moreover have "cache_kept ''CD'' ''CD/games.bin'' (demo_games [''Foo.iso''])"
    and "not_overtaken ''CD/games.bin'' (demo_games [''Foo.iso'']) (map snd (take 1 [(''Foo.iso'', demo_game)]))"
    by (simp_all add: cache_kept_def not_overtaken_def demo_no_cache)
  moreover have "names_apart (set (dir_names ''CD'' (demo_games [''Foo.iso''])))"
    using demo_apart by simp
  ultimately show ?thesis
    using cached_scan_transparent [OF _ _ _ demo_scan] by (fastforce simp: demo_games_def)
qed

theorem rescan_needs_no_disc_witness:
  "\<exists>sized d'. scanForISO ''CD'' SCECdPS2CD (demo_games [''Foo.iso'']) [] = Some (sized, 1, d') \<and>
    (\<forall>images. scanForISO ''CD'' SCECdPS2CD (d'\<lparr>cnf_file := images\<rparr>) [] = Some (sized, 1, d'\<lparr>cnf_file := images\<rparr>))"
proof -
  have p: "cache_path ''CD'' = Some ''CD/games.bin''" by (simp add: cache_path_def)
  have w: "write_to (demo_games [''Foo.iso'']) ''CD/games.bin'' = Written" by (simp add: demo_games_def)
  have a: "names_apart (set (dir_names ''CD'' (demo_games [''Foo.iso''])))" using demo_apart by simp
  have "scan_entry ''CD'' SCECdPS2CD None (demo_games [''Foo.iso'']) ''Foo.iso'' = Some (Some demo_game)"
    by code_simp
  then have m: "\<forall>name \<in> set (dir_names ''CD'' (demo_games [''Foo.iso''])). \<forall>n. plain_image name n \<longrightarrow>
      (\<exists>g. scan_entry ''CD'' SCECdPS2CD None (demo_games [''Foo.iso'']) name = Some (Some g))"
    by simp
  show ?thesis
    by (rule rescan_needs_no_disc [OF p demo_no_cache w a demo_scan _ m]) simp
qed

text \<open>
  An image that is called as an image named in the old way gets, from the second scan on, that image's
  program: the cache holds both, and does not tell them apart.
\<close>

definition startup_shown :: "string \<Rightarrow> (game_list \<times> nat \<times> game_device) option \<Rightarrow> string option" where
  "startup_shown name r = (case r of None \<Rightarrow> None | Some (gl, _) \<Rightarrow> map_option startup (map_of gl name))"

lemma old_name_takes_over:
  defines "scan \<equiv> \<lambda>d. scanForISO ''CD'' SCECdPS2CD d []"
    and "two \<equiv> [''Foo.iso'', ''SLUS_203.12.Foo.iso'']"
  shows "startup_shown ''Foo.iso'' (scan (demo_games two)) = Some ''SLES_500.10''"
    and "startup_shown ''Foo.iso'' (Option.bind (scan (demo_games two)) (\<lambda>(_, _, d). scan d)) = Some ''SLUS_203.12''"
  unfolding scan_def two_def by code_simp+

end
