(* ===== verification/Pc_Tools.thy ===== *)
theory Pc_Tools
  imports Game_Scan
begin

text \<open>
  The tools that put games on a drive and take them off it (\<^verbatim>\<open>pc/iso2opl\<close>, \<^verbatim>\<open>pc/opl2iso\<close>), on a computer:
  the image is cut into parts of a gigabyte, and an entry is appended to \<^verbatim>\<open>ul.cfg\<close>. The image's own file
  system is a parameter: the contents of its \<^verbatim>\<open>SYSTEM.CNF\<close>. An access outside of an array is \<open>None\<close>.
\<close>

section \<open>Names\<close>

text \<open>The tools' checksum has no limit on the length of the name.\<close>

fun crc32_loop :: "u32 \<Rightarrow> string \<Rightarrow> u32 option" where
  "crc32_loop crc [] = crc_char crc NUL"
| "crc32_loop crc (c # s) = do { crc \<leftarrow> crc_char crc c; crc32_loop crc s }"

definition crc32 :: "string \<Rightarrow> u32 option" where
  "crc32 s = crc32_loop (crctab 0) (cstr_of s)"

text \<open>\<open>ul.%08X.%s.%02d\<close>\<close>

definition part_file :: "u32 \<Rightarrow> string \<Rightarrow> nat \<Rightarrow> string" where
  "part_file crc game_id i = ''ul.'' @ show_hex8 crc @ ''.'' @ game_id @ ''.'' @ pad2 (show_nat i)"

section \<open>The name of the program\<close>

text \<open>
  \<^verbatim>\<open>strtok\<close> at line feeds, and \<^verbatim>\<open>strstr\<close>: what follows the first occurrence.
\<close>

fun tokens :: "string \<Rightarrow> string \<Rightarrow> string list" where
  "tokens acc [] = (if acc = [] then [] else [rev acc])"
| "tokens acc (c # s) =
     (if c = CHR 0x0A then (if acc = [] then tokens [] s else rev acc # tokens [] s) else tokens (c # acc) s)"

fun strstr_at :: "string \<Rightarrow> string \<Rightarrow> string option" where
  "strstr_at pat [] = (if pat = [] then Some [] else None)"
| "strstr_at pat (c # s) = (if take (length pat) (c # s) = pat then Some (c # s) else strstr_at pat s)"

definition low_char :: "char \<Rightarrow> bool" where
  "low_char c \<longleftrightarrow> 0 < (of_char c :: nat) \<and> (of_char c :: nat) \<le> 32"

text \<open>The path of the last line with one; \<open>boot_path\<close> has 256 characters.\<close>

fun boot_line :: "string option \<Rightarrow> string list \<Rightarrow> (int + string) option" where
  "boot_line found [] = Some (case found of None \<Rightarrow> Inl (- 4) | Some p \<Rightarrow> Inr p)"
| "boot_line found (l # ls) =
     (case strstr_at ''BOOT2'' l of
        None \<Rightarrow> boot_line found ls
      | Some p \<Rightarrow>
          (let p = dropWhile low_char (drop 5 p) in
           if p = [] \<or> hd p \<noteq> CHR ''='' then Some (Inl (- 3))
           else
             (let p = dropWhile (\<lambda>c. low_char c \<and> c \<noteq> CHR 0x0D \<and> c \<noteq> CHR 0x0A) (tl p) in
              if p = [] then Some (Inl (- 3))
              else if 256 \<le> length p then None
              else boot_line (Some p) ls)))"

definition ParseSYSTEMCNF :: "string option \<Rightarrow> (int + string) option" where
  "ParseSYSTEMCNF file =
     (case file of
        None \<Rightarrow> Some (Inl (- 1))
      | Some f \<Rightarrow> if 65536 \<le> length f then None else boot_line None (tokens [] (cstr_of f)))"

text \<open>The path's device has eight characters; a path without a version leaves a null pointer.\<close>

definition GetGameID :: "string option \<Rightarrow> (int + string) option" where
  "GetGameID file = do {
     r \<leftarrow> ParseSYSTEMCNF file;
     (case r of
        Inl e \<Rightarrow> Some (Inl e)
      | Inr p \<Rightarrow>
          if length p < 8 then None
          else do {
            rest \<leftarrow> strstr_at '';1'' (drop 8 p);
            Some (Inr (take (length (drop 8 p) - length rest) (drop 8 p)))
          })
   }"

section \<open>Installing a game\<close>

fun check_entries :: "string \<Rightarrow> string \<Rightarrow> nat \<Rightarrow> string \<Rightarrow> int" where
  "check_entries game_name cfg_image 0 f = 0"
| "check_entries game_name cfg_image (Suc n) f =
     (if f = [] then 0
      else if length f < 64 then - 3
      else if cstr_of (take 64 f) = game_name then - 1
      else if cstr_of (take 32 (drop 32 f)) = cfg_image then - 2
      else check_entries game_name cfg_image n (drop 64 f))"

text \<open>The entries are compared with the strings that start in them: a name of 32 characters has no end.\<close>

definition check_cfg :: "string \<Rightarrow> string \<Rightarrow> string \<Rightarrow> drive \<Rightarrow> int" where
  "check_cfg dr game_name game_id d =
     (case d (dr @ ''/ul.cfg'') of
        None \<Rightarrow> 0
      | Some f \<Rightarrow> check_entries game_name (''ul.'' @ game_id) (length f) f)"

text \<open>What comes of writing a file: all of it, nothing, or the first bytes.\<close>

datatype write_outcome = Complete | Cannot_open | Cut_off nat

definition cfg_record :: "string \<Rightarrow> string \<Rightarrow> string \<Rightarrow> nat \<Rightarrow> string" where
  "cfg_record game_name game_id ty n =
     arr 32 game_name @ arr 15 (''ul.'' @ game_id) @
     [byte_char (of_nat n), byte_char (if ty = ''CD'' then 0x12 else if ty = ''DVD'' then 0x14 else 0)] @
     replicate 4 NUL @ [CHR 0x08] @ replicate 10 NUL"

definition contents :: "drive \<Rightarrow> string \<Rightarrow> string" where
  "contents d p = (case d p of None \<Rightarrow> [] | Some f \<Rightarrow> f)"

definition write_cfg ::
  "(string \<Rightarrow> write_outcome) \<Rightarrow> string \<Rightarrow> string \<Rightarrow> string \<Rightarrow> string \<Rightarrow> nat \<Rightarrow> drive \<Rightarrow> (int \<times> drive) option" where
  "write_cfg wr dr game_name game_id ty n d =
     (let p = dr @ ''/ul.cfg''; r = cfg_record game_name game_id ty n in
      if 11 < length game_id then None
      else
        Some (case wr p of
                Complete \<Rightarrow> (0, d(p \<mapsto> contents d p @ r))
              | Cannot_open \<Rightarrow> (- 1, d)
              | Cut_off k \<Rightarrow> (- 2, d(p \<mapsto> contents d p @ take k r))))"

definition PART_SIZE :: nat where "PART_SIZE = 1073741824"
definition WR_SIZE :: nat where "WR_SIZE = 524288"

lemma WR_SIZE_pos [simp]: "0 < WR_SIZE"
  by (simp add: WR_SIZE_def)

text \<open>
  Copying \<open>nbytes\<close> of the image from \<open>iso_pos\<close> in blocks: what has been written, and the result so far. \<open>room\<close>
  is what can be written until the drive is full.
\<close>

function copy_blocks :: "string \<Rightarrow> nat \<Rightarrow> nat \<Rightarrow> nat option \<Rightarrow> string \<Rightarrow> int \<times> string" where
  "copy_blocks img iso_pos nbytes room out =
     (if nbytes = 0 then (0, out)
      else
        (let size = min nbytes WR_SIZE; buf = take size (drop iso_pos img) in
         if length buf \<noteq> size then (- 3, out)
         else if room \<noteq> None \<and> the room < size then (- 4, out @ take (the room) buf)
         else copy_blocks img (iso_pos + size) (nbytes - size) (map_option (\<lambda>r. r - size) room) (out @ buf)))"
  by auto
termination by (relation "measure (\<lambda>(_, _, n, _, _). n)") auto

declare copy_blocks.simps [simp del]

fun write_parts ::
  "(string \<Rightarrow> write_outcome) \<Rightarrow> string \<Rightarrow> string \<Rightarrow> string \<Rightarrow> string \<Rightarrow> nat \<Rightarrow> nat \<Rightarrow> nat list \<Rightarrow> drive \<Rightarrow> (int \<times> drive) option" where
  "write_parts wr dr game_name game_id img filesize iso_pos [] d = Some (0, d)"
| "write_parts wr dr game_name game_id img filesize iso_pos (i # is) d = do {
     crc \<leftarrow> crc32 game_name;
     let p = dr @ ''/'' @ part_file crc game_id i;
     let nbytes = min filesize PART_SIZE;
     if 256 \<le> length p then None else (case wr p of
        Cannot_open \<Rightarrow> Some (- 2, d)
      | w \<Rightarrow>
          (let (r, data) = copy_blocks img iso_pos nbytes (case w of Cut_off k \<Rightarrow> Some k | _ \<Rightarrow> None) [] in
           if r \<noteq> 0 then Some (r, d(p \<mapsto> data))
           else write_parts wr dr game_name game_id img (filesize - nbytes) (iso_pos + nbytes) is (d(p \<mapsto> data))))
   }"

definition num_parts :: "nat \<Rightarrow> nat" where
  "num_parts filesize = filesize div PART_SIZE + (if filesize mod PART_SIZE \<noteq> 0 then 1 else 0)"

text \<open>
  The program: whether it succeeds, and the drive. The paths are arrays of 256 characters.
\<close>

definition iso2opl ::
  "(string \<Rightarrow> write_outcome) \<Rightarrow> string option \<Rightarrow> string \<Rightarrow> string \<Rightarrow> string \<Rightarrow> string \<Rightarrow> drive \<Rightarrow> (bool \<times> drive) option" where
  "iso2opl wr cnf img dr game_name ty d =
     (if (ty \<noteq> ''CD'' \<and> ty \<noteq> ''DVD'') \<or> 32 < length game_name then Some (False, d)
      else if img = [] then Some (False, d)
      else do {
        r \<leftarrow> GetGameID cnf;
        (case r of
           Inl _ \<Rightarrow> Some (False, d)
         | Inr game_id \<Rightarrow>
             if 256 \<le> length dr + 7 then None
             else if check_cfg dr game_name game_id d < 0 then Some (False, d)
             else do {
               (r, d) \<leftarrow> write_parts wr dr game_name game_id img (length img) 0 [0 ..< num_parts (length img)] d;
               if r < 0 then Some (False, d)
               else do {
                 (r, d) \<leftarrow> write_cfg wr dr game_name game_id ty (num_parts (length img)) d;
                 Some (\<not> r < 0, d)
               }
             })
      })"

section \<open>Exporting a game\<close>

record cfg_item =
  i_name :: string
  i_image :: string
  i_parts :: u8
  i_media :: u8

text \<open>\<^verbatim>\<open>opl2iso\<close> reads into arrays that are one longer, so that the strings have an end.\<close>

definition read_item :: "string \<Rightarrow> cfg_item" where
  "read_item e =
     \<lparr>i_name = cstr_of (take 32 e), i_image = cstr_of (take 15 (drop 32 e)), i_parts = of_char (e ! 47),
      i_media = of_char (e ! 48)\<rparr>"

definition strncmp_eq :: "nat \<Rightarrow> string \<Rightarrow> string \<Rightarrow> bool" where
  "strncmp_eq n a b \<longleftrightarrow> take n a = take n b"

definition after_slash :: "string \<Rightarrow> string" where
  "after_slash s = (case strrchr_c s (CHR ''/'') of None \<Rightarrow> s | Some k \<Rightarrow> drop (k + 1) s)"

text \<open>An empty image name would be compared from behind its end.\<close>

definition item_matches :: "string \<Rightarrow> cfg_item \<Rightarrow> bool" where
  "item_matches gameid it \<longleftrightarrow>
     strncmp_eq 15 (i_image it) gameid \<or>
     strncmp_eq 12 (drop 3 (i_image it)) gameid \<or>
     strncmp_eq 32 (i_name it) gameid \<or>
     (let temp = after_slash gameid in
      23 \<le> length temp \<and> strncmp_eq 3 ''ul.'' temp \<and> strncmp_eq 12 (drop 2 (i_image it)) (drop 11 temp))"

definition items :: "string \<Rightarrow> cfg_item list" where
  "items f = map (\<lambda>k. read_item (take 64 (drop (64 * k) f))) [0 ..< length f div 64]"

definition findGame :: "string \<Rightarrow> drive \<Rightarrow> cfg_item option" where
  "findGame gameid d = (case d ''ul.cfg'' of None \<Rightarrow> None | Some f \<Rightarrow> List.find (item_matches gameid) (items f))"

definition compute_name :: "nat \<Rightarrow> string \<Rightarrow> string \<Rightarrow> nat \<Rightarrow> string option" where
  "compute_name maxlen game_name game_id partid =
     (if length game_id \<le> 3 then Some []
      else do { crc \<leftarrow> crc32 game_name; Some (take (maxlen - 1) (part_file crc (drop 3 game_id) partid)) })"

text \<open>The parts are appended to the destination; one that cannot be opened ends the export.\<close>

fun append_parts :: "(nat \<Rightarrow> string option) \<Rightarrow> nat list \<Rightarrow> string \<Rightarrow> drive \<Rightarrow> (bool \<times> drive) option" where
  "append_parts path [] dest d = Some (True, d)"
| "append_parts path (i # is) dest d = do {
     p \<leftarrow> path i;
     (case d p of
        None \<Rightarrow> Some (False, d)
      | Some block \<Rightarrow> append_parts path is dest (d(dest \<mapsto> contents d dest @ block)))
   }"

text \<open>
  \<open>writable\<close> says whether the destination can be opened. Without parts, the last source file is closed
  without having been opened.
\<close>

definition exportGame :: "(string \<Rightarrow> bool) \<Rightarrow> string \<Rightarrow> drive \<Rightarrow> (bool \<times> drive) option" where
  "exportGame writable gameid d =
     (case findGame gameid d of
        None \<Rightarrow> Some (False, d)
      | Some it \<Rightarrow>
          if i_media it \<noteq> 0x12 \<and> i_media it \<noteq> 0x14 then Some (False, d)
          else if length (i_image it) \<le> 3 then Some (False, d)
          else
            (let rname = take 254 ((if i_media it = 0x12 then ''CD'' else ''DVD'') @ ''/'' @ take 11 (drop 3 (i_image it)) @
                           ''.'' @ i_name it @ ''.iso'') in
             if \<not> writable rname then Some (False, d)
             else if i_parts it = 0 then None
             else append_parts (compute_name 128 (i_name it) (i_image it)) [0 ..< unat (i_parts it)] rname (d(rname \<mapsto> []))))"

end
