(* ===== verification/Pc_Props.thy ===== *)
theory Pc_Props
  imports Pc_Tools
begin

text \<open>
  The tools and the front end together: what \<^verbatim>\<open>iso2opl\<close> installs is listed, and its parts are found under the
  names that the front end makes and hold the image; \<^verbatim>\<open>opl2iso\<close> gives it back.
\<close>

section \<open>Names\<close>

lemma crc_string_loop: "length s \<le> n \<Longrightarrow> crc_string n crc s = crc32_loop crc s"
proof (induction s arbitrary: n crc)
  case (Cons c s)
  then obtain m where n: "n = Suc m" and m: "length s \<le> m" by (cases n) auto
  have "crc_string m x s = crc32_loop x s" for x using Cons.IH [OF m] .
  then show ?case by (simp add: n)
qed simp

text \<open>For a name that fits into an entry, the front end and the tools compute the same checksum.\<close>

lemma crc_agree: "length (cstr_of s) \<le> 32 \<Longrightarrow> USBA_crc32 s = crc32 s"
  by (simp add: USBA_crc32_def crc32_def crc_string_loop)

lemma length_show_hex8 [simp]: "length (show_hex8 w) = 8"
  by (simp add: show_hex8_def)

lemma char_0: "CHR ''0'' = hex_lower 0" "CHR ''0'' = digit_char 0"
  by code_simp+

lemma digit_0: "is_digit CHR ''0''" "digit_val CHR ''0'' = 0"
  by code_simp+

lemma pad2_show_hex: "i < 256 \<Longrightarrow> pad2 (show_hex i) = [hex_lower (i div 16), hex_lower (i mod 16)]"
  using less_mult_imp_div_less [of i 16 16] by (auto simp: show_hex.simps [of i] show_hex.simps [of "i div 16"] pad2_def char_0(1))

lemma pad2_show_nat_small: "i < 100 \<Longrightarrow> pad2 (show_nat i) = [digit_char (i div 10), digit_char (i mod 10)]"
  using less_mult_imp_div_less [of i 10 10]
  by (auto simp: show_nat.simps [of i] show_nat.simps [of "i div 10"] pad2_def char_0(2))

lemma length_show_nat_large: "100 \<le> i \<Longrightarrow> 2 < length (show_nat i)"
proof -
  assume "100 \<le> i"
  then have "show_nat i = show_nat (i div 10) @ [digit_char (i mod 10)]" and "\<not> i div 10 < 10"
    by (simp_all add: show_nat.simps [of i])
  moreover from this(2) have "show_nat (i div 10) = show_nat (i div 10 div 10) @ [digit_char (i div 10 mod 10)]"
    by (simp add: show_nat.simps [of "i div 10"])
  ultimately show ?thesis using show_nat_nonempty [of "i div 10 div 10"] by simp
qed

lemma hex_digit: "x < 16 \<Longrightarrow> y < 10 \<Longrightarrow> hex_lower x = digit_char y \<longleftrightarrow> x = y"
  by (auto simp: hex_lower_def digit_char_def)

text \<open>Parts are numbered alike up to the tenth.\<close>

lemma part_numbers:
  assumes "i < 256"
  shows "pad2 (show_hex i) = pad2 (show_nat i) \<longleftrightarrow> i < 10"
proof (cases "i < 100")
  case True
  have "i div 16 = i div 10 \<and> i mod 16 = i mod 10 \<longleftrightarrow> i < 10"
  proof
    assume e: "i div 16 = i div 10 \<and> i mod 16 = i mod 10"
    have "i = 16 * (i div 16) + i mod 16" "i = 10 * (i div 10) + i mod 10" by simp_all
    then have "i div 10 = 0" using e by linarith
    then show "i < 10" by simp
  qed simp
  then show ?thesis
    using True by (simp add: pad2_show_hex [OF assms] pad2_show_nat_small hex_digit)
next
  case False
  then have "2 < length (pad2 (show_nat i))" using length_show_nat_large [of i] by (simp add: pad2_def)
  moreover have "length (pad2 (show_hex i)) = 2" by (simp add: pad2_show_hex [OF assms])
  ultimately show ?thesis using False by auto
qed

lemma pad2_show_nat: "scan_digits 0 (pad2 (show_nat i)) = (i, [])"
proof -
  have "scan_digits 0 (show_nat i) = (i, [])" using scan_digits_show [of "[]" i] by simp
  then show ?thesis by (simp add: pad2_def digit_0)
qed

lemma pad2_show_nat_inj: "pad2 (show_nat i) = pad2 (show_nat j) \<longleftrightarrow> i = j"
  by (metis pad2_show_nat prod.inject)

lemma part_file_inj: "part_file crc game_id i = part_file crc game_id j \<longleftrightarrow> i = j"
  by (simp add: part_file_def pad2_show_nat_inj)

lemma part_file_long: "15 \<le> length (part_file crc game_id i)"
proof -
  have "2 \<le> length (pad2 (show_nat i))"
    using show_nat_nonempty [of i] by (cases "show_nat i") (auto simp: pad2_def Suc_le_eq)
  then show ?thesis by (simp add: part_file_def)
qed

section \<open>Parts\<close>

definition img_part :: "string \<Rightarrow> nat \<Rightarrow> string" where
  "img_part img i = take PART_SIZE (drop (i * PART_SIZE) img)"

fun put_parts :: "(nat \<Rightarrow> string) \<Rightarrow> string \<Rightarrow> nat list \<Rightarrow> drive \<Rightarrow> drive" where
  "put_parts path img [] d = d"
| "put_parts path img (i # ks) d = put_parts path img ks (d(path i \<mapsto> img_part img i))"

lemma put_parts_other: "q \<notin> path ` set ks \<Longrightarrow> put_parts path img ks d q = d q"
  by (induction ks arbitrary: d) auto

lemma put_parts_part: "inj path \<Longrightarrow> i \<in> set ks \<Longrightarrow> put_parts path img ks d (path i) = Some (img_part img i)"
proof (induction ks arbitrary: d)
  case (Cons j ks)
  show ?case
  proof (cases "i \<in> set ks")
    case False
    then have "path i \<notin> path ` set ks" using Cons.prems(1) by (auto dest: injD)
    then show ?thesis using False Cons.prems by (simp add: put_parts_other)
  qed (use Cons in simp)
qed simp

lemma PART_SIZE_pos [simp]: "0 < PART_SIZE"
  by (simp add: PART_SIZE_def)

lemma concat_parts: "concat (map (img_part img) [0 ..< n]) = take (n * PART_SIZE) img"
proof (induction n)
  case (Suc n)
  have "Suc n * PART_SIZE = n * PART_SIZE + PART_SIZE" by simp
  then show ?case using Suc by (simp only: upt_Suc_append map_append concat_append take_add) (simp add: img_part_def)
qed simp

lemma num_parts_bound: "length img \<le> num_parts (length img) * PART_SIZE"
proof -
  have "n \<le> n div PART_SIZE * PART_SIZE + PART_SIZE" for n
    by (metis add_le_cancel_left div_mult_mod_eq less_imp_le mod_less_divisor PART_SIZE_pos)
  then show ?thesis by (auto simp: num_parts_def add.commute)
qed

lemma num_parts_pos: "0 < n \<Longrightarrow> 0 < num_parts n"
  by (auto simp: num_parts_def)

lemma num_parts_before: "i < num_parts n \<Longrightarrow> i * PART_SIZE < n"
proof -
  assume i: "i < num_parts n"
  show ?thesis
  proof (cases "i < n div PART_SIZE")
    case True
    then have "Suc i * PART_SIZE \<le> n div PART_SIZE * PART_SIZE" by (intro mult_le_mono1) simp
    also have "\<dots> \<le> n" by simp
    finally show ?thesis using PART_SIZE_pos by (simp del: PART_SIZE_pos)
  next
    case False
    then have "n mod PART_SIZE \<noteq> 0" "i = n div PART_SIZE" using i by (auto simp: num_parts_def split: if_splits)
    then show ?thesis by (metis div_mult_mod_eq less_add_same_cancel1 neq0_conv)
  qed
qed

lemma copy_blocks_success:
  assumes "copy_blocks img pos n room out = (r, x)"
  shows "r \<in> {0, - 3, - 4} \<and> (r = 0 \<longrightarrow> x = out @ take n (drop pos img))"
  using assms
proof (induction img pos n room out rule: copy_blocks.induct)
  case (1 img pos n room out)
  let ?s = "min n WR_SIZE"
  let ?buf = "take ?s (drop pos img)"
  show ?case
  proof (cases "n = 0 \<or> length ?buf \<noteq> ?s \<or> room \<noteq> None \<and> the room < ?s")
    case True
    then show ?thesis using 1(2) by (subst (asm) copy_blocks.simps) (auto simp: Let_def split: if_splits)
  next
    case False
    then have "copy_blocks img (pos + ?s) (n - ?s) (map_option (\<lambda>r. r - ?s) room) (out @ ?buf) = (r, x)"
      using 1(2) by (subst (asm) copy_blocks.simps) (auto simp: Let_def split: if_splits)
    then have "r \<in> {0, - 3, - 4} \<and> (r = 0 \<longrightarrow> x = (out @ ?buf) @ take (n - ?s) (drop (pos + ?s) img))"
      using False by (intro 1(1)) auto
    moreover have "?buf @ take (n - ?s) (drop (pos + ?s) img) = take n (drop pos img)"
      using take_add [of ?s "n - ?s" "drop pos img"] False by (simp add: add.commute)
    ultimately show ?thesis by simp
  qed
qed

lemma write_parts_step:
  assumes "write_parts wr dr game_name game_id img filesize pos (i # ks) d = Some (r, d')"
    and "\<not> r < 0" and "crc32 game_name = Some crc" and n: "n = min filesize PART_SIZE"
  shows "write_parts wr dr game_name game_id img (filesize - n) (pos + n) ks
    (d(dr @ ''/'' @ part_file crc game_id i \<mapsto> take n (drop pos img))) = Some (r, d')"
proof -
  let ?p = "dr @ ''/'' @ part_file crc game_id i"
  have "wr ?p \<noteq> Cannot_open"
    using assms(1,2,3) by (auto simp: Let_def split: if_splits)
  moreover define room where "room = (case wr ?p of Cut_off k \<Rightarrow> Some k | _ \<Rightarrow> None)"
  ultimately have w: "write_parts wr dr game_name game_id img filesize pos (i # ks) d =
      (if 256 \<le> length ?p then None
       else (let (r, data) = copy_blocks img pos n room [] in
             if r \<noteq> 0 then Some (r, d(?p \<mapsto> data))
             else write_parts wr dr game_name game_id img (filesize - n) (pos + n) ks (d(?p \<mapsto> data))))"
    using assms(3) by (cases "wr ?p") (simp_all add: Let_def n cong: if_cong prod.case_cong)
  obtain x y where c: "copy_blocks img pos n room [] = (x, y)" by fastforce
  note s = copy_blocks_success [OF c]
  show ?thesis using w c s assms(1,2) by (auto split: if_splits)
qed

text \<open>When the parts could be written, they are there.\<close>

lemma write_parts_success:
  assumes "write_parts wr dr game_name game_id img (length img - k * PART_SIZE) (k * PART_SIZE) [k ..< m] d = Some (r, d')"
    and "\<not> r < 0" and "crc32 game_name = Some crc" and "m \<le> num_parts (length img)"
  shows "d' = put_parts (\<lambda>i. dr @ ''/'' @ part_file crc game_id i) img [k ..< m] d"
  using assms(1,2,4)
proof (induction "m - k" arbitrary: k d)
  case 0
  then show ?case by simp
next
  case (Suc n)
  then have km: "k < m" by simp
  let ?p = "dr @ ''/'' @ part_file crc game_id k"
  let ?n = "min (length img - k * PART_SIZE) PART_SIZE"
  have ks: "[k ..< m] = k # [Suc k ..< m]" using km by (rule upt_conv_Cons)
  define y where "y = take ?n (drop (k * PART_SIZE) img)"
  note rest = write_parts_step [OF Suc.prems(1) [unfolded ks] Suc.prems(2) assms(3) refl, folded y_def]
  have y: "y = img_part img k"
    by (simp add: y_def img_part_def min_def)
  show ?case
  proof (cases "Suc k < m")
    case True
    then have "Suc k * PART_SIZE < length img" using Suc.prems(3) by (intro num_parts_before) simp
    then have "?n = PART_SIZE" by simp
    then have "write_parts wr dr game_name game_id img (length img - Suc k * PART_SIZE) (Suc k * PART_SIZE)
      [Suc k ..< m] (d(?p \<mapsto> y)) = Some (r, d')"
      using rest by (simp add: add.commute)
    then have "d' = put_parts (\<lambda>i. dr @ ''/'' @ part_file crc game_id i) img [Suc k ..< m] (d(?p \<mapsto> y))"
      using Suc by (intro Suc.hyps(1)) auto
    then show ?thesis by (simp add: y ks)
  next
    case False
    then have e: "[Suc k ..< m] = []" by simp
    show ?thesis using rest unfolding ks e by (simp add: y)
  qed
qed

section \<open>Installing\<close>

lemma write_parts_crc:
  "write_parts wr dr game_name game_id img n pos (i # ks) d = Some x \<Longrightarrow> \<exists>crc. crc32 game_name = Some crc"
  by (auto split: bind_splits)

text \<open>Everything that a successful installation means.\<close>

definition part_path :: "string \<Rightarrow> u32 \<Rightarrow> string \<Rightarrow> nat \<Rightarrow> string" where
  "part_path dr crc game_id i = dr @ ''/'' @ part_file crc game_id i"

definition installed ::
  "string \<Rightarrow> string \<Rightarrow> string \<Rightarrow> string \<Rightarrow> string \<Rightarrow> u32 \<Rightarrow> drive \<Rightarrow> drive \<Rightarrow> bool" where
  "installed img dr game_name ty game_id crc d d' \<longleftrightarrow>
     img \<noteq> [] \<and> (ty = ''CD'' \<or> ty = ''DVD'') \<and> length game_name \<le> 32 \<and> length game_id \<le> 11 \<and>
     crc32 game_name = Some crc \<and>
     d' = (put_parts (part_path dr crc game_id) img [0 ..< num_parts (length img)] d)
            (dr @ ''/ul.cfg'' \<mapsto> contents d (dr @ ''/ul.cfg'') @ cfg_record game_name game_id ty (num_parts (length img)))"

lemma part_path_inj: "inj (part_path dr crc game_id)"
  by (auto simp: inj_def part_path_def part_file_inj)

lemma part_path_not_cfg: "part_path dr crc game_id i \<noteq> dr @ ''/ul.cfg''"
  using part_file_long [of crc game_id i] by (auto simp: part_path_def)

lemma iso2opl_installed:
  assumes "iso2opl wr cnf img dr game_name ty d = Some (True, d')"
  shows "\<exists>game_id crc. GetGameID cnf = Some (Inr game_id) \<and> installed img dr game_name ty game_id crc d d'"
proof -
  have img: "img \<noteq> []" and ty: "ty = ''CD'' \<or> ty = ''DVD''" and name: "length game_name \<le> 32"
    using assms by (auto simp: iso2opl_def split: if_splits)
  obtain game_id where g: "GetGameID cnf = Some (Inr game_id)"
    using assms img by (auto simp: iso2opl_def split: if_splits bind_splits sum.splits)
  let ?n = "num_parts (length img)" and ?cfg = "dr @ ''/ul.cfg''"
  obtain r d1 where p: "write_parts wr dr game_name game_id img (length img) 0 [0 ..< ?n] d = Some (r, d1)"
    and r: "\<not> r < 0" and c: "\<exists>r. write_cfg wr dr game_name game_id ty ?n d1 = Some (r, d') \<and> \<not> r < 0"
    using assms g img by (auto simp: iso2opl_def split: if_splits bind_splits)
  have "[0 ..< ?n] = 0 # [1 ..< ?n]" using num_parts_pos img by (simp add: upt_conv_Cons)
  with p obtain crc where crc: "crc32 game_name = Some crc" using write_parts_crc by metis
  have d1: "d1 = put_parts (part_path dr crc game_id) img [0 ..< ?n] d"
    using write_parts_success [of wr dr game_name game_id img 0 ?n d r d1 crc] p r crc
    by (simp add: part_path_def [abs_def])
  moreover have "d1 ?cfg = d ?cfg"
    unfolding d1 using part_path_not_cfg by (intro put_parts_other) (metis imageE)
  ultimately have "installed img dr game_name ty game_id crc d d'"
    using c img ty name crc
    by (auto simp: installed_def write_cfg_def contents_def Let_def split: if_splits write_outcome.splits)
  then show ?thesis using g by blast
qed

text \<open>The game that the entry stands for.\<close>

definition installed_game :: "string \<Rightarrow> string \<Rightarrow> string \<Rightarrow> nat \<Rightarrow> base_game_info" where
  "installed_game game_name game_id ty n =
     \<lparr>gname = arr 32 game_name, startup = arr 12 game_id, extension = [], parts = of_nat n,
      media = (if ty = ''CD'' then SCECdPS2CD else SCECdPS2DVD), gformat = GAME_FORMAT_USBLD, sizeMB = 0\<rparr>"

lemma arr_append: "length a \<le> n \<Longrightarrow> arr n (a @ b) = a @ arr (n - length a) b"
  by (simp add: arr_def replicate_add [symmetric] take_append)

lemma cfg_record_entry:
  assumes "ty = ''CD'' \<or> ty = ''DVD''"
  shows "cfg_record game_name game_id ty n = ul_entry (installed_game game_name game_id ty n)"
proof -
  have "arr 15 (''ul.'' @ game_id) = ''ul.'' @ arr 12 game_id"
    using arr_append [of "''ul.''" 15 game_id] by simp
  then show ?thesis using assms by (auto simp: cfg_record_def ul_entry_def installed_game_def)
qed

lemma ul_installed: "ul_game (installed_game game_name game_id ty n)"
  by (simp add: ul_game_def installed_game_def)

lemma installed_part:
  assumes "installed img dr game_name ty game_id crc d d'" and "i < num_parts (length img)"
  shows "d' (part_path dr crc game_id i) = Some (img_part img i)"
  using assms part_path_not_cfg put_parts_part [OF part_path_inj] by (auto simp: installed_def)

lemma installed_cfg:
  assumes "installed img dr game_name ty game_id crc d d'"
  shows "d' (dr @ ''/ul.cfg'') =
    Some (contents d (dr @ ''/ul.cfg'') @ ul_entry (installed_game game_name game_id ty (num_parts (length img))))"
  using assms cfg_record_entry by (auto simp: installed_def)

lemma all_parts: "concat (map (img_part img) [0 ..< num_parts (length img)]) = img"
  by (simp add: concat_parts num_parts_bound)

section \<open>Listed, and found\<close>

text \<open>The parts of a game, under the names that the front end makes.\<close>

definition game_image :: "drive \<Rightarrow> base_game_info \<Rightarrow> string \<Rightarrow> string \<Rightarrow> string option" where
  "game_image d g prefix sep =
     map_option concat (those (map (\<lambda>i. Option.bind (sbCreatePath g prefix sep i) d) [0 ..< unat (parts g)]))"

lemma those_Some: "(\<And>x. x \<in> set xs \<Longrightarrow> f x = Some (g x)) \<Longrightarrow> those (map f xs) = Some (map g xs)"
  by (induction xs) auto

lemma created_path_hex:
  assumes "NUL \<notin> set game_name" and "length game_name \<le> 32" and "NUL \<notin> set game_id" and "length game_id \<le> 11"
    and "crc32 game_name = Some crc" and "i < 256" and "length prefix \<le> 220"
  shows "sbCreatePath (installed_game game_name game_id ty n) prefix sep i =
    Some (prefix @ ''ul.'' @ show_hex8 crc @ ''.'' @ game_id @ ''.'' @ pad2 (show_hex i))"
proof -
  have nm: "cstr_of (arr 32 game_name) = game_name" "cstr_of (arr 12 game_id) = game_id"
    using assms(1-4) by (simp_all add: cstr_of_arr)
  have "USBA_crc32 (arr 32 game_name) = crc32 game_name"
    using crc_agree [of "arr 32 game_name"] assms(1,2) by (simp add: nm crc32_def cstr_of_id)
  moreover have "length (pad2 (show_hex i)) = 2" using pad2_show_hex [of i] assms(6) by simp
  ultimately show ?thesis
    using assms(4,5,7)
    by (simp add: sbCreatePath_def sbCreatePath_name_def installed_game_def nm snprintf256_def)
qed

lemma created_path:
  assumes "NUL \<notin> set game_name" and "length game_name \<le> 32" and "NUL \<notin> set game_id" and "length game_id \<le> 11"
    and "crc32 game_name = Some crc" and "i < 10" and "length prefix \<le> 220"
  shows "sbCreatePath (installed_game game_name game_id ty n) prefix sep i = Some (prefix @ part_file crc game_id i)"
  using created_path_hex [OF assms(1-5) _ assms(7)] part_numbers [of i] assms(6) by (simp add: part_file_def)

lemma installed_image:
  assumes "installed img dr game_name ty game_id crc d d'" and "NUL \<notin> set game_name" and "NUL \<notin> set game_id"
    and "num_parts (length img) \<le> 10" and "length prefix \<le> 220"
    and "\<And>x. dv (prefix @ x) = d' (dr @ ''/'' @ x)"
  shows "game_image dv (installed_game game_name game_id ty (num_parts (length img))) prefix sep = Some img"
proof -
  let ?n = "num_parts (length img)" and ?g = "installed_game game_name game_id ty (num_parts (length img))"
  have i: "length game_name \<le> 32" "length game_id \<le> 11" "crc32 game_name = Some crc"
    using assms(1) by (simp_all add: installed_def)
  have n: "unat (parts ?g) = ?n" using assms(4) by (simp add: installed_game_def unat_of_nat)
  have "Option.bind (sbCreatePath ?g prefix sep k) dv = Some (img_part img k)" if "k < ?n" for k
  proof -
    have "sbCreatePath ?g prefix sep k = Some (prefix @ part_file crc game_id k)"
      using that assms(4) by (intro created_path assms(2,3,5) i) simp
    then show ?thesis using assms(6) installed_part [OF assms(1) that] by (simp add: part_path_def)
  qed
  then have "those (map (\<lambda>k. Option.bind (sbCreatePath ?g prefix sep k) dv) [0 ..< ?n]) =
      Some (map (img_part img) [0 ..< ?n])"
    by (intro those_Some) simp
  then show ?thesis by (simp only: game_image_def n) (simp add: all_parts)
qed

text \<open>
  C1: a game that was installed on a computer is listed on the console, and its parts are found under the names
  that the console makes and hold the image, if there are at most ten of them. Earlier entries stay where they are.
\<close>

theorem installed_game_plays:
  assumes "iso2opl wr cnf img dr game_name ty d = Some (True, d')"
    and "GetGameID cnf = Some (Inr game_id)" and "NUL \<notin> set game_name" and "NUL \<notin> set game_id"
    and "contents d (dr @ ''/ul.cfg'') = concat (map ul_entry gs)" and "list_all ul_game gs"
    and "num_parts (length img) \<le> 10" and "length prefix \<le> 220"
    and "\<forall>x. files dv (prefix @ x) = d' (dr @ ''/'' @ x)"
    and "scanForISO (prefix @ ''CD'') SCECdPS2CD dv [] = Some (gl1, n1, dv1)"
    and "scanForISO (prefix @ ''DVD'') SCECdPS2DVD dv1 gl1 = Some (gl2, n2, dv2)" and "files dv2 = files dv"
  shows "\<exists>n g. sbReadList prefix dv = Some (n, gs @ g # take (n1 + n2) (map snd gl2), dv2) \<and>
    cstr_of (gname g) = game_name \<and> cstr_of (startup g) = game_id \<and>
    media g = (if ty = ''CD'' then SCECdPS2CD else SCECdPS2DVD) \<and> game_image (files dv) g prefix sep = Some img"
proof -
  obtain crc where inst: "installed img dr game_name ty game_id crc d d'"
    using iso2opl_installed [OF assms(1)] assms(2) by auto
  define g where "g = installed_game game_name game_id ty (num_parts (length img))"
  define f where "f = concat (map ul_entry (gs @ [g]))"
  have f: "files dv2 (prefix @ ''ul.cfg'') = Some f"
    using installed_cfg [OF inst] assms(5,9,12) by (simp add: f_def g_def)
  have "length (concat (map ul_entry hs)) = 64 * length hs" for hs by (induction hs) auto
  then have len: "length f = 64 * (length gs + 1)" by (simp add: f_def)
  have "ul_loop (n1 + n2 + (length gs + 1)) [] f = Some (gs @ [g])"
    unfolding f_def using assms(6) ul_installed by (intro ul_loop_entries) (auto simp: g_def)
  then have "sbReadList prefix dv = Some (int (length f), gs @ g # take (n1 + n2) (map snd gl2), dv2)"
    using assms(8,10,11) f len by (simp add: sbReadList_def snprintf256_def Let_def)
  moreover have "game_image (files dv) g prefix sep = Some img"
    unfolding g_def using assms(9) by (intro installed_image [OF inst assms(3,4,7,8)]) simp
  moreover have "length game_name \<le> 32" "length game_id \<le> 11" using inst by (simp_all add: installed_def)
  then have "cstr_of (gname g) = game_name" "cstr_of (startup g) = game_id"
    using assms(3,4) by (simp_all add: g_def installed_game_def cstr_of_arr)
  ultimately show ?thesis by (auto simp: g_def installed_game_def)
qed

end
