(* ===== verification/Pc_Export.thy ===== *)
theory Pc_Export
  imports Pc_Props
begin

text \<open>
  What \<^verbatim>\<open>opl2iso\<close> gives back of a game that \<^verbatim>\<open>iso2opl\<close> installed, and which program the two sides find in
  a \<^verbatim>\<open>SYSTEM.CNF\<close>.
\<close>

section \<open>Exporting\<close>

definition in_dir :: "string \<Rightarrow> drive \<Rightarrow> drive" where
  "in_dir dr d = (\<lambda>p. d (dr @ ''/'' @ p))"

definition exported_name :: "string \<Rightarrow> string \<Rightarrow> string \<Rightarrow> string" where
  "exported_name ty game_id game_name = ty @ ''/'' @ game_id @ ''.'' @ game_name @ ''.iso''"

lemma items_append:
  assumes "length f = 64 * n"
  shows "items (f @ e) = items f @ items e"
proof -
  let ?m = "length e div 64"
  have m: "length (f @ e) div 64 = n + ?m" using assms by simp
  have split: "[0 ..< n + ?m] = [0 ..< n] @ map (\<lambda>k. k + n) [0 ..< ?m]"
    using upt_add_eq_append [of 0 n ?m] map_add_upt [of n ?m] by (simp add: add.commute)
  have "take 64 (drop (64 * k) (f @ e)) = take 64 (drop (64 * k) f)" if "k < n" for k
  proof -
    have "64 * k + 64 \<le> 64 * n" using that by simp
    then have "64 \<le> length (drop (64 * k) f)" using assms by simp
    then show ?thesis using assms that by simp
  qed
  then have f: "map (\<lambda>k. read_item (take 64 (drop (64 * k) (f @ e)))) [0 ..< n] = items f"
    using assms by (simp add: items_def)
  have d: "drop (64 * (k + n)) (f @ e) = drop (64 * k) e" for k
    using assms by (simp add: add_mult_distrib2)
  have e: "map (\<lambda>k. read_item (take 64 (drop (64 * k) (f @ e)))) (map (\<lambda>k. k + n) [0 ..< ?m]) = items e"
    by (simp only: items_def map_map comp_def d)
  show ?thesis unfolding items_def [of "f @ e"] m split map_append f e ..
qed

lemma items_single: "length e = 64 \<Longrightarrow> items e = [read_item e]"
  by (simp add: items_def)

lemma find_last:
  assumes "\<forall>x \<in> set xs. \<not> P x" and "P y"
  shows "List.find P (xs @ [y]) = Some y"
  using assms by (induction xs) auto

lemma append_parts_all:
  assumes "\<And>i. i \<in> set ks \<Longrightarrow> path i = Some (p i) \<and> p i \<noteq> dest \<and> d (p i) = Some (img_part img i)"
  shows "\<exists>d'. append_parts path ks dest d = Some (True, d') \<and>
    contents d' dest = contents d dest @ concat (map (img_part img) ks) \<and> (d dest \<noteq> None \<longrightarrow> d' dest \<noteq> None)"
  using assms
proof (induction ks arbitrary: d)
  case (Cons i ks)
  let ?d = "d(dest \<mapsto> contents d dest @ img_part img i)"
  have "\<exists>d'. append_parts path ks dest ?d = Some (True, d') \<and>
    contents d' dest = contents ?d dest @ concat (map (img_part img) ks) \<and> (?d dest \<noteq> None \<longrightarrow> d' dest \<noteq> None)"
    using Cons.prems by (intro Cons.IH) simp
  then show ?case using Cons.prems [of i] by (auto simp: contents_def)
qed simp

lemma read_installed:
  assumes "NUL \<notin> set game_name" and "length game_name \<le> 32" and "NUL \<notin> set game_id" and "length game_id \<le> 11"
    and "n < 256"
  shows "read_item (ul_entry (installed_game game_name game_id ty n)) =
    \<lparr>i_name = game_name, i_image = ''ul.'' @ game_id, i_parts = of_nat n,
     i_media = (if ty = ''CD'' then SCECdPS2CD else SCECdPS2DVD)\<rparr>"
proof -
  let ?g = "installed_game game_name game_id ty n"
  have g: "game_of_entry (ul_entry ?g) = ?g" using game_of_ul_entry [OF ul_installed] .
  have "take 15 (drop 32 (ul_entry ?g)) = ''ul.'' @ arr 12 game_id"
    by (simp add: ul_entry_def installed_game_def)
  moreover have "cstr_of (''ul.'' @ arr 12 game_id) = ''ul.'' @ game_id"
    using assms(3,4) cstr_of_arr [of game_id 12] by (simp add: cstr_of_def)
  moreover have "take 32 (ul_entry ?g) = arr 32 game_name"
    and "of_char (ul_entry ?g ! 47) = (of_nat n :: u8)"
    and "of_char (ul_entry ?g ! 48) = (if ty = ''CD'' then SCECdPS2CD else SCECdPS2DVD)"
    using g by (simp_all add: game_of_entry_def installed_game_def)
  ultimately show ?thesis
    using assms(1,2) by (simp add: read_item_def cstr_of_arr)
qed


text \<open>
  the console numbers the parts of a game in hexadecimal, the computer in decimal. The names are the same for the
  first ten parts, and for no other.
\<close>

lemma part_names_agree:
  assumes "NUL \<notin> set game_name" and "length game_name \<le> 32" and "NUL \<notin> set game_id" and "length game_id \<le> 11"
    and "crc32 game_name = Some crc" and "i < 256" and "length prefix \<le> 220"
  shows "sbCreatePath (installed_game game_name game_id ty n) prefix sep i = Some (prefix @ part_file crc game_id i) \<longleftrightarrow>
    i < 10"
  using created_path_hex [OF assms] part_numbers [OF assms(6)] by (simp add: part_file_def)

section \<open>The program of a disc\<close>

lemma tokens_line:
  "CHR 0x0A \<notin> set l \<Longrightarrow> tokens acc (l @ CHR 0x0A # s) =
     (if rev acc @ l = [] then tokens [] s else (rev acc @ l) # tokens [] s)"
  by (induction l arbitrary: acc) auto

text \<open>Lines that do not speak of a program.\<close>

definition no_boot :: "string list \<Rightarrow> bool" where
  "no_boot ls \<longleftrightarrow> list_all (\<lambda>l. strstr_at ''BOOT2'' l = None) ls"

lemma tokens_lines:
  "list_all (\<lambda>l. CHR 0x0A \<notin> set l) ls \<Longrightarrow> tokens [] (cnf_lines ls @ s) = filter (\<lambda>l. l \<noteq> []) ls @ tokens [] s"
  by (induction ls) (auto simp: cnf_lines_def tokens_line)

lemma boot_line_skips: "no_boot ls \<Longrightarrow> boot_line p (ls @ ks) = boot_line p ks"
  by (induction ls) (auto simp: no_boot_def)

lemma strstr_at_behind:
  assumes "CHR '';'' \<notin> set name"
  shows "strstr_at '';1'' (name @ '';1'' @ e) = Some ('';1'' @ e)"
  using assms by (induction name) (auto simp: take_Cons')

definition cnf_text :: "string list \<Rightarrow> nat \<Rightarrow> nat \<Rightarrow> string \<Rightarrow> string \<Rightarrow> string \<Rightarrow> string" where
  "cnf_text ls a b name e s =
     cnf_lines ls @ (''BOOT2'' @ replicate a CHR '' '' @ ''='' @ replicate b CHR '' '' @
       boot_path ''cdrom0'' 1 name @ e) @ CHR 0x0A # s"

lemma GetGameID_text:
  assumes "list_all other_line ls" and "no_boot ls" and "no_boot (tokens [] s)"
    and "exec_name_ok name" and "length name \<le> 40" and "e \<in> {[], [CHR 0x0D]}"
    and "NUL \<notin> set (cnf_text ls a b name e s)" and "length (cnf_text ls a b name e s) < 1000"
  shows "GetGameID (Some (cnf_text ls a b name e s)) = Some (Inr name)"
proof -
  let ?path = "boot_path ''cdrom0'' 1 name @ e"
  let ?line = "''BOOT2'' @ replicate a CHR '' '' @ ''='' @ replicate b CHR '' '' @ ?path"
  have path: "?path = ''cdrom0:'' @ CHR 0x5C # name @ '';1'' @ e" by (simp add: boot_path_def)
  have name: "list_all is_graph name" "CHR '';'' \<notin> set name" using assms(4) by (simp_all add: exec_name_ok_def)
  have "CHR 0x0A \<notin> set name" using name(1) by (auto simp: list_all_iff is_graph_def)
  then have lf: "CHR 0x0A \<notin> set ?line" using assms(6) by (auto simp: boot_path_def)
  have ll: "list_all (\<lambda>l. CHR 0x0A \<notin> set l) ls" using assms(1) by (auto simp: list_all_iff other_line_def)
  have "tokens [] (cnf_text ls a b name e s) = filter (\<lambda>l. l \<noteq> []) ls @ ?line # tokens [] s"
    unfolding cnf_text_def using tokens_lines [OF ll] tokens_line [OF lf, of "[]" s] by simp
  moreover have "no_boot (filter (\<lambda>l. l \<noteq> []) ls)" using assms(2) by (auto simp: no_boot_def list_all_iff)
  moreover have "boot_line None (?line # tokens [] s) = boot_line (Some ?path) (tokens [] s)"
  proof -
    have "strstr_at ''BOOT2'' ?line = Some ?line" by simp
    moreover have "dropWhile low_char (drop 5 ?line) = ''='' @ replicate b CHR '' '' @ ?path"
    proof -
      have "\<not> low_char CHR ''=''" and "low_char CHR '' ''" by code_simp+
      then show ?thesis using dropWhile_all [of low_char "replicate a CHR '' ''"] by (simp add: list_all_iff)
    qed
    moreover have "dropWhile (\<lambda>c. low_char c \<and> c \<noteq> CHR 0x0D \<and> c \<noteq> CHR 0x0A) (replicate b CHR '' '' @ ?path) = ?path"
    proof -
      have "\<not> low_char CHR ''c''" and "low_char CHR '' ''" by code_simp+
      then show ?thesis
        using dropWhile_all [of "\<lambda>c. low_char c \<and> c \<noteq> CHR 0x0D \<and> c \<noteq> CHR 0x0A" "replicate b CHR '' ''"]
        by (simp add: list_all_iff boot_path_def)
    qed
    moreover have "length ?path < 256"
      using assms(5,6) by (auto simp: boot_path_def)
    moreover have "boot_path ''cdrom0'' 1 name \<noteq> []" by (simp add: boot_path_def)
    ultimately show ?thesis by (simp add: Let_def)
  qed
  moreover have "boot_line (Some ?path) (tokens [] s) = Some (Inr ?path)"
    using boot_line_skips [OF assms(3), of _ "[]"] by simp
  ultimately have "ParseSYSTEMCNF (Some (cnf_text ls a b name e s)) = Some (Inr ?path)"
    using assms(7,8) boot_line_skips by (simp add: ParseSYSTEMCNF_def cstr_of_id)
  then show ?thesis
    using strstr_at_behind [OF name(2), of e] by (simp add: GetGameID_def boot_path_def)
qed

lemma text_names_program:
  assumes "list_all other_line ls" and "exec_name_ok name" and "length name \<le> 40" and "e \<in> {[], [CHR 0x0D]}"
    and "length (cnf_text ls a b name e s) < 1000"
  shows "names_program (cnf_text ls a b name e s) name"
proof -
  have "take (CNF_LEN_MAX - 1) (cnf_text ls a b name e s) =
      cnf_lines ls @ [] @ ''BOOT2'' @ replicate a CHR '' '' @ ''='' @ replicate b CHR '' '' @
        boot_path ''cdrom0'' 1 name @ (e @ CHR 0x0A # s)"
    using assms(5) by (simp add: cnf_text_def)
  moreover have ch: "is_space CHR '' ''" "list_all is_graph ''cdrom0''" "\<not> is_graph CHR 0x0D" "\<not> is_graph CHR 0x0A"
    by code_simp+
  moreover have "length (boot_path ''cdrom0'' 1 name) < CNF_PATH_LEN_MAX" using assms(3) by (simp add: boot_path_def)
  moreover have "list_all is_space (replicate i CHR '' '')" for i using ch(1) by (simp add: list_all_iff)
  moreover have "\<not> is_graph (hd (e @ CHR 0x0A # s))" using ch(3,4) assms(4) by auto
  moreover have "CHR '':'' \<notin> set ''cdrom0''" "list_all is_space []" by simp_all
  ultimately show ?thesis
    unfolding names_program_def using assms(1,2) by blast
qed

text \<open>
  C20: the console and the computer, with parsers of their own, find the same program in a \<^verbatim>\<open>SYSTEM.CNF\<close> with one line
  for it, whatever the spaces around the equals sign, the line ends and the other lines.
\<close>

theorem same_program_found:
  assumes "list_all other_line ls" and "no_boot ls" and "no_boot (tokens [] s)"
    and "exec_name_ok name" and "length name \<le> n" and "n \<le> 40" and "e \<in> {[], [CHR 0x0D]}"
    and "NUL \<notin> set (cnf_text ls a b name e s)" and "length (cnf_text ls a b name e s) < 1000"
  shows "GetStartupExecName (Some (cnf_text ls a b name e s)) n = Some (Inr name) \<and>
    GetGameID (Some (cnf_text ls a b name e s)) = Some (Inr name)"
proof
  have len: "length name \<le> 40" using assms(5,6) by simp
  show "GetStartupExecName (Some (cnf_text ls a b name e s)) n = Some (Inr name)"
    by (intro GetStartupExecName_found text_names_program assms len)
  show "GetGameID (Some (cnf_text ls a b name e s)) = Some (Inr name)"
    by (intro GetGameID_text assms len)
qed

section \<open>Examples\<close>

definition demo_text :: string where
  "demo_text = cnf_text [''VER = 1.00''] 1 1 ''SLUS_203.12'' [CHR 0x0D] ''VMODE = NTSC''"

lemma demo_text_ok: "list_all other_line [''VER = 1.00'']" "no_boot [''VER = 1.00'']" "no_boot (tokens [] ''VMODE = NTSC'')"
  "exec_name_ok ''SLUS_203.12''" "NUL \<notin> set demo_text" "length demo_text < 1000"
  by code_simp+

theorem same_program_found_witness:
  "GetStartupExecName (Some demo_text) 11 = Some (Inr ''SLUS_203.12'') \<and>
   GetGameID (Some demo_text) = Some (Inr ''SLUS_203.12'')"
  unfolding demo_text_def
  using same_program_found [OF demo_text_ok(1-4), of 11 "[CHR 0x0D]" 1 1] demo_text_ok(5,6)
  by (simp add: demo_text_def)

text \<open>The installation of a small image on an empty drive.\<close>

definition demo_img :: string where
  "demo_img = ''disc''"

lemma demo_img: "length demo_img = 4" "demo_img \<noteq> []" "take 4 demo_img = demo_img"
  by (simp_all add: demo_img_def)

definition demo_installed :: drive where
  "demo_installed = (case iso2opl (\<lambda>_. Complete) (Some demo_text) demo_img ''D'' ''Foo'' ''CD'' Map.empty of
     Some (_, d) \<Rightarrow> d | None \<Rightarrow> Map.empty)"

lemma demo_num_parts: "num_parts 4 = 1"
  by (simp add: num_parts_def PART_SIZE_def)

lemma demo_crc: "\<exists>crc. crc32 ''Foo'' = Some crc"
  by (simp add: crc32_def cstr_of_def crc_char_def)

lemma demo_game_id: "GetGameID (Some demo_text) = Some (Inr ''SLUS_203.12'')"
  by code_simp

lemma demo_install: "iso2opl (\<lambda>_. Complete) (Some demo_text) demo_img ''D'' ''Foo'' ''CD'' Map.empty = Some (True, demo_installed)"
proof -
  obtain crc where "crc32 ''Foo'' = Some crc" using demo_crc by blast
  moreover have "copy_blocks demo_img 0 4 None [] = (0, demo_img)"
    by (subst copy_blocks.simps, simp add: WR_SIZE_def demo_img, subst copy_blocks.simps, simp)
  moreover have "length (part_file crc ''SLUS_203.12'' 0) < 254" for crc
    by (simp add: part_file_def pad2_show_nat_small)
  ultimately have "iso2opl (\<lambda>_. Complete) (Some demo_text) demo_img ''D'' ''Foo'' ''CD'' Map.empty \<noteq> None \<and>
      (\<forall>r. iso2opl (\<lambda>_. Complete) (Some demo_text) demo_img ''D'' ''Foo'' ''CD'' Map.empty = Some r \<longrightarrow> fst r)"
    by (simp add: iso2opl_def demo_game_id demo_num_parts demo_img ex_bool_eq check_cfg_def write_cfg_def PART_SIZE_def Let_def not_le less_imp_le)
  then show ?thesis by (auto simp: demo_installed_def split: option.splits)
qed


theorem part_names_agree_witness:
  "\<exists>crc. crc32 ''Foo'' = Some crc \<and>
     sbCreatePath (installed_game ''Foo'' ''SLUS_203.12'' ''CD'' 12) ''mass0:/'' ''/'' 9 =
       Some (''mass0:/'' @ part_file crc ''SLUS_203.12'' 9) \<and>
     sbCreatePath (installed_game ''Foo'' ''SLUS_203.12'' ''CD'' 12) ''mass0:/'' ''/'' 10 \<noteq>
       Some (''mass0:/'' @ part_file crc ''SLUS_203.12'' 10)"
proof -
  obtain crc where c: "crc32 ''Foo'' = Some crc" using demo_crc by blast
  have "sbCreatePath (installed_game ''Foo'' ''SLUS_203.12'' ''CD'' 12) ''mass0:/'' ''/'' i =
      Some (''mass0:/'' @ part_file crc ''SLUS_203.12'' i) \<longleftrightarrow> i < 10" if "i < 256" for i
    using that by (intro part_names_agree c) simp_all
  from this [of 9] this [of 10] show ?thesis using c by auto
qed

text \<open>The same drive on the console.\<close>

definition demo_console :: game_device where
  "demo_console = \<lparr>files = (\<lambda>p. if take 7 p = ''mass0:/'' then demo_installed (''D/'' @ drop 7 p) else None),
     listing = Map.empty, games_bin = Map.empty, cnf_file = Map.empty, write_to = (\<lambda>_. Written)\<rparr>"

lemma demo_console_scan: "scanForISO path ty demo_console gl = (if length path + 10 < 256 then Some (gl, 0, demo_console) else None)"
  by (simp add: scanForISO_def cache_path_def demo_console_def loadISOGameListCache_def updateISOGameList_def applyISOSizes_def)

theorem installed_game_plays_witness:
  "\<exists>n g. sbReadList ''mass0:/'' demo_console = Some (n, [g], demo_console) \<and> cstr_of (gname g) = ''Foo'' \<and>
     cstr_of (startup g) = ''SLUS_203.12'' \<and> media g = SCECdPS2CD \<and>
     game_image (files demo_console) g ''mass0:/'' ''/'' = Some demo_img"
proof -
  have "\<forall>x. files demo_console (''mass0:/'' @ x) = demo_installed (''D'' @ ''/'' @ x)"
    by (simp add: demo_console_def)
  moreover have "scanForISO (''mass0:/'' @ ''CD'') SCECdPS2CD demo_console [] = Some ([], 0, demo_console)"
    and "scanForISO (''mass0:/'' @ ''DVD'') SCECdPS2DVD demo_console [] = Some ([], 0, demo_console)"
    by (simp_all add: demo_console_scan)
  ultimately show ?thesis
    using installed_game_plays [OF demo_install demo_game_id, of "[]" "''mass0:/''" demo_console "[]" 0 demo_console "[]" 0 demo_console "''/''"]
    by (simp add: contents_def demo_num_parts demo_img)
qed

end
