(* ===== verification/Game_Manage.thy ===== *)
theory Game_Manage
  imports Pc_Props
begin

text \<open>
  Renaming and deleting games that are kept in parts: the image moves along with the name, and \<^verbatim>\<open>ul.cfg\<close> holds
  the games that there are.
\<close>

section \<open>The paths of a game's parts\<close>

definition hex_path :: "string \<Rightarrow> u32 \<Rightarrow> string \<Rightarrow> nat \<Rightarrow> string" where
  "hex_path prefix crc game_id i = prefix @ ''ul.'' @ show_hex8 crc @ ''.'' @ game_id @ ''.'' @ pad2 (show_hex i)"

lemma hex_lower_inj: "x < 16 \<Longrightarrow> y < 16 \<Longrightarrow> hex_lower x = hex_lower y \<longleftrightarrow> x = y"
  by (auto simp: hex_lower_def)

lemma pad2_show_hex_inj: "i < 256 \<Longrightarrow> j < 256 \<Longrightarrow> pad2 (show_hex i) = pad2 (show_hex j) \<longleftrightarrow> i = j"
proof -
  assume ij: "i < 256" "j < 256"
  then have d: "i div 16 < 16" "j div 16 < 16" by simp_all
  have "i div 16 = j div 16 \<and> i mod 16 = j mod 16 \<longleftrightarrow> i = j" by (metis div_mult_mod_eq)
  then show ?thesis using ij d by (simp add: pad2_show_hex hex_lower_inj)
qed

lemma hex_path_same:
  assumes "i < 256" and "j < 256"
  shows "hex_path prefix crc game_id i = hex_path prefix crc' game_id j \<longleftrightarrow> i = j \<and> show_hex8 crc = show_hex8 crc'"
proof -
  have "length (show_hex8 crc) = length (show_hex8 crc')" by simp
  then show ?thesis
    using pad2_show_hex_inj [OF assms] by (auto simp: hex_path_def append_eq_append_conv)
qed

lemma hex_path_not_cfg: "i < 256 \<Longrightarrow> hex_path prefix crc game_id i \<noteq> prefix @ ''ul.cfg''"
proof
  assume "i < 256" and "hex_path prefix crc game_id i = prefix @ ''ul.cfg''"
  then have "length (''ul.'' @ show_hex8 crc @ ''.'' @ game_id @ ''.'' @ pad2 (show_hex i)) = length ''ul.cfg''"
    by (metis hex_path_def same_append_eq)
  then show False by simp
qed

lemma sbCreatePath_name_ul:
  assumes "ul_game g" and "USBA_crc32 name = Some crc" and "length prefix \<le> 220" and "i < 256"
  shows "sbCreatePath_name g prefix sep i name = Some (hex_path prefix crc (cstr_of (startup g)) i)"
proof -
  have "length (cstr_of (startup g)) \<le> 12"
    using assms(1) length_takeWhile_le [of _ "startup g"] by (auto simp: ul_game_def cstr_of_def)
  moreover have "length (pad2 (show_hex i)) = 2" using pad2_show_hex assms(4) by simp
  ultimately show ?thesis
    using assms by (simp add: sbCreatePath_name_def ul_game_def snprintf256_def hex_path_def)
qed

section \<open>Moving and removing files\<close>

lemma rename_parts_moves:
  assumes "distinct ks" and "\<And>i. i \<in> set ks \<Longrightarrow> old i = Some (p i) \<and> new i = Some (q i)"
    and "\<And>i j. i \<in> set ks \<Longrightarrow> j \<in> set ks \<Longrightarrow> p i = p j \<or> q i = q j \<or> q i = p j \<Longrightarrow> i = j"
    and "\<And>i. i \<in> set ks \<Longrightarrow> d (p i) \<noteq> None"
  shows "\<exists>d'. rename_parts old new ks d = Some d' \<and> (\<forall>i \<in> set ks. d' (q i) = d (p i)) \<and>
    (\<forall>x. x \<notin> p ` set ks \<and> x \<notin> q ` set ks \<longrightarrow> d' x = d x)"
  using assms
proof (induction ks arbitrary: d)
  case (Cons k ks)
  obtain c where c: "d (p k) = Some c" using Cons.prems(4) [of k] by auto
  let ?d = "(d(p k := None))(q k \<mapsto> c)"
  have keep: "?d (p i) = d (p i)" if "i \<in> set ks" for i
    using that Cons.prems(1) Cons.prems(3) [of i k] Cons.prems(3) [of k i] by auto
  have "\<exists>d'. rename_parts old new ks ?d = Some d' \<and> (\<forall>i \<in> set ks. d' (q i) = ?d (p i)) \<and>
    (\<forall>x. x \<notin> p ` set ks \<and> x \<notin> q ` set ks \<longrightarrow> d' x = ?d x)"
  proof (intro Cons.IH)
    show "?d (p i) \<noteq> None" if "i \<in> set ks" for i using keep [OF that] Cons.prems(4) that by simp
  qed (use Cons.prems in auto)
  then obtain d' where d': "rename_parts old new ks ?d = Some d'" "\<forall>i \<in> set ks. d' (q i) = d (p i)"
    "\<And>x. x \<notin> p ` set ks \<and> x \<notin> q ` set ks \<Longrightarrow> d' x = ?d x"
    using keep by auto
  have "q k \<notin> p ` set ks \<and> q k \<notin> q ` set ks"
    using Cons.prems(1) Cons.prems(3) [of k] by auto
  then have "d' (q k) = d (p k)" using d'(3) c by simp
  moreover have "rename_parts old new (k # ks) d = Some d'"
    using Cons.prems(2) [of k] c d'(1) by (simp add: rename_file_def)
  ultimately show ?case using d' by auto
qed simp

lemma delete_parts_removes:
  assumes "\<And>i. i \<in> set ks \<Longrightarrow> path i = Some (p i)"
  shows "delete_parts path ks d = Some (\<lambda>x. if x \<in> p ` set ks then None else d x)"
  using assms by (induction ks arbitrary: d) (auto simp: remove_file_def fun_eq_iff)

abbreviation is_ul :: "base_game_info \<Rightarrow> bool" where
  "is_ul g \<equiv> gformat g = GAME_FORMAT_USBLD"

lemma filter_enumerate: "map snd (filter (\<lambda>(i, g). P g \<and> n \<noteq> Some i) (enumerate m gs)) =
    (case n of None \<Rightarrow> filter P gs
     | Some k \<Rightarrow> if k < m then filter P gs else filter P (take (k - m) gs) @ filter P (drop (k - m + 1) gs))"
proof (induction gs arbitrary: m)
  case (Cons g gs)
  show ?case
  proof (cases n)
    case (Some k)
    consider "k < m" | "k = m" | j where "k = Suc (m + j)" by (metis less_iff_Suc_add linorder_neqE_nat)
    then show ?thesis
    proof cases
      case 3
      then have "k - m = Suc j" "k - Suc m = j" by simp_all
      then show ?thesis using Cons [of "Suc m"] Some 3 by simp
    qed (use Cons [of "Suc m"] Some in auto)
  qed (use Cons in auto)
qed (auto split: option.split)

lemma sbRebuildULCfg_eq:
  assumes "length prefix \<le> 220"
  shows "sbRebuildULCfg games prefix n d = d(prefix @ ''ul.cfg'' \<mapsto>
    concat (map ul_entry (case n of None \<Rightarrow> filter is_ul games
      | Some k \<Rightarrow> filter is_ul (take k games) @ filter is_ul (drop (k + 1) games))))"
proof -
  have m: "map (\<lambda>(i, g). ul_entry g) xs = map ul_entry (map snd xs)" for xs :: "(nat \<times> base_game_info) list"
    by (induction xs) auto
  show ?thesis
    unfolding sbRebuildULCfg_def m filter_enumerate using assms by (cases n) (simp_all add: snprintf256_def)
qed

section \<open>Renaming\<close>

lemma cstr_of_arr_start:
  assumes "length (cstr_of s) \<le> n"
  shows "cstr_of (arr n s) = cstr_of s"
proof -
  let ?w = "cstr_of s"
  have w: "NUL \<notin> set ?w" by (auto simp: cstr_of_def dest: set_takeWhileD)
  obtain r where s: "s = ?w @ r" and r: "r = [] \<or> hd r = NUL"
    unfolding cstr_of_def using takeWhile_dropWhile_id [of "\<lambda>c. c \<noteq> NUL" s] hd_dropWhile [of "\<lambda>c. c \<noteq> NUL" s] by metis
  have "arr n s = ?w @ take (n - length ?w) (r @ replicate n NUL)"
    using assms by (subst s) (simp add: arr_def)
  moreover have "cstr_of (take m (r @ replicate n NUL)) = []" for m
    using r by (cases r; cases n; cases m) (auto simp: cstr_of_def)
  moreover have "cstr_of (?w @ t) = ?w @ cstr_of t" for t
    unfolding cstr_of_def [of "?w @ t"] cstr_of_def [of t] using w by (intro takeWhile_append2) auto
  ultimately show ?thesis by (simp only: append_Nil2)
qed

lemma game_image_ul:
  assumes "ul_game g" and "USBA_crc32 (gname g) = Some crc" and "length prefix \<le> 220"
  shows "game_image d g prefix sep =
    map_option concat (those (map (\<lambda>i. d (hex_path prefix crc (cstr_of (startup g)) i)) [0 ..< unat (parts g)]))"
proof -
  have "unat (parts g) < 2 ^ LENGTH(8)" by (rule unsigned_less)
  then have "map (\<lambda>i. Option.bind (sbCreatePath g prefix sep i) d) [0 ..< unat (parts g)] =
      map (\<lambda>i. d (hex_path prefix crc (cstr_of (startup g)) i)) [0 ..< unat (parts g)]"
    using sbCreatePath_name_ul [OF assms] by (intro map_cong) (simp_all add: sbCreatePath_def)
  then show ?thesis by (simp only: game_image_def)
qed

lemma those_all: "those (map f xs) = Some ys \<Longrightarrow> x \<in> set xs \<Longrightarrow> f x \<noteq> None"
  by (induction xs arbitrary: ys) (auto split: option.splits)


section \<open>Deleting\<close>


section \<open>Examples\<close>

text \<open>A game in two parts, and a disc image.\<close>

definition demo_ul :: base_game_info where
  "demo_ul = \<lparr>gname = arr 32 ''Foo'', startup = arr 12 ''SLUS_203.12'', extension = [], parts = 2, media = SCECdPS2DVD,
     gformat = GAME_FORMAT_USBLD, sizeMB = 0\<rparr>"

lemma demo_ul: "ul_game demo_ul" "unat (parts demo_ul) = 2"
  by (simp_all add: ul_game_def demo_ul_def)

lemma demo_ul_crc: "\<exists>crc. USBA_crc32 (gname demo_ul) = Some crc"
  by (simp add: demo_ul_def USBA_crc32_def cstr_of_arr) (simp add: crc_char_def)

lemma demo_new_crc: "\<exists>crc. USBA_crc32 ''Bar'' = Some crc"
  by (simp add: USBA_crc32_def cstr_of_id) (simp add: crc_char_def)



end
