(* ===== verification/Vmc_Gen.thy ===== *)
theory Vmc_Gen
  imports Wopl_Prelude
begin

text \<open>
  Making images of memory cards: the module \<^verbatim>\<open>modules/vmc/genvmc\<close> on the console, the program \<^verbatim>\<open>pc/genvmc\<close>
  on a computer, which formats in the same way, and the check of an image by the front end
  (\<^verbatim>\<open>sysCheckVMC\<close> of \<^verbatim>\<open>src/system.c\<close>). A file is the list of its bytes. The messages and the progress shown
  are left out; allocations succeed. A division by zero, and waiting for ever, is \<open>None\<close>.
\<close>

section \<open>The superblock\<close>

record mcdev =
  magic :: "u8 list"
  pagesize :: u16
  pages_per_cluster :: u16
  blocksize :: u16
  clusters_per_card :: u32
  alloc_offset :: u32
  alloc_end :: u32
  rootdir_cluster :: u32
  backup_block1 :: u32
  backup_block2 :: u32
  ifc_list :: "u32 list"
  bad_block_list :: "u32 list"
  cardtype :: u8
  cardflags :: u8
  cluster_size :: u32
  FATentries_per_cluster :: u32
  clusters_per_block :: u32
  cardform :: u32
  rootdir_cluster2 :: u32
  unknown1 :: u32
  unknown2 :: u32
  max_allocatable_clusters :: u32
  unknown5 :: u32
  unused_fields :: "u8 list"

text \<open>\<open>magic\<close> is followed by \<^verbatim>\<open>version\<close> in its 40 bytes.\<close>

definition SUPERBLOCK_MAGIC :: "u8 list" where
  "SUPERBLOCK_MAGIC = map of_char ''Sony PS2 Memory Card Format ''"

definition SUPERBLOCK_VERSION :: "u8 list" where
  "SUPERBLOCK_VERSION = map of_char ''1.2.0.0''"

definition le_bytes16 :: "u16 \<Rightarrow> u8 list" where
  "le_bytes16 w = [ucast w, ucast (drop_bit 8 w)]"

definition le_bytes32 :: "u32 \<Rightarrow> u8 list" where
  "le_bytes32 w = [ucast w, ucast (drop_bit 8 w), ucast (drop_bit 16 w), ucast (drop_bit 24 w)]"

definition le_words :: "u32 list \<Rightarrow> u8 list" where
  "le_words ws = concat (map le_bytes32 ws)"

text \<open>
  The 384 bytes of \<^verbatim>\<open>MCDevInfo\<close>. The fields that are never assigned are two bytes behind the block size, eight behind
  the backup blocks, two behind the flags, and eight behind the allocatable clusters.
\<close>

definition devinfo_bytes :: "mcdev \<Rightarrow> u8 list" where
  "devinfo_bytes d =
     magic d @ le_bytes16 (pagesize d) @ le_bytes16 (pages_per_cluster d) @ le_bytes16 (blocksize d) @
     take 2 (unused_fields d) @
     le_words [clusters_per_card d, alloc_offset d, alloc_end d, rootdir_cluster d, backup_block1 d, backup_block2 d] @
     take 8 (drop 2 (unused_fields d)) @
     le_words (ifc_list d) @ le_words (bad_block_list d) @ [cardtype d, cardflags d] @ take 2 (drop 10 (unused_fields d)) @
     le_words [cluster_size d, FATentries_per_cluster d, clusters_per_block d, cardform d, rootdir_cluster2 d, unknown1 d,
               unknown2 d, max_allocatable_clusters d] @
     take 8 (drop 12 (unused_fields d)) @ le_bytes32 (unknown5 d)"

text \<open>The static variable at the start.\<close>

definition blank_devinfo :: mcdev where
  "blank_devinfo =
     \<lparr>magic = replicate 40 0, pagesize = 0, pages_per_cluster = 0, blocksize = 0, clusters_per_card = 0, alloc_offset = 0,
      alloc_end = 0, rootdir_cluster = 0, backup_block1 = 0, backup_block2 = 0, ifc_list = replicate 32 0,
      bad_block_list = replicate 32 0, cardtype = 0, cardflags = 0, cluster_size = 0, FATentries_per_cluster = 0,
      clusters_per_block = 0, cardform = 0, rootdir_cluster2 = 0, unknown1 = 0, unknown2 = 0,
      max_allocatable_clusters = 0, unknown5 = 0, unused_fields = replicate 20 0\<rparr>"

section \<open>Writing clusters\<close>

text \<open>Seeking and writing; a gap behind the end of the file is filled with zeros.\<close>

definition write_at :: "nat \<Rightarrow> u8 list \<Rightarrow> u8 list \<Rightarrow> u8 list" where
  "write_at off bs f = take off (f @ replicate (off - length f) 0) @ bs @ drop (off + length bs) f"

text \<open>
  What happens at a write: it succeeds, the user has aborted before it, or it fails.
\<close>

datatype write_event = Fine | Aborted | Failed

record vmc_gen =
  vmc_file :: "u8 list option"
  abort_sema :: bool
  writes :: nat

text \<open>The error return comes before \<^verbatim>\<open>SignalSema\<close>: the semaphore stays taken.\<close>

definition mc_writecluster ::
  "(nat \<Rightarrow> write_event) \<Rightarrow> nat \<Rightarrow> nat \<Rightarrow> u8 list \<Rightarrow> vmc_gen \<Rightarrow> (int \<times> vmc_gen) option" where
  "mc_writecluster ev csize cluster buf s =
     (if \<not> abort_sema s then None
      else
        (let s' = s\<lparr>writes := writes s + 1\<rparr> in
         Some (case ev (writes s) of
                 Aborted \<Rightarrow> (- 2, s')
               | Failed \<Rightarrow> (- 1, s'\<lparr>abort_sema := False\<rparr>)
               | Fine \<Rightarrow> (0, s'\<lparr>vmc_file := map_option (write_at (cluster * csize) buf) (vmc_file s)\<rparr>))))"

text \<open>On a computer; \<open>ok\<close> says which writes succeed.\<close>

record pc_gen =
  pc_file :: "u8 list"
  pc_writes :: nat

definition mc_writecluster_pc ::
  "(nat \<Rightarrow> bool) \<Rightarrow> nat \<Rightarrow> nat \<Rightarrow> u8 list \<Rightarrow> pc_gen \<Rightarrow> (int \<times> pc_gen) option" where
  "mc_writecluster_pc ok csize cluster buf s =
     (let s' = s\<lparr>pc_writes := pc_writes s + 1\<rparr> in
      Some (if ok (pc_writes s) then (0, s'\<lparr>pc_file := write_at (cluster * csize) buf (pc_file s)\<rparr>) else (- 1, s')))"

type_synonym 's writer = "nat \<Rightarrow> nat \<Rightarrow> u8 list \<Rightarrow> 's \<Rightarrow> (int \<times> 's) option"

text \<open>A loop of writes, with its error code; an abort has a code of its own.\<close>

fun write_clusters :: "'s writer \<Rightarrow> nat \<Rightarrow> int \<Rightarrow> (nat \<times> u8 list) list \<Rightarrow> 's \<Rightarrow> (int \<times> 's) option" where
  "write_clusters w csize err [] s = Some (0, s)"
| "write_clusters w csize err ((c, buf) # ws) s = do {
     (r, s) \<leftarrow> w csize c buf s;
     if r < 0 then Some (if r = - 2 then - 1000 else err, s) else write_clusters w csize err ws s
   }"

section \<open>Formatting\<close>

definition long_multiply :: "u32 \<Rightarrow> u32 \<Rightarrow> u32 \<times> u32" where
  "long_multiply v1 v2 =
     (let a = drop_bit 16 v1 AND 0xffff; b = v1 AND 0xffff; c = drop_bit 16 v2 AND 0xffff; d = v2 AND 0xffff;
          lo = b * d; x = a * d + c * b; y = (drop_bit 16 lo AND 0xffff) + x
      in ((drop_bit 16 y AND 0xffff) + a * c, (lo AND 0xffff) OR push_bit 16 (y AND 0xffff)))"

definition max_allocatable :: "u32 \<Rightarrow> u32" where
  "max_allocatable n =
     (let (hi, lo) = long_multiply n 0x10624dd3; temp = drop_bit 6 hi - drop_bit 31 n in
      push_bit 3 (push_bit 2 (push_bit 5 temp - temp) + temp) + 1)"

text \<open>The number of clusters of the table, and of the clusters that list them, as far as there is room for those.\<close>

definition fat_lengths :: "nat \<Rightarrow> nat \<times> nat" where
  "fat_lengths n =
     (let fat = ((4 * n + 2 ^ 32 - 1) mod 2 ^ 32) div 1024 + 1; ifc = (4 * fat - 1) div 1024 + 1 in
      if ifc \<le> 32 then (ifc, fat) else (32, 256 * 32))"

definition free_entries :: "nat \<Rightarrow> bool \<Rightarrow> u8 list" where
  "free_entries k first =
     le_words (take 256 ((if first then (0xffffffff # replicate (k - 1) 0x7fffffff) else replicate k 0x7fffffff) @ replicate 256 0))"

text \<open>The clusters of the table, for the allocatable clusters from \<open>j\<close> to \<open>lim\<close>.\<close>

function fat_clusters :: "nat \<Rightarrow> nat \<Rightarrow> nat \<Rightarrow> bool \<Rightarrow> (nat \<times> u8 list) list" where
  "fat_clusters lim fat_index j first =
     (if lim \<le> j then []
      else (fat_index, free_entries (min (lim - j) 256) first) # fat_clusters lim (fat_index + 1) (j + 256) False)"
  by auto
termination by (relation "measure (\<lambda>(lim, _, j, _). lim - j)") auto

declare fat_clusters.simps [simp del]

text \<open>The two entries of the root directory, \<^verbatim>\<open>.\<close> and \<^verbatim>\<open>..\<close>, which fill a cluster; \<open>time\<close> are the bytes of the date.\<close>

definition dir_entry :: "u16 \<Rightarrow> u8 list \<Rightarrow> u8 list \<Rightarrow> u8 list" where
  "dir_entry mode time name =
     le_bytes16 mode @ [0, 0] @ le_bytes32 2 @ time @ replicate 8 0 @ time @ replicate 32 0 @ name @ replicate (448 - length name) 0"

definition root_directory :: "u8 list \<Rightarrow> u8 list" where
  "root_directory time = dir_entry 0x8427 time [0x2e] @ dir_entry 0xa426 time [0x2e, 0x2e]"

text \<open>The first part: the card's geometry.\<close>

definition card_geometry :: "nat \<Rightarrow> u16 \<Rightarrow> mcdev \<Rightarrow> mcdev" where
  "card_geometry n bs d =
     d\<lparr>magic := SUPERBLOCK_MAGIC @ SUPERBLOCK_VERSION @ replicate 5 0, cluster_size := 1024, blocksize := bs,
       pages_per_cluster := 2, pagesize := 512, clusters_per_block := of_nat (unat bs div 2),
       clusters_per_card := of_nat n, cardtype := 2, cardflags := 0x2b, cardform := 0xffffffff,
       FATentries_per_cluster := 256, bad_block_list := replicate 32 0xffffffff\<rparr>"

text \<open>
  The image has been opened and is empty, or is written over from its start. The module's caller asks for
  whole megabytes, so that the progress, which is divided by a hundredth of the clusters, is defined; at least two
  blocks fit on the card.
\<close>

definition vmc_mcformat ::
  "'s writer \<Rightarrow> u8 list \<Rightarrow> nat \<Rightarrow> u16 \<Rightarrow> mcdev \<Rightarrow> 's \<Rightarrow> (int \<times> mcdev \<times> 's) option" where
  "vmc_mcformat w time size_kb bs d s =
     (let n = ((size_kb * 1024) mod 2 ^ 32) div 1024; cpb = unat bs div 2; d = card_geometry n bs d;
          (ifc_length, fat_length) = fat_lengths n; ifc_index = unat bs div 2; fat_index = ifc_index + ifc_length
      in do {
        (r, s) \<leftarrow> write_clusters w 1024 (- 102) (map (\<lambda>k. (16 * k, replicate 16384 0xff)) [0 ..< (n + 15) div 16]) s;
        if r < 0 then Some (r, d, s)
        else if n < fat_index + fat_length
        then Some (- 104, d\<lparr>ifc_list := map of_nat [ifc_index ..< fat_index] @ replicate (32 - ifc_length) 0xffffffff\<rparr>, s)
        else
          (let d = d\<lparr>ifc_list := map of_nat [ifc_index ..< fat_index] @ replicate (32 - ifc_length) 0xffffffff\<rparr>; ifc = le_words (take (ifc_length * 256) (map of_nat [fat_index ..< fat_index + fat_length] @ replicate (ifc_length * 256) 0));
               alloc = fat_index + fat_length
           in do {
             (r, s) \<leftarrow> write_clusters w 1024 (- 105)
                        (map (\<lambda>z. (ifc_index + z, take 1024 (drop (1024 * z) ifc))) [0 ..< ifc_length]) s;
             if r < 0 then Some (r, d, s)
             else if cpb = 0 then None
             else
               (let blocks = n div cpb; lim = ((blocks + 2 ^ 32 - 2) * cpb) mod 2 ^ 32;
                    d = d\<lparr>backup_block1 := of_nat (blocks + 2 ^ 32 - 1), backup_block2 := of_nat (blocks + 2 ^ 32 - 2),
                          max_allocatable_clusters := max_allocatable (of_nat n)\<rparr>;
                    d = (if alloc < lim then d\<lparr>alloc_offset := of_nat alloc, rootdir_cluster := 0\<rparr> else d)
                in do {
                  (r, s) \<leftarrow> write_clusters w 1024 (- 107) (fat_clusters lim fat_index alloc True) s;
                  if r < 0 then Some (r, d, s)
                  else
                    (let d = d\<lparr>alloc_end := of_nat lim - alloc_offset d\<rparr> in
                     if lim - alloc < cpb then Some (- 108, d, s)
                     else
                       (let d = d\<lparr>unknown1 := 0, unknown2 := 0, unknown5 := 0xffffffff, rootdir_cluster2 := rootdir_cluster d\<rparr> in do {
                          (r, s) \<leftarrow> write_clusters w 1024 (- 109)
                                     [(unat (alloc_offset d + rootdir_cluster d), root_directory time)] s;
                          if r < 0 then Some (r, d, s)
                          else
                            (let d = d\<lparr>cardform := 1\<rparr> in do {
                               (r, s) \<leftarrow> write_clusters w 1024 (- 110)
                                          [(0, devinfo_bytes d @ replicate (1024 - length (devinfo_bytes d)) 0xff)] s;
                               Some (r, d, s)
                             })
                        }))
                })
           })
      })"

text \<open>
  The date of a computer. The code takes the binary numbers of \<^verbatim>\<open>struct tm\<close> for packed decimal ones, and the
  year's low bits are joined with 2000 before the tens are added. Closing the file succeeds.
\<close>

definition packed :: "nat \<Rightarrow> nat" where
  "packed x = (x div 16) * 10 + x mod 16"

definition mc_getmcrtime_pc :: "nat \<Rightarrow> nat \<Rightarrow> nat \<Rightarrow> nat \<Rightarrow> nat \<Rightarrow> nat \<Rightarrow> u8 list" where
  "mc_getmcrtime_pc year mon mday hour minute sec =
     [0, of_nat (packed sec), of_nat (packed minute), of_nat (packed hour), of_nat (packed mday), of_nat ((mon + 1) mod 16)] @
     le_bytes16 (of_nat ((year - 100) div 16 * 10) + (of_nat ((year - 100) mod 16) OR 0x7d0))"

definition vmc_mcformat_pc :: "(nat \<Rightarrow> bool) \<Rightarrow> u8 list \<Rightarrow> nat \<Rightarrow> u16 \<Rightarrow> mcdev \<Rightarrow> (int \<times> mcdev \<times> pc_gen) option" where
  "vmc_mcformat_pc ok time size_kb bs d =
     vmc_mcformat (mc_writecluster_pc ok) time size_kb bs d \<lparr>pc_file = [], pc_writes = 0\<rparr>"

section \<open>Copying a card\<close>

definition devinfo_of_bytes :: "u8 list \<Rightarrow> mcdev" where
  "devinfo_of_bytes b =
     \<lparr>magic = take 40 b, pagesize = le16 b 40, pages_per_cluster = le16 b 42, blocksize = le16 b 44,
      clusters_per_card = le32 b 48, alloc_offset = le32 b 52, alloc_end = le32 b 56, rootdir_cluster = le32 b 60,
      backup_block1 = le32 b 64, backup_block2 = le32 b 68, ifc_list = map (\<lambda>i. le32 b (80 + 4 * i)) [0 ..< 32],
      bad_block_list = map (\<lambda>i. le32 b (208 + 4 * i)) [0 ..< 32], cardtype = b ! 336, cardflags = b ! 337,
      cluster_size = le32 b 340, FATentries_per_cluster = le32 b 344, clusters_per_block = le32 b 348,
      cardform = le32 b 352, rootdir_cluster2 = le32 b 356, unknown1 = le32 b 360, unknown2 = le32 b 364,
      max_allocatable_clusters = le32 b 368, unknown5 = le32 b 380,
      unused_fields = take 2 (drop 46 b) @ take 8 (drop 72 b) @ take 2 (drop 338 b) @ take 8 (drop 372 b)\<rparr>"

text \<open>
  Pages are read one behind the other into the buffer; a unit of the copy is a number of pages and the clusters
  that they are written to.
\<close>

fun read_pages :: "(nat \<Rightarrow> u8 list option) \<Rightarrow> nat \<Rightarrow> nat \<Rightarrow> nat list \<Rightarrow> u8 list \<Rightarrow> (bool \<times> u8 list) option" where
  "read_pages page psize first [] buf = Some (True, buf)"
| "read_pages page psize first (j # js) buf =
     (case page (first + j) of
        None \<Rightarrow> Some (False, buf)
      | Some bs \<Rightarrow> do { buf \<leftarrow> mem_write buf (j * psize) bs; read_pages page psize first js buf })"

record copy_unit =
  first_page :: nat
  page_count :: nat
  to_cluster :: nat
  dup :: nat

fun copy_units ::
  "'s writer \<Rightarrow> (nat \<Rightarrow> u8 list option) \<Rightarrow> nat \<Rightarrow> nat \<Rightarrow> copy_unit list \<Rightarrow> u8 list \<Rightarrow> 's \<Rightarrow> (int \<times> 's) option" where
  "copy_units w page psize csize [] buf s = Some (0, s)"
| "copy_units w page psize csize (u # us) buf s = do {
     (ok, buf) \<leftarrow> read_pages page psize (first_page u) [0 ..< page_count u] buf;
     if \<not> ok then Some (- 102, s)
     else do {
       bs \<leftarrow> mem_read buf 0 (csize * dup u);
       (r, s) \<leftarrow> w csize (to_cluster u) bs s;
       if r < 0 then Some (if r = - 2 then - 1000 else - 103, s) else copy_units w page psize csize us buf s
     }
   }"

text \<open>
  The progress shown is divided by a hundredth of the blocks. With a page size that is negative as a signed number,
  pages would be stored before the buffer; this is \<open>None\<close> too.
\<close>

definition vmc_mccopy ::
  "'s writer \<Rightarrow> ('s \<Rightarrow> 's option) \<Rightarrow> int \<Rightarrow> int \<Rightarrow> (nat \<Rightarrow> u8 list option) \<Rightarrow> u8 list \<Rightarrow> mcdev \<Rightarrow> 's \<Rightarrow>
     (int \<times> mcdev \<times> 's) option" where
  "vmc_mccopy w open detected card_type page buf d s =
     (if detected < - 1 \<and> card_type \<noteq> 2 then Some (- 98, d, s)
      else
        (case page 0 of
           None \<Rightarrow> Some (- 99, d, s)
         | Some p \<Rightarrow> do {
             buf \<leftarrow> mem_write buf 0 p;
             let d = devinfo_of_bytes buf;
             if take 28 (magic d) \<noteq> SUPERBLOCK_MAGIC then Some (- 100, d, s)
             else
               (let psize = unat (pagesize d); ppc = unat (pages_per_cluster d); n = unat (clusters_per_card d);
                    csize = unat (cluster_size d); pagesblock = 16384 div psize; clustersblock = pagesblock div ppc;
                    blocks = n div clustersblock in
                if psize = 0 \<or> 2 ^ 15 \<le> psize \<or> ppc = 0 \<or> clustersblock = 0 then None
                else
                  (case open s of
                     None \<Rightarrow> Some (- 101, d, s)
                   | Some s \<Rightarrow>
                       if 0 < blocks \<and> blocks < 99 then None
                       else do {
                         (r, s) \<leftarrow> copy_units w page psize csize
                           (map (\<lambda>i. \<lparr>first_page = i * pagesblock, page_count = pagesblock, to_cluster = i * clustersblock,
                                      dup = clustersblock\<rparr>) [0 ..< blocks] @
                            map (\<lambda>i. \<lparr>first_page = i * ppc, page_count = ppc, to_cluster = i, dup = 1\<rparr>)
                              [blocks * clustersblock ..< n]) buf s;
                         Some (r, d, s)
                       }))
           }))"

section \<open>The thread that makes an image\<close>

text \<open>The block size is given as an integer, of which 16 bits are kept.\<close>

record vmc_request =
  VMC_size_mb :: nat
  VMC_blocksize :: u16
  VMC_card_slot :: int

text \<open>
  The module's semaphores are free or taken; \<open>finished_sema\<close> is that of a waiting abort, if there is one. \<open>image\<close>
  is the file asked for, if it is there.
\<close>

record vmc_module =
  devinfo :: mcdev
  image :: "u8 list option"
  thread_sema :: bool
  io_abort_sema :: bool
  VMC_busy :: bool
  VMC_error :: int
  finished_sema :: "bool option"

text \<open>\<open>can_open\<close>: the file can be made; \<open>detected\<close>, \<open>card_type\<close>, \<open>page\<close>: the card in the slot.\<close>

record vmc_world =
  can_open :: bool
  event :: "nat \<Rightarrow> write_event"
  clock :: "u8 list"
  detected :: int
  card_type :: int
  page :: "nat \<Rightarrow> u8 list option"

definition open_image :: "bool \<Rightarrow> vmc_gen \<Rightarrow> vmc_gen option" where
  "open_image can s = (if can then Some (s\<lparr>vmc_file := Some []\<rparr>) else None)"

definition VMC_create_thread :: "vmc_world \<Rightarrow> vmc_request \<Rightarrow> vmc_module \<Rightarrow> vmc_module option" where
  "VMC_create_thread wd q m =
     (if \<not> thread_sema m \<or> \<not> io_abort_sema m then None
      else do {
        let s = \<lparr>vmc_file = image m, abort_sema = True, writes = 0\<rparr>;
        let w = mc_writecluster (event wd);
        (r, d, s) \<leftarrow>
          (if VMC_card_slot q = - 1
           then (case open_image (can_open wd) s of
                   None \<Rightarrow> Some (- 101, devinfo m, s)
                 | Some s \<Rightarrow> vmc_mcformat w (clock wd) (VMC_size_mb q * 1024) (VMC_blocksize q) (devinfo m) s)
           else vmc_mccopy w (open_image (can_open wd)) (detected wd) (card_type wd) (page wd) (replicate 16400 0) (devinfo m) s);
        Some (m\<lparr>devinfo := d, image := (if r = - 1000 then None else vmc_file s), io_abort_sema := abort_sema s,
                VMC_busy := False, VMC_error := (if r < 0 then r else 0),
                finished_sema := (if r = - 1000 then map_option (\<lambda>_. True) (finished_sema m) else finished_sema m)\<rparr>)
      })"

section \<open>The check of an image\<close>

definition superblock_of :: "u8 list \<Rightarrow> u8 list" where
  "superblock_of f = take 512 f @ replicate (512 - length f) 0"

text \<open>
  The size found in megabytes, whether the file has been removed, and whether a new one is made. \<open>f\<close> is the
  file, if there is one; the check of the superblock is not always asked for.
\<close>

definition sysCheckVMC :: "u8 list option \<Rightarrow> int \<Rightarrow> bool \<Rightarrow> int \<times> bool \<times> bool" where
  "sysCheckVMC file createSize check =
     (if createSize = - 1 then (- 1, True, False)
      else
        (let size = (case file of
               None \<Rightarrow> - 1
             | Some f \<Rightarrow>
                 (let b = superblock_of f; size = length f;
                      valid = (\<not> check \<or> take 27 b = map of_char ''Sony PS2 Memory Card Format'' \<and> b ! 336 = 2 \<and>
                        size = unat (ucast (le16 b 42) * le32 b 48 * ucast (le16 b 40) :: u32));
                      size = (if valid then size else 0)
                  in if size mod 1048576 \<noteq> 0 then 0 else int (size div 1048576)))
         in (size, file \<noteq> None \<and> createSize \<noteq> 0 \<and> createSize \<noteq> size, createSize \<noteq> 0 \<and> createSize \<noteq> size)))"

end
