(* ===== verification/Vmc_Gen_Card.thy ===== *)
theory Vmc_Gen_Card
  imports Vmc_Gen
begin

text \<open>
  The image of a memory card that has been formatted without an error: its clusters, the table and the superblock
  as they are read back from its bytes, and the number of clusters that can be allocated.
\<close>

section \<open>Bytes and clusters\<close>

lemma length_le_byte_lists [simp]: "length (le_bytes16 h) = 2" "length (le_bytes32 w) = 4"
  by (simp_all add: le_bytes16_def le_bytes32_def)

lemma length_le_words [simp]: "length (le_words ws) = 4 * length ws"
  by (induction ws) (simp_all add: le_words_def)

lemma le32_bytes: "le32 (le_bytes32 w @ r) 0 = w"
proof (rule bit_word_eqI)
  fix n assume "n < LENGTH(32)"
  then consider "n < 8" | "8 \<le> n \<and> n < 16" | "16 \<le> n \<and> n < 24" | "24 \<le> n \<and> n < 32" by fastforce
  then show "bit (le32 (le_bytes32 w @ r) 0) n = bit w n"
    by cases (auto simp: le32_def le_bytes32_def bit_simps)
qed

lemma le16_bytes: "le16 (le_bytes16 h @ r) 0 = h"
proof (rule bit_word_eqI)
  fix n assume "n < LENGTH(16)"
  then consider "n < 8" | "8 \<le> n \<and> n < 16" by fastforce
  then show "bit (le16 (le_bytes16 h @ r) 0) n = bit h n"
    by cases (auto simp: le16_def le_bytes16_def bit_simps)
qed

lemma le32_shift: "length a = k \<Longrightarrow> le32 (a @ b) (k + j) = le32 b j"
  by (simp add: le32_def nth_append)

lemma le16_shift: "length a = k \<Longrightarrow> le16 (a @ b) (k + j) = le16 b j"
  by (simp add: le16_def nth_append)

lemma le32_words: "i < length ws \<Longrightarrow> le32 (le_words ws @ r) (4 * i) = ws ! i"
proof (induction ws arbitrary: i)
  case (Cons w ws)
  show ?case
  proof (cases i)
    case 0
    then show ?thesis using le32_bytes [of w "le_words ws @ r"] by (simp add: le_words_def)
  next
    case (Suc j)
    then show ?thesis
      using Cons le32_shift [of "le_bytes32 w" 4 "le_words ws @ r" "4 * j"] by (simp add: le_words_def)
  qed
qed simp

text \<open>Cluster \<open>k\<close> of a file.\<close>

definition cl :: "u8 list \<Rightarrow> nat \<Rightarrow> u8 list" where
  "cl f k = take 1024 (drop (1024 * k) f)"

definition apply_writes :: "(nat \<times> u8 list) list \<Rightarrow> u8 list \<Rightarrow> u8 list" where
  "apply_writes ws f = fold (\<lambda>(c, b) f. write_at (c * 1024) b f) ws f"

definition fits :: "nat \<Rightarrow> (nat \<times> u8 list) list \<Rightarrow> bool" where
  "fits n ws \<longleftrightarrow> (\<forall>(c, b) \<in> set ws. length b = 1024 \<and> c < n)"

lemma write_at_cluster:
  assumes "length f = 1024 * n" and "length b = 1024" and "c < n"
  shows "length (write_at (c * 1024) b f) = 1024 * n \<and> cl (write_at (c * 1024) b f) k = (if k = c then b else cl f k)"
proof -
  have c: "c * 1024 + 1024 \<le> length f" using assms(1,3) by simp
  then have w: "write_at (c * 1024) b f = take (c * 1024) f @ b @ drop (c * 1024 + 1024) f"
    using assms(2) by (simp add: write_at_def)
  have "cl (take (c * 1024) f @ b @ drop (c * 1024 + 1024) f) k = (if k = c then b else cl f k)"
  proof (cases k c rule: linorder_cases)
    case less
    then have "1024 * k + 1024 \<le> c * 1024" by simp
    then have l: "1024 \<le> c * 1024 - 1024 * k" by arith
    then have "take 1024 (drop (1024 * k) (take (c * 1024) f)) = take 1024 (drop (1024 * k) f)"
      by (simp add: drop_take min_absorb1)
    moreover have "1024 \<le> length (drop (1024 * k) (take (c * 1024) f))" using l c by simp
    ultimately show ?thesis using less c by (simp add: cl_def)
  next
    case equal
    then show ?thesis using c assms(2) by (simp add: cl_def mult.commute)
  next
    case greater
    then obtain j where j: "k = c + 1 + j" by (metis Suc_eq_plus1 less_imp_Suc_add add_Suc_shift add.assoc)
    have "drop (1024 * k) (take (c * 1024) f @ b @ drop (c * 1024 + 1024) f) = drop (1024 * j) (drop (c * 1024 + 1024) f)"
      using c assms(2) by (simp add: j)
    also have "\<dots> = drop (1024 * k) f" by (simp add: j algebra_simps)
    finally show ?thesis using greater by (simp add: cl_def)
  qed
  then show ?thesis using w c assms(1,2) by simp
qed

lemma apply_writes_clusters:
  assumes "fits n ws" and "length f = 1024 * n"
  shows "length (apply_writes ws f) = 1024 * n \<and>
    cl (apply_writes ws f) k = (case map_of (rev ws) k of Some b \<Rightarrow> b | None \<Rightarrow> cl f k)"
  using assms
proof (induction ws arbitrary: f)
  case Nil
  then show ?case by (simp add: apply_writes_def)
next
  case (Cons w ws)
  obtain c b where w: "w = (c, b)" by fastforce
  have f: "length (write_at (c * 1024) b f) = 1024 * n"
    and k: "cl (write_at (c * 1024) b f) k = (if k = c then b else cl f k)"
    using write_at_cluster [of f n b c k] Cons.prems by (auto simp: fits_def w)
  have "fits n ws" using Cons.prems(1) by (simp add: fits_def)
  from Cons.IH [OF this f] k show ?case
    by (auto simp: apply_writes_def w map_add_def split: option.splits)
qed

text \<open>Clearing all clusters.\<close>

lemma erased:
  "apply_writes (map (\<lambda>k. (16 * k, replicate 16384 v)) [0 ..< m]) [] = replicate (16384 * m) v"
proof (induction m)
  case (Suc m)
  have "16384 * Suc m = 16384 * m + 16384" by simp
  then have "replicate (16384 * Suc m) v = replicate (16384 * m) v @ replicate 16384 v" by (simp only: replicate_add)
  moreover have "apply_writes (map (\<lambda>k. (16 * k, replicate 16384 v)) [0 ..< Suc m]) [] =
      write_at (16 * m * 1024) (replicate 16384 v) (replicate (16384 * m) v)"
    using Suc by (simp add: apply_writes_def)
  ultimately show ?case by (simp add: write_at_def)
qed (simp add: apply_writes_def)

section \<open>The number of clusters that can be allocated\<close>

lemma unat_low_half: "unat (v AND 0xffff) = unat v mod 2 ^ 16" for v :: u32
proof -
  have "v AND 0xffff = take_bit 16 v" by (simp add: take_bit_eq_mask mask_eq_exp_minus_1)
  then show ?thesis by (simp only: unsigned_take_bit_eq) (rule take_bit_eq_mod)
qed

lemma unat_high_half: "unat (drop_bit 16 v) = unat v div 2 ^ 16" for v :: u32
  unfolding unat_drop_bit_eq by (rule drop_bit_eq_div)

lemma unat_sum: "unat a + unat b < 2 ^ 32 \<Longrightarrow> unat (a + b) = unat a + unat b" for a b :: u32
  by (simp add: unat_word_ariths)

lemma unat_product: "unat a * unat b < 2 ^ 32 \<Longrightarrow> unat (a * b) = unat a * unat b" for a b :: u32
  by (simp add: unat_word_ariths)

lemma long_multiply_high:
  "unat (fst (long_multiply v 0x10624dd3)) = unat v * 0x10624dd3 div 2 ^ 32"
proof -
  define a b where "a = unat v div 2 ^ 16" and "b = unat v mod 2 ^ 16"
  have v: "unat v < 2 ^ 32" using unsigned_less [of v] by simp
  have a: "a < 65536" using v by (auto simp: a_def less_mult_imp_div_less)
  have b: "b < 65536" by (simp add: b_def)
  have vab: "unat v = 65536 * a + b" by (simp add: a_def b_def)
  let ?hi = "drop_bit 16 v AND 0xffff" and ?lo = "v AND 0xffff"
  have hi: "unat ?hi = a" and lo: "unat ?lo = b"
    using a by (simp_all add: unat_low_half unat_high_half a_def b_def)
  have m: "unat (?lo * 0x4dd3) = b * 19923"
    using b by (subst unat_product) (simp_all only: lo, simp_all)
  have x1: "unat (?hi * 0x4dd3) = a * 19923" using a by (subst unat_product) (simp_all only: hi, simp_all)
  have x2: "unat (0x1062 * ?lo) = 4194 * b" using b by (subst unat_product) (simp_all only: lo, simp_all)
  have x: "unat (?hi * 0x4dd3 + 0x1062 * ?lo) = a * 19923 + 4194 * b"
    using a b by (subst unat_sum) (simp_all only: x1 x2, simp_all)
  have l: "unat (drop_bit 16 (?lo * 0x4dd3) AND 0xffff) = b * 19923 div 65536"
  proof -
    have "b * 19923 div 65536 < 65536" using b by (simp add: less_mult_imp_div_less)
    then show ?thesis by (simp add: unat_low_half unat_high_half m)
  qed
  define y where "y = b * 19923 div 65536 + (a * 19923 + 4194 * b)"
  have ylt: "y < 2 ^ 32" using a b div_le_dividend [of "b * 19923" 65536] unfolding y_def by simp
  have y: "unat ((drop_bit 16 (?lo * 0x4dd3) AND 0xffff) + (?hi * 0x4dd3 + 0x1062 * ?lo)) = y"
    using ylt by (subst unat_sum) (simp_all only: l x y_def)
  have h: "unat (drop_bit 16 ((drop_bit 16 (?lo * 0x4dd3) AND 0xffff) + (?hi * 0x4dd3 + 0x1062 * ?lo)) AND 0xffff) = y div 65536"
  proof -
    have "y div 65536 < 65536" using ylt by (simp add: less_mult_imp_div_less)
    then show ?thesis by (simp add: unat_low_half unat_high_half y)
  qed
  have p: "unat (?hi * 0x1062) = a * 4194" using a by (subst unat_product) (simp_all only: hi, simp_all)
  have ydiv: "y div 65536 \<le> 4294967295 div 65536" using ylt by (intro div_le_mono) simp
  have "unat (fst (long_multiply v 0x10624dd3)) = y div 65536 + a * 4194"
  proof -
    have "fst (long_multiply v 0x10624dd3) =
        (drop_bit 16 ((drop_bit 16 (?lo * 0x4dd3) AND 0xffff) + (?hi * 0x4dd3 + 0x1062 * ?lo)) AND 0xffff) + ?hi * 0x1062"
      by (simp add: long_multiply_def Let_def)
    moreover have "y div 65536 + a * 4194 < 2 ^ 32" using ydiv a by simp
    ultimately show ?thesis by (simp only: unat_sum h p)
  qed
  also have "\<dots> = (y + 65536 * (a * 4194)) div 65536" by simp
  also have "y + 65536 * (a * 4194) = (b * 19923 + 65536 * (a * 19923 + 4194 * b + 65536 * (a * 4194))) div 65536"
    by (simp add: y_def)
  also have "b * 19923 + 65536 * (a * 19923 + 4194 * b + 65536 * (a * 4194)) = unat v * 0x10624dd3"
    by (simp add: vab algebra_simps)
  finally show ?thesis by (simp add: div_mult2_eq [symmetric])
qed

lemma magic_thousand:
  assumes "n < 2 ^ 31"
  shows "n * 0x10624dd3 div 2 ^ 38 = n div (1000 :: nat)"
proof (rule div_nat_eqI)
  have n: "n = 1000 * (n div 1000) + n mod 1000" "n mod 1000 < 1000" by simp_all
  with assms have "274877906944 * (n div 1000) \<le> n * 0x10624dd3 \<and> n * 0x10624dd3 < 274877906944 * Suc (n div 1000)"
    by simp linarith
  then show "2 ^ 38 * (n div 1000) \<le> n * 0x10624dd3" "n * 0x10624dd3 < 2 ^ 38 * Suc (n div 1000)" by simp_all
qed

lemma max_allocatable_thousands:
  assumes "unat n < 2 ^ 31"
  shows "unat (max_allocatable n) = unat n div 1000 * 1000 + 1"
proof -
  define t where "t = drop_bit 6 (fst (long_multiply n 0x10624dd3))"
  have t: "unat t = unat n div 1000"
    using magic_thousand [OF assms]
    unfolding t_def unat_drop_bit_eq long_multiply_high by (simp only: drop_bit_eq_div) (simp add: div_mult2_eq [symmetric])
  have "unat (drop_bit 31 n) = unat n div 2 ^ 31" unfolding unat_drop_bit_eq by (rule drop_bit_eq_div)
  then have "drop_bit 31 n = 0" using assms by (simp add: unat_eq_0 [symmetric] del: unat_eq_0)
  then have "max_allocatable n = push_bit 3 (push_bit 2 (push_bit 5 t - t) + t) + 1"
    by (simp add: max_allocatable_def Let_def t_def split: prod.split)
  also have "\<dots> = 1000 * t + 1" by (simp add: push_bit_eq_mult algebra_simps)
  moreover have le: "1000 * unat t + 1 < 2 ^ 32" using assms by (simp add: t)
  moreover have "unat (1000 * t) = 1000 * unat t" using le by (subst unat_product) simp_all
  ultimately show ?thesis using unat_sum [of "1000 * t" 1] by (simp add: t)
qed

section \<open>Formatting without an error\<close>

lemma write_clusters_fine:
  assumes "\<forall>k. ev k = Fine"
  shows "abort_sema s \<Longrightarrow> write_clusters (mc_writecluster ev) 1024 err ws s =
    Some (0, s\<lparr>vmc_file := map_option (apply_writes ws) (vmc_file s), writes := writes s + length ws\<rparr>)"
proof (induction ws arbitrary: s)
  case Nil
  then show ?case by (cases s) (simp add: apply_writes_def option.map_ident)
next
  case (Cons x ws)
  obtain c b where x: "x = (c, b)" by fastforce
  show ?case
    using assms Cons.prems Cons.IH [of "s\<lparr>writes := writes s + 1, vmc_file := map_option (write_at (c * 1024) b) (vmc_file s)\<rparr>"]
    by (simp add: x mc_writecluster_def apply_writes_def Let_def option.map_comp comp_def)
qed

text \<open>The parts of a card of \<open>mb\<close> megabytes.\<close>

definition card_ifcs :: "nat \<Rightarrow> nat" where
  "card_ifcs mb = (16 * mb - 1) div 1024 + 1"

definition card_alloc :: "nat \<Rightarrow> nat" where
  "card_alloc mb = 8 + card_ifcs mb + 4 * mb"

definition card_end :: "nat \<Rightarrow> nat" where
  "card_end mb = 1024 * mb - 16"

definition card_dev :: "nat \<Rightarrow> mcdev \<Rightarrow> mcdev" where
  "card_dev mb d =
     (card_geometry (1024 * mb) 16 d)\<lparr>
        ifc_list := map of_nat [8 ..< 8 + card_ifcs mb] @ replicate (32 - card_ifcs mb) 0xffffffff,
        backup_block1 := of_nat (128 * mb + 2 ^ 32 - 1), backup_block2 := of_nat (128 * mb + 2 ^ 32 - 2),
        max_allocatable_clusters := max_allocatable (of_nat (1024 * mb)),
        alloc_offset := of_nat (card_alloc mb), rootdir_cluster := 0,
        alloc_end := of_nat (card_end mb) - of_nat (card_alloc mb), unknown1 := 0, unknown2 := 0, unknown5 := 0xffffffff,
        rootdir_cluster2 := 0, cardform := 1\<rparr>"

definition indirect_words :: "nat \<Rightarrow> u32 list" where
  "indirect_words mb =
     take (card_ifcs mb * 256) (map of_nat [8 + card_ifcs mb ..< card_alloc mb] @ replicate (card_ifcs mb * 256) 0)"

definition indirect_clusters :: "nat \<Rightarrow> (nat \<times> u8 list) list" where
  "indirect_clusters mb = map (\<lambda>z. (8 + z, take 1024 (drop (1024 * z) (le_words (indirect_words mb))))) [0 ..< card_ifcs mb]"

definition superblock_cluster :: "mcdev \<Rightarrow> u8 list" where
  "superblock_cluster d = devinfo_bytes d @ replicate (1024 - length (devinfo_bytes d)) 0xff"

definition card_file :: "nat \<Rightarrow> u8 list \<Rightarrow> mcdev \<Rightarrow> u8 list" where
  "card_file mb time d =
     apply_writes [(0, superblock_cluster (card_dev mb d))]
       (apply_writes [(card_alloc mb, root_directory time)]
         (apply_writes (fat_clusters (card_end mb) (8 + card_ifcs mb) (card_alloc mb) True)
           (apply_writes (indirect_clusters mb) (replicate (1024 * (1024 * mb)) 0xff))))"

lemma card_bounds:
  assumes "1 \<le> mb" and "mb \<le> 1024"
  shows "1 \<le> card_ifcs mb" "card_ifcs mb \<le> 16" "16 * mb \<le> 1024 * card_ifcs mb" "card_alloc mb + 8 \<le> card_end mb"
    "card_end mb \<le> 1024 * 1024"
proof -
  have "(16 * mb - 1) div 1024 \<le> 16383 div 1024" using assms by (intro div_le_mono) simp
  then show i: "1 \<le> card_ifcs mb" "card_ifcs mb \<le> 16" by (simp_all add: card_ifcs_def)
  have "16 * mb - 1 < 1024 * card_ifcs mb"
    using mod_less_divisor [of 1024 "16 * mb - 1"] div_mult_mod_eq [of "16 * mb - 1" 1024] by (simp add: card_ifcs_def)
  then show "16 * mb \<le> 1024 * card_ifcs mb" by simp
  show "card_end mb \<le> 1024 * 1024" using assms by (simp add: card_end_def)
  show "card_alloc mb + 8 \<le> card_end mb" using assms i by (simp add: card_end_def card_alloc_def)
qed

lemma fat_lengths_mb:
  assumes "1 \<le> mb" and "mb \<le> 1024"
  shows "fat_lengths (1024 * mb) = (card_ifcs mb, 4 * mb)"
proof -
  have "4 * (1024 * mb) + 2 ^ 32 - 1 = (4096 * mb - 1) + 2 ^ 32" using assms by simp
  moreover have "((4096 * mb - 1) + 2 ^ 32) mod 2 ^ 32 = 4096 * mb - 1"
    using assms mod_add_self2 [of "4096 * mb - 1" "2 ^ 32"] by simp
  ultimately have m: "(4 * (1024 * mb) + 2 ^ 32 - 1) mod 2 ^ 32 = 4096 * mb - 1" by (simp only:)
  have d: "(4096 * mb - 1) div 1024 + 1 = 4 * mb"
  proof -
    have "(4096 * mb - 1) div 1024 = 4 * mb - 1" using assms by (intro div_nat_eqI) simp_all
    then show ?thesis using assms by simp
  qed
  have "card_ifcs mb \<le> 32" using card_bounds(2) [OF assms] by simp
  moreover have "(4 * (4 * mb) - 1) div 1024 + 1 = card_ifcs mb" by (simp add: card_ifcs_def)
  ultimately show ?thesis unfolding fat_lengths_def m Let_def d by (simp only: if_True)
qed

lemma unat_small: "k < 2 ^ 32 \<Longrightarrow> unat (of_nat k :: u32) = k"
  by (simp add: unat_of_nat take_bit_eq_mod)

lemma vmc_mcformat_fine:
  assumes "\<forall>k. ev k = Fine" and "1 \<le> mb" and "mb \<le> 1024" and "abort_sema s" and "vmc_file s = Some []"
  shows "\<exists>k. vmc_mcformat (mc_writecluster ev) time (mb * 1024) 16 d s =
     Some (0, card_dev mb d, s\<lparr>vmc_file := Some (card_file mb time d), writes := k\<rparr>)"
proof -
  note b = card_bounds [OF assms(2,3)]
  have n: "((mb * 1024) * 1024) mod 2 ^ 32 div 1024 = 1024 * mb" using assms(3) by simp
  have e: "apply_writes (map (\<lambda>k. (16 * k, replicate 16384 v)) [0 ..< (1024 * mb + 15) div 16]) [] = replicate (1024 * (1024 * mb)) v" for v
  proof -
    have "(1024 * mb + 15) div 16 = 64 * mb" by simp
    then show ?thesis using erased [of v "64 * mb"] by simp
  qed
  have lim: "((1024 * mb) div 8 + 2 ^ 32 - 2) * 8 mod 2 ^ 32 = card_end mb"
  proof -
    have "((1024 * mb) div 8 + 2 ^ 32 - 2) * 8 = (1024 * mb - 16) + 8 * 2 ^ 32" using assms(2) by simp
    also have "\<dots> mod 2 ^ 32 = (1024 * mb - 16) mod 2 ^ 32" by (rule mod_mult_self1)
    finally show ?thesis using assms(3) by (simp add: card_end_def)
  qed
  have u: "unat (16 :: u16) div 2 = 8" by simp
  have blocks: "1024 * mb div 8 = 128 * mb" by simp
  have enough: "\<not> 1024 * mb < 8 + card_ifcs mb + 4 * mb" using b(4) by (simp add: card_alloc_def card_end_def)
  have ifc: "le_words (take (card_ifcs mb * 256)
      (map of_nat [8 + card_ifcs mb ..< 8 + card_ifcs mb + 4 * mb] @ replicate (card_ifcs mb * 256) 0)) =
      le_words (indirect_words mb)"
    by (simp add: indirect_words_def card_alloc_def)
  have root: "unat (of_nat (card_alloc mb) :: u32) = card_alloc mb" using b(4,5) by (simp add: unat_small)
  have room: "\<not> card_end mb - card_alloc mb < 8" "card_alloc mb < card_end mb" using b(4) by simp_all
  have al: "8 + card_ifcs mb + 4 * mb = card_alloc mb" by (simp add: card_alloc_def)
  have w: "abort_sema s \<Longrightarrow> (write_clusters (mc_writecluster ev) 1024 err ws s \<bind> f) =
      f (0, s\<lparr>vmc_file := map_option (apply_writes ws) (vmc_file s), writes := writes s + length ws\<rparr>)" for err ws s and f :: "_ \<Rightarrow> 'x option"
    using write_clusters_fine [OF assms(1)] by simp
  show ?thesis
    unfolding vmc_mcformat_def n u Let_def fat_lengths_mb [OF assms(2,3)] prod.case lim
    using assms(4,5) enough room
    by (simp add: w al e blocks root card_dev_def card_file_def indirect_clusters_def superblock_cluster_def
        indirect_words_def card_geometry_def del: write_clusters.simps) (rule exI, rule refl)
qed

section \<open>What a formatted card holds\<close>

lemma map_of_rev_range:
  "map_of (rev (map (\<lambda>z. (base + z, g z)) [0 ..< m])) k = (if base \<le> k \<and> k < base + m then Some (g (k - base)) else None)"
  by (induction m) (auto simp: map_add_def)

lemma apply_range:
  assumes "length f = 1024 * n" and "\<forall>z < m. length (g z) = 1024" and "base + m \<le> n"
  shows "length (apply_writes (map (\<lambda>z. (base + z, g z)) [0 ..< m]) f) = 1024 * n \<and>
    cl (apply_writes (map (\<lambda>z. (base + z, g z)) [0 ..< m]) f) k =
      (if base \<le> k \<and> k < base + m then g (k - base) else cl f k)"
proof -
  have "fits n (map (\<lambda>z. (base + z, g z)) [0 ..< m])" using assms(2,3) by (auto simp: fits_def)
  from apply_writes_clusters [OF this assms(1), of k] show ?thesis
    by (simp only: map_of_rev_range) (cases "base \<le> k \<and> k < base + m"; auto)
qed

lemma fat_clusters_map:
  "fat_clusters lim fi j first =
     map (\<lambda>z. (fi + z, free_entries (min (lim - (j + 256 * z)) 256) (first \<and> z = 0))) [0 ..< (lim - j + 255) div 256]"
proof (induction lim fi j first rule: fat_clusters.induct)
  case (1 lim fi j first)
  show ?case
  proof (cases "lim \<le> j")
    case True
    then show ?thesis by (simp add: fat_clusters.simps)
  next
    case False
    then have "(lim - j + 255) div 256 = Suc ((lim - (j + 256) + 255) div 256)"
    proof (cases "lim \<le> j + 256")
      case True
      then have "lim - j + 255 = (lim - j - 1) + 256" "lim - j - 1 < 256" using False by simp_all
      then show ?thesis using True by simp
    next
      case False
      then have "lim - j + 255 = (lim - (j + 256) + 255) + 256" by simp
      moreover have "(lim - (j + 256) + 255 + 256) div 256 = Suc ((lim - (j + 256) + 255) div 256)"
        using div_add_self2 [of 256 "lim - (j + 256) + 255"] by simp
      ultimately show ?thesis by (simp only:)
    qed
    then show ?thesis
      using False 1 by (subst fat_clusters.simps) (simp add: map_upt_Suc algebra_simps del: upt_Suc)
  qed
qed

lemma length_free_entries: "length (free_entries k first) = 1024"
  by (auto simp: free_entries_def min_def)

lemma length_dir_entry:
  "length time = 8 \<Longrightarrow> length name \<le> 448 \<Longrightarrow> length (dir_entry mode time name) = 512"
  by (simp add: dir_entry_def)

lemma length_root_directory: "length time = 8 \<Longrightarrow> length (root_directory time) = 1024"
  by (simp add: root_directory_def length_dir_entry)

lemma card_dev_lengths:
  assumes "card_ifcs mb \<le> 32"
  shows "length (magic (card_dev mb d)) = 40" "length (ifc_list (card_dev mb d)) = 32" "length (bad_block_list (card_dev mb d)) = 32"
  using assms by (simp_all add: card_dev_def card_geometry_def SUPERBLOCK_MAGIC_def SUPERBLOCK_VERSION_def)

lemma length_devinfo_bytes:
  "length (magic d) = 40 \<Longrightarrow> length (ifc_list d) = 32 \<Longrightarrow> length (bad_block_list d) = 32 \<Longrightarrow> length (unused_fields d) = 20 \<Longrightarrow>
     length (devinfo_bytes d) = 384"
  by (simp add: devinfo_bytes_def)

lemma unused_card_dev [simp]: "unused_fields (card_dev mb d) = unused_fields d"
  by (simp add: card_dev_def card_geometry_def)

lemma length_indirect_words: "length (indirect_words mb) = 256 * card_ifcs mb"
  by (simp add: indirect_words_def)

text \<open>The clusters of a formatted card.\<close>

lemma card_file_clusters:
  assumes "1 \<le> mb" "mb \<le> 1024" and time: "length time = 8" and unused: "length (unused_fields d) = 20"
  shows "length (card_file mb time d) = 1024 * (1024 * mb)"
    and "cl (card_file mb time d) 0 = superblock_cluster (card_dev mb d)"
    and "cl (card_file mb time d) (card_alloc mb) = root_directory time"
    and "z < card_ifcs mb \<Longrightarrow> cl (card_file mb time d) (8 + z) = take 1024 (drop (1024 * z) (le_words (indirect_words mb)))"
    and "256 * z < card_end mb - card_alloc mb \<Longrightarrow> cl (card_file mb time d) (8 + card_ifcs mb + z) =
      free_entries (min (card_end mb - (card_alloc mb + 256 * z)) 256) (z = 0)"
proof -
  let ?n = "1024 * mb"
  note b = card_bounds [OF assms(1,2)]
  have dev: "length (devinfo_bytes (card_dev mb d)) = 384"
    using b(2) unused by (intro length_devinfo_bytes) (simp_all add: card_dev_lengths)
  have room: "card_end mb < ?n" "card_alloc mb < ?n" using b(4) assms(1) by (simp_all add: card_end_def)
  define f1 where "f1 = apply_writes (indirect_clusters mb) (replicate (1024 * ?n) 0xff)"
  define f2 where "f2 = apply_writes (fat_clusters (card_end mb) (8 + card_ifcs mb) (card_alloc mb) True) f1"
  define f3 where "f3 = apply_writes [(card_alloc mb, root_directory time)] f2"
  have f: "card_file mb time d = apply_writes [(0, superblock_cluster (card_dev mb d))] f3"
    by (simp add: card_file_def f1_def f2_def f3_def)
  have c1: "length f1 = 1024 * ?n"
    "cl f1 k = (if 8 \<le> k \<and> k < 8 + card_ifcs mb then take 1024 (drop (1024 * (k - 8)) (le_words (indirect_words mb)))
        else cl (replicate (1024 * ?n) 0xff) k)" for k
    using apply_range [of "replicate (1024 * ?n) 0xff" ?n "card_ifcs mb" "\<lambda>z. take 1024 (drop (1024 * z) (le_words (indirect_words mb)))" 8 k]
      room(2) unfolding f1_def indirect_clusters_def by (simp_all only: length_replicate) (simp_all add: length_indirect_words card_alloc_def)
  define m where "m = (card_end mb - card_alloc mb + 255) div 256"
  have le: "m \<le> 4 * mb"
  proof -
    have "card_end mb - card_alloc mb + 255 \<le> 1024 * mb + 255" by (simp add: card_end_def)
    also have "\<dots> < 256 * (4 * mb + 1)" by simp
    finally show ?thesis by (simp add: m_def less_Suc_eq_le [symmetric] less_mult_imp_div_less mult.commute)
  qed
  have c2: "length f2 = 1024 * ?n"
    "cl f2 k = (if 8 + card_ifcs mb \<le> k \<and> k < 8 + card_ifcs mb + m
        then free_entries (min (card_end mb - (card_alloc mb + 256 * (k - (8 + card_ifcs mb)))) 256)
          (True \<and> k - (8 + card_ifcs mb) = 0)
        else cl f1 k)" for k
    using apply_range [OF c1(1), of m "\<lambda>z. free_entries (min (card_end mb - (card_alloc mb + 256 * z)) 256) (True \<and> z = 0)"
        "8 + card_ifcs mb" k] le room(2)
    unfolding f2_def fat_clusters_map m_def [symmetric] by (simp_all only: length_free_entries) (simp_all add: card_alloc_def)
  have fits3: "fits ?n [(card_alloc mb, root_directory time)]" using room time by (simp add: fits_def length_root_directory)
  have c3: "length f3 = 1024 * ?n" "cl f3 k = (if k = card_alloc mb then root_directory time else cl f2 k)" for k
    using apply_writes_clusters [OF fits3 c2(1), of k] unfolding f3_def by auto
  have fits4: "fits ?n [(0, superblock_cluster (card_dev mb d))]"
    using assms(1) dev by (simp add: fits_def superblock_cluster_def)
  have c4: "length (card_file mb time d) = 1024 * ?n"
    "cl (card_file mb time d) k = (if k = 0 then superblock_cluster (card_dev mb d) else cl f3 k)" for k
    using apply_writes_clusters [OF fits4 c3(1), of k] unfolding f by auto
  show "length (card_file mb time d) = 1024 * ?n" by (rule c4)
  show "cl (card_file mb time d) 0 = superblock_cluster (card_dev mb d)" by (simp add: c4)
  show "cl (card_file mb time d) (card_alloc mb) = root_directory time" by (simp add: c4 c3 card_alloc_def)
  show "cl (card_file mb time d) (8 + z) = take 1024 (drop (1024 * z) (le_words (indirect_words mb)))" if "z < card_ifcs mb"
    using that by (simp add: c4 c3 c2 c1 card_alloc_def)
  show "cl (card_file mb time d) (8 + card_ifcs mb + z) =
      free_entries (min (card_end mb - (card_alloc mb + 256 * z)) 256) (z = 0)"
    if z: "256 * z < card_end mb - card_alloc mb"
  proof -
    have "Suc z \<le> m" using z unfolding m_def by (subst less_eq_div_iff_mult_less_eq) simp_all
    then have "z < m" by simp
    moreover from this le have "8 + card_ifcs mb + z < card_alloc mb" by (simp add: card_alloc_def)
    ultimately show ?thesis using c2(2) [of "8 + card_ifcs mb + z"] by (simp add: c4 c3)
  qed
qed

text \<open>The entry of a cluster in the table, found through the list in the superblock.\<close>

definition card_fat :: "u8 list \<Rightarrow> nat \<Rightarrow> u32" where
  "card_fat f i =
     (let indirect = unat (le32 f (80 + 4 * (i div 65536)));
          fat = unat (le32 f (1024 * indirect + 4 * (i div 256 mod 256)))
      in le32 f (1024 * fat + 4 * (i mod 256)))"

lemma le32_cluster:
  assumes "1024 * Suc k \<le> length f" and "j < 256"
  shows "le32 f (1024 * k + 4 * j) = le32 (cl f k) (4 * j)"
  using assms by (simp add: le32_def cl_def add.assoc)

lemma le32_free_entries:
  assumes "j < 256" and "256 * z + j < n"
  shows "le32 (free_entries (min (n - 256 * z) 256) (z = 0)) (4 * j) =
    (if z = 0 \<and> j = 0 then 0xffffffff else 0x7fffffff)"
proof -
  let ?k = "min (n - 256 * z) 256"
  have "le32 (free_entries ?k (z = 0)) (4 * j) =
      take 256 ((if z = 0 then 0xffffffff # replicate (?k - 1) 0x7fffffff else replicate ?k 0x7fffffff) @ replicate 256 0) ! j"
    using le32_words [of j _ "[]"] assms by (simp add: free_entries_def)
  then show ?thesis using assms by (auto simp: nth_append nth_Cons')
qed

lemma superblock_fields:
  assumes "length (magic d) = 40" "length (ifc_list d) = 32" "length (unused_fields d) = 20"
  shows "le16 (devinfo_bytes d @ r) 40 = pagesize d" "le16 (devinfo_bytes d @ r) 42 = pages_per_cluster d"
    "le32 (devinfo_bytes d @ r) 48 = clusters_per_card d"
    "j < 32 \<Longrightarrow> le32 (devinfo_bytes d @ r) (80 + 4 * j) = ifc_list d ! j"
    "length (bad_block_list d) = 32 \<Longrightarrow> (devinfo_bytes d @ r) ! 336 = cardtype d"
    "take 27 (devinfo_bytes d @ r) = take 27 (magic d)"
proof -
  define t1 where "t1 = le_bytes16 (pages_per_cluster d) @ le_bytes16 (blocksize d) @
     take 2 (unused_fields d) @
     le_words [clusters_per_card d, alloc_offset d, alloc_end d, rootdir_cluster d, backup_block1 d, backup_block2 d] @
     take 8 (drop 2 (unused_fields d)) @
     le_words (ifc_list d) @ le_words (bad_block_list d) @ [cardtype d, cardflags d] @ take 2 (drop 10 (unused_fields d)) @
     le_words [cluster_size d, FATentries_per_cluster d, clusters_per_block d, cardform d, rootdir_cluster2 d, unknown1 d,
               unknown2 d, max_allocatable_clusters d] @
     take 8 (drop 12 (unused_fields d)) @ le_bytes32 (unknown5 d) @ r"
  have d: "devinfo_bytes d @ r = magic d @ le_bytes16 (pagesize d) @ t1" by (simp add: devinfo_bytes_def t1_def)
  show "le16 (devinfo_bytes d @ r) 40 = pagesize d"
    using assms le16_shift [of "magic d" 40 "le_bytes16 (pagesize d) @ t1" 0] by (simp add: d le16_bytes)
  show "take 27 (devinfo_bytes d @ r) = take 27 (magic d)" using assms by (simp add: d)
  have "le16 (devinfo_bytes d @ r) 42 = le16 t1 0"
    using assms le16_shift [of "magic d @ le_bytes16 (pagesize d)" 42 t1 0] by (simp add: d)
  then show "le16 (devinfo_bytes d @ r) 42 = pages_per_cluster d" by (simp add: t1_def le16_bytes)
  let ?ws = "[clusters_per_card d, alloc_offset d, alloc_end d, rootdir_cluster d, backup_block1 d, backup_block2 d]"
  define p where "p = magic d @ le_bytes16 (pagesize d) @ le_bytes16 (pages_per_cluster d) @ le_bytes16 (blocksize d) @
     take 2 (unused_fields d)"
  have p: "length p = 48" using assms by (simp add: p_def)
  define t2 where "t2 = take 8 (drop 2 (unused_fields d)) @
     le_words (ifc_list d) @ le_words (bad_block_list d) @ [cardtype d, cardflags d] @ take 2 (drop 10 (unused_fields d)) @
     le_words [cluster_size d, FATentries_per_cluster d, clusters_per_block d, cardform d, rootdir_cluster2 d, unknown1 d,
               unknown2 d, max_allocatable_clusters d] @
     take 8 (drop 12 (unused_fields d)) @ le_bytes32 (unknown5 d) @ r"
  have d2: "devinfo_bytes d @ r = p @ le_words ?ws @ t2" by (simp add: d t1_def t2_def p_def)
  show "le32 (devinfo_bytes d @ r) 48 = clusters_per_card d"
    using le32_shift [OF p, of "le_words ?ws @ t2" 0] le32_words [of 0 ?ws t2] by (simp add: d2)
  define t3 where "t3 = le_words (bad_block_list d) @ [cardtype d, cardflags d] @ take 2 (drop 10 (unused_fields d)) @
     le_words [cluster_size d, FATentries_per_cluster d, clusters_per_block d, cardform d, rootdir_cluster2 d, unknown1 d,
               unknown2 d, max_allocatable_clusters d] @
     take 8 (drop 12 (unused_fields d)) @ le_bytes32 (unknown5 d) @ r"
  define q where "q = p @ le_words ?ws @ take 8 (drop 2 (unused_fields d))"
  have q: "length q = 80" using assms p by (simp add: q_def)
  have d3: "devinfo_bytes d @ r = q @ le_words (ifc_list d) @ t3" by (simp add: d2 t2_def t3_def q_def)
  show "le32 (devinfo_bytes d @ r) (80 + 4 * j) = ifc_list d ! j" if "j < 32"
    using le32_shift [OF q, of "le_words (ifc_list d) @ t3" "4 * j"] le32_words [of j "ifc_list d" t3] assms that by (simp add: d3)
  show "(devinfo_bytes d @ r) ! 336 = cardtype d" if "length (bad_block_list d) = 32"
    using q assms that by (simp add: d3 t3_def nth_append)
qed

lemma superblock_of_card:
  assumes "1 \<le> mb" "mb \<le> 1024" and "length time = 8" and "length (unused_fields d) = 20"
  shows "\<exists>r. card_file mb time d = devinfo_bytes (card_dev mb d) @ r"
proof -
  have "card_file mb time d = cl (card_file mb time d) 0 @ drop 1024 (card_file mb time d)" by (simp add: cl_def)
  then show ?thesis unfolding card_file_clusters(2) [OF assms] superblock_cluster_def by (metis append_assoc)
qed

lemma card_file_fat:
  assumes "1 \<le> mb" "mb \<le> 1024" and "length time = 8" and "length (unused_fields d) = 20"
    and i: "i < card_end mb - card_alloc mb"
  shows "card_fat (card_file mb time d) i = (if i = 0 then 0xffffffff else 0x7fffffff)"
proof -
  let ?f = "card_file mb time d"
  note b = card_bounds [OF assms(1,2)]
  have room: "card_end mb < 1024 * mb" "card_alloc mb < 1024 * mb" using b(4) assms(1) by (simp_all add: card_end_def)
  define z where "z = i div 256"
  have i256: "256 * z + i mod 256 = i" "i mod 256 < 256" by (simp_all add: z_def)
  have "256 * z < 1024 * mb" using i i256 room by simp
  then have z: "z < 4 * mb" by simp
  define y where "y = z div 256"
  have zy: "256 * y + z mod 256 = z" "z mod 256 < 256" by (simp_all add: y_def)
  have zlt: "z < card_ifcs mb * 256" using z b(3) by simp
  have y: "y < card_ifcs mb" using z b(3) zy by simp
  have iy: "i div 65536 = y" by (simp add: y_def z_def div_mult2_eq [symmetric])
  obtain r where r: "?f = devinfo_bytes (card_dev mb d) @ r" using superblock_of_card [OF assms(1-4)] by blast
  have len: "length (magic (card_dev mb d)) = 40" "length (ifc_list (card_dev mb d)) = 32"
    using b(2) by (simp_all add: card_dev_lengths)
  have "le32 ?f (80 + 4 * y) = ifc_list (card_dev mb d) ! y"
    unfolding r using len y b(2) assms(4) by (intro superblock_fields) simp_all
  also have "\<dots> = of_nat (8 + y)" using y by (simp add: card_dev_def nth_append)
  finally have ind: "unat (le32 ?f (80 + 4 * (i div 65536))) = 8 + y" using y b(2) by (simp only: iy) (rule unat_small, simp)
  have l: "length ?f = 1024 * (1024 * mb)" by (rule card_file_clusters(1) [OF assms(1-4)])
  have "le32 ?f (1024 * (8 + y) + 4 * (z mod 256)) = le32 (cl ?f (8 + y)) (4 * (z mod 256))"
    using y room b(4) l by (intro le32_cluster) (simp_all add: card_alloc_def)
  also have "\<dots> = le32 (drop (1024 * y) (le_words (indirect_words mb))) (4 * (z mod 256))"
    using y zy by (simp add: card_file_clusters(4) [OF assms(1-4) y] le32_def length_indirect_words)
  also have "\<dots> = le32 (le_words (indirect_words mb)) (1024 * y + 4 * (z mod 256))"
    using y by (simp add: le32_def length_indirect_words add.assoc)
  also have "1024 * y + 4 * (z mod 256) = 4 * z" using zy by simp
  also have "le32 (le_words (indirect_words mb)) (4 * z) = indirect_words mb ! z"
    using le32_words [of z "indirect_words mb" "[]"] y zy by (simp add: length_indirect_words)
  also have "\<dots> = of_nat (8 + card_ifcs mb + z)"
    using z zlt by (simp add: indirect_words_def card_alloc_def nth_append)
  finally have fat: "unat (le32 ?f (1024 * (8 + y) + 4 * (z mod 256))) = 8 + card_ifcs mb + z"
    using z b(2) assms(2) by (simp only:) (rule unat_small, simp)
  have "le32 ?f (1024 * (8 + card_ifcs mb + z) + 4 * (i mod 256)) = le32 (cl ?f (8 + card_ifcs mb + z)) (4 * (i mod 256))"
    using z room l by (intro le32_cluster) (simp_all add: card_alloc_def)
  also have "cl ?f (8 + card_ifcs mb + z) = free_entries (min (card_end mb - card_alloc mb - 256 * z) 256) (z = 0)"
    using card_file_clusters(5) [OF assms(1-4), of z] i i256 by simp
  also have "le32 \<dots> (4 * (i mod 256)) = (if i = 0 then 0xffffffff else 0x7fffffff)"
    using le32_free_entries [OF i256(2), of z "card_end mb - card_alloc mb"] i i256 by (auto simp: z_def)
  finally have "le32 ?f (1024 * (8 + card_ifcs mb + z) + 4 * (i mod 256)) = (if i = 0 then 0xffffffff else 0x7fffffff)" .
  then show ?thesis
    unfolding card_fat_def Let_def ind by (simp only: z_def [symmetric] fat)
qed

end
