(* ===== verification/Vmc_Copy.thy ===== *)
theory Vmc_Copy
  imports Vmc_Gen_Card
begin

text \<open>
  The copy of a memory card: its pages are read block by block and written one behind the other, so that the image
  is the card.
\<close>

section \<open>Reading a block\<close>

text \<open>The pages of a card whose bytes are \<open>flash\<close>.\<close>

definition card_page :: "u8 list \<Rightarrow> nat \<Rightarrow> u8 list option" where
  "card_page flash k = (if 512 * Suc k \<le> length flash then Some (take 512 (drop (512 * k) flash)) else None)"

lemma read_pages_append:
  "read_pages pg n first (js @ ks) buf = do {
     (ok, buf) \<leftarrow> read_pages pg n first js buf;
     if ok then read_pages pg n first ks buf else Some (False, buf)
   }"
proof (induction js arbitrary: buf)
  case (Cons j js)
  show ?case
    by (cases "pg (first + j)"; cases "mem_write buf (j * n) (the (pg (first + j)))") (simp_all add: Cons.IH)
qed simp

lemma read_pages_block:
  assumes "512 * (first + m) \<le> length flash" and "512 * m \<le> length buf"
  shows "read_pages (card_page flash) 512 first [0 ..< m] buf =
    Some (True, take (512 * m) (drop (512 * first) flash) @ drop (512 * m) buf)"
  using assms
proof (induction m)
  case (Suc m)
  let ?p = "take 512 (drop (512 * (first + m)) flash)" and ?b = "take (512 * m) (drop (512 * first) flash)"
  have len: "length ?b = 512 * m" "length ?p = 512" using Suc.prems(1) by simp_all
  have "mem_write (?b @ drop (512 * m) buf) (m * 512) ?p = Some (?b @ ?p @ drop (512 * Suc m) buf)"
    using len Suc.prems(2) by (simp add: mem_write_Some mult.commute)
  moreover have "?b @ ?p = take (512 * Suc m) (drop (512 * first) flash)"
    using take_add [of "512 * m" 512 "drop (512 * first) flash"] by (simp add: algebra_simps)
  moreover have "card_page flash (first + m) = Some ?p" using Suc.prems(1) by (simp add: card_page_def)
  ultimately show ?case using Suc by (simp add: read_pages_append)
qed simp

section \<open>The blocks of a card\<close>

lemma write_at_end: "write_at (length f) bs f = f @ bs"
  by (simp add: write_at_def)

lemma copy_units_blocks:
  assumes "\<forall>k. ev k = Fine" and "16384 \<le> length buf" and "16384 * (k + t) \<le> length flash"
    and "abort_sema s" and "vmc_file s = Some (take (16384 * k) flash)"
  shows "\<exists>s'. copy_units (mc_writecluster ev) (card_page flash) 512 1024
      (map (\<lambda>i. \<lparr>first_page = i * 32, page_count = 32, to_cluster = i * 16, dup = 16\<rparr>) [k ..< k + t]) buf s = Some (0, s') \<and>
    abort_sema s' \<and> vmc_file s' = Some (take (16384 * (k + t)) flash)"
  using assms(2-5)
proof (induction t arbitrary: k buf s)
  case 0
  then show ?case by simp
next
  case (Suc t)
  let ?b = "take 16384 (drop (16384 * k) flash)" and ?f = "take (16384 * k) flash"
  let ?s = "s\<lparr>writes := writes s + 1, vmc_file := Some (take (16384 * Suc k) flash)\<rparr>"
  have len: "length ?b = 16384" "length ?f = 16384 * k" using Suc.prems(2) by simp_all
  have r: "read_pages (card_page flash) 512 (k * 32) [0 ..< 32] buf = Some (True, ?b @ drop 16384 buf)"
    using read_pages_block [of "k * 32" 32 flash buf] Suc.prems(1,2) by (simp del: upt_rec_numeral add: mult.commute)
  have "write_at (16 * k * 1024) ?b ?f = take (16384 * Suc k) flash"
  proof -
    have "16 * k * 1024 = length ?f" using len by simp
    then have "write_at (16 * k * 1024) ?b ?f = ?f @ ?b" by (simp only: write_at_end)
    then show ?thesis using take_add [of "16384 * k" 16384 flash] by (simp add: algebra_simps)
  qed
  then have w: "mc_writecluster ev 1024 (k * 16) ?b s = Some (0, ?s)"
    using assms(1) Suc.prems(3,4) by (simp add: mc_writecluster_def Let_def mult.commute)
  have m: "mem_read (?b @ drop 16384 buf) 0 16384 = Some ?b" using len by (simp add: mem_read_Some)
  have "[k ..< k + Suc t] = k # [Suc k ..< Suc k + t]" by (simp add: upt_conv_Cons del: upt_Suc)
  moreover have "16384 \<le> length (?b @ drop 16384 buf)" using len by simp
  ultimately show ?case
    using Suc.IH [of "?b @ drop 16384 buf" "Suc k" ?s] Suc.prems r w m by (simp del: upt_Suc upt_rec_numeral)
qed

section \<open>Property\<close>

text \<open>
  C8: a copy of a memory card with the page and cluster sizes that cards have, made without an error, is the card.
\<close>
theorem copied_card_is_the_card:
  assumes "can_open wd" and "\<forall>k. event wd k = Fine" and "thread_sema m" and "io_abort_sema m"
    and "VMC_card_slot q \<noteq> - 1" and "card_type wd = 2" and "\<forall>k. page wd k = card_page flash k"
    and "length flash = 1024 * n" and "n mod 16 = 0" and "1584 \<le> n" and "n < 2 ^ 32"
    and "take 28 flash = SUPERBLOCK_MAGIC" and "le16 flash 40 = 512" and "le16 flash 42 = 2" and "le32 flash 48 = of_nat n"
    and "le32 flash 340 = 1024"
  shows "\<exists>m'. VMC_create_thread wd q m = Some m' \<and> image m' = Some flash \<and> VMC_error m' = 0 \<and> io_abort_sema m' \<and>
    VMC_busy m' = False"
proof -
  let ?p = "take 512 flash"
  define buf where "buf = ?p @ replicate 15888 (0 :: u8)"
  have len: "length ?p = 512" using assms(8,10) by simp
  have b: "mem_write (replicate 16400 0) 0 ?p = Some buf" using len by (simp add: mem_write_Some buf_def)
  have lb: "16384 \<le> length buf" using len by (simp add: buf_def)
  have nth: "i < 512 \<Longrightarrow> buf ! i = flash ! i" for i using len by (simp add: buf_def nth_append)
  have pg: "page wd = card_page flash" using assms(7) by blast
  have p0: "card_page flash 0 = Some ?p" using len assms(8,10) by (simp add: card_page_def)
  have d: "take 28 (magic (devinfo_of_bytes buf)) = SUPERBLOCK_MAGIC" "pagesize (devinfo_of_bytes buf) = 512"
      "pages_per_cluster (devinfo_of_bytes buf) = 2" "clusters_per_card (devinfo_of_bytes buf) = of_nat n"
      "cluster_size (devinfo_of_bytes buf) = 1024"
    using assms(12-16) len by (simp_all add: devinfo_of_bytes_def le16_def le32_def nth) (simp add: buf_def)
  have n: "16 * (n div 16) = n" using assms(9) by presburger
  have blocks: "\<not> n div 16 < 99" using assms(10) by simp
  let ?s = "\<lparr>vmc_file = Some [], abort_sema = True, writes = 0\<rparr>"
  have "16384 * (n div 16) = length flash" using n assms(8) by simp
  then obtain s' where s': "copy_units (mc_writecluster (event wd)) (card_page flash) 512 1024
      (map (\<lambda>i. \<lparr>first_page = i * 32, page_count = 32, to_cluster = i * 16, dup = 16\<rparr>) [0 ..< n div 16]) buf ?s = Some (0, s')"
      "abort_sema s'" "vmc_file s' = Some flash"
    using copy_units_blocks [OF assms(2) lb, of 0 "n div 16" flash ?s] by auto
  have u: "unat (of_nat n :: u32) = n" using assms(11) by (rule unat_small)
  have "vmc_mccopy (mc_writecluster (event wd)) (open_image True) (detected wd) 2 (card_page flash) (replicate 16400 0) (devinfo m)
      \<lparr>vmc_file = image m, abort_sema = True, writes = 0\<rparr> = Some (0, devinfo_of_bytes buf, s')"
    using blocks s'(1) n
    by (simp add: vmc_mccopy_def p0 b d u open_image_def Let_def del: replicate.simps)
  then show ?thesis
    using assms(1,3-6) s'(2,3) by (simp add: VMC_create_thread_def pg del: replicate.simps)
qed

theorem copied_card_is_the_card_witness:
  "\<exists>flash m'. VMC_create_thread
      \<lparr>can_open = True, event = \<lambda>k. Fine, clock = replicate 8 0, detected = 0, card_type = 2, page = card_page flash\<rparr>
      \<lparr>VMC_size_mb = 0, VMC_blocksize = 16, VMC_card_slot = 1\<rparr>
      \<lparr>devinfo = blank_devinfo, image = None, thread_sema = True, io_abort_sema = True, VMC_busy = True, VMC_error = 0,
       finished_sema = None\<rparr> = Some m' \<and> length flash = 1622016 \<and> image m' = Some flash"
proof -
  define z where "z = (0 :: u8)"
  define flash where "flash = SUPERBLOCK_MAGIC @ replicate 12 z @ [0, 2, 2, 0] @ replicate 4 z @ [0x30, 6, 0, 0] @
    replicate 288 z @ [0, 4, 0, 0] @ replicate 1621672 z"
  have "length flash = 1024 * 1584" by (simp add: flash_def SUPERBLOCK_MAGIC_def)
  moreover have "take 28 flash = SUPERBLOCK_MAGIC" by (simp add: flash_def SUPERBLOCK_MAGIC_def)
  moreover have "le16 flash 40 = 512" "le16 flash 42 = 2" "le32 flash 48 = of_nat 1584" "le32 flash 340 = 1024"
    by (simp_all add: flash_def le16_def le32_def nth_append SUPERBLOCK_MAGIC_def)
  ultimately show ?thesis
    using copied_card_is_the_card [of "\<lparr>can_open = True, event = \<lambda>k. Fine, clock = replicate 8 0, detected = 0, card_type = 2,
        page = card_page flash\<rparr>" "\<lparr>devinfo = blank_devinfo, image = None, thread_sema = True, io_abort_sema = True,
        VMC_busy = True, VMC_error = 0, finished_sema = None\<rparr>" "\<lparr>VMC_size_mb = 0, VMC_blocksize = 16, VMC_card_slot = 1\<rparr>" flash 1584]
    by (simp del: replicate.simps) blast
qed

end
