(* ===== verification/Vmc_Gen_Props.thy ===== *)
theory Vmc_Gen_Props
  imports Vmc_Copy
begin

text \<open>
  What a formatted image of a memory card holds, that the two programs format alike, and where the module waits
  for ever.
\<close>

section \<open>The two programs format alike\<close>

text \<open>
  \<open>R\<close> relates the states before a write, \<open>E\<close> those at the end, which a write that fails leads to.
\<close>

definition outcomes_agree ::
  "('s \<Rightarrow> 't \<Rightarrow> bool) \<Rightarrow> ('s \<Rightarrow> 't \<Rightarrow> bool) \<Rightarrow> (int \<times> 's) option \<Rightarrow> (int \<times> 't) option \<Rightarrow> bool" where
  "outcomes_agree R E x y \<longleftrightarrow>
     (\<exists>r s t. x = Some (r, s) \<and> y = Some (r, t) \<and> E s t \<and> (r < 0 \<or> R s t))"

definition writers_agree :: "('s \<Rightarrow> 't \<Rightarrow> bool) \<Rightarrow> ('s \<Rightarrow> 't \<Rightarrow> bool) \<Rightarrow> 's writer \<Rightarrow> 't writer \<Rightarrow> bool" where
  "writers_agree R E w w' \<longleftrightarrow>
     (\<forall>n c b s t. R s t \<longrightarrow> E s t \<and> outcomes_agree R E (w n c b s) (w' n c b t))"

lemma write_clusters_agree:
  assumes "writers_agree R E w w'" and "err < 0" and "R s t"
  shows "outcomes_agree R E (write_clusters w n err ws s) (write_clusters w' n err ws t)"
  using assms(3)
proof (induction ws arbitrary: s t)
  case Nil
  then show ?case using assms(1) unfolding writers_agree_def by (auto simp: outcomes_agree_def)
next
  case (Cons x ws)
  obtain c b where x: "x = (c, b)" by fastforce
  from assms(1) Cons.prems have "outcomes_agree R E (w n c b s) (w' n c b t)"
    unfolding writers_agree_def by blast
  then obtain r s' t' where "w n c b s = Some (r, s')" "w' n c b t = Some (r, t')" "E s' t'" "r < 0 \<or> R s' t'"
    unfolding outcomes_agree_def by blast
  then show ?case
    using Cons.IH [of s' t'] assms(2) by (auto simp: x outcomes_agree_def)
qed

definition results_agree :: "('s \<Rightarrow> 't \<Rightarrow> bool) \<Rightarrow> (int \<times> 'd \<times> 's) option \<Rightarrow> (int \<times> 'd \<times> 't) option \<Rightarrow> bool" where
  "results_agree E x y \<longleftrightarrow>
     x = None \<and> y = None \<or> (\<exists>r d s t. x = Some (r, d, s) \<and> y = Some (r, d, t) \<and> E s t)"

lemma results_agree_bind:
  assumes "outcomes_agree R E x y"
    and "\<And>r s t. E s t \<Longrightarrow> r < 0 \<or> R s t \<Longrightarrow> results_agree E (f (r, s)) (g (r, t))"
  shows "results_agree E (x \<bind> f) (y \<bind> g)"
  using assms by (auto simp: outcomes_agree_def)

lemma results_agree_if:
  "(b \<Longrightarrow> results_agree E x x') \<Longrightarrow> (\<not> b \<Longrightarrow> results_agree E y y') \<Longrightarrow>
     results_agree E (if b then x else y) (if b then x' else y')"
  by simp

lemma results_agree_end: "E s t \<Longrightarrow> results_agree E (Some (r, d, s)) (Some (r, d, t))" "results_agree E None None"
  by (auto simp: results_agree_def)

lemma results_agree_let:
  "(\<And>x. results_agree E (f x) (g x)) \<Longrightarrow> results_agree E (let x = v in f x) (let x = v in g x)"
  by (simp add: Let_def)

lemma vmc_mcformat_agree:
  assumes w: "writers_agree R E w w'" and "R s t"
  shows "results_agree E (vmc_mcformat w time size_kb bs d s) (vmc_mcformat w' time size_kb bs d t)"
proof -
  have E: "E s t" if "R s t" for s t using w that unfolding writers_agree_def by blast
  have step: "results_agree E (write_clusters w n err ws s \<bind> (\<lambda>(r, s). if r < 0 then Some (r, d, s) else f r s))
      (write_clusters w' n err ws t \<bind> (\<lambda>(r, s). if r < 0 then Some (r, d, s) else g r s))"
    if "R s t" "err < 0" "\<And>r s t. R s t \<Longrightarrow> results_agree E (f r s) (g r t)" for n err ws s t d f g
    by (rule results_agree_bind [OF write_clusters_agree [OF w that(2,1)]])
      (auto intro: results_agree_end that(3))
  have last: "results_agree E (write_clusters w n err ws s \<bind> (\<lambda>(r, s). Some (r, d, s)))
      (write_clusters w' n err ws t \<bind> (\<lambda>(r, s). Some (r, d, s)))"
    if "R s t" "err < 0" for n err ws s t d
    by (rule results_agree_bind [OF write_clusters_agree [OF w that(2,1)]])
      (auto intro: results_agree_end)
  have pair: "results_agree E (case v of (x, y) \<Rightarrow> f x y) (case v of (x, y) \<Rightarrow> g x y)"
    if "\<And>x y. results_agree E (f x y) (g x y)" for v :: "nat \<times> nat" and f g
    using that by (simp split: prod.split)
  have fail: "results_agree E (Some (r, d, s)) (Some (r, d, t))" if "R s t" for r d s t
    using E [OF that] by (rule results_agree_end)
  show ?thesis
    using assms(2) unfolding vmc_mcformat_def
    apply -
    apply (rule results_agree_let)+
    apply (rule pair)
    apply (rule results_agree_let)+
    apply (rule step, assumption, simp)
    apply (rule results_agree_if, erule fail)
    apply (rule results_agree_let)+
    apply (rule step, assumption, simp)
    apply (rule results_agree_if, rule results_agree_end(2))
    apply (rule results_agree_let)+
    apply (rule step, assumption, simp)
    apply (rule results_agree_let)+
    apply (rule results_agree_if, erule fail)
    apply (rule results_agree_let)+
    apply (rule step, assumption, simp)
    apply (rule results_agree_let)+
    apply (rule last, assumption, simp)
    done
qed

section \<open>The front end accepts the image\<close>

lemma sysCheckVMC_card:
  assumes "1 \<le> mb" "mb \<le> 1024" and "length time = 8" and "length (unused_fields d) = 20"
  shows "sysCheckVMC (Some (card_file mb time d)) (int mb) True = (int mb, False, False)"
proof -
  let ?f = "card_file mb time d"
  note b = card_bounds [OF assms(1,2)]
  have l: "length ?f = mb * 1048576" using card_file_clusters(1) [OF assms] by simp
  have dev: "length (devinfo_bytes (card_dev mb d)) = 384"
    using b(2) assms(4) by (intro length_devinfo_bytes) (simp_all add: card_dev_lengths)
  obtain r where r: "?f = devinfo_bytes (card_dev mb d) @ r" using superblock_of_card [OF assms] by blast
  have s: "superblock_of ?f = devinfo_bytes (card_dev mb d) @ take 128 r"
  proof -
    have "superblock_of ?f = take 512 ?f" using l assms(1) by (simp add: superblock_of_def)
    then show ?thesis by (simp add: r dev)
  qed
  have len: "length (magic (card_dev mb d)) = 40" "length (ifc_list (card_dev mb d)) = 32"
      "length (bad_block_list (card_dev mb d)) = 32" "length (unused_fields (card_dev mb d)) = 20"
    using b(2) assms(4) by (simp_all add: card_dev_lengths)
  note fields = superblock_fields [OF len(1,2,4), where r = "take 128 r"]
  have vals: "pagesize (card_dev mb d) = 512" "pages_per_cluster (card_dev mb d) = 2"
      "clusters_per_card (card_dev mb d) = of_nat (1024 * mb)" "cardtype (card_dev mb d) = 2"
      "take 27 (magic (card_dev mb d)) = map of_char ''Sony PS2 Memory Card Format''"
    by (simp_all add: card_dev_def card_geometry_def SUPERBLOCK_MAGIC_def)
  have "unat (2 * of_nat (1024 * mb) * 512 :: u32) = mb * 1048576"
  proof -
    have "(2 * of_nat (1024 * mb) * 512 :: u32) = of_nat (mb * 1048576)" by simp
    then show ?thesis using assms(2) by (simp only:) (rule unat_small, simp)
  qed
  then have size: "unat (ucast (2 :: u16) * of_nat (1024 * mb) * ucast (512 :: u16) :: u32) = mb * 1048576" by simp
  show ?thesis
    unfolding sysCheckVMC_def option.case s fields(1-3) fields(5) [OF len(3)] fields(6) vals l Let_def size
    using assms(1) by simp
qed

section \<open>The semaphore\<close>

lemma mc_writecluster_sema:
  assumes "abort_sema s" and "mc_writecluster ev n c b s = Some (r, s')"
  shows "r = 0 \<and> abort_sema s' \<or> r = - 2 \<and> abort_sema s' \<or> r = - 1 \<and> \<not> abort_sema s'"
  using assms by (cases "ev (writes s)") (auto simp: mc_writecluster_def Let_def)

lemma write_clusters_sema:
  assumes "abort_sema s" and "write_clusters (mc_writecluster ev) n err ws s = Some (r, s')"
  shows "r = 0 \<and> abort_sema s' \<or> r = - 1000 \<and> abort_sema s' \<or> r = err \<and> \<not> abort_sema s'"
  using assms
proof (induction ws arbitrary: s)
  case (Cons x ws)
  obtain c b where x: "x = (c, b)" by fastforce
  with Cons.prems(2) obtain r1 s1 where w: "mc_writecluster ev n c b s = Some (r1, s1)"
    by (cases "mc_writecluster ev n c b s") auto
  from mc_writecluster_sema [OF Cons.prems(1) w] show ?case
    using Cons.IH [of s1] Cons.prems(2) by (auto simp: x w)
qed simp

definition sema_outcome :: "(int \<times> mcdev \<times> vmc_gen) option \<Rightarrow> bool" where
  "sema_outcome x \<longleftrightarrow> (\<forall>r d s. x = Some (r, d, s) \<longrightarrow>
     abort_sema s \<and> r \<in> {0, - 104, - 108, - 1000} \<or> \<not> abort_sema s \<and> r \<in> {- 102, - 105, - 107, - 109, - 110})"

lemma sema_outcome_let: "(\<And>x. sema_outcome (f x)) \<Longrightarrow> sema_outcome (let x = v in f x)"
  by (simp add: Let_def)

lemma vmc_mcformat_sema:
  assumes "abort_sema s"
  shows "sema_outcome (vmc_mcformat (mc_writecluster ev) time size_kb bs d s)"
proof -
  let ?w = "mc_writecluster ev"
  have step: "sema_outcome (write_clusters ?w n err ws s \<bind> (\<lambda>(r, s). if r < 0 then Some (r, d, s) else f r s))"
    if "abort_sema s" "err \<in> {- 102, - 105, - 107, - 109, - 110}" "\<And>r s. abort_sema s \<Longrightarrow> sema_outcome (f r s)" for n err ws s d f
  proof (cases "write_clusters ?w n err ws s")
    case (Some a)
    obtain r s' where a: "a = (r, s')" by fastforce
    from write_clusters_sema [OF that(1) Some [unfolded a]] that(2) that(3) [of s' r]
    show ?thesis by (auto simp: Some a sema_outcome_def)
  qed (simp add: sema_outcome_def)
  have last: "sema_outcome (write_clusters ?w n err ws s \<bind> (\<lambda>(r, s). Some (r, d, s)))"
    if "abort_sema s" "err \<in> {- 102, - 105, - 107, - 109, - 110}" for n err ws s d
  proof (cases "write_clusters ?w n err ws s")
    case (Some a)
    obtain r s' where a: "a = (r, s')" by fastforce
    from write_clusters_sema [OF that(1) Some [unfolded a]] that(2)
    show ?thesis by (auto simp: Some a sema_outcome_def)
  qed (simp add: sema_outcome_def)
  have pair: "sema_outcome (case v of (x, y) \<Rightarrow> f x y)" if "\<And>x y. sema_outcome (f x y)" for v :: "nat \<times> nat" and f
    using that by (simp split: prod.split)
  have branch: "sema_outcome (if c then x else y)" if "sema_outcome x" "sema_outcome y" for c x y using that by simp
  have fail: "sema_outcome None" "abort_sema s \<Longrightarrow> r \<in> {- 104, - 108} \<Longrightarrow> sema_outcome (Some (r, d, s))" for r d s
    by (auto simp: sema_outcome_def)
  show ?thesis
    using assms unfolding vmc_mcformat_def
    apply -
    apply (rule sema_outcome_let)+
    apply (rule pair)
    apply (rule sema_outcome_let)+
    apply (rule step, assumption, simp)
    apply (rule branch, erule fail, simp)
    apply (rule sema_outcome_let)+
    apply (rule step, assumption, simp)
    apply (rule branch, rule fail)
    apply (rule sema_outcome_let)+
    apply (rule step, assumption, simp)
    apply (rule sema_outcome_let)+
    apply (rule branch, erule fail, simp)
    apply (rule sema_outcome_let)+
    apply (rule step, assumption, simp)
    apply (rule sema_outcome_let)+
    apply (rule last, assumption, simp)
    done
qed

lemma first_write_fails:
  assumes "abort_sema s" and "ev (writes s) = Failed" and "0 < k"
  shows "write_clusters (mc_writecluster ev) n err (map g [0 ..< k]) s = Some (err, s\<lparr>writes := writes s + 1, abort_sema := False\<rparr>)"
proof -
  have "[0 ..< k] = 0 # [1 ..< k]" using assms(3) by (simp add: upt_conv_Cons)
  moreover obtain c b where "g 0 = (c, b)" by fastforce
  ultimately show ?thesis using assms by (simp add: mc_writecluster_def Let_def)
qed

lemma first_write_fails_format:
  assumes "abort_sema s" and "ev (writes s) = Failed"
  shows "\<exists>d' s'. vmc_mcformat (mc_writecluster ev) time 8192 16 d s = Some (- 102, d', s')"
  unfolding vmc_mcformat_def Let_def
  by (simp add: first_write_fails [where ev = ev, OF assms] split: prod.split del: replicate.simps upt_rec_numeral)

section \<open>Properties\<close>

text \<open>
  C2: formatting a card of 1 to 1024 megabytes without an error gives an image of that size, in which the table
  that is found through the superblock has every cluster free but that of the root directory, which is where the
  superblock says and holds its two entries; the front end accepts the image.
\<close>
theorem formatted_card:
  assumes "1 \<le> mb" and "mb \<le> 1024" and "can_open wd" and "\<forall>k. event wd k = Fine"
    and "thread_sema m" and "io_abort_sema m"
    and "length (clock wd) = 8" and "length (unused_fields (devinfo m)) = 20"
  shows "\<exists>m' f. VMC_create_thread wd \<lparr>VMC_size_mb = mb, VMC_blocksize = 16, VMC_card_slot = - 1\<rparr> m = Some m' \<and>
    VMC_error m' = 0 \<and> io_abort_sema m' \<and> \<not> VMC_busy m' \<and> image m' = Some f \<and> length f = mb * 2 ^ 20 \<and>
    (\<exists>r. f = devinfo_bytes (devinfo m') @ r) \<and>
    alloc_end (devinfo m') + alloc_offset (devinfo m') = of_nat (1024 * mb - 16) \<and>
    card_fat f 0 = 0xffffffff \<and>
    (\<forall>i. 0 < i \<and> i < unat (alloc_end (devinfo m')) \<longrightarrow> card_fat f i = 0x7fffffff) \<and>
    cl f (unat (alloc_offset (devinfo m'))) = root_directory (clock wd) \<and>
    sysCheckVMC (Some f) (int mb) True = (int mb, False, False)"
proof -
  let ?s = "\<lparr>vmc_file = Some [], abort_sema = True, writes = 0\<rparr>" and ?d = "card_dev mb (devinfo m)"
  let ?f = "card_file mb (clock wd) (devinfo m)"
  note b = card_bounds [OF assms(1,2)]
  obtain k where "vmc_mcformat (mc_writecluster (event wd)) (clock wd) (mb * 1024) 16 (devinfo m) ?s =
      Some (0, ?d, ?s\<lparr>vmc_file := Some ?f, writes := k\<rparr>)"
    using vmc_mcformat_fine [OF assms(4,1,2), of ?s] by auto
  define m1 where "m1 = m\<lparr>devinfo := ?d, image := Some ?f, io_abort_sema := True, VMC_busy := False, VMC_error := 0\<rparr>"
  with \<open>vmc_mcformat _ _ _ _ _ _ = _\<close>
  have c: "VMC_create_thread wd \<lparr>VMC_size_mb = mb, VMC_blocksize = 16, VMC_card_slot = - 1\<rparr> m = Some m1"
    using assms(3,5,6) by (simp add: VMC_create_thread_def open_image_def)
  have m1: "devinfo m1 = ?d" "image m1 = Some ?f" "io_abort_sema m1" "\<not> VMC_busy m1" "VMC_error m1 = 0" by (simp_all add: m1_def)
  have off: "unat (alloc_offset ?d) = card_alloc mb" using b(4,5) by (simp add: card_dev_def unat_small)
  have "alloc_end ?d = of_nat (card_end mb - card_alloc mb)" using b(4) by (simp add: card_dev_def of_nat_diff)
  then have e: "unat (alloc_end ?d) = card_end mb - card_alloc mb" using b(5) by (simp only:) (rule unat_small, simp)
  have sum: "alloc_end ?d + alloc_offset ?d = of_nat (1024 * mb - 16)" by (simp add: card_dev_def card_end_def)
  have "0 < card_end mb - card_alloc mb" using b(4) by simp
  then have "card_fat ?f 0 = 0xffffffff" using card_file_fat [OF assms(1,2,7,8), of 0] by simp
  moreover have "\<forall>i. 0 < i \<and> i < unat (alloc_end ?d) \<longrightarrow> card_fat ?f i = 0x7fffffff"
    using card_file_fat [OF assms(1,2,7,8)] by (simp add: e)
  moreover have "length ?f = mb * 2 ^ 20" using card_file_clusters(1) [OF assms(1,2,7,8)] by simp
  ultimately have "VMC_error m1 = 0 \<and> io_abort_sema m1 \<and> \<not> VMC_busy m1 \<and> image m1 = Some ?f \<and> length ?f = mb * 2 ^ 20 \<and>
    (\<exists>r. ?f = devinfo_bytes (devinfo m1) @ r) \<and>
    alloc_end (devinfo m1) + alloc_offset (devinfo m1) = of_nat (1024 * mb - 16) \<and>
    card_fat ?f 0 = 0xffffffff \<and>
    (\<forall>i. 0 < i \<and> i < unat (alloc_end (devinfo m1)) \<longrightarrow> card_fat ?f i = 0x7fffffff) \<and>
    cl ?f (unat (alloc_offset (devinfo m1))) = root_directory (clock wd) \<and>
    sysCheckVMC (Some ?f) (int mb) True = (int mb, False, False)"
    using card_file_clusters(3) [OF assms(1,2,7,8)] superblock_of_card [OF assms(1,2,7,8)] sysCheckVMC_card [OF assms(1,2,7,8)]
    by (simp add: m1 off sum)
  with c show ?thesis by blast
qed

theorem formatted_card_witness:
  "\<exists>m' f. VMC_create_thread \<lparr>can_open = True, event = \<lambda>k. Fine, clock = replicate 8 0, detected = 0, card_type = 2, page = \<lambda>k. None\<rparr>
      \<lparr>VMC_size_mb = 8, VMC_blocksize = 16, VMC_card_slot = - 1\<rparr>
      \<lparr>devinfo = blank_devinfo, image = None, thread_sema = True, io_abort_sema = True, VMC_busy = True, VMC_error = 0,
       finished_sema = None\<rparr> = Some m' \<and>
    VMC_error m' = 0 \<and> io_abort_sema m' \<and> \<not> VMC_busy m' \<and> image m' = Some f \<and> length f = 8 * 2 ^ 20 \<and>
    (\<exists>r. f = devinfo_bytes (devinfo m') @ r) \<and>
    alloc_end (devinfo m') + alloc_offset (devinfo m') = of_nat (1024 * 8 - 16) \<and>
    card_fat f 0 = 0xffffffff \<and>
    (\<forall>i. 0 < i \<and> i < unat (alloc_end (devinfo m')) \<longrightarrow> card_fat f i = 0x7fffffff) \<and>
    cl f (unat (alloc_offset (devinfo m'))) =
      root_directory (clock \<lparr>can_open = True, event = \<lambda>k. Fine, clock = replicate 8 0, detected = 0, card_type = 2, page = \<lambda>k. None\<rparr>) \<and>
    sysCheckVMC (Some f) (int 8) True = (int 8, False, False)"
  by (rule formatted_card) (simp_all add: blank_devinfo_def)



text \<open>
  C17: whether the next request is served depends on the result of this one: after a write that failed the
  semaphore stays taken, and every later request waits for ever.
\<close>
theorem failed_write_stops_generator:
  assumes "VMC_create_thread wd q m = Some m'" and "VMC_card_slot q = - 1"
  shows "(io_abort_sema m' \<longleftrightarrow> VMC_error m' \<in> {0, - 101, - 104, - 108, - 1000}) \<and>
    (VMC_error m' \<notin> {0, - 101, - 104, - 108, - 1000} \<longrightarrow> (\<forall>wd' q'. VMC_create_thread wd' q' m' = None))"
proof -
  let ?s = "\<lparr>vmc_file = image m, abort_sema = True, writes = 0\<rparr>"
  have m: "thread_sema m" "io_abort_sema m" using assms(1) by (auto simp: VMC_create_thread_def split: if_splits)
  have "sema_outcome (vmc_mcformat (mc_writecluster (event wd)) (clock wd) (VMC_size_mb q * 1024) (VMC_blocksize q) (devinfo m)
      (?s\<lparr>vmc_file := Some []\<rparr>))"
    by (rule vmc_mcformat_sema) simp
  then have "io_abort_sema m' \<longleftrightarrow> VMC_error m' \<in> {0, - 101, - 104, - 108, - 1000}"
    using assms m unfolding VMC_create_thread_def open_image_def sema_outcome_def
    by (cases "can_open wd"; cases "vmc_mcformat (mc_writecluster (event wd)) (clock wd) (VMC_size_mb q * 1024) (VMC_blocksize q)
      (devinfo m) (?s\<lparr>vmc_file := Some []\<rparr>)") auto
  then show ?thesis by (auto simp: VMC_create_thread_def)
qed

theorem failed_write_stops_generator_witness:
  "\<exists>m'. VMC_create_thread \<lparr>can_open = True, event = \<lambda>k. Failed, clock = replicate 8 0, detected = 0, card_type = 2, page = \<lambda>k. None\<rparr>
      \<lparr>VMC_size_mb = 8, VMC_blocksize = 16, VMC_card_slot = - 1\<rparr>
      \<lparr>devinfo = blank_devinfo, image = None, thread_sema = True, io_abort_sema = True, VMC_busy = True, VMC_error = 0,
       finished_sema = None\<rparr> = Some m' \<and> \<not> io_abort_sema m' \<and> (\<forall>wd' q'. VMC_create_thread wd' q' m' = None)"
proof -
  let ?s = "\<lparr>vmc_file = Some [], abort_sema = True, writes = 0\<rparr>"
  obtain d s where f: "vmc_mcformat (mc_writecluster (\<lambda>k. Failed)) (replicate 8 0) 8192 16 blank_devinfo ?s = Some (- 102, d, s)"
    using first_write_fails_format [of ?s "\<lambda>k. Failed" "replicate 8 0" blank_devinfo] by (simp del: replicate.simps) blast
  have "\<exists>m'. VMC_create_thread \<lparr>can_open = True, event = \<lambda>k. Failed, clock = replicate 8 0, detected = 0, card_type = 2, page = \<lambda>k. None\<rparr>
      \<lparr>VMC_size_mb = 8, VMC_blocksize = 16, VMC_card_slot = - 1\<rparr>
      \<lparr>devinfo = blank_devinfo, image = None, thread_sema = True, io_abort_sema = True, VMC_busy = True, VMC_error = 0,
       finished_sema = None\<rparr> = Some m' \<and> VMC_error m' = - 102"
    using f by (simp add: VMC_create_thread_def open_image_def del: replicate.simps)
  then obtain m' where m': "VMC_create_thread \<lparr>can_open = True, event = \<lambda>k. Failed, clock = replicate 8 0, detected = 0, card_type = 2,
      page = \<lambda>k. None\<rparr> \<lparr>VMC_size_mb = 8, VMC_blocksize = 16, VMC_card_slot = - 1\<rparr>
      \<lparr>devinfo = blank_devinfo, image = None, thread_sema = True, io_abort_sema = True, VMC_busy = True, VMC_error = 0,
       finished_sema = None\<rparr> = Some m'" "VMC_error m' = - 102"
    by blast
  from failed_write_stops_generator [OF m'(1)] m'(2) show ?thesis by (intro exI [of _ m']) (simp add: m'(1))
qed

end
