(* ===== verification/Spec2Isabelle.thy ===== *)
theory Spec2Isabelle
  imports Cdvd_Props Cdvd_Search_Props Atlas Vmc_Groups Mcemu_Props Texcache_Props Config_Props Tar_Props Legacy_Migrate_Props Menu_Props Game_Scan_Props Pc_Export Game_Manage Vmc_Gen_Props
begin

text \<open>
  \<^bold>\<open>wOPL\<close> starts PlayStation 2 games from disc images. The front end (\<^verbatim>\<open>src/\<close>, on the main processor) shows
  lists of games and starts one; in the game, modules on the I/O processor (\<^verbatim>\<open>modules/\<close>) take the place of the
  disc drive and of the memory cards; the tools in \<^verbatim>\<open>pc/\<close> prepare drives on a computer. This development
  models, from the C source, the parts of the three that hold logic of their own.

  \<^bold>\<open>The emulated drive\<close> (\<^verbatim>\<open>modules/iopcore/cdvdman\<close>).
  \<^item> \<open>Cdvd_Read\<close>: the sector cache, byte reads and the decoder of compressed images (\<^verbatim>\<open>modules/isofs/zso.c\<close>),
    the descrambling of the logo, \<open>cdvdman_read_sectors\<close> with its chunks, \<open>cdvdman_read\<close> for every sector size and
    alignment, and the raw-block conversions. \<open>Cdvd_Source\<close> states the contract \<open>sector_source\<close> of anything that
    delivers sectors and proves that each layer keeps it; \<open>Cdvd_Zso\<close> does so for the decoder, \<open>Cdvd_Disc\<close> for
    whole reads, \<open>Cdvd_Hdd\<close> for the hard-disk device.
  \<^item> \<open>Cdvd_Stream\<close>: the ring of banks behind \<^verbatim>\<open>sceCdSt...\<close>; \<open>Cdvd_Ring\<close> its geometry, \<open>Cdvd_Stream_Inv\<close> the
    invariant over all interleavings of API calls, read thread and retry alarm (\<open>stm_step\<close>),
    \<open>Cdvd_Stream_Read\<close> what a read delivers and when it returns. \<open>Cdvd_Ncmd\<close>: the N commands on top.
  \<^item> \<open>Cdvd_Search\<close>, \<open>Cdvd_Search_Spec\<close>: the search for a file, against directories as lists of entries.
  \<^item> \<open>Cdvd_Props\<close>, \<open>Cdvd_Search_Props\<close>: the properties, on the hard-disk device.

  \<^bold>\<open>The emulated memory card\<close> (\<^verbatim>\<open>modules/mcemu\<close>). \<open>Mcemu\<close> is the page engine, the file extents and the commands
  of a card; \<open>Mcemu_Ecc\<close> the code that locates a wrong bit, \<open>Mcemu_Engine\<close> the engine against the page device
  contract of \<open>Mcemu_Page\<close>, \<open>Mcemu_Props\<close> the properties.

  \<^bold>\<open>The front end\<close> (\<^verbatim>\<open>src/\<close>).
  \<^item> \<open>Ioman\<close>, \<open>Ioman_Queue\<close>, \<open>Ioman_Threads\<close>, \<open>Ioman_Props\<close>: the request queue and its worker thread, as a queue
    of requests (\<open>request_queue\<close>). \<open>Texcache\<close>, \<open>Texcache_Props\<close>: the cover cache on top of it.
  \<^item> \<open>Cstrings\<close>, \<open>Pathsupport\<close>: C strings, paths. \<open>Config_Values\<close>, \<open>Config_Settings\<close>, \<open>Config_Files\<close>,
    \<open>Config_Roundtrip\<close>, \<open>Config_Restart\<close>, \<open>Config_Props\<close>: the configuration files, their sections, and a restart.
  \<^item> \<open>Filebuf\<close>, \<open>Filebuf_Lines\<close>, \<open>Mcfolder\<close>: buffered text files, files on memory cards.
    \<open>Legacy_Config\<close>, \<open>Legacy_Props\<close>, \<open>Legacy_Migrate\<close>, \<open>Legacy_Migrate_Props\<close>: the old configuration files,
    their format and their migration.
  \<^item> \<open>Tar\<close>, \<open>Tar_Spec\<close>, \<open>Tar_Props\<close>: the archive of art files and its cached index. \<open>Atlas\<close>: the glyph atlas.
    \<open>Vmc_Groups\<close>: the groups of games that share a card. \<open>Menu_Lists\<close>, \<open>Menu_Spec\<close>, \<open>Menu_Props\<close>: the linked lists
    of the menus.
  \<^item> \<open>Game_Files\<close>, \<open>Game_Manage\<close>: the files of a game, its entry in \<^verbatim>\<open>ul.cfg\<close>, renaming and deleting
    (\<^verbatim>\<open>supportbase.c\<close>). \<open>Game_Cnf\<close>: the program that a disc starts (\<^verbatim>\<open>ps2cnf.c\<close>). \<open>Game_Scan\<close>, \<open>Game_Scan_Props\<close>:
    the list of games of a device and its cache, with which a second scan gives the same list without a disc.

  \<^bold>\<open>Preparing drives and cards.\<close>
  \<^item> \<open>Pc_Tools\<close>, \<open>Pc_Props\<close>, \<open>Pc_Export\<close>: the installer and the exporter of games (\<^verbatim>\<open>pc/iso2opl\<close>, \<^verbatim>\<open>pc/opl2iso\<close>).
    What the one installs, the front end lists and the other exports.
  \<^item> \<open>Vmc_Gen\<close>: making images of memory cards (\<^verbatim>\<open>modules/vmc/genvmc\<close>, \<^verbatim>\<open>pc/genvmc\<close>) and their check by the front end.
    \<open>Vmc_Gen_Card\<close> is the formatted image cluster by cluster, \<open>Vmc_Copy\<close> the copy of a card, \<open>Vmc_Gen_Props\<close> the agreement
    of the two programs and the fate of the semaphore after an error.

  \<^bold>\<open>How the code is modelled.\<close> A C function is a HOL function of the state it reads to its result and the state it
  leaves; a struct is a record with the fields' names; machine integers are words of their width, and \<open>nat\<close> only where
  the code's own bounds exclude a wrap-around. \<open>None\<close> stands for what C does not define (an access outside of an
  array, through a null or dangling pointer) and, for loops that are a \<open>partial_function\<close>, for a call that does
  not return; properties state that the result is \<open>Some\<close>. Threads are step relations whose steps are the code's
  critical sections; \<open>ioPutRequest\<close> is split where another thread can run between its check and its enqueueing.
  The texture cache has one cache per worker, and takes a request from the queue and serves it in one step. The
  old configuration's disk operations draw their success from an oracle, so that each can fail. Libraries
  (libconfig, LZ4, the kernel's calls, the disk drivers) are parameters; what is needed of libconfig is \<open>cfg_env_ok\<close>,
  of a disk that it delivers the sectors of an image. The build is the default one (\<^verbatim>\<open>GSM\<close>, \<^verbatim>\<open>CHEAT\<close> and \<^verbatim>\<open>PADEMU\<close> set,
  \<^verbatim>\<open>__DEBUG\<close> not).

  \<^bold>\<open>Bounds and fuel.\<close> The loop of \<open>StRead_loop\<close> has fuel: a round either delivers a sector or waits for the read
  thread, and without fuel the call blocks (\<open>stream_read_blocks_forever\<close> says when it does). The loop of a card
  command takes one pass per page part. Images end below \<open>2 ^ 32\<close> sectors, the width of a sector number; a block
  decoder call has at most 256 sectors, as the driver splits larger ones; ECC chunks have 128 bytes because the code
  is computed on those; a line of a text file is shorter than the buffer that it is read through. A game installed in
  parts has at most ten of them, a name of at most 32 characters and a path prefix of at most 220, which is what the
  buffers of the front end hold. Card images have 1 to 1024 megabytes, as the tools ask for.

  \<^bold>\<open>Not modelled\<close> (listed with reasons in the manifest): the file system of a disc image as the installer reads it,
  and the lists that the two tools print; the abort of a card image in the making; what is drawn and polled; calls that only pass parameters
  to modules outside of the sources; hardware drivers and protocol stacks; machine-code patches; third-party code
  (lwIP, LZ4).
\<close>

end
